(* ===== verification/Prelude.thy ===== *)
theory Prelude
  imports Complex_Main "HOL-Library.AList"
begin

text \<open>
  The vocabulary every component shares.

  \<^item> Python exceptions are values: a class and a message (\<open>exn\<close>). A function that may raise
    returns \<open>'a res = exn + 'a\<close>.
  \<^item> A method that reads and writes object state and may raise is an \<open>('w, 'a) eff\<close>: it maps the
    state to the outcome and the state it leaves behind. The state is kept when an exception
    escapes, as it is in Python: the rows already written stay written.
  \<^item> \<open>wp\<close> is the weakest precondition of an effect for a normal and an exceptional postcondition,
    \<open>keeps\<close> says that an effect preserves a predicate on both exits.
  \<^item> Dictionaries whose order matters are association lists with \<open>AList.update\<close>, which replaces in
    place or appends at the end exactly as a Python \<open>dict\<close> does.
  \<^item> Messages built with f-strings are lists of pieces, so that the rendering of a \<open>Decimal\<close> needs
    no model of its exponent; client order ids, which the code parses again, are real strings.
\<close>

named_theorems wp_simps "weakest preconditions of the effect combinators"
named_theorems keeps_intros "introduction rules for invariants of effects"

section \<open>Exceptions, results, text\<close>

datatype piece = S string | D rat | I int

type_synonym text_t = "piece list"

datatype exn_class =
    DivisionByZero | InvalidOperation | ValueError | TypeError | KeyError | IndexError
  | IntegrityError | ExecutorTimeout | AsyncTimeoutError | GateClosed | ShadowRefused
  | RecoveryHalt | RequestRejectedError | SecretUnavailable | OtherException string

datatype exn = Exn (exc_class: exn_class) (exc_msg: text_t)

fun exn_name :: "exn_class \<Rightarrow> string" where
  "exn_name DivisionByZero = ''DivisionByZero''"
| "exn_name InvalidOperation = ''InvalidOperation''"
| "exn_name ValueError = ''ValueError''"
| "exn_name TypeError = ''TypeError''"
| "exn_name KeyError = ''KeyError''"
| "exn_name IndexError = ''IndexError''"
| "exn_name IntegrityError = ''IntegrityError''"
| "exn_name ExecutorTimeout = ''ExecutorTimeout''"
| "exn_name AsyncTimeoutError = ''TimeoutError''"
| "exn_name GateClosed = ''GateClosed''"
| "exn_name ShadowRefused = ''ShadowRefused''"
| "exn_name RecoveryHalt = ''RecoveryHalt''"
| "exn_name RequestRejectedError = ''RequestRejectedError''"
| "exn_name SecretUnavailable = ''SecretUnavailable''"
| "exn_name (OtherException n) = n"

type_synonym 'a res = "exn + 'a"

definition rbind :: "'a res \<Rightarrow> ('a \<Rightarrow> 'b res) \<Rightarrow> 'b res" where
  "rbind r f = (case r of Inl e \<Rightarrow> Inl e | Inr a \<Rightarrow> f a)"

definition rmap :: "('a \<Rightarrow> 'b) \<Rightarrow> 'a res \<Rightarrow> 'b res" where
  "rmap f r = rbind r (\<lambda>a. Inr (f a))"

lemma rbind_simps [simp]:
  "rbind (Inl e) f = Inl e"
  "rbind (Inr a) f = f a"
  by (simp_all add: rbind_def)

lemma rmap_simps [simp]:
  "rmap f (Inl e) = Inl e"
  "rmap f (Inr a) = Inr (f a)"
  by (simp_all add: rmap_def)

lemma rbind_eq_Inr [simp]: "rbind r f = Inr b \<longleftrightarrow> (\<exists>a. r = Inr a \<and> f a = Inr b)"
  by (cases r) auto

lemma rmap_eq_Inr [simp]: "rmap f r = Inr b \<longleftrightarrow> (\<exists>a. r = Inr a \<and> b = f a)"
  by (cases r) auto

text \<open>A loop that collects the results of a function that may raise.\<close>

fun rmapM :: "('a \<Rightarrow> 'b res) \<Rightarrow> 'a list \<Rightarrow> 'b list res" where
  "rmapM f [] = Inr []"
| "rmapM f (x # xs) = rbind (f x) (\<lambda>y. rmap (Cons y) (rmapM f xs))"

section \<open>Effects\<close>

type_synonym ('w, 'a) eff = "'w \<Rightarrow> 'a res \<times> 'w"

definition ret :: "'a \<Rightarrow> ('w, 'a) eff" where
  "ret a = (\<lambda>w. (Inr a, w))"

definition raise :: "exn \<Rightarrow> ('w, 'a) eff" where
  "raise e = (\<lambda>w. (Inl e, w))"

definition bind :: "('w, 'a) eff \<Rightarrow> ('a \<Rightarrow> ('w, 'b) eff) \<Rightarrow> ('w, 'b) eff" where
  "bind m f = (\<lambda>w. case m w of (Inl e, w') \<Rightarrow> (Inl e, w') | (Inr a, w') \<Rightarrow> f a w')"

definition andthen :: "('w, 'a) eff \<Rightarrow> ('w, 'b) eff \<Rightarrow> ('w, 'b) eff" where
  "andthen m n = bind m (\<lambda>_. n)"

definition get :: "('w \<Rightarrow> 'a) \<Rightarrow> ('w, 'a) eff" where
  "get f = (\<lambda>w. (Inr (f w), w))"

definition getr :: "('w \<Rightarrow> 'a res) \<Rightarrow> ('w, 'a) eff" where
  "getr f = (\<lambda>w. (f w, w))"

definition upd :: "('w \<Rightarrow> 'w) \<Rightarrow> ('w, unit) eff" where
  "upd f = (\<lambda>w. (Inr (), f w))"

definition lift :: "'a res \<Rightarrow> ('w, 'a) eff" where
  "lift r = (\<lambda>w. (r, w))"

definition attempt :: "('w, 'a) eff \<Rightarrow> (exn \<Rightarrow> ('w, 'a) eff) \<Rightarrow> ('w, 'a) eff" where
  "attempt m h = (\<lambda>w. case m w of (Inl e, w') \<Rightarrow> h e w' | (Inr a, w') \<Rightarrow> (Inr a, w'))"

text \<open>Run an effect of a part of the state on the whole state.\<close>

definition focus :: "('w \<Rightarrow> 's) \<Rightarrow> ('s \<Rightarrow> 'w \<Rightarrow> 'w) \<Rightarrow> ('s, 'a) eff \<Rightarrow> ('w, 'a) eff" where
  "focus part put m = (\<lambda>w. case m (part w) of (r, s) \<Rightarrow> (r, put s w))"

fun block :: "('w, unit) eff list \<Rightarrow> ('w, unit) eff" where
  "block [] = ret ()"
| "block (m # ms) = andthen m (block ms)"

fun forM :: "'a list \<Rightarrow> ('a \<Rightarrow> ('w, unit) eff) \<Rightarrow> ('w, unit) eff" where
  "forM [] f = ret ()"
| "forM (x # xs) f = andthen (f x) (forM xs f)"

section \<open>Weakest preconditions\<close>

definition wp :: "('w, 'a) eff \<Rightarrow> ('a \<Rightarrow> 'w \<Rightarrow> bool) \<Rightarrow> (exn \<Rightarrow> 'w \<Rightarrow> bool) \<Rightarrow> 'w \<Rightarrow> bool" where
  "wp m Q E w = (case m w of (Inl e, w') \<Rightarrow> E e w' | (Inr a, w') \<Rightarrow> Q a w')"

lemma wp_ret [wp_simps]: "wp (ret a) Q E w = Q a w"
  by (simp add: wp_def ret_def)

lemma wp_raise [wp_simps]: "wp (raise e) Q E w = E e w"
  by (simp add: wp_def raise_def)

lemma wp_bind [wp_simps]: "wp (bind m f) Q E w = wp m (\<lambda>a. wp (f a) Q E) E w"
  by (simp add: wp_def bind_def split: prod.split sum.split)

lemma wp_andthen [wp_simps]: "wp (andthen m n) Q E w = wp m (\<lambda>_. wp n Q E) E w"
  by (simp add: andthen_def wp_bind)

lemma wp_get [wp_simps]: "wp (get f) Q E w = Q (f w) w"
  by (simp add: wp_def get_def)

lemma wp_getr [wp_simps]: "wp (getr f) Q E w = (case f w of Inl e \<Rightarrow> E e w | Inr a \<Rightarrow> Q a w)"
  by (simp add: wp_def getr_def)

lemma wp_upd [wp_simps]: "wp (upd f) Q E w = Q () (f w)"
  by (simp add: wp_def upd_def)

lemma wp_lift [wp_simps]: "wp (lift r) Q E w = (case r of Inl e \<Rightarrow> E e w | Inr a \<Rightarrow> Q a w)"
  by (simp add: wp_def lift_def)

lemma wp_attempt [wp_simps]: "wp (attempt m h) Q E w = wp m Q (\<lambda>e. wp (h e) Q E) w"
  by (simp add: wp_def attempt_def split: prod.split sum.split)

lemma wp_focus [wp_simps]:
  "wp (focus part put m) Q E w = wp m (\<lambda>a s. Q a (put s w)) (\<lambda>e s. E e (put s w)) (part w)"
  by (simp add: wp_def focus_def split: prod.split sum.split)

lemma wp_if [wp_simps]: "wp (if c then m else n) Q E w = (if c then wp m Q E w else wp n Q E w)"
  by simp

lemma wp_let [wp_simps]: "wp (let x = a in m x) Q E w = wp (m a) Q E w"
  by simp

lemma wp_case_option [wp_simps]:
  "wp (case x of None \<Rightarrow> m | Some a \<Rightarrow> n a) Q E w =
     (case x of None \<Rightarrow> wp m Q E w | Some a \<Rightarrow> wp (n a) Q E w)"
  by (simp split: option.split)

lemma wp_mono:
  assumes "wp m Q E w" "\<And>a w'. Q a w' \<Longrightarrow> Q' a w'" "\<And>e w'. E e w' \<Longrightarrow> E' e w'"
  shows "wp m Q' E' w"
  using assms by (auto simp: wp_def split: prod.splits sum.splits)

lemma wp_True [simp]: "wp m (\<lambda>_ _. True) (\<lambda>_ _. True) w"
  by (simp add: wp_def split: prod.split sum.split)

lemma wp_conj: "wp m Q E w \<Longrightarrow> wp m Q' E' w \<Longrightarrow> wp m (\<lambda>a w. Q a w \<and> Q' a w) (\<lambda>e w. E e w \<and> E' e w) w"
  by (simp add: wp_def split: prod.splits sum.splits)

lemma wpD_Inr: "wp m Q E w \<Longrightarrow> m w = (Inr a, w') \<Longrightarrow> Q a w'"
  by (simp add: wp_def)

lemma wpD_Inl: "wp m Q E w \<Longrightarrow> m w = (Inl e, w') \<Longrightarrow> E e w'"
  by (simp add: wp_def)

section \<open>Invariants of effects\<close>

definition keeps :: "('w \<Rightarrow> bool) \<Rightarrow> ('w, 'a) eff \<Rightarrow> bool" where
  "keeps P m \<longleftrightarrow> (\<forall>w. P w \<longrightarrow> P (snd (m w)))"

lemma keepsD: "keeps P m \<Longrightarrow> P w \<Longrightarrow> P (snd (m w))"
  by (simp add: keeps_def)

lemma keeps_wp: "keeps P m \<longleftrightarrow> (\<forall>w. P w \<longrightarrow> wp m (\<lambda>_. P) (\<lambda>_. P) w)"
  by (simp add: keeps_def wp_def split: prod.split sum.split) (metis snd_conv sum.exhaust prod.exhaust)

lemma keeps_wpD: "keeps P m \<Longrightarrow> P w \<Longrightarrow> wp m (\<lambda>_. P) (\<lambda>_. P) w"
  by (simp add: keeps_wp)

lemma keeps_ret [keeps_intros]: "keeps P (ret a)"
  by (simp add: keeps_def ret_def)

lemma keeps_raise [keeps_intros]: "keeps P (raise e)"
  by (simp add: keeps_def raise_def)

lemma keeps_get [keeps_intros]: "keeps P (get f)"
  by (simp add: keeps_def get_def)

lemma keeps_getr [keeps_intros]: "keeps P (getr f)"
  by (simp add: keeps_def getr_def)

lemma keeps_lift [keeps_intros]: "keeps P (lift r)"
  by (simp add: keeps_def lift_def)

lemma keeps_upd: "(\<And>w. P w \<Longrightarrow> P (f w)) \<Longrightarrow> keeps P (upd f)"
  by (simp add: keeps_def upd_def)

lemma keeps_bind [keeps_intros]: "keeps P m \<Longrightarrow> (\<And>a. keeps P (f a)) \<Longrightarrow> keeps P (bind m f)"
  by (auto simp: keeps_wp wp_bind intro: wp_mono)

lemma keeps_andthen [keeps_intros]: "keeps P m \<Longrightarrow> keeps P n \<Longrightarrow> keeps P (andthen m n)"
  unfolding andthen_def by (rule keeps_bind)

lemma keeps_attempt [keeps_intros]: "keeps P m \<Longrightarrow> (\<And>e. keeps P (h e)) \<Longrightarrow> keeps P (attempt m h)"
  by (auto simp: keeps_wp wp_attempt intro: wp_mono)

lemma keeps_if [keeps_intros]: "(c \<Longrightarrow> keeps P m) \<Longrightarrow> (\<not> c \<Longrightarrow> keeps P n) \<Longrightarrow> keeps P (if c then m else n)"
  by simp

lemma keeps_case_option [keeps_intros]:
  "(x = None \<Longrightarrow> keeps P m) \<Longrightarrow> (\<And>a. x = Some a \<Longrightarrow> keeps P (f a)) \<Longrightarrow>
   keeps P (case x of None \<Rightarrow> m | Some a \<Rightarrow> f a)"
  by (simp split: option.split)

lemma keeps_forM [keeps_intros]: "(\<And>x. x \<in> set xs \<Longrightarrow> keeps P (f x)) \<Longrightarrow> keeps P (forM xs f)"
  by (induction xs) (auto intro: keeps_intros)

lemma keeps_block [keeps_intros]: "list_all (keeps P) ms \<Longrightarrow> keeps P (block ms)"
  by (induction ms) (auto intro: keeps_intros)

text \<open>What is read from the state in the middle of an effect can be used for the rest of it.\<close>

lemma keeps_get_bind:
  "(\<And>a. (\<exists>w. P w \<and> f w = a) \<Longrightarrow> keeps P (g a)) \<Longrightarrow> keeps P (bind (get f) g)"
  by (auto simp: keeps_def bind_def get_def)

lemma wp_any: "(\<And>a w'. Q a w') \<Longrightarrow> (\<And>e w'. E e w') \<Longrightarrow> wp m Q E w"
  by (simp add: wp_def split: prod.split sum.split)

lemma wp_iff: "wp m Q E w \<longleftrightarrow> (\<forall>a w'. m w = (Inr a, w') \<longrightarrow> Q a w') \<and> (\<forall>e w'. m w = (Inl e, w') \<longrightarrow> E e w')"
  by (cases "m w"; cases "fst (m w)") (simp_all add: wp_def)

section \<open>Invariants of the normal exit\<close>

text \<open>
  \<open>nkeeps P m\<close>: when \<open>m\<close> returns, it has preserved \<open>P\<close>; \<open>nends P m\<close>: when it returns, \<open>P\<close> holds,
  whatever was true before. An exception escapes both.
\<close>

named_theorems nkeeps_intros "introduction rules for invariants of the normal exit"

definition nkeeps :: "('w \<Rightarrow> bool) \<Rightarrow> ('w, 'a) eff \<Rightarrow> bool" where
  "nkeeps P m \<longleftrightarrow> (\<forall>w. P w \<longrightarrow> wp m (\<lambda>_. P) (\<lambda>_ _. True) w)"

definition nends :: "('w \<Rightarrow> bool) \<Rightarrow> ('w, 'a) eff \<Rightarrow> bool" where
  "nends P m \<longleftrightarrow> (\<forall>w. wp m (\<lambda>_. P) (\<lambda>_ _. True) w)"

lemma nkeepsD: "nkeeps P m \<Longrightarrow> P w \<Longrightarrow> m w = (Inr a, w') \<Longrightarrow> P w'"
  by (auto simp: nkeeps_def wp_iff)

lemma nendsD: "nends P m \<Longrightarrow> m w = (Inr a, w') \<Longrightarrow> P w'"
  by (auto simp: nends_def wp_iff)

lemma nends_nkeeps: "nends P m \<Longrightarrow> nkeeps P m"
  by (simp add: nkeeps_def nends_def)

lemma keeps_nkeeps: "keeps P m \<Longrightarrow> nkeeps P m"
  by (auto simp: nkeeps_def keeps_wp elim!: wp_mono)

lemma nends_raise [nkeeps_intros]: "nends P (raise e)"
  by (simp add: nends_def wp_raise)

lemma nkeeps_bind [nkeeps_intros]: "nkeeps P m \<Longrightarrow> (\<And>a. nkeeps P (f a)) \<Longrightarrow> nkeeps P (bind m f)"
  by (auto simp: nkeeps_def wp_bind intro: wp_mono)

lemma nkeeps_andthen [nkeeps_intros]: "nkeeps P m \<Longrightarrow> nkeeps P n \<Longrightarrow> nkeeps P (andthen m n)"
  unfolding andthen_def by (rule nkeeps_bind)

lemma nends_bind: "(\<And>a. nends P (f a)) \<Longrightarrow> nends P (bind m f)"
  unfolding nends_def wp_bind by (rule allI, rule wp_any) simp_all

lemma nends_andthen: "nends P n \<Longrightarrow> nends P (andthen m n)"
  unfolding andthen_def by (rule nends_bind)

lemma nends_andthen_keeps: "nends P m \<Longrightarrow> nkeeps P n \<Longrightarrow> nends P (andthen m n)"
  by (auto simp: nends_def nkeeps_def wp_andthen intro: wp_mono)

lemma nends_bind_keeps: "nends P m \<Longrightarrow> (\<And>a. nkeeps P (f a)) \<Longrightarrow> nends P (bind m f)"
  by (auto simp: nends_def nkeeps_def wp_bind intro: wp_mono)

lemma nkeeps_attempt:
  "nkeeps P m \<Longrightarrow> (\<And>e. nends P (h e)) \<Longrightarrow> nkeeps P (attempt m h)"
  by (auto simp: nkeeps_def nends_def wp_attempt intro: wp_mono)

lemma nkeeps_ret [nkeeps_intros]: "nkeeps P (ret a)"
  by (simp add: nkeeps_def wp_ret)

lemma nkeeps_get [nkeeps_intros]: "nkeeps P (get f)"
  by (simp add: nkeeps_def wp_get)

lemma nkeeps_lift [nkeeps_intros]: "nkeeps P (lift r)"
  by (auto simp: nkeeps_def wp_lift split: sum.split)

lemma nkeeps_if [nkeeps_intros]: "(c \<Longrightarrow> nkeeps P m) \<Longrightarrow> (\<not> c \<Longrightarrow> nkeeps P n) \<Longrightarrow> nkeeps P (if c then m else n)"
  by simp

lemma nends_if: "(c \<Longrightarrow> nends P m) \<Longrightarrow> (\<not> c \<Longrightarrow> nends P n) \<Longrightarrow> nends P (if c then m else n)"
  by simp

lemma nkeeps_case_option [nkeeps_intros]:
  "(x = None \<Longrightarrow> nkeeps P m) \<Longrightarrow> (\<And>a. x = Some a \<Longrightarrow> nkeeps P (f a)) \<Longrightarrow>
   nkeeps P (case x of None \<Rightarrow> m | Some a \<Rightarrow> f a)"
  by (simp split: option.split)

lemma nkeeps_forM [nkeeps_intros]: "(\<And>x. x \<in> set xs \<Longrightarrow> nkeeps P (f x)) \<Longrightarrow> nkeeps P (forM xs f)"
  by (induction xs) (auto intro: nkeeps_intros)

section \<open>Dictionaries\<close>

text \<open>A dict comprehension: a later value of the same key replaces an earlier one in place.\<close>

definition dict_of :: "('k \<times> 'v) list \<Rightarrow> ('k \<times> 'v) list" where
  "dict_of kvs = foldl (\<lambda>m (k, v). AList.update k v m) [] kvs"

lemma map_of_foldl_update:
  "map_of (foldl (\<lambda>m (k, v). AList.update k v m) m kvs) = map_of m ++ map_of (rev kvs)"
proof (induction kvs arbitrary: m)
  case (Cons kv kvs)
  then show ?case by (cases kv) (auto simp: fun_eq_iff map_add_def update_conv split: option.split)
qed simp

lemma map_of_dict_of: "map_of (dict_of kvs) = map_of (rev kvs)"
  by (simp add: dict_of_def map_of_foldl_update)

lemma dict_of_keys: "fst ` set (dict_of kvs) = fst ` set kvs"
  by (metis dom_map_of_conv_image_fst map_of_dict_of set_rev)

section \<open>Integers as text\<close>

function show_digits :: "int \<Rightarrow> string" where
  "show_digits n = (if n < 10 then [char_of (48 + n)]
     else show_digits (n div 10) @ [char_of (48 + n mod 10)])"
  by pat_completeness auto
termination
  by (relation "measure nat") (auto simp: nat_less_iff)

declare show_digits.simps [simp del]

text \<open>Python's \<open>str\<close> of an \<open>int\<close>.\<close>

definition show_int :: "int \<Rightarrow> string" where
  "show_int n = (if n < 0 then CHR ''-'' # show_digits (- n) else show_digits n)"

definition is_digit :: "char \<Rightarrow> bool" where
  "is_digit c \<longleftrightarrow> c \<in> set ''0123456789''"

text \<open>Python's \<open>str.isdigit\<close> on ASCII text, and \<open>int\<close> of such a text.\<close>

definition isdigit :: "string \<Rightarrow> bool" where
  "isdigit s \<longleftrightarrow> s \<noteq> [] \<and> list_all is_digit s"

definition parse_nat :: "string \<Rightarrow> int" where
  "parse_nat s = foldl (\<lambda>n c. 10 * n + (of_char c - 48)) 0 s"

end
