(* ===== verification/Decimal_Arith.thy ===== *)
theory Decimal_Arith
  imports Prelude
begin

text \<open>
  Decimal arithmetic as Python's \<open>decimal\<close> module does it in its default context: every
  operation returns the exact result rounded to 28 significant decimal digits, ties to even.
  Binary floats are rounded the same way to 53 binary digits. Values are rationals: the code
  compares and stores values, never the exponent of a representation. Exponent overflow
  (10 to the power 999999) and NaN are outside the model.
\<close>

section \<open>Rounding to a number of significant digits\<close>

text \<open>The number of digits of a positive integer in a base.\<close>

function ndig :: "int \<Rightarrow> int \<Rightarrow> nat" where
  "ndig b n = (if n \<le> 0 \<or> b \<le> 1 then 0 else Suc (ndig b (n div b)))"
  by pat_completeness auto
termination
proof (relation "measure (\<lambda>(b, n). nat n)", goal_cases)
  case (2 b n)
  then have "n div b < n" by (intro int_div_less_self) auto
  with 2 show ?case by auto
qed auto

declare ndig.simps [simp del]

lemma ndig_nonpos [simp]: "n \<le> 0 \<Longrightarrow> ndig b n = 0"
  by (simp add: ndig.simps)

lemma ndig_upper: "1 < b \<Longrightarrow> n < b ^ ndig b n"
proof (induction b n rule: ndig.induct)
  case (1 b n)
  show ?case
  proof (cases "n \<le> 0")
    case True
    then show ?thesis using "1.prems" by simp
  next
    case False
    then have IH: "n div b < b ^ ndig b (n div b)" using 1 by simp
    have "n = b * (n div b) + n mod b" by (simp only: mult_div_mod_eq)
    also have "\<dots> < b * (n div b) + b"
      using pos_mod_bound [of b n] "1.prems" by linarith
    also have "\<dots> = b * (n div b + 1)" by (simp add: algebra_simps)
    also have "\<dots> \<le> b * b ^ ndig b (n div b)"
      using IH "1.prems" by (intro mult_left_mono) auto
    finally show ?thesis using False "1.prems" by (simp add: ndig.simps [of b n])
  qed
qed

lemma ndig_lower: "1 < b \<Longrightarrow> 0 < n \<Longrightarrow> b ^ (ndig b n - 1) \<le> n"
proof (induction b n rule: ndig.induct)
  case (1 b n)
  show ?case
  proof (cases "n div b \<le> 0")
    case True
    then have "ndig b (n div b) = 0" by simp
    then show ?thesis using "1.prems" by (simp add: ndig.simps [of b n])
  next
    case False
    then have IH: "b ^ (ndig b (n div b) - 1) \<le> n div b" using 1 by simp
    have pos: "ndig b (n div b) = Suc (ndig b (n div b) - 1)"
      using False "1.prems" by (simp add: ndig.simps [of b "n div b"])
    have "b ^ ndig b (n div b) = b * b ^ (ndig b (n div b) - 1)"
      by (subst pos) simp
    also have "\<dots> \<le> b * (n div b)" using IH "1.prems" by (intro mult_left_mono) auto
    also have "\<dots> \<le> n" using "1.prems" by (simp add: minus_mod_eq_mult_div [symmetric])
    finally show ?thesis using "1.prems" by (simp add: ndig.simps [of b n])
  qed
qed

lemma ndig_pos: "1 < b \<Longrightarrow> 0 < n \<Longrightarrow> 0 < ndig b n"
  by (simp add: ndig.simps)

definition rhe :: "rat \<Rightarrow> int" where
  "rhe x = (let f = \<lfloor>x\<rfloor>; r = x - of_int f in
     if r < 1/2 then f else if 1/2 < r then f + 1 else if even f then f else f + 1)"

lemma rhe_of_int [simp]: "rhe (of_int n) = n"
  by (simp add: rhe_def Let_def)

lemma rhe_le: "rhe x \<le> \<lfloor>x\<rfloor> + 1"
  by (simp add: rhe_def Let_def)

lemma rhe_ge: "\<lfloor>x\<rfloor> \<le> rhe x"
  by (simp add: rhe_def Let_def)

lemma rhe_mono: "x \<le> y \<Longrightarrow> rhe x \<le> rhe y"
proof (cases "\<lfloor>x\<rfloor> = \<lfloor>y\<rfloor>")
  case True
  assume "x \<le> y"
  then show ?thesis using True by (auto simp: rhe_def Let_def)
next
  case False
  assume "x \<le> y"
  then have "\<lfloor>x\<rfloor> + 1 \<le> \<lfloor>y\<rfloor>" using False floor_mono [of x y] by linarith
  then show ?thesis using rhe_le [of x] rhe_ge [of y] by linarith
qed

lemma rhe_error: "\<bar>of_int (rhe x) - x\<bar> \<le> 1/2"
proof -
  have "of_int \<lfloor>x\<rfloor> \<le> x" "x < of_int \<lfloor>x\<rfloor> + 1"
    using floor_correct [of x] by simp_all
  then show ?thesis unfolding rhe_def Let_def abs_le_iff
    by (simp only: if_distrib [where f = of_int] split: if_split) (simp; linarith)
qed

lemma rhe_minus: "rhe (- x) = - rhe x"
proof (cases "x = of_int \<lfloor>x\<rfloor>")
  case True
  then have "rhe x = \<lfloor>x\<rfloor>" by (metis rhe_of_int)
  moreover have "- x = of_int (- \<lfloor>x\<rfloor>)" using True by simp
  then have "rhe (- x) = - \<lfloor>x\<rfloor>" by (metis rhe_of_int)
  ultimately show ?thesis by simp
next
  case False
  then have lt: "of_int \<lfloor>x\<rfloor> < x" "x < of_int \<lfloor>x\<rfloor> + 1"
    using floor_correct [of x] by linarith+
  then have f: "\<lfloor>- x\<rfloor> = - \<lfloor>x\<rfloor> - 1" by (intro floor_unique) auto
  show ?thesis using lt by (auto simp: rhe_def Let_def f)
qed

definition mag :: "int \<Rightarrow> rat \<Rightarrow> int" where
  "mag b x = (if 1 \<le> x then int (ndig b \<lfloor>x\<rfloor>) - 1 else - int (ndig b (\<lceil>1 / x\<rceil> - 1)))"

abbreviation bpow :: "int \<Rightarrow> int \<Rightarrow> rat" where
  "bpow b e \<equiv> of_int b powi e"

lemma mag_bounds:
  assumes "1 < b" "0 < x"
  shows "bpow b (mag b x) \<le> x" "x < bpow b (mag b x + 1)"
proof -
  have "bpow b (mag b x) \<le> x \<and> x < bpow b (mag b x + 1)"
  proof (cases "1 \<le> x")
    case True
    let ?n = "\<lfloor>x\<rfloor>"
    have n: "0 < ?n" using True by linarith
    then have d: "0 < ndig b ?n" using assms by (simp add: ndig_pos)
    have "bpow b (mag b x) = of_int (b ^ (ndig b ?n - 1))"
      using True d by (simp add: mag_def power_int_def nat_diff_distrib)
    also have "\<dots> \<le> of_int ?n" using ndig_lower [OF assms(1) n] by (simp only: of_int_le_iff)
    also have "\<dots> \<le> x" by simp
    finally have lo: "bpow b (mag b x) \<le> x" .
    have "?n + 1 \<le> b ^ ndig b ?n" using ndig_upper [OF assms(1), of ?n] by linarith
    then have "of_int (?n + 1) \<le> (of_int (b ^ ndig b ?n) :: rat)" by (simp only: of_int_le_iff)
    moreover have "x < of_int (?n + 1)" using floor_correct [of x] by simp
    ultimately have "x < of_int (b ^ ndig b ?n)" by (rule less_le_trans [rotated])
    then have "x < bpow b (mag b x + 1)" using True d by (simp add: mag_def power_int_def)
    with lo show ?thesis by simp
  next
    case False
    let ?n = "\<lceil>1 / x\<rceil> - 1"
    have gt: "1 < 1 / x" using False assms by simp
    then have n: "0 < ?n" by linarith
    have d: "0 < ndig b ?n" using n assms by (simp add: ndig_pos)
    have up: "1 / x \<le> of_int (b ^ ndig b ?n)"
    proof -
      have "?n + 1 \<le> b ^ ndig b ?n" using ndig_upper [OF assms(1), of ?n] by linarith
      then have "of_int (?n + 1) \<le> (of_int (b ^ ndig b ?n) :: rat)" by (simp only: of_int_le_iff)
      moreover have "1 / x \<le> of_int (?n + 1)" by simp
      ultimately show ?thesis by linarith
    qed
    have lo: "of_int (b ^ (ndig b ?n - 1)) < 1 / x"
    proof -
      have "of_int (b ^ (ndig b ?n - 1)) \<le> (of_int ?n :: rat)"
        using ndig_lower [OF assms(1) n] by (simp only: of_int_le_iff)
      moreover have "of_int ?n < 1 / x" using ceiling_correct [of "1 / x"] by simp
      ultimately show ?thesis by linarith
    qed
    have e1: "bpow b (mag b x) = 1 / of_int (b ^ ndig b ?n)"
      using False d by (simp add: mag_def power_int_def inverse_eq_divide power_one_over)
    have e2: "bpow b (mag b x + 1) = 1 / of_int (b ^ (ndig b ?n - 1))"
    proof (cases "ndig b ?n = 1")
      case True
      then show ?thesis using False by (simp add: mag_def)
    next
      case False
      then have neg: "mag b x + 1 = - int (ndig b ?n - 1)"
        using d \<open>\<not> 1 \<le> x\<close> by (simp add: mag_def)
      show ?thesis by (simp add: neg power_int_minus inverse_eq_divide)
    qed
    have bp: "(0::rat) < of_int (b ^ ndig b ?n)" "(0::rat) < of_int (b ^ (ndig b ?n - 1))"
      using assms by simp_all
    have "1 / of_int (b ^ ndig b ?n) \<le> x"
      using up bp assms by (simp add: divide_le_eq mult.commute pos_le_divide_eq field_simps)
    moreover have "x < 1 / of_int (b ^ (ndig b ?n - 1))"
      using lo bp assms by (simp add: field_simps)
    ultimately show ?thesis by (simp add: e1 e2)
  qed
  then show "bpow b (mag b x) \<le> x" "x < bpow b (mag b x + 1)" by simp_all
qed

lemma bpow_pos [simp]: "1 < b \<Longrightarrow> 0 < bpow b e"
  by simp

lemma bpow_mono: "1 < b \<Longrightarrow> m \<le> n \<Longrightarrow> bpow b m \<le> bpow b n"
  by (intro power_int_increasing) auto

lemma bpow_add: "1 < b \<Longrightarrow> bpow b (m + n) = bpow b m * bpow b n"
  by (simp add: power_int_add)

lemma bpow_less_iff: "1 < b \<Longrightarrow> bpow b m < bpow b n \<longleftrightarrow> m < n"
  by (metis bpow_mono linorder_not_le of_int_1_less_iff order_less_le power_int_strict_increasing)

lemma bpow_shift: "1 < b \<Longrightarrow> of_int (b ^ n) * bpow b k = bpow b (int n + k)"
  by (simp add: power_int_add)

lemma mag_unique:
  assumes "1 < b" "bpow b e \<le> x" "x < bpow b (e + 1)"
  shows "mag b x = e"
proof -
  have x: "0 < x" using assms bpow_pos [of b e] by linarith
  have "bpow b (mag b x) < bpow b (e + 1)" "bpow b e < bpow b (mag b x + 1)"
    using mag_bounds [OF assms(1) x] assms by linarith+
  then show ?thesis using assms(1) by (simp add: bpow_less_iff)
qed

lemma mag_mono: "1 < b \<Longrightarrow> 0 < x \<Longrightarrow> x \<le> y \<Longrightarrow> mag b x \<le> mag b y"
proof -
  assume a: "1 < b" "0 < x" "x \<le> y"
  then have "bpow b (mag b x) < bpow b (mag b y + 1)"
    using mag_bounds [of b x] mag_bounds [of b y] by linarith
  then show ?thesis using a by (simp add: bpow_less_iff)
qed

definition rnd :: "int \<Rightarrow> nat \<Rightarrow> rat \<Rightarrow> rat" where
  "rnd b p x = (if x = 0 then 0 else
     (let u = bpow b (mag b \<bar>x\<bar> - int p + 1) in of_int (rhe (x / u)) * u))"

lemma rnd_0 [simp]: "rnd b p 0 = 0"
  by (simp add: rnd_def)

lemma rnd_minus [simp]: "rnd b p (- x) = - rnd b p x"
  by (simp add: rnd_def Let_def rhe_minus)

lemma rnd_pos_bounds:
  assumes "1 < b" "0 < p" "0 < x"
  shows "bpow b (mag b x) \<le> rnd b p x" "rnd b p x \<le> bpow b (mag b x + 1)"
proof -
  let ?e = "mag b x" and ?u = "bpow b (mag b x - int p + 1)"
  have u: "0 < ?u" using assms by simp
  have r: "rnd b p x = of_int (rhe (x / ?u)) * ?u" using assms by (simp add: rnd_def Let_def)
  have lo: "bpow b ?e = of_int (b ^ (p - 1)) * ?u"
    and hi: "bpow b (?e + 1) = of_int (b ^ p) * ?u"
    using assms by (simp_all only: bpow_shift) (simp_all add: of_nat_diff)
  have "of_int (b ^ (p - 1)) \<le> x / ?u" "x / ?u \<le> of_int (b ^ p)"
    using mag_bounds [OF assms(1,3)] u by (simp_all add: pos_le_divide_eq pos_divide_le_eq lo hi)
  then have "b ^ (p - 1) \<le> rhe (x / ?u)" "rhe (x / ?u) \<le> b ^ p"
    using rhe_mono rhe_of_int by metis+
  then have "(of_int (b ^ (p - 1)) :: rat) \<le> of_int (rhe (x / ?u))"
    "(of_int (rhe (x / ?u)) :: rat) \<le> of_int (b ^ p)"
    by (simp_all only: of_int_le_iff)
  then show "bpow b (mag b x) \<le> rnd b p x" "rnd b p x \<le> bpow b (mag b x + 1)"
    unfolding r lo hi using u by (simp_all only: mult_le_cancel_right) auto
qed

lemma rnd_pos: "1 < b \<Longrightarrow> 0 < p \<Longrightarrow> 0 < x \<Longrightarrow> 0 < rnd b p x"
  using rnd_pos_bounds(1) [of b p x] bpow_pos [of b "mag b x"] by linarith

lemma rnd_mono_pos:
  assumes "1 < b" "0 < p" "0 < x" "x \<le> y"
  shows "rnd b p x \<le> rnd b p y"
proof (cases "mag b x = mag b y")
  case True
  have u: "0 < bpow b (mag b y - int p + 1)" using assms by simp
  then have "x / bpow b (mag b y - int p + 1) \<le> y / bpow b (mag b y - int p + 1)"
    using assms by (simp add: divide_right_mono)
  from rhe_mono [OF this] show ?thesis
    using assms True u by (simp add: rnd_def Let_def)
next
  case False
  then have "mag b x + 1 \<le> mag b y" using mag_mono [of b x y] assms by linarith
  then have "bpow b (mag b x + 1) \<le> bpow b (mag b y)" using assms by (intro bpow_mono)
  then show ?thesis using rnd_pos_bounds [of b p x] rnd_pos_bounds [of b p y] assms by linarith
qed

lemma rnd_mono:
  assumes "1 < b" "0 < p" "x \<le> y"
  shows "rnd b p x \<le> rnd b p y"
proof -
  consider "0 < x" | "x \<le> 0" "0 \<le> y" | "y < 0" by linarith
  then show ?thesis
  proof cases
    case 1
    then show ?thesis using assms by (intro rnd_mono_pos)
  next
    case 2
    have "rnd b p x \<le> 0" using rnd_pos [of b p "- x"] assms 2 by (cases "x = 0") auto
    moreover have "0 \<le> rnd b p y" using rnd_pos [of b p y] assms 2 by (cases "y = 0") auto
    ultimately show ?thesis by linarith
  next
    case 3
    then show ?thesis using rnd_mono_pos [of b p "- y" "- x"] assms by simp
  qed
qed

lemma rnd_error:
  assumes "1 < b" "0 < p"
  shows "\<bar>rnd b p x - x\<bar> \<le> \<bar>x\<bar> * bpow b (1 - int p) / 2"
proof (cases "x = 0")
  case False
  let ?u = "bpow b (mag b \<bar>x\<bar> - int p + 1)"
  have u: "0 < ?u" using assms by simp
  have "rnd b p x - x = (of_int (rhe (x / ?u)) - x / ?u) * ?u"
    using False u assms by (simp add: rnd_def Let_def left_diff_distrib)
  then have "\<bar>rnd b p x - x\<bar> = \<bar>of_int (rhe (x / ?u)) - x / ?u\<bar> * ?u"
    using u by (simp add: abs_mult)
  also have "\<dots> \<le> 1/2 * ?u" using rhe_error u by (intro mult_right_mono) auto
  also have "?u = bpow b (mag b \<bar>x\<bar>) * bpow b (1 - int p)"
    using assms by (simp add: bpow_add [symmetric] algebra_simps)
  also have "1/2 * \<dots> \<le> 1/2 * (\<bar>x\<bar> * bpow b (1 - int p))"
    using mag_bounds(1) [of b "\<bar>x\<bar>"] assms False by (intro mult_left_mono mult_right_mono) auto
  finally show ?thesis by simp
qed simp

lemma rnd_exact:
  assumes "1 < b" "0 < p" "x = of_int m * bpow b k" "\<bar>m\<bar> < b ^ p"
  shows "rnd b p x = x"
proof (cases "m = 0")
  case False
  let ?e = "mag b \<bar>x\<bar>"
  have bk: "0 < bpow b k" using assms by simp
  then have x0: "x \<noteq> 0" using False assms by simp
  have "?e < k + int p"
  proof -
    have "bpow b ?e \<le> \<bar>x\<bar>" using mag_bounds(1) [of b "\<bar>x\<bar>"] x0 assms by simp
    also have "\<dots> = of_int \<bar>m\<bar> * bpow b k" using assms bk by (simp add: abs_mult)
    also have "\<dots> < of_int (b ^ p) * bpow b k"
      using assms bk by (intro mult_strict_right_mono) (simp_all only: of_int_less_iff)
    also have "\<dots> = bpow b (k + int p)"
      using assms by (simp only: bpow_shift add.commute)
    finally show ?thesis using assms by (simp add: bpow_less_iff)
  qed
  then obtain j where j: "k = ?e - int p + 1 + int j"
    by (metis add.commute add_le_cancel_left diff_add_cancel diff_le_eq nat_le_iff_add zle_iff_zadd
        zless_imp_add1_zle add_diff_eq)
  let ?u = "bpow b (?e - int p + 1)"
  have u: "?u \<noteq> 0" using assms by simp
  have "x = of_int m * (of_int (b ^ j) * ?u)"
    using assms(1) j by (simp only: assms(3) bpow_shift add.commute)
  then have x: "x = of_int (m * b ^ j) * ?u" by simp
  have "v \<noteq> 0 \<Longrightarrow> y = a * v \<Longrightarrow> y / v = a" for v y a :: rat by simp
  from this [OF u x] have "x / ?u = of_int (m * b ^ j)" .
  then have "rnd b p x = of_int (m * b ^ j) * ?u"
    using x0 unfolding rnd_def Let_def by (simp only: rhe_of_int if_False)
  then show ?thesis using x by (simp only:)
qed (use assms in simp)

section \<open>The decimal context\<close>

type_synonym dec = rat

definition ctx :: "rat \<Rightarrow> dec" where
  "ctx x = rnd 10 28 x"

definition dadd :: "dec \<Rightarrow> dec \<Rightarrow> dec" where "dadd x y = ctx (x + y)"
definition dsub :: "dec \<Rightarrow> dec \<Rightarrow> dec" where "dsub x y = ctx (x - y)"
definition dmul :: "dec \<Rightarrow> dec \<Rightarrow> dec" where "dmul x y = ctx (x * y)"
definition dneg :: "dec \<Rightarrow> dec" where "dneg x = ctx (- x)"
definition dabs :: "dec \<Rightarrow> dec" where "dabs x = ctx \<bar>x\<bar>"

text \<open>Division raises: \<open>0 / 0\<close> is an invalid operation, any other division by zero its own error.\<close>

definition ddiv :: "dec \<Rightarrow> dec \<Rightarrow> dec res" where
  "ddiv x y = (if y = 0 then Inl (Exn (if x = 0 then InvalidOperation else DivisionByZero) [])
     else Inr (ctx (x / y)))"

text \<open>\<open>sum(xs, Decimal(0))\<close>: every partial sum is rounded.\<close>

definition dsum :: "dec list \<Rightarrow> dec" where
  "dsum xs = foldl dadd 0 xs"

text \<open>Rounding to an integer: \<open>ROUND_DOWN\<close>, \<open>ROUND_CEILING\<close>; \<open>ROUND_HALF_EVEN\<close> is \<^const>\<open>rhe\<close>.\<close>

definition round_down :: "rat \<Rightarrow> int" where
  "round_down x = (if 0 \<le> x then \<lfloor>x\<rfloor> else \<lceil>x\<rceil>)"

definition round_ceiling :: "rat \<Rightarrow> int" where
  "round_ceiling x = \<lceil>x\<rceil>"

text \<open>
  \<open>x.quantize(Decimal(10) ** -k, rounding)\<close>: a multiple of \<open>10 ** -k\<close>; it raises when the
  coefficient would need more than 28 digits.
\<close>

definition quantize :: "(rat \<Rightarrow> int) \<Rightarrow> nat \<Rightarrow> dec \<Rightarrow> dec res" where
  "quantize mode k x =
     (let c = mode (x * 10 ^ k) in
      if 10 ^ 28 \<le> \<bar>c\<bar> then Inl (Exn InvalidOperation []) else Inr (of_int c / 10 ^ k))"

text \<open>Binary floats: \<open>float(d)\<close> of a \<open>Decimal\<close> and every arithmetic operation.\<close>

definition fl :: "rat \<Rightarrow> rat" where
  "fl x = rnd 2 53 x"

text \<open>
  \<open>Decimal(str(f))\<close>: the shortest decimal that reads back as the float, the nearest one of that length. With
  \<open>p\<close> digits that is the rounded value or, next to a power of two, the neighbour on its other side.
\<close>

definition repr_digits :: "rat \<Rightarrow> nat \<Rightarrow> dec option" where
  "repr_digits f p =
     (let u = bpow 10 (mag 10 \<bar>f\<bar> - int p + 1) in
      if fl (rnd 10 p f) = f then Some (rnd 10 p f)
      else if fl (of_int \<lfloor>f / u\<rfloor> * u) = f then Some (of_int \<lfloor>f / u\<rfloor> * u)
      else if fl (of_int \<lceil>f / u\<rceil> * u) = f then Some (of_int \<lceil>f / u\<rceil> * u)
      else None)"

fun first_some :: "('a \<Rightarrow> 'b option) \<Rightarrow> 'a list \<Rightarrow> 'b option" where
  "first_some g [] = None"
| "first_some g (x # xs) = (case g x of Some y \<Rightarrow> Some y | None \<Rightarrow> first_some g xs)"

definition repr_dec :: "rat \<Rightarrow> dec" where
  "repr_dec f = (case first_some (repr_digits f) [1..<17] of None \<Rightarrow> rnd 10 17 f | Some d \<Rightarrow> d)"

subsection \<open>Laws of the context\<close>

lemma ctx_0 [simp]: "ctx 0 = 0" by (simp add: ctx_def)
lemma ctx_minus: "ctx (- x) = - ctx x" by (simp add: ctx_def)
lemma ctx_mono: "x \<le> y \<Longrightarrow> ctx x \<le> ctx y" by (simp add: ctx_def rnd_mono)

lemma ctx_pos_iff [simp]: "0 < ctx x \<longleftrightarrow> 0 < x"
proof
  show "0 < x \<Longrightarrow> 0 < ctx x" by (simp add: ctx_def rnd_pos)
  show "0 < ctx x \<Longrightarrow> 0 < x" using ctx_mono [of x 0] by (cases "0 < x") auto
qed

lemma ctx_neg_iff [simp]: "ctx x < 0 \<longleftrightarrow> x < 0"
  using ctx_pos_iff [of "- x"] by (simp only: ctx_minus neg_0_less_iff_less)

lemma ctx_eq_0_iff [simp]: "ctx x = 0 \<longleftrightarrow> x = 0"
  using ctx_pos_iff [of x] ctx_neg_iff [of x] by (metis ctx_0 linorder_neqE_linordered_idom less_irrefl)

lemma ctx_nonneg_iff [simp]: "0 \<le> ctx x \<longleftrightarrow> 0 \<le> x"
  using ctx_neg_iff [of x] by (simp only: not_less [symmetric])

lemma ctx_nonpos_iff [simp]: "ctx x \<le> 0 \<longleftrightarrow> x \<le> 0"
  using ctx_pos_iff [of x] by (simp only: not_less [symmetric])

lemma ctx_abs: "ctx \<bar>x\<bar> = \<bar>ctx x\<bar>"
  by (cases "0 \<le> x") (simp_all add: abs_if ctx_minus not_le)

lemma ctx_exact: "x = of_int m * 10 powi k \<Longrightarrow> \<bar>m\<bar> < 10 ^ 28 \<Longrightarrow> ctx x = x"
  using rnd_exact [of 10 28 x m k] by (simp add: ctx_def)

lemma ctx_of_int: "\<bar>n\<bar> < 10 ^ 28 \<Longrightarrow> ctx (of_int n) = of_int n"
  by (rule ctx_exact [of _ n 0]) auto

lemma ctx_error: "\<bar>ctx x - x\<bar> \<le> \<bar>x\<bar> * (5 / 10 ^ 28)"
  using rnd_error [of 10 28 x] by (simp add: ctx_def power_int_def power_divide)

lemma ctx_upper: "0 \<le> x \<Longrightarrow> ctx x \<le> x * (1 + 5 / 10 ^ 28)"
  using abs_le_D1 [OF ctx_error [of x]] by simp

lemma ctx_lower: "0 \<le> x \<Longrightarrow> x * (1 - 5 / 10 ^ 28) \<le> ctx x"
  using abs_le_D2 [OF ctx_error [of x]] by simp

lemma dabs_nonneg [simp]: "0 \<le> dabs x"
  by (simp add: dabs_def)

lemma dabs_eq_0 [simp]: "dabs x = 0 \<longleftrightarrow> x = 0"
  by (simp add: dabs_def)

lemma ddiv_simps [simp]: "y \<noteq> 0 \<Longrightarrow> ddiv x y = Inr (ctx (x / y))"
  by (simp add: ddiv_def)

lemma ddiv_eq_Inr: "ddiv x y = Inr z \<longleftrightarrow> y \<noteq> 0 \<and> z = ctx (x / y)"
  by (auto simp: ddiv_def)

subsection \<open>Laws of quantize\<close>

lemma round_down_nonneg: "0 \<le> x \<Longrightarrow> 0 \<le> round_down x"
  by (simp add: round_down_def)

lemma round_down_le: "0 \<le> x \<Longrightarrow> of_int (round_down x) \<le> x"
  by (simp add: round_down_def)

lemma quantize_eq_Inr:
  "quantize mode k x = Inr y \<longleftrightarrow>
     \<bar>mode (x * 10 ^ k)\<bar> < 10 ^ 28 \<and> y = of_int (mode (x * 10 ^ k)) / 10 ^ k"
  by (auto simp: quantize_def Let_def not_le)

lemma quantize_down_bounds:
  assumes "quantize round_down k x = Inr y" "0 \<le> x"
  shows "0 \<le> y" "y \<le> x" "x < y + 1 / 10 ^ k"
proof -
  have y: "y * 10 ^ k = of_int \<lfloor>x * 10 ^ k\<rfloor>"
    using assms by (auto simp: quantize_eq_Inr round_down_def)
  have f: "of_int \<lfloor>x * 10 ^ k\<rfloor> \<le> x * 10 ^ k" "x * 10 ^ k < of_int \<lfloor>x * 10 ^ k\<rfloor> + 1"
    using floor_correct [of "x * 10 ^ k"] by simp_all
  show "0 \<le> y" using assms by (auto simp: quantize_eq_Inr round_down_def)
  have "y * 10 ^ k \<le> x * 10 ^ k" using f y by linarith
  then show "y \<le> x" by (simp only: mult_le_cancel_right) simp
  have "x * 10 ^ k < (y + 1 / 10 ^ k) * 10 ^ k" using f y by (simp add: distrib_right)
  then show "x < y + 1 / 10 ^ k" by (simp only: mult_less_cancel_right) simp
qed

lemma quantize_half_even_error:
  assumes "quantize rhe k x = Inr y"
  shows "\<bar>y - x\<bar> \<le> 1 / (2 * 10 ^ k)"
proof -
  have "y - x = (of_int (rhe (x * 10 ^ k)) - x * 10 ^ k) / 10 ^ k"
    using assms by (auto simp: quantize_eq_Inr diff_divide_distrib)
  then have "\<bar>y - x\<bar> = \<bar>of_int (rhe (x * 10 ^ k)) - x * 10 ^ k\<bar> / 10 ^ k" by simp
  also have "\<dots> \<le> (1 / 2) / 10 ^ k" by (intro divide_right_mono rhe_error) simp
  finally show ?thesis by simp
qed

section \<open>Evaluation\<close>

text \<open>Evaluation on numerator and denominator, without intermediate fractions.\<close>

definition rhe_pick :: "int \<Rightarrow> int \<Rightarrow> int \<Rightarrow> int" where
  "rhe_pick f r2 d = (if r2 < d then f else if d < r2 then f + 1 else if even f then f else f + 1)"

definition rhe_div :: "int \<Rightarrow> int \<Rightarrow> int" where
  "rhe_div n d = rhe_pick (n div d) (2 * (n mod d)) d"

lemma floor_of_int_div: "0 < d \<Longrightarrow> \<lfloor>of_int n / of_int d :: rat\<rfloor> = n div d"
  by (simp add: floor_divide_of_int_eq)

lemma rhe_of_int_div: "0 < d \<Longrightarrow> rhe (of_int n / of_int d) = rhe_div n d"
proof -
  assume d: "0 < d"
  let ?r = "of_int n / of_int d - of_int (n div d) :: rat"
  have "?r = of_int (n mod d) / of_int d"
    using d by (simp add: field_simps flip: of_int_mult of_int_add)
  then have "?r < 1/2 \<longleftrightarrow> (of_int (2 * (n mod d)) :: rat) < of_int d"
    "1/2 < ?r \<longleftrightarrow> (of_int d :: rat) < of_int (2 * (n mod d))"
    using d by (simp_all add: field_simps)
  then show ?thesis
    using d by (simp only: rhe_def Let_def rhe_div_def rhe_pick_def floor_of_int_div of_int_less_iff)
qed

lemma quotient_of_eq: "x = of_int (fst (quotient_of x)) / of_int (snd (quotient_of x))"
  by (metis prod.collapse quotient_of_div)

lemma rhe_code [code]: "rhe x = (case quotient_of x of (n, d) \<Rightarrow> rhe_div n d)"
  using quotient_of_denom_pos' [of x] rhe_of_int_div quotient_of_eq [of x]
  by (metis (mono_tags, lifting) case_prod_unfold)

definition mag_div :: "int \<Rightarrow> int \<Rightarrow> int \<Rightarrow> int" where
  "mag_div b n d = (if d \<le> n then int (ndig b (n div d)) - 1 else - int (ndig b ((d - 1) div n)))"

lemma ceil_pred:
  assumes "0 < n"
  shows "\<lceil>of_int d / of_int n :: rat\<rceil> - 1 = (d - 1) div n"
proof -
  let ?q = "(d - 1) div n"
  obtain q r where q: "q = ?q" "r = (d - 1) mod n" by blast
  have "d - 1 = n * q + r" "0 \<le> r" "r < n" unfolding q using assms by simp_all
  then have "q * n < d" "d \<le> (q + 1) * n" by (simp_all add: mult.commute distrib_left)
  then have "?q * n < d" "d \<le> (?q + 1) * n" unfolding q by simp_all
  then have "of_int (?q * n) < (of_int d :: rat)" "of_int d \<le> (of_int ((?q + 1) * n) :: rat)"
    by (simp_all only: of_int_less_iff of_int_le_iff)
  then have "of_int ?q < (of_int d / of_int n :: rat)" "of_int d / of_int n \<le> (of_int ?q + 1 :: rat)"
    using assms by (simp_all add: pos_less_divide_eq pos_divide_le_eq)
  then have "\<lceil>of_int d / of_int n :: rat\<rceil> = ?q + 1" by (intro ceiling_unique) simp_all
  then show ?thesis by simp
qed

lemma mag_of_int_div: "0 < n \<Longrightarrow> 0 < d \<Longrightarrow> mag b (of_int n / of_int d) = mag_div b n d"
  using ceil_pred [of n d]
  by (simp add: mag_def mag_div_def floor_of_int_div pos_le_divide_eq)

definition rnd_pow :: "int \<Rightarrow> int \<Rightarrow> int \<Rightarrow> int \<Rightarrow> rat" where
  "rnd_pow b n d k =
     (if k \<le> 0 then of_int (rhe_div (n * b ^ nat (- k)) d) / of_int (b ^ nat (- k))
      else of_int (rhe_div n (d * b ^ nat k) * b ^ nat k))"

lemma rnd_pow:
  assumes "1 < b" "0 < d"
  shows "of_int (rhe (of_int n / of_int d / bpow b k)) * bpow b k = rnd_pow b n d k"
proof (cases "k \<le> 0")
  case True
  then have u: "bpow b k = 1 / of_int (b ^ nat (- k))"
    by (simp add: power_int_def field_simps)
  have "of_int n / of_int d / bpow b k = of_int (n * b ^ nat (- k)) / of_int d"
    by (simp add: u)
  then show ?thesis using True assms(2) by (simp only: rhe_of_int_div rnd_pow_def) (simp add: u)
next
  case False
  then have u: "bpow b k = of_int (b ^ nat k)" by (simp add: power_int_def)
  have "of_int n / of_int d / bpow b k = of_int n / of_int (d * b ^ nat k)" by (simp add: u)
  moreover have "0 < d * b ^ nat k" using assms by simp
  ultimately show ?thesis using False by (simp only: rhe_of_int_div rnd_pow_def) (simp add: u)
qed

definition rnd_div :: "int \<Rightarrow> nat \<Rightarrow> int \<Rightarrow> int \<Rightarrow> rat" where
  "rnd_div b p n d = (if n = 0 then 0 else rnd_pow b n d (mag_div b \<bar>n\<bar> d - int p + 1))"

lemma rnd_of_int_div:
  assumes "1 < b" "0 < d"
  shows "rnd b p (of_int n / of_int d) = rnd_div b p n d"
proof -
  have "n \<noteq> 0 \<Longrightarrow> mag b \<bar>of_int n / of_int d\<bar> = mag_div b \<bar>n\<bar> d"
    using mag_of_int_div [of "\<bar>n\<bar>" d b] assms by (simp add: abs_divide)
  then show ?thesis
    using assms rnd_pow [OF assms] by (simp add: rnd_def rnd_div_def Let_def)
qed

lemma ctx_code [code]: "ctx x = (case quotient_of x of (n, d) \<Rightarrow> rnd_div 10 28 n d)"
  using quotient_of_denom_pos' [of x] rnd_of_int_div [of 10 _ 28] quotient_of_eq [of x]
  unfolding ctx_def by (metis (mono_tags, lifting) case_prod_unfold one_less_numeral_iff semiring_norm(76))

lemma fl_code [code]: "fl x = (case quotient_of x of (n, d) \<Rightarrow> rnd_div 2 53 n d)"
  using quotient_of_denom_pos' [of x] rnd_of_int_div [of 2 _ 53] quotient_of_eq [of x]
  unfolding fl_def by (metis (mono_tags, lifting) case_prod_unfold one_less_numeral_iff semiring_norm(76))


end
