(* ===== verification/Numerals.thy ===== *)
theory Numerals
  imports Decimal_Arith
begin

text \<open>
  The texts numbers are read from: \<open>int\<close>, \<open>float\<close> and \<open>Decimal\<close> of a Python string, \<open>strip\<close> and \<open>split\<close>, and the
  \<open>timedelta\<close> of a float of seconds. Characters are those of Latin-1. Infinities and NaN are values of the reader, but
  not of the numbers the model computes with: a setting that is one ends in \<open>not_finite\<close>, which stands for whatever the
  code then does with it. A float too large for its exponent is not an infinity here.
\<close>

section \<open>Stripping and splitting\<close>

definition is_space :: "char \<Rightarrow> bool" where
  "is_space c = (let n = of_char c :: nat in 9 \<le> n \<and> n \<le> 13 \<or> 28 \<le> n \<and> n \<le> 32 \<or> n = 133 \<or> n = 160)"

definition strip :: "string \<Rightarrow> string" where
  "strip s = rev (dropWhile is_space (rev (dropWhile is_space s)))"

fun split_on :: "char \<Rightarrow> string \<Rightarrow> string list" where
  "split_on c [] = [[]]"
| "split_on c (x # xs) =
     (if x = c then [] # split_on c xs
      else (x # hd (split_on c xs)) # tl (split_on c xs))"

fun join_with :: "char \<Rightarrow> string list \<Rightarrow> string" where
  "join_with c [] = []"
| "join_with c [s] = s"
| "join_with c (s # s' # ss) = s @ c # join_with c (s' # ss)"

section \<open>Reading numbers\<close>

datatype numeral = Finite rat | Infinite bool | Not_a_number

definition value_error :: "string \<Rightarrow> exn" where
  "value_error s = Exn ValueError [S ''invalid literal: '', S s]"

text \<open>An underscore stands between two digits or the text is no number. \<open>p\<close> is the character before.\<close>

fun ungroup :: "char \<Rightarrow> string \<Rightarrow> string option" where
  "ungroup p [] = (if p = CHR ''_'' then None else Some [])"
| "ungroup p (c # cs) =
     (if c = CHR ''_'' then (if is_digit p then ungroup c cs else None)
      else if p = CHR ''_'' \<and> \<not> is_digit c then None
      else map_option (Cons c) (ungroup c cs))"

definition signed :: "string \<Rightarrow> bool \<times> string" where
  "signed s = (case s of c # cs \<Rightarrow> (if c = CHR ''-'' then (True, cs) else if c = CHR ''+'' then (False, cs) else (False, s)) | [] \<Rightarrow> (False, []))"

text \<open>\<open>int\<close>: at most 4300 digits.\<close>

definition py_int :: "string \<Rightarrow> int res" where
  "py_int s =
     (case map_option signed (ungroup (CHR '' '') (strip s)) of
        None \<Rightarrow> Inl (value_error s)
      | Some (neg, ds) \<Rightarrow>
          if isdigit ds \<and> length ds \<le> 4300 then Inr (if neg then - parse_nat ds else parse_nat ds)
          else Inl (value_error s))"

definition ascii_lower :: "string \<Rightarrow> string" where
  "ascii_lower s = map (\<lambda>c. let n = of_char c :: nat in if 65 \<le> n \<and> n \<le> 90 then char_of (n + 32) else c) s"

text \<open>Digits with at most one point and at least one digit; then, perhaps, an exponent.\<close>

definition mantissa :: "string \<Rightarrow> (int \<times> nat) option" where
  "mantissa s =
     (let whole = takeWhile (\<lambda>c. c \<noteq> CHR ''.'') s; frac = drop (length whole + 1) s in
      if isdigit (whole @ frac) then Some (parse_nat (whole @ frac), length frac) else None)"

definition exponent :: "string \<Rightarrow> int option" where
  "exponent s = (case signed s of (neg, ds) \<Rightarrow> if isdigit ds then Some (if neg then - parse_nat ds else parse_nat ds) else None)"

definition plain_number :: "string \<Rightarrow> rat option" where
  "plain_number s =
     (let m = takeWhile (\<lambda>c. c \<notin> set ''eE'') s; e = drop (length m) s in
      case (mantissa m, if e = [] then Some 0 else exponent (tl e)) of
        (Some (n, places), Some k) \<Rightarrow> Some (of_int n * bpow 10 (k - int places))
      | _ \<Rightarrow> None)"

definition py_float :: "string \<Rightarrow> numeral res" where
  "py_float s =
     (case map_option signed (ungroup (CHR '' '') (strip s)) of
        None \<Rightarrow> Inl (value_error s)
      | Some (neg, body) \<Rightarrow>
          if ascii_lower body \<in> {''inf'', ''infinity''} then Inr (Infinite neg)
          else if ascii_lower body = ''nan'' then Inr Not_a_number
          else case plain_number body of
              None \<Rightarrow> Inl (value_error s)
            | Some x \<Rightarrow> Inr (Finite (rnd 2 53 (if neg then - x else x))))"

text \<open>\<open>Decimal\<close> drops every underscore, keeps every digit and reads a payload after \<open>nan\<close> and \<open>snan\<close>.\<close>

definition nan_text :: "string \<Rightarrow> bool" where
  "nan_text s = (let t = (if take 1 s = ''s'' then drop 1 s else s) in take 3 t = ''nan'' \<and> list_all is_digit (drop 3 t))"

definition py_decimal :: "string \<Rightarrow> numeral res" where
  "py_decimal s =
     (case signed (filter (\<lambda>c. c \<noteq> CHR ''_'') (strip s)) of (neg, body) \<Rightarrow>
        if ascii_lower body \<in> {''inf'', ''infinity''} then Inr (Infinite neg)
        else if nan_text (ascii_lower body) then Inr Not_a_number
        else case plain_number body of
            None \<Rightarrow> Inl (Exn InvalidOperation [S ''ConversionSyntax''])
          | Some x \<Rightarrow> Inr (Finite (if neg then - x else x)))"

definition not_finite :: exn where
  "not_finite = Exn (OtherException ''NotFinite'') []"

definition the_finite :: "numeral res \<Rightarrow> rat res" where
  "the_finite r = rbind r (\<lambda>n. case n of Finite x \<Rightarrow> Inr x | _ \<Rightarrow> Inl not_finite)"

text \<open>
  \<open>timedelta\<close> of a float of units of \<open>unit\<close> microseconds: the whole units exactly, the fraction as a float of microseconds,
  rounded half to even.
\<close>

definition td_float :: "int \<Rightarrow> numeral \<Rightarrow> int res" where
  "td_float unit n =
     (case n of
        Infinite _ \<Rightarrow> Inl (Exn (OtherException ''OverflowError'') [S ''cannot convert float infinity to integer''])
      | Not_a_number \<Rightarrow> Inl (Exn ValueError [S ''cannot convert float NaN to integer''])
      | Finite f \<Rightarrow>
          let whole = (if 0 \<le> f then \<lfloor>f\<rfloor> else \<lceil>f\<rceil>); us = rhe (of_int (whole * unit) + rnd 2 53 (of_int unit * (f - of_int whole))) in
          if us < - 86400000000 * 999999999 \<or> 86400000000 * 1000000000 \<le> us
          then Inl (Exn (OtherException ''OverflowError'') [I us]) else Inr us)"

definition td_seconds :: "numeral \<Rightarrow> int res" where
  "td_seconds = td_float 1000000"

definition td_hours :: "numeral \<Rightarrow> int res" where
  "td_hours = td_float 3600000000"

section \<open>What is written is read back\<close>

lemma split_on_ne [simp]: "split_on c s \<noteq> []"
  by (induction s) auto

lemma split_on_append: "c \<notin> set s \<Longrightarrow> split_on c (s @ c # t) = s # split_on c t"
  by (induction s) auto

lemma split_on_free: "c \<notin> set s \<Longrightarrow> split_on c s = [s]"
  by (induction s) auto

lemma split_join: "ss \<noteq> [] \<Longrightarrow> \<forall>s \<in> set ss. c \<notin> set s \<Longrightarrow> split_on c (join_with c ss) = ss"
  by (induction c ss rule: join_with.induct) (auto simp: split_on_append split_on_free)

lemma dropWhile_none: "\<forall>x \<in> set xs. \<not> P x \<Longrightarrow> dropWhile P xs = xs"
  by (cases xs) auto

lemma strip_id: "\<forall>c \<in> set s. \<not> is_space c \<Longrightarrow> strip s = s"
  by (simp add: strip_def dropWhile_none)

lemma ungroup_id: "CHR ''_'' \<notin> set s \<Longrightarrow> p \<noteq> CHR ''_'' \<Longrightarrow> ungroup p s = Some s"
  by (induction s arbitrary: p) auto

lemma digit_char: "0 \<le> n \<Longrightarrow> n \<le> 9 \<Longrightarrow> is_digit (char_of (48 + n :: int)) \<and> of_char (char_of (48 + n) :: char) = 48 + n"
proof -
  assume "0 \<le> n" "n \<le> 9"
  then have "n \<in> {0, 1, 2, 3, 4, 5, 6, 7, 8, 9}" by (simp; presburger)
  then show ?thesis by (elim insertE; simp add: is_digit_def; code_simp)
qed

lemma show_digits_digits: "0 \<le> n \<Longrightarrow> isdigit (show_digits n)"
proof (induction n rule: show_digits.induct)
  case (1 n)
  then show ?case
    by (subst show_digits.simps) (auto simp: isdigit_def digit_char)
qed

lemma parse_nat_snoc: "parse_nat (s @ [c]) = 10 * parse_nat s + (of_char c - 48)"
  by (simp add: parse_nat_def)

lemma parse_show_digits: "0 \<le> n \<Longrightarrow> parse_nat (show_digits n) = n"
proof (induction n rule: show_digits.induct)
  case (1 n)
  then show ?case
    by (subst show_digits.simps) (auto simp: parse_nat_snoc digit_char, simp add: parse_nat_def digit_char)
qed

lemma digit_plain: "is_digit c \<Longrightarrow> \<not> is_space c \<and> c \<noteq> CHR ''_'' \<and> c \<noteq> CHR '','' \<and> c \<noteq> CHR ''-'' \<and> c \<noteq> CHR ''+''"
  by (auto simp: is_digit_def is_space_def)

lemma show_int_plain: "c \<in> set (show_int n) \<Longrightarrow> \<not> is_space c \<and> c \<noteq> CHR ''_'' \<and> c \<noteq> CHR '',''"
  using show_digits_digits [of n] show_digits_digits [of "- n"] digit_plain [of c]
  by (auto simp: show_int_def isdigit_def list_all_iff is_space_def split: if_splits)

text \<open>\<open>int(str(n))\<close> is \<open>n\<close>, as long as \<open>str\<close> would render it at all.\<close>

lemma py_int_show_int:
  assumes "length (show_digits \<bar>n\<bar>) \<le> 4300"
  shows "py_int (show_int n) = Inr n"
proof -
  have strip: "strip (show_int n) = show_int n" "ungroup (CHR '' '') (show_int n) = Some (show_int n)"
    using show_int_plain by (auto intro!: strip_id ungroup_id)
  have "hd (show_digits n) \<noteq> CHR ''-'' \<and> hd (show_digits n) \<noteq> CHR ''+''" if "0 \<le> n"
    using show_digits_digits [OF that] digit_plain by (cases "show_digits n") (auto simp: isdigit_def)
  then have "signed (show_int n) = (n < 0, show_digits \<bar>n\<bar>)"
    using show_digits_digits [of n] by (cases "show_digits n") (auto simp: signed_def show_int_def isdigit_def)
  then show ?thesis using assms show_digits_digits [of "\<bar>n\<bar>"] by (auto simp: py_int_def strip parse_show_digits)
qed

end
