(* ===== verification/Iso_Time.thy ===== *)
theory Iso_Time
  imports Numerals
begin

text \<open>
  Instants as the database stores them. \<open>storage/db.py\<close> writes an instant as the text of \<open>isoformat\<close> in UTC, and every
  range, minimum and order of its queries compares those texts byte by byte. This theory translates the two functions
  that write and read an instant, with the calendar of \<open>datetime\<close>, and proves that the texts stand for the instants: the
  other theories compare the instants themselves.
\<close>

section \<open>The calendar\<close>

definition leap :: "nat \<Rightarrow> bool" where
  "leap y \<longleftrightarrow> y mod 4 = 0 \<and> (y mod 100 \<noteq> 0 \<or> y mod 400 = 0)"

definition year_days :: "nat \<Rightarrow> nat" where
  "year_days y = (if leap y then 366 else 365)"

definition month_lengths :: "nat \<Rightarrow> nat list" where
  "month_lengths y = [31, if leap y then 29 else 28, 31, 30, 31, 30, 31, 31, 30, 31, 30, 31]"

lemma year_days_pos [simp]: "0 < year_days y"
  by (simp add: year_days_def)

text \<open>The year of a day counted from the first of January of year \<open>y\<close>, and the day of that year.\<close>

function year_from :: "nat \<Rightarrow> nat \<Rightarrow> nat \<times> nat" where
  "year_from y n = (if n < year_days y then (y, n) else year_from (Suc y) (n - year_days y))"
  by pat_completeness auto
termination
  by (relation "measure snd") (auto simp: not_less intro!: diff_less, metis less_le_trans year_days_pos)

declare year_from.simps [simp del]

fun month_from :: "nat \<Rightarrow> nat list \<Rightarrow> nat \<Rightarrow> nat \<times> nat" where
  "month_from m [] n = (m, n)"
| "month_from m (l # ls) n = (if n < l then (m, n) else month_from (Suc m) ls (n - l))"

text \<open>Year, month and day of the \<open>n\<close>-th day since the first of January of year 1; 400 years are 146097 days.\<close>

definition date_of :: "nat \<Rightarrow> nat list" where
  "date_of n =
     (case year_from 1 (n mod 146097) of (y0, r) \<Rightarrow>
       let y = y0 + 400 * (n div 146097) in
       case month_from 1 (month_lengths y) r of (m, d) \<Rightarrow> [y, m, d + 1])"

definition hour_fields :: "nat \<Rightarrow> nat list" where
  "hour_fields h = date_of (h div 24) @ [h mod 24]"

definition minute_fields :: "nat \<Rightarrow> nat list" where
  "minute_fields m = hour_fields (m div 60) @ [m mod 60]"

definition second_fields :: "nat \<Rightarrow> nat list" where
  "second_fields s = minute_fields (s div 60) @ [s mod 60]"

definition fields :: "nat \<Rightarrow> nat list" where
  "fields u = second_fields (u div 1000000) @ [u mod 1000000]"

text \<open>The first instant of year 1 in the time of this model, negated; \<open>datetime\<close> ends with year 9999.\<close>

definition EPOCH :: int where "EPOCH = 719162 * 86400000000"

definition in_range :: "int \<Rightarrow> bool" where
  "in_range t \<longleftrightarrow> 0 \<le> t + EPOCH \<and> t + EPOCH < 3652059 * 86400000000"

section \<open>The text\<close>

fun pad :: "nat \<Rightarrow> nat \<Rightarrow> string" where
  "pad 0 n = []"
| "pad (Suc w) n = pad w (n div 10) @ [char_of (48 + n mod 10)]"

fun iso_text :: "nat list \<Rightarrow> string" where
  "iso_text [y, mo, d, h, mi, s, us] =
     pad 4 y @ ''-'' @ pad 2 mo @ ''-'' @ pad 2 d @ ''T'' @ pad 2 h @ '':'' @ pad 2 mi @ '':'' @ pad 2 s @
     (if us = 0 then [] else ''.'' @ pad 6 us) @ ''+00:00''"
| "iso_text _ = []"

definition ts_text :: "int \<Rightarrow> string" where
  "ts_text t = iso_text (fields (nat (t + EPOCH)))"

text \<open>\<open>fromisoformat\<close> on a text of this form.\<close>

definition days_before :: "nat \<Rightarrow> nat" where
  "days_before k = k * 365 + k div 4 - k div 100 + k div 400"

definition number_at :: "nat \<Rightarrow> nat \<Rightarrow> string \<Rightarrow> nat" where
  "number_at i n x = nat (parse_nat (take n (drop i x)))"

definition ts_parse :: "string \<Rightarrow> int" where
  "ts_parse x =
     (let y = number_at 0 4 x; mo = number_at 5 2 x; d = number_at 8 2 x; h = number_at 11 2 x; mi = number_at 14 2 x;
          s = number_at 17 2 x; us = (if length x = 32 then number_at 20 6 x else 0);
          day = days_before (y - 1) + sum_list (take (mo - 1) (month_lengths y)) + (d - 1) in
      int ((((day * 24 + h) * 60 + mi) * 60 + s) * 1000000 + us) - EPOCH)"

text \<open>How the engine compares two texts.\<close>

fun text_less :: "string \<Rightarrow> string \<Rightarrow> bool" where
  "text_less [] ys \<longleftrightarrow> ys \<noteq> []"
| "text_less (x # xs) [] \<longleftrightarrow> False"
| "text_less (x # xs) (y # ys) \<longleftrightarrow> (of_char x :: nat) < of_char y \<or> x = y \<and> text_less xs ys"

section \<open>Years and months\<close>

lemma year_days_400: "year_days (k + 400 * c) = year_days k"
proof -
  have "(k + 400 * c) mod 400 = k mod 400" "(k + 100 * (4 * c)) mod 100 = k mod 100" "(k + 4 * (100 * c)) mod 4 = k mod 4"
    by (rule mod_mult_self2)+
  then show ?thesis by (simp add: year_days_def leap_def)
qed

text \<open>\<open>k div 4\<close> is at least \<open>k div 100\<close>, so the subtraction never cuts.\<close>

lemma days_before_sum: "days_before k + k div 100 = k * 365 + k div 4 + k div 400"
  using div_le_mono2 [of 4 100 k] by (simp add: days_before_def)

lemma days_before_Suc: "days_before (Suc k) = days_before k + year_days (Suc k)"
proof -
  have nested: "k mod 400 = 399 \<Longrightarrow> k mod 100 = 99" "k mod 100 = 99 \<Longrightarrow> k mod 4 = 3"
    using mod_mod_cancel [of 100 400 k] mod_mod_cancel [of 4 100 k] by simp_all
  have "Suc k div 100 = k div 100 + (if k mod 100 = 99 then 1 else 0)" "Suc k div 4 = k div 4 + (if k mod 4 = 3 then 1 else 0)"
    "Suc k div 400 = k div 400 + (if k mod 400 = 399 then 1 else 0)" by (simp_all add: div_Suc mod_Suc)
  moreover have "year_days (Suc k) = (if k mod 4 = 3 \<and> (k mod 100 = 99 \<longrightarrow> k mod 400 = 399) then 366 else 365)"
    by (auto simp: year_days_def leap_def mod_Suc)
  ultimately show ?thesis
    using days_before_sum [of k] days_before_sum [of "Suc k"] nested by (auto split: if_splits)
qed

lemma days_before_0 [simp]: "days_before 0 = 0"
  by (simp add: days_before_def)

lemma days_before_cycles: "days_before (k + 400 * c) = days_before k + 146097 * c"
proof -
  have "(k + 400 * c) div 400 = c + k div 400" "(k + 100 * (4 * c)) div 100 = 4 * c + k div 100"
    "(k + 4 * (100 * c)) div 4 = 100 * c + k div 4" by (rule div_mult_self2; simp)+
  then show ?thesis using days_before_sum [of k] days_before_sum [of "k + 400 * c"] by simp
qed

lemma days_before_mono: "k \<le> l \<Longrightarrow> days_before k \<le> days_before l"
  by (induction l) (auto simp: le_Suc_eq days_before_Suc)

lemma year_from_spec:
  "year_from (Suc k) n = (y, r) \<Longrightarrow> \<exists>j. y = Suc j \<and> k \<le> j \<and> days_before k + n = days_before j + r \<and> r < year_days y"
proof (induction n arbitrary: k rule: less_induct)
  case (less n)
  show ?case
  proof (cases "n < year_days (Suc k)")
    case True
    then show ?thesis using less.prems by (subst (asm) year_from.simps) auto
  next
    case False
    then have "year_from (Suc (Suc k)) (n - year_days (Suc k)) = (y, r)"
      using less.prems by (subst (asm) year_from.simps) simp
    moreover have "n - year_days (Suc k) < n" using False year_days_pos [of "Suc k"] by linarith
    ultimately have "\<exists>j. y = Suc j \<and> Suc k \<le> j \<and> days_before (Suc k) + (n - year_days (Suc k)) = days_before j + r \<and> r < year_days y"
      by (rule less.IH [rotated])
    then show ?thesis using False by (auto simp: days_before_Suc)
  qed
qed

lemma month_from_spec:
  assumes "month_from m ls n = (m', d)" "n < sum_list ls"
  shows "\<exists>i. m' = m + i \<and> i < length ls \<and> n = sum_list (take i ls) + d \<and> d < ls ! i"
  using assms
proof (induction m ls n rule: month_from.induct)
  case (2 m l ls n)
  show ?case
  proof (cases "n < l")
    case True
    then show ?thesis using 2 by (intro exI [of _ 0]) auto
  next
    case False
    then obtain i where "m' = Suc m + i" "i < length ls" "n - l = sum_list (take i ls) + d" "d < ls ! i"
      using 2(1) [OF False] 2(2,3) by (force simp: less_diff_conv2)
    then show ?thesis using False by (intro exI [of _ "Suc i"]) auto
  qed
qed simp

lemma sum_months: "sum_list (month_lengths y) = year_days y"
  by (simp add: month_lengths_def year_days_def)

text \<open>A date by its year, its month and the day of the month.\<close>

lemma date_of_spec:
  obtains j i d where "date_of n = [Suc j, Suc i, Suc d]" "i < 12" "d < month_lengths (Suc j) ! i"
    "n = days_before j + sum_list (take i (month_lengths (Suc j))) + d"
    "sum_list (take i (month_lengths (Suc j))) + d < year_days (Suc j)"
proof -
  let ?c = "n div 146097"
  obtain y0 r where y: "year_from (Suc 0) (n mod 146097) = (y0, r)" by fastforce
  then obtain k where k: "y0 = Suc k" "n mod 146097 = days_before k + r" "r < year_days y0"
    using year_from_spec [OF y] by auto
  let ?j = "k + 400 * ?c"
  have n: "n = days_before ?j + r" using k(2) div_mult_mod_eq [of n 146097] unfolding days_before_cycles by linarith
  have r: "r < year_days (Suc ?j)" using k(1,3) year_days_400 [of "Suc k" ?c] by simp
  obtain m d where m: "month_from 1 (month_lengths (Suc ?j)) r = (m, d)" by fastforce
  obtain i where i: "m = 1 + i" "i < length (month_lengths (Suc ?j))"
    "r = sum_list (take i (month_lengths (Suc ?j))) + d" "d < month_lengths (Suc ?j) ! i"
    using month_from_spec [OF m] r sum_months [of "Suc ?j"] by auto
  have "date_of n = [Suc ?j, Suc i, Suc d]"
    using y m i(1) k(1) by (simp add: date_of_def)
  then show ?thesis using that [of ?j i d] i n r by (simp add: month_lengths_def)
qed

section \<open>Fields in order\<close>

fun lless :: "nat list \<Rightarrow> nat list \<Rightarrow> bool" where
  "lless (x # xs) (y # ys) \<longleftrightarrow> x < y \<or> x = y \<and> lless xs ys"
| "lless _ _ \<longleftrightarrow> False"

lemma lless_append: "length xs = length ys \<Longrightarrow> lless (xs @ as) (ys @ bs) \<longleftrightarrow> lless xs ys \<or> xs = ys \<and> lless as bs"
  by (induction xs ys rule: list_induct2) auto

lemma sum_take_mono: "i \<le> k \<Longrightarrow> sum_list (take i xs) \<le> sum_list (take k xs :: nat list)"
  by (metis le_add1 le_add_diff_inverse sum_list.append take_add)

lemma sum_take_Suc: "i < length xs \<Longrightarrow> sum_list (take (Suc i) xs) = sum_list (take i xs) + (xs ! i :: nat)"
  by (simp add: take_Suc_conv_app_nth)

lemma date_less: "n < m \<Longrightarrow> lless (date_of n) (date_of m)"
proof (rule date_of_spec [of n], rule date_of_spec [of m])
  fix j i d j' i' d'
  let ?s = "\<lambda>i j. sum_list (take i (month_lengths (Suc j)))"
  assume less: "n < m"
    and n: "date_of n = [Suc j, Suc i, Suc d]" "i < 12" "d < month_lengths (Suc j) ! i" "n = days_before j + ?s i j + d"
      "?s i j + d < year_days (Suc j)"
    and m: "date_of m = [Suc j', Suc i', Suc d']" "i' < 12" "d' < month_lengths (Suc j') ! i'"
      "m = days_before j' + ?s i' j' + d'" "?s i' j' + d' < year_days (Suc j')"
  have "j \<le> j'"
  proof (rule ccontr)
    assume "\<not> j \<le> j'"
    then have "days_before (Suc j') \<le> days_before j" by (intro days_before_mono) simp
    then show False using m(4,5) n(4) less by (simp add: days_before_Suc)
  qed
  moreover have "i \<le> i'" if "j = j'"
  proof (rule ccontr)
    assume "\<not> i \<le> i'"
    then have "?s (Suc i') j' \<le> ?s i j" unfolding that by (intro sum_take_mono) simp
    moreover have "?s (Suc i') j' = ?s i' j' + month_lengths (Suc j') ! i'"
      using m(2) by (intro sum_take_Suc) (simp add: month_lengths_def)
    ultimately show False using m(3,4) n(4) less that by simp
  qed
  moreover have "d < d'" if "j = j'" "i = i'" using that n(4) m(4) less by simp
  ultimately show ?thesis using n(1) m(1) by auto
qed

lemma length_date: "length (date_of n) = 3"
  by (rule date_of_spec [of n]) simp

lemma lless_step:
  assumes "\<And>n m. n < m \<Longrightarrow> lless (f n) (f m)" "\<And>n m. length (f n) = length (f m)" "u < v"
  shows "lless (f (u div k) @ [u mod k]) (f (v div k) @ [v mod k])"
proof (cases "u div k = v div k")
  case True
  then have "u mod k < v mod k" using assms(3) by (metis add_less_cancel_left div_mult_mod_eq)
  then show ?thesis using True assms(2) by (simp add: lless_append)
next
  case False
  then have "u div k < v div k" using assms(3) div_le_mono [of u v k] by simp
  then show ?thesis using assms(1) lless_append [OF assms(2), of "u div k" "[u mod k]" "v div k" "[v mod k]"] by blast
qed

lemma hour_less: "u < v \<Longrightarrow> lless (hour_fields u) (hour_fields v)"
  unfolding hour_fields_def by (rule lless_step) (simp_all add: date_less length_date)

lemma minute_less: "u < v \<Longrightarrow> lless (minute_fields u) (minute_fields v)"
  unfolding minute_fields_def by (rule lless_step) (simp_all add: hour_less, simp add: hour_fields_def length_date)

lemma second_less: "u < v \<Longrightarrow> lless (second_fields u) (second_fields v)"
  unfolding second_fields_def
  by (rule lless_step) (simp_all add: minute_less, simp add: minute_fields_def hour_fields_def length_date)

lemma fields_less: "u < v \<Longrightarrow> lless (fields u) (fields v)"
  unfolding fields_def
  by (rule lless_step) (simp_all add: second_less, simp add: second_fields_def minute_fields_def hour_fields_def length_date)

section \<open>Texts in order\<close>

lemma length_pad [simp]: "length (pad w n) = w"
  by (induction w arbitrary: n) simp_all

lemma text_less_append:
  "length xs = length ys \<Longrightarrow> text_less (xs @ as) (ys @ bs) \<longleftrightarrow> text_less xs ys \<or> xs = ys \<and> text_less as bs"
  by (induction xs ys rule: list_induct2) auto

lemma text_less_irrefl: "\<not> text_less x x"
  by (induction x) auto

lemma text_less_Nil [simp]: "\<not> text_less xs []"
  by (cases xs) simp_all

lemma text_less_asym: "text_less x y \<Longrightarrow> \<not> text_less y x"
  by (induction x y rule: text_less.induct) auto

lemma digit_code: "(of_char (char_of (48 + n mod 10)) :: nat) = 48 + n mod 10"
proof -
  have "n mod 10 < 10" by simp
  then show ?thesis by simp
qed

lemma pad_less: "n < m \<Longrightarrow> m < 10 ^ w \<Longrightarrow> text_less (pad w n) (pad w m)"
proof (induction w arbitrary: n m)
  case (Suc w)
  show ?case
  proof (cases "n div 10 = m div 10")
    case True
    then have "n mod 10 < m mod 10" using Suc.prems(1) by (metis add_less_cancel_left div_mult_mod_eq)
    then show ?thesis using True by (simp add: text_less_append digit_code)
  next
    case False
    then have "n div 10 < m div 10" using Suc.prems(1) div_le_mono [of n m 10] by simp
    moreover have "m div 10 < 10 ^ w" using Suc.prems(2) by (simp add: less_mult_imp_div_less mult.commute)
    ultimately have "text_less (pad w (n div 10)) (pad w (m div 10))" by (rule Suc.IH)
    then show ?thesis by (simp add: text_less_append)
  qed
qed simp

text \<open>The fields that the widths of the format can hold.\<close>

definition fits :: "nat list \<Rightarrow> bool" where
  "fits xs \<longleftrightarrow> list_all2 (\<lambda>x b. x < b) xs [10000, 100, 100, 100, 100, 100, 1000000]"

lemma iso_less: "fits xs \<Longrightarrow> fits ys \<Longrightarrow> lless xs ys \<Longrightarrow> text_less (iso_text xs) (iso_text ys)"
proof -
  assume "fits xs" "fits ys" and l: "lless xs ys"
  then obtain y mo d h mi s us y' mo' d' h' mi' s' us' where
    xs: "xs = [y, mo, d, h, mi, s, us]" and ys: "ys = [y', mo', d', h', mi', s', us']"
    and b: "y' < 10 ^ 4" "mo' < 10 ^ 2" "d' < 10 ^ 2" "h' < 10 ^ 2" "mi' < 10 ^ 2" "s' < 10 ^ 2" "us' < 10 ^ 6"
    unfolding fits_def by (auto simp: list_all2_Cons2)
  let ?t = "\<lambda>us. (if us = 0 then [] else ''.'' @ pad 6 us) @ ''+00:00''"
  have t: "text_less (?t us) (?t us')" if "us < us'"
    using that pad_less [OF that b(7)] by (auto simp: text_less_append simp del: pad.simps)
  have head: "text_less (pad w n @ as) (pad w m @ bs)" if "n < m \<and> m < 10 ^ w \<or> n = m \<and> text_less as bs" for w n m as bs
    using that pad_less by (auto simp: text_less_append)
  have sep: "text_less ([c] @ as) ([c] @ bs) \<longleftrightarrow> text_less as bs" for c as bs by simp
  from l t b show ?thesis
    unfolding xs ys lless.simps iso_text.simps
    by (intro head) (auto simp del: append.simps pad.simps simp: sep intro!: head)
qed

lemma month_length_le: "i < 12 \<Longrightarrow> month_lengths y ! i \<le> 31"
  by (auto simp: month_lengths_def less_Suc_eq numeral_eq_Suc)

lemma date_fits:
  assumes "n < 3652059"
  obtains y m d where "date_of n = [y, m, d]" "y < 10000" "m < 100" "d < 100"
proof (rule date_of_spec [of n])
  fix j i d
  assume n: "date_of n = [Suc j, Suc i, Suc d]" "i < 12" "d < month_lengths (Suc j) ! i"
    "n = days_before j + sum_list (take i (month_lengths (Suc j))) + d"
  have "days_before 9999 = 3652059" by (simp add: days_before_def)
  then have "\<not> 9999 \<le> j" using assms n(4) days_before_mono [of 9999 j] by linarith
  moreover have "d < 31" using n(2,3) month_length_le [of i "Suc j"] by linarith
  ultimately show ?thesis using that [OF n(1)] n(2) by simp
qed

lemma fields_fit: "u < 3652059 * 86400000000 \<Longrightarrow> fits (fields u)"
proof -
  assume "u < 3652059 * 86400000000"
  then have "u div 1000000 div 60 div 60 div 24 < 3652059" by (simp add: div_mult2_eq [symmetric] less_mult_imp_div_less)
  then obtain y m d where "date_of (u div 1000000 div 60 div 60 div 24) = [y, m, d]" "y < 10000" "m < 100" "d < 100"
    by (rule date_fits)
  then show ?thesis
    by (auto simp: fits_def fields_def second_fields_def minute_fields_def hour_fields_def intro: less_trans [OF mod_less_divisor])
qed

lemma ts_text_less:
  assumes "in_range s" "in_range t" "s < t"
  shows "text_less (ts_text s) (ts_text t)"
proof -
  have "nat (s + EPOCH) < nat (t + EPOCH)" using assms by (simp add: in_range_def)
  moreover have "nat (s + EPOCH) < 3652059 * 86400000000" "nat (t + EPOCH) < 3652059 * 86400000000"
    using assms(1,2) by (simp_all add: in_range_def nat_less_iff)
  ultimately show ?thesis unfolding ts_text_def by (intro iso_less fields_fit fields_less)
qed

section \<open>Reading back\<close>

lemma parse_pad: "n < 10 ^ w \<Longrightarrow> parse_nat (pad w n) = int n"
proof (induction w arbitrary: n)
  case 0
  then show ?case by (simp add: parse_nat_def)
next
  case (Suc w)
  then have "n div 10 < 10 ^ w" by (simp add: less_mult_imp_div_less mult.commute)
  with Suc.IH have "parse_nat (pad w (n div 10)) = int (n div 10)" by simp
  moreover have "(of_char (char_of (48 + n mod 10) :: char) :: int) = int (48 + n mod 10)"
    using digit_code [of n] by (metis of_char_of of_nat_of_char)
  ultimately show ?case by (simp add: parse_nat_snoc) (simp add: zdiv_int zmod_int)
qed

lemma number_pad: "n < 10 ^ w \<Longrightarrow> i = length pre \<Longrightarrow> number_at i w (pre @ pad w n @ post) = n"
  by (simp add: number_at_def parse_pad)

lemma ts_parse_iso:
  assumes "fits [y, mo, d, h, mi, s, us]"
  shows "ts_parse (iso_text [y, mo, d, h, mi, s, us]) =
    int (((((days_before (y - 1) + sum_list (take (mo - 1) (month_lengths y)) + (d - 1)) * 24 + h) * 60 + mi) * 60 + s)
      * 1000000 + us) - EPOCH"
proof -
  let ?x = "iso_text [y, mo, d, h, mi, s, us]"
  let ?us = "if us = 0 then [] else ''.'' @ pad 6 us"
  have b: "y < 10 ^ 4" "mo < 10 ^ 2" "d < 10 ^ 2" "h < 10 ^ 2" "mi < 10 ^ 2" "s < 10 ^ 2" "us < 10 ^ 6"
    using assms by (simp_all add: fits_def)
  note at = number_pad [OF b(1), of 0 "[]"] number_pad [OF b(2), of 5 "pad 4 y @ ''-''"]
    number_pad [OF b(3), of 8 "pad 4 y @ ''-'' @ pad 2 mo @ ''-''"]
    number_pad [OF b(4), of 11 "pad 4 y @ ''-'' @ pad 2 mo @ ''-'' @ pad 2 d @ ''T''"]
    number_pad [OF b(5), of 14 "pad 4 y @ ''-'' @ pad 2 mo @ ''-'' @ pad 2 d @ ''T'' @ pad 2 h @ '':''"]
    number_pad [OF b(6), of 17 "pad 4 y @ ''-'' @ pad 2 mo @ ''-'' @ pad 2 d @ ''T'' @ pad 2 h @ '':'' @ pad 2 mi @ '':''"]
    number_pad [OF b(7), of 20
      "pad 4 y @ ''-'' @ pad 2 mo @ ''-'' @ pad 2 d @ ''T'' @ pad 2 h @ '':'' @ pad 2 mi @ '':'' @ pad 2 s @ ''.''"]
  have n: "number_at 0 4 ?x = y" "number_at 5 2 ?x = mo" "number_at 8 2 ?x = d" "number_at 11 2 ?x = h"
    "number_at 14 2 ?x = mi" "number_at 17 2 ?x = s"
    using at(1-6) by (simp_all del: pad.simps)
  have us: "(if length ?x = 32 then number_at 20 6 ?x else 0) = us"
    using at(7) by (auto simp del: pad.simps)
  show ?thesis unfolding ts_parse_def Let_def n us ..
qed

lemma ts_parse_text:
  assumes "in_range t"
  shows "ts_parse (ts_text t) = t"
proof -
  define u where "u = nat (t + EPOCH)"
  have t: "int u - EPOCH = t" and u: "u < 3652059 * 86400000000" using assms by (simp_all add: u_def in_range_def nat_less_iff)
  define h where "h = u div 1000000 div 60 div 60"
  obtain j i d where date: "date_of (h div 24) = [Suc j, Suc i, Suc d]"
    and day: "h div 24 = days_before j + sum_list (take i (month_lengths (Suc j))) + d"
    by (rule date_of_spec [of "h div 24"])
  have f: "fields u = [Suc j, Suc i, Suc d, h mod 24, u div 1000000 div 60 mod 60, u div 1000000 mod 60, u mod 1000000]"
    using date by (simp add: fields_def second_fields_def minute_fields_def hour_fields_def h_def)
  have "fits (fields u)" by (rule fields_fit [OF u])
  then have "ts_parse (iso_text (fields u)) = int ((((h div 24 * 24 + h mod 24) * 60 + u div 1000000 div 60 mod 60) * 60
      + u div 1000000 mod 60) * 1000000 + u mod 1000000) - EPOCH"
    unfolding f by (subst ts_parse_iso) (simp_all add: day)
  also have "\<dots> = int u - EPOCH" unfolding h_def by (simp only: div_mult_mod_eq)
  finally show ?thesis by (simp add: ts_text_def u_def [symmetric] t)
qed

text \<open>
  C30. Stored instants stand for the instants. Between the years 1 and 9999, an instant that is written to the database
  and read back is the same, two instants have the same text only when they are the same (so a key over the text is a
  key over the instant), and the engine's byte order of the texts, with and without a fraction of a second, is the order
  of the instants.
\<close>

theorem stored_instants_stand_for_instants:
  assumes "in_range s" "in_range t"
  shows "ts_parse (ts_text t) = t \<and> (ts_text s = ts_text t \<longleftrightarrow> s = t) \<and> (text_less (ts_text s) (ts_text t) \<longleftrightarrow> s < t)"
proof -
  have "text_less (ts_text s) (ts_text t) \<longleftrightarrow> s < t"
    using ts_text_less [OF assms] ts_text_less [OF assms(2,1)] text_less_asym text_less_irrefl
    by (metis linorder_neqE_linordered_idom)
  then show ?thesis using ts_parse_text [OF assms(1)] ts_parse_text [OF assms(2)] by metis
qed

lemma pad_numeral: "pad (numeral k) n = pad (pred_numeral k) (n div 10) @ [char_of (48 + n mod 10)]"
  by (simp only: numeral_eq_Suc [of k] pad.simps)

lemma digit_chars:
  "char_of (48 :: nat) = CHR ''0''" "char_of (49 :: nat) = CHR ''1''" "char_of (50 :: nat) = CHR ''2''"
  "char_of (51 :: nat) = CHR ''3''" "char_of (52 :: nat) = CHR ''4''" "char_of (53 :: nat) = CHR ''5''"
  "char_of (54 :: nat) = CHR ''6''" "char_of (55 :: nat) = CHR ''7''" "char_of (56 :: nat) = CHR ''8''"
  "char_of (57 :: nat) = CHR ''9''"
  by code_simp+

text \<open>The last instant of February 2024 and half a second later, as the database shows them.\<close>

lemma stored_instants_example:
  "ts_text 1709251199000000 = ''2024-02-29T23:59:59+00:00''" "ts_text 1709251199500000 = ''2024-02-29T23:59:59.500000+00:00''"
proof -
  have "fields (nat (1709251199000000 + EPOCH)) = [2024, 2, 29, 23, 59, 59, 0]"
    "fields (nat (1709251199500000 + EPOCH)) = [2024, 2, 29, 23, 59, 59, 500000]"
    by (simp_all add: EPOCH_def fields_def second_fields_def minute_fields_def hour_fields_def date_of_def year_from.simps
        year_days_def leap_def month_lengths_def)
  then show "ts_text 1709251199000000 = ''2024-02-29T23:59:59+00:00''"
    "ts_text 1709251199500000 = ''2024-02-29T23:59:59.500000+00:00''"
    unfolding ts_text_def by (simp_all add: pad_numeral digit_chars)
qed

lemma stored_instants_stand_for_instants_witness:
  "ts_parse (ts_text 1709251199500000) = 1709251199500000 \<and> text_less (ts_text 1709251199000000) (ts_text 1709251199500000)"
  using stored_instants_stand_for_instants [of 1709251199000000 1709251199500000] by (simp add: in_range_def EPOCH_def)

end
