(* ===== verification/Decimal_Text.thy ===== *)
theory Decimal_Text
  imports Numerals
begin

text \<open>
  Decimals as the database stores them: the text of \<open>str\<close> of a finite \<open>Decimal\<close>, and the proof that \<open>Decimal\<close> of
  that text has the same value, whatever the sign, the coefficient and the exponent. This is why a row of the model may
  hold the value alone.
\<close>

section \<open>The text of a decimal\<close>

text \<open>A finite \<open>Decimal\<close> object: one value has many of them (\<open>1\<close>, \<open>1.0\<close>, \<open>1E+0\<close>).\<close>

datatype decimal = Decimal (dm_neg: bool) (dm_coeff: nat) (dm_exp: int)

definition dm_value :: "decimal \<Rightarrow> rat" where
  "dm_value d = (if dm_neg d then - 1 else 1) * of_nat (dm_coeff d) * bpow 10 (dm_exp d)"

text \<open>The digits before the point, the digits after it and the exponent, in the scientific notation of \<open>decimal\<close>.\<close>

definition zeros :: "nat \<Rightarrow> string" where
  "zeros n = replicate n (CHR ''0'')"

definition split_point :: "string \<Rightarrow> int \<Rightarrow> string \<times> string" where
  "split_point ds place =
     (if place \<le> 0 then (''0'', zeros (nat (- place)) @ ds)
      else if int (length ds) \<le> place then (ds @ zeros (nat (place - int (length ds))), [])
      else (take (nat place) ds, drop (nat place) ds))"

definition exp_text :: "int \<Rightarrow> string" where
  "exp_text e = (if e = 0 then [] else CHR ''E'' # (if e < 0 then CHR ''-'' else CHR ''+'') # show_digits \<bar>e\<bar>)"

definition dm_text :: "decimal \<Rightarrow> string" where
  "dm_text d =
     (let ds = show_digits (int (dm_coeff d)); left = dm_exp d + int (length ds);
          place = (if dm_exp d \<le> 0 \<and> - 6 < left then left else 1) in
      case split_point ds place of (whole, frc) \<Rightarrow>
        (if dm_neg d then ''-'' else []) @ whole @ (if frc = [] then [] else CHR ''.'' # frc) @ exp_text (left - place))"

section \<open>Its parts\<close>

definition all_digits :: "string \<Rightarrow> bool" where
  "all_digits s \<longleftrightarrow> list_all is_digit s"

lemma all_digits_simps [simp]:
  "all_digits []" "all_digits (s @ t) \<longleftrightarrow> all_digits s \<and> all_digits t"
  "all_digits (c # s) \<longleftrightarrow> is_digit c \<and> all_digits s" "is_digit (CHR ''0'')"
  by (simp_all add: all_digits_def is_digit_def)

lemma all_digits_zeros [simp]: "all_digits (zeros n)"
  by (induction n) (simp_all add: zeros_def)

lemma length_zeros [simp]: "length (zeros n) = n"
  by (simp add: zeros_def)

lemma all_digits_show [simp]: "0 \<le> n \<Longrightarrow> all_digits (show_digits n)"
  using show_digits_digits [of n] by (simp add: all_digits_def isdigit_def)

lemma all_digits_part: "all_digits ds \<Longrightarrow> all_digits (take n ds) \<and> all_digits (drop n ds)"
  by (auto simp: all_digits_def list_all_iff dest: in_set_takeD in_set_dropD)

text \<open>Nothing but a digit, a sign, a point and an E is in the text, so nothing is stripped, dropped or cut early.\<close>

lemma digit_no:
  assumes "all_digits s" "c \<in> set s"
  shows "\<not> is_space c \<and> c \<noteq> CHR ''_'' \<and> c \<noteq> CHR ''.'' \<and> c \<noteq> CHR ''e'' \<and> c \<noteq> CHR ''E'' \<and> c \<noteq> CHR ''-'' \<and> c \<noteq> CHR ''+''"
proof -
  have d: "is_digit c" using assms by (simp add: all_digits_def list_all_iff)
  then have "c \<noteq> CHR ''.'' \<and> c \<noteq> CHR ''e'' \<and> c \<noteq> CHR ''E''" by (auto simp: is_digit_def)
  then show ?thesis using digit_plain [OF d] by blast
qed

lemma parse_zeros [simp]: "parse_nat (zeros n @ ds) = parse_nat ds" "parse_nat (CHR ''0'' # ds) = parse_nat ds"
  by (induction n) (simp_all add: parse_nat_def zeros_def)

lemma takeWhile_stop: "\<forall>c \<in> set s. P c \<Longrightarrow> t = [] \<or> \<not> P (hd t) \<Longrightarrow> takeWhile P (s @ t) = s"
  by (cases t) auto

lemma mantissa_point:
  assumes "all_digits whole" "all_digits frc" "whole \<noteq> []"
  shows "mantissa (whole @ (if frc = [] then [] else CHR ''.'' # frc)) = Some (parse_nat (whole @ frc), length frc)"
proof -
  have "takeWhile (\<lambda>c. c \<noteq> CHR ''.'') (whole @ (if frc = [] then [] else CHR ''.'' # frc)) = whole"
    by (rule takeWhile_stop) (use assms(1) digit_no in auto)
  then show ?thesis using assms by (auto simp: mantissa_def Let_def isdigit_def all_digits_def)
qed

lemma exponent_text: "e \<noteq> 0 \<Longrightarrow> exponent (tl (exp_text e)) = Some e"
  using show_digits_digits [of e] parse_show_digits [of e] show_digits_digits [of "- e"] parse_show_digits [of "- e"]
  by (cases "e < 0") (simp_all add: exponent_def exp_text_def signed_def)

text \<open>A number is read from its three parts.\<close>

lemma plain_number_parts:
  assumes "all_digits whole" "all_digits frc" "whole \<noteq> []"
  shows "plain_number (whole @ (if frc = [] then [] else CHR ''.'' # frc) @ exp_text e) =
    Some (of_int (parse_nat (whole @ frc)) * bpow 10 (e - int (length frc)))"
proof -
  let ?m = "whole @ (if frc = [] then [] else CHR ''.'' # frc)"
  have m: "takeWhile (\<lambda>c. c \<notin> set ''eE'') (?m @ exp_text e) = ?m"
    by (rule takeWhile_stop) (use assms digit_no in \<open>auto simp: exp_text_def\<close>)
  have cut: "drop (length ?m) (?m @ exp_text e) = exp_text e" by simp
  have e: "(if exp_text e = [] then Some 0 else exponent (tl (exp_text e))) = Some e"
    using exponent_text [of e] by (cases "e = 0") (simp_all add: exp_text_def)
  show ?thesis
    unfolding plain_number_def Let_def append_assoc [symmetric] m cut e mantissa_point [OF assms] by simp
qed

text \<open>The body of the text begins with a digit: it is no infinity and no NaN.\<close>

lemma lower_digit: "is_digit c \<Longrightarrow> ascii_lower (c # s) = c # ascii_lower s"
  by (auto simp: ascii_lower_def is_digit_def)

lemma finite_body:
  assumes "is_digit c"
  shows "ascii_lower (c # s) \<notin> {''inf'', ''infinity''}" "\<not> nan_text (ascii_lower (c # s))"
  using assms by (auto simp: lower_digit nan_text_def Let_def is_digit_def)

lemma py_decimal_parts:
  assumes "all_digits whole" "all_digits frc" "whole \<noteq> []"
  shows "py_decimal ((if neg then ''-'' else []) @ whole @ (if frc = [] then [] else CHR ''.'' # frc) @ exp_text e) =
    Inr (Finite ((if neg then - 1 else 1) * of_int (parse_nat (whole @ frc)) * bpow 10 (e - int (length frc))))"
proof -
  let ?body = "whole @ (if frc = [] then [] else CHR ''.'' # frc) @ exp_text e"
  let ?s = "(if neg then ''-'' else []) @ ?body"
  have e: "all_digits (show_digits \<bar>e\<bar>)" by simp
  have c: "\<not> is_space c \<and> c \<noteq> CHR ''_''" if "c \<in> set ?s" for c
    proof -
    have "c \<in> set whole \<or> c \<in> set frc \<or> c \<in> set (show_digits \<bar>e\<bar>) \<or> c \<in> {CHR ''-'', CHR ''+'', CHR ''.'', CHR ''E''}"
      using that by (auto simp: exp_text_def split: if_splits)
    then show ?thesis
      using digit_no [OF assms(1), of c] digit_no [OF assms(2), of c] digit_no [OF e, of c] by (auto simp: is_space_def)
  qed
  have plain: "strip ?s = ?s" "filter (\<lambda>c. c \<noteq> CHR ''_'') ?s = ?s"
    using c by (blast intro: strip_id, simp only: filter_id_conv, blast)
  obtain d ds where d: "whole = d # ds" "is_digit d" using assms by (cases whole) (auto simp: all_digits_def)
  have sgn: "signed ?s = (neg, ?body)"
    using d digit_plain [of d] by (auto simp: signed_def)
  have finite: "ascii_lower ?body \<notin> {''inf'', ''infinity''}" "\<not> nan_text (ascii_lower ?body)"
    unfolding d(1) append.simps by (rule finite_body [OF d(2)])+
  show ?thesis
    unfolding py_decimal_def plain sgn prod.case if_not_P [OF finite(1)] if_not_P [OF finite(2)] plain_number_parts [OF assms]
      option.case
    by (cases neg) simp_all
qed

section \<open>What is written is read back\<close>

lemma show_digits_ne [simp]: "show_digits n \<noteq> []"
  by (subst show_digits.simps) simp

theorem decimal_text_is_read_back: "py_decimal (dm_text d) = Inr (Finite (dm_value d))"
proof -
  obtain neg n e where d: "d = Decimal neg n e" by (cases d)
  define ds where "ds = show_digits (int n)"
  have ds: "all_digits ds" "ds \<noteq> []" "parse_nat ds = int n" by (simp_all add: ds_def parse_show_digits)
  define left where "left = e + int (length ds)"
  define place where "place = (if e \<le> 0 \<and> - 6 < left then left else 1)"
  obtain whole frc where wf: "split_point ds place = (whole, frc)" by fastforce
  have len: "1 \<le> length ds" using ds(2) by (cases ds) simp_all
  have place: "place \<le> int (length ds)" using len by (auto simp: place_def left_def)
  have parts: "all_digits whole" "all_digits frc" "whole \<noteq> []" "parse_nat (whole @ frc) = int n"
    "int (length frc) = int (length ds) - place"
    using wf place ds all_digits_part [OF ds(1), of "nat place"]
    by (auto simp: split_point_def zeros_def [of 0] split: if_splits)
  have "dm_text d = (if neg then ''-'' else []) @ whole @ (if frc = [] then [] else CHR ''.'' # frc) @ exp_text (left - place)"
    unfolding dm_text_def Let_def d decimal.sel ds_def [symmetric] left_def [symmetric] place_def [symmetric] wf prod.case ..
  then have "py_decimal (dm_text d) =
      Inr (Finite ((if neg then - 1 else 1) * of_int (parse_nat (whole @ frc)) * bpow 10 (left - place - int (length frc))))"
    by (simp only: py_decimal_parts [OF parts(1-3)])
  moreover have "left - place - int (length frc) = e" using parts(5) by (simp add: left_def)
  ultimately show ?thesis by (simp add: dm_value_def d parts(4))
qed

end
