(* ===== verification/Exec_Types.thy ===== *)
theory Exec_Types
  imports Decimal_Arith
begin

text \<open>
  The value types of \<open>polyperps/execution/types.py\<close> and \<open>polyperps/exchange/types.py\<close>: our own
  frozen dataclasses on both sides of the executor boundary. Field names carry a short prefix per
  record. A \<open>datetime\<close> is the number of microseconds since the epoch, in UTC: \<open>_require_aware\<close>
  rejects every other one when a value is built.
\<close>

type_synonym time = int

definition seconds :: "int \<Rightarrow> time" where "seconds n = n * 1000000"
definition minutes :: "int \<Rightarrow> time" where "minutes n = n * 60000000"
definition hours :: "int \<Rightarrow> time" where "hours n = n * 3600000000"
definition days :: "int \<Rightarrow> time" where "days n = n * 86400000000"

section \<open>exchange/types.py\<close>

datatype source_type =
  POLYMARKET_WS | POLYMARKET_REST | PROXY_HYPERLIQUID | PROXY_CEX | SYNTHETIC_TEST

text \<open>
  What \<open>_require_aware\<close> sees of a field: not a datetime, a naive one, or one with an offset.
  The check runs over the fields in order and raises at the first bad one.
\<close>

datatype field_value = NotDatetime | Naive | Offset int

fun require_aware :: "(string \<times> field_value) list \<Rightarrow> unit res" where
  "require_aware [] = Inr ()"
| "require_aware ((name, v) # fs) =
     (case v of
        NotDatetime \<Rightarrow> require_aware fs
      | Naive \<Rightarrow> Inl (Exn ValueError [S name, S '' must be timezone-aware''])
      | Offset d \<Rightarrow>
          if d \<noteq> 0 then Inl (Exn ValueError [S name, S '' must be UTC, got offset '', I d])
          else require_aware fs)"

record instrument =
  is_id :: int
  is_symbol :: string
  is_category :: string
  is_funding_interval :: string
  is_max_leverage :: int
  is_price_decimals :: int
  is_quantity_decimals :: int
  is_min_notional :: dec
  is_isolated_only :: bool

record tick =
  tk_instrument :: int
  tk_mark :: dec
  tk_index :: dec
  tk_last :: dec
  tk_funding :: dec
  tk_next_funding :: time
  tk_exchange_ts :: time
  tk_received_ts :: time
  tk_source :: source_type
  tk_sequence :: "int option"

record book_level =
  bl_price :: dec
  bl_quantity :: dec

record book_snapshot =
  bs_instrument :: int
  bs_bids :: "book_level list"
  bs_asks :: "book_level list"
  bs_exchange_ts :: time
  bs_received_ts :: time
  bs_source :: source_type
  bs_sequence :: "int option"

record funding_obs =
  fo_instrument :: int
  fo_rate :: dec
  fo_exchange_ts :: time
  fo_received_ts :: time
  fo_source :: source_type

record candle =
  cd_instrument :: int
  cd_interval :: string
  cd_open_ts :: time
  cd_open :: dec
  cd_high :: dec
  cd_low :: dec
  cd_close :: dec
  cd_volume :: dec
  cd_trades :: int
  cd_received_ts :: time
  cd_source :: source_type

record fee_schedule =
  fs_category :: string
  fs_taker :: dec
  fs_maker :: dec
  fs_fetched_at :: time

section \<open>execution/types.py\<close>

datatype rstate = FLAT | ENTRY_PENDING | OPEN | EXIT_PENDING | LIQUIDATED | HALTED

fun state_value :: "rstate \<Rightarrow> string" where
  "state_value FLAT = ''FLAT''"
| "state_value ENTRY_PENDING = ''ENTRY_PENDING''"
| "state_value OPEN = ''OPEN''"
| "state_value EXIT_PENDING = ''EXIT_PENDING''"
| "state_value LIQUIDATED = ''LIQUIDATED''"
| "state_value HALTED = ''HALTED''"

datatype side = Buy | Sell

datatype ack_status = AckAccepted | AckRejected

text \<open>
  \<open>OrderStatus\<close> of the executor boundary and the further statuses the router and the recovery
  write into an order row.
\<close>

datatype ostatus =
    Accepted | Resting | Partial | Filled | Cancelled | Auto_Cancelled | Rejected
  | Submitting | Lost | Errored | Shadow_Refused | Timeout_Adopted | Adopted | Abandoned

fun status_value :: "ostatus \<Rightarrow> string" where
  "status_value Accepted = ''accepted''"
| "status_value Resting = ''open''"
| "status_value Partial = ''partial''"
| "status_value Filled = ''filled''"
| "status_value Cancelled = ''cancelled''"
| "status_value Auto_Cancelled = ''auto_cancelled''"
| "status_value Rejected = ''rejected''"
| "status_value Submitting = ''submitting''"
| "status_value Lost = ''lost''"
| "status_value Errored = ''error''"
| "status_value Shadow_Refused = ''shadow_refused''"
| "status_value Timeout_Adopted = ''timeout_adopted''"
| "status_value Adopted = ''adopted''"
| "status_value Abandoned = ''abandoned''"

record intent =
  it_instrument :: int
  it_side :: side
  it_quantity :: dec
  it_notional :: dec
  it_reduce_only :: bool
  it_reason :: string

record order_request =
  rq_cid :: string
  rq_instrument :: int
  rq_side :: side
  rq_quantity :: dec
  rq_reduce_only :: bool
  rq_ts :: time

record order_ack =
  ak_cid :: string
  ak_exchange_id :: "string option"
  ak_status :: ack_status
  ak_reason :: text_t
  ak_ts :: time

record stop_ack =
  sa_instrument :: int
  sa_trigger :: dec
  sa_exchange_id :: "string option"
  sa_ts :: time

record order_update =
  ou_cid :: string
  ou_status :: ostatus
  ou_filled :: dec
  ou_ts :: time

record fill_update =
  fu_cid :: string
  fu_instrument :: int
  fu_side :: side
  fu_quantity :: dec
  fu_price :: dec
  fu_fee :: dec
  fu_ts :: time

text \<open>What an executor's event stream yields.\<close>

datatype event = EvOrder order_update | EvFill fill_update | EvReconcileNow string

record position_view =
  pv_instrument :: int
  pv_size :: dec
  pv_entry :: dec
  pv_notional :: dec
  pv_leverage :: int
  pv_liq_price :: "dec option"
  pv_unrealised :: dec
  pv_funding :: dec

record account_snapshot =
  sn_equity :: dec
  sn_positions :: "position_view list"
  sn_open_orders :: "string list"
  sn_stops :: "(int \<times> dec) list"
  sn_in_liquidation :: bool
  sn_ts :: time

text \<open>\<open>AccountSnapshot.position\<close>: the first view of the instrument.\<close>

definition position_of :: "account_snapshot \<Rightarrow> int \<Rightarrow> position_view option" where
  "position_of sn iid = find (\<lambda>p. pv_instrument p = iid) (sn_positions sn)"

record decision_row =
  dr_run :: string
  dr_instrument :: int
  dr_seq :: int
  dr_ts :: time
  dr_state_before :: rstate
  dr_target :: "dec option"
  dr_verdicts :: "(string \<times> text_t) list"
  dr_intent :: "intent option"
  dr_cid :: "string option"
  dr_note :: string

record order_row =
  or_cid :: string
  or_run :: string
  or_instrument :: int
  or_side :: side
  or_quantity :: dec
  or_reduce_only :: bool
  or_status :: ostatus
  or_exchange_id :: "string option"
  or_filled :: dec
  or_avg_price :: "dec option"
  or_submitted_at :: time
  or_updated_at :: time
  or_reason :: text_t

record position_row =
  pr_run :: string
  pr_instrument :: int
  pr_state :: rstate
  pr_size :: dec
  pr_entry :: "dec option"
  pr_stop :: "dec option"
  pr_stop_order_id :: "string option"
  pr_funding :: dec
  pr_updated_at :: time

section \<open>Persisted payloads\<close>

text \<open>A position of the paper account (\<open>sim_executor._Pos\<close>).\<close>

record sim_pos =
  sp_size :: dec
  sp_entry :: dec
  sp_funding :: dec

text \<open>The JSON text of the paper account; the two fields that old files lack are options.\<close>

record sim_json =
  js_cash :: dec
  js_start_equity :: "dec option"
  js_n :: int
  js_positions :: "(int \<times> sim_pos) list"
  js_stops :: "(int \<times> dec) list"
  js_marks :: "(int \<times> dec) list option"

text \<open>\<open>state_recovery.RecoveryReport\<close>.\<close>

record recovery_report =
  rp_adopted :: "string list"
  rp_abandoned :: "string list"
  rp_cancelled :: "string list"
  rp_stops_replaced :: "int list"
  rp_unknown_positions :: "int list"
  rp_adopted_untracked :: "int list"
  rp_states :: "(int \<times> string) list"
  rp_failed :: "text_t option"

lemma position_of_Some: "position_of sn iid = Some p \<Longrightarrow> pv_instrument p = iid \<and> p \<in> set (sn_positions sn)"
  by (auto simp: position_of_def find_Some_iff)

lemma position_of_None: "position_of sn iid = None \<longleftrightarrow> (\<forall>p\<in>set (sn_positions sn). pv_instrument p \<noteq> iid)"
  by (auto simp: position_of_def find_None_iff)

end
