(* ===== verification/Alerting.thy ===== *)
theory Alerting
  imports Exec_Types
begin

text \<open>
  \<open>polyperps/monitor/alerts.py\<close>: alerts, the pure threshold helpers, and the alerter with its
  three sinks. A sink may raise; nothing it does reaches the router.
\<close>

section \<open>Alerts\<close>

datatype level = INFO | WARN | CRITICAL

record alert =
  al_level :: level
  al_kind :: string
  al_instrument :: "int option"
  al_detail :: "(string \<times> text_t) list"
  al_ts :: time

record alert_thresholds =
  at_margin_warn :: dec
  at_margin_critical :: dec
  at_pnl_warn :: dec
  at_pnl_critical :: dec
  at_funding_drift_x :: dec

definition ALERT_THRESHOLDS :: alert_thresholds where
  "ALERT_THRESHOLDS = \<lparr>at_margin_warn = 35/100, at_margin_critical = 28/100,
     at_pnl_warn = - 5/100, at_pnl_critical = - 10/100, at_funding_drift_x = 3\<rparr>"

definition margin_alert :: "dec \<Rightarrow> int \<Rightarrow> time \<Rightarrow> alert_thresholds \<Rightarrow> alert option" where
  "margin_alert d iid ts t =
     (let mk = (\<lambda>lv. Some \<lparr>al_level = lv, al_kind = ''margin_ratio'', al_instrument = Some iid,
                  al_detail = [(''liq_distance'', [D d])], al_ts = ts\<rparr>) in
      if d < at_margin_critical t then mk CRITICAL
      else if d < at_margin_warn t then mk WARN
      else None)"

definition pnl_alert :: "dec \<Rightarrow> dec \<Rightarrow> time \<Rightarrow> alert_thresholds \<Rightarrow> alert option res" where
  "pnl_alert equity start ts t =
     (if start \<le> 0 then Inr None
      else rbind (ddiv (dsub equity start) start) (\<lambda>dd.
        let mk = (\<lambda>lv. Some \<lparr>al_level = lv, al_kind = ''pnl_drawdown'', al_instrument = None,
                    al_detail = [(''drawdown'', [D dd])], al_ts = ts\<rparr>) in
        Inr (if dd \<le> at_pnl_critical t then mk CRITICAL
             else if dd \<le> at_pnl_warn t then mk WARN
             else None)))"

definition funding_drift_alert ::
  "dec \<Rightarrow> dec \<Rightarrow> int \<Rightarrow> time \<Rightarrow> alert_thresholds \<Rightarrow> alert option res" where
  "funding_drift_alert realised expected iid ts t =
     (if expected = 0 then Inr None
      else rbind (ddiv (dabs realised) (dabs expected)) (\<lambda>ratio.
        Inr (if ratio < at_funding_drift_x t then None
             else Some \<lparr>al_level = WARN, al_kind = ''funding_drift'', al_instrument = Some iid,
               al_detail = [(''realised'', [D realised]), (''expected'', [D expected]), (''ratio'', [D ratio])],
               al_ts = ts\<rparr>)))"

section \<open>The alerter and its sinks\<close>

text \<open>
  The sinks' world: the journal, the rows of the alerts table, and the Telegram messages that were
  posted. Whether the database accepts a row and whether the HTTP post succeeds are outside the
  program; the two booleans of \<open>sink_env\<close> say so.
\<close>

record sink_env =
  se_db_ok :: "alert \<Rightarrow> bool"
  se_post_ok :: "alert \<Rightarrow> bool"

record sink_state =
  sk_log :: "(level \<times> string \<times> alert) list"
  sk_rows :: "(string \<times> alert) list"
  sk_posted :: "(string \<times> alert) list"
  sk_warnings :: nat

datatype sink = LogSink | SqliteSink | TelegramSink

fun sink_emit :: "sink_env \<Rightarrow> string \<Rightarrow> alert \<Rightarrow> sink \<Rightarrow> (sink_state, unit) eff" where
  "sink_emit e run a LogSink = upd (\<lambda>s. s\<lparr>sk_log := sk_log s @ [(al_level a, run, a)]\<rparr>)"
| "sink_emit e run a SqliteSink =
     (if se_db_ok e a then upd (\<lambda>s. s\<lparr>sk_rows := sk_rows s @ [(run, a)]\<rparr>)
      else raise (Exn (OtherException ''OperationalError'') []))"
| "sink_emit e run a TelegramSink =
     (if al_level a \<noteq> CRITICAL then ret ()
      else if se_post_ok e a then upd (\<lambda>s. s\<lparr>sk_posted := sk_posted s @ [(run, a)]\<rparr>)
      else upd (\<lambda>s. s\<lparr>sk_warnings := Suc (sk_warnings s)\<rparr>))"

definition alerter_emit :: "sink_env \<Rightarrow> string \<Rightarrow> sink list \<Rightarrow> alert \<Rightarrow> (sink_state, unit) eff" where
  "alerter_emit e run sinks a =
     forM sinks (\<lambda>sk. attempt (sink_emit e run a sk)
       (\<lambda>_. upd (\<lambda>s. s\<lparr>sk_warnings := Suc (sk_warnings s)\<rparr>)))"

text \<open>\<open>default_sinks\<close>: the journal, the table when a connection is given, Telegram when both secrets load.\<close>

definition default_sinks :: "bool \<Rightarrow> string res \<Rightarrow> string res \<Rightarrow> sink list res" where
  "default_sinks with_conn token chat =
     (let base = (if with_conn then [LogSink, SqliteSink] else [LogSink]) in
      case rbind token (\<lambda>_. chat) of
        Inr _ \<Rightarrow> Inr (base @ [TelegramSink])
      | Inl e \<Rightarrow> if exc_class e = SecretUnavailable then Inr base else Inl e)"

section \<open>Properties\<close>

lemma sink_emit_caught:
  "attempt (sink_emit e run a sk) (\<lambda>_. upd (\<lambda>s. s\<lparr>sk_warnings := Suc (sk_warnings s)\<rparr>)) s = (Inr (), s') \<Longrightarrow>
     sk_log s' = sk_log s @ (if sk = LogSink then [(al_level a, run, a)] else [])
     \<and> sk_rows s' = sk_rows s @ (if sk = SqliteSink \<and> se_db_ok e a then [(run, a)] else [])
     \<and> sk_posted s' = sk_posted s @
         (if sk = TelegramSink \<and> al_level a = CRITICAL \<and> se_post_ok e a then [(run, a)] else [])"
  by (cases sk) (auto simp: attempt_def upd_def ret_def raise_def split: if_splits)

lemma sink_emit_returns:
  "\<exists>s'. attempt (sink_emit e run a sk) (\<lambda>_. upd (\<lambda>s. s\<lparr>sk_warnings := Suc (sk_warnings s)\<rparr>)) s = (Inr (), s')"
  by (cases sk) (auto simp: attempt_def upd_def ret_def raise_def)

text \<open>
  Emitting an alert never raises into the router, whatever the sinks do. Every sink of the list is
  tried: each log sink logs it, each table sink stores it when the database takes it, and Telegram gets
  it exactly when it is critical and the post succeeds. Nothing already delivered is lost.
\<close>

theorem alerter_delivers:
  "\<exists>s'. alerter_emit e run sinks a s = (Inr (), s')
     \<and> sk_log s' = sk_log s @ replicate (count_list sinks LogSink) (al_level a, run, a)
     \<and> sk_rows s' = sk_rows s @ (if se_db_ok e a then replicate (count_list sinks SqliteSink) (run, a) else [])
     \<and> sk_posted s' = sk_posted s @ (if al_level a = CRITICAL \<and> se_post_ok e a
          then replicate (count_list sinks TelegramSink) (run, a) else [])"
proof (induction sinks arbitrary: s)
  case (Cons sk sinks)
  obtain s1 where s1: "attempt (sink_emit e run a sk) (\<lambda>_. upd (\<lambda>s. s\<lparr>sk_warnings := Suc (sk_warnings s)\<rparr>)) s = (Inr (), s1)"
    using sink_emit_returns by blast
  have "alerter_emit e run (sk # sinks) a s = alerter_emit e run sinks a s1"
    by (simp add: alerter_emit_def andthen_def bind_def s1)
  then show ?case using Cons.IH [of s1] sink_emit_caught [OF s1] by auto
qed (simp add: alerter_emit_def ret_def)

end
