(* ===== verification/Store.thy ===== *)
theory Store
  imports Alerting
begin

text \<open>
  \<open>polyperps/storage/db.py\<close>: the SQLite tables as lists of typed rows in rowid order, and the
  statements the program runs on them. A \<open>Decimal\<close> is stored as its exact text and a datetime as
  ISO-8601 text in UTC, so a row reads back as it was written; ISO text in UTC orders as time
  does. Each operation commits before it returns.
\<close>

section \<open>The database\<close>

record rollup_row =
  hr_instrument :: int
  hr_hour :: time
  hr_index :: "dec option"
  hr_spread :: "dec option"
  hr_open_mark :: "dec option"

record rejection_row =
  rj_instrument :: int
  rj_at :: time
  rj_reason :: string
  rj_detail :: text_t

record account_row =
  ac_run :: string
  ac_snap :: account_snapshot
  ac_executor :: string
  ac_start_equity :: dec

record db =
  db_ticks :: "tick list"
  db_funding :: "funding_obs list"
  db_books :: "book_snapshot list"
  db_candles :: "candle list"
  db_rejections :: "rejection_row list"
  db_fees :: "fee_schedule list"
  db_decisions :: "decision_row list"
  db_orders :: "order_row list"
  db_positions :: "position_row list"
  db_sim :: "(string \<times> sim_json) list"
  db_rollup :: "rollup_row list"
  db_accounts :: "account_row list"
  db_alerts :: "(string \<times> alert) list"
  db_recovery :: "(string \<times> time \<times> recovery_report) list"

definition empty_db :: db where
  "empty_db = \<lparr>db_ticks = [], db_funding = [], db_books = [], db_candles = [], db_rejections = [],
     db_fees = [], db_decisions = [], db_orders = [], db_positions = [], db_sim = [], db_rollup = [],
     db_accounts = [], db_alerts = [], db_recovery = []\<rparr>"

text \<open>The two upsert shapes of the file: \<open>INSERT OR IGNORE\<close> and \<open>ON CONFLICT DO UPDATE\<close>.\<close>

definition insert_or_ignore :: "('r \<Rightarrow> 'k) \<Rightarrow> 'r \<Rightarrow> 'r list \<Rightarrow> bool \<times> 'r list" where
  "insert_or_ignore key r rows =
     (if key r \<in> key ` set rows then (False, rows) else (True, rows @ [r]))"

fun upsert :: "('r \<Rightarrow> 'k) \<Rightarrow> ('r \<Rightarrow> 'r \<Rightarrow> 'r) \<Rightarrow> 'r \<Rightarrow> 'r list \<Rightarrow> 'r list" where
  "upsert key merge r [] = [r]"
| "upsert key merge r (x # xs) =
     (if key x = key r then merge x r # xs else x # upsert key merge r xs)"

section \<open>Decisions\<close>

definition decision_key :: "decision_row \<Rightarrow> string \<times> int \<times> int" where
  "decision_key d = (dr_run d, dr_instrument d, dr_seq d)"

text \<open>A plain \<open>INSERT\<close>: a duplicate primary key raises.\<close>

definition insert_decision :: "decision_row \<Rightarrow> (db, unit) eff" where
  "insert_decision r = (\<lambda>d.
     if decision_key r \<in> decision_key ` set (db_decisions d) then (Inl (Exn IntegrityError []), d)
     else (Inr (), d\<lparr>db_decisions := db_decisions d @ [r]\<rparr>))"

definition list_decisions :: "db \<Rightarrow> string \<Rightarrow> int \<Rightarrow> decision_row list" where
  "list_decisions d run iid =
     sort_key dr_seq (filter (\<lambda>r. dr_run r = run \<and> dr_instrument r = iid) (db_decisions d))"

section \<open>Orders\<close>

definition merge_order :: "order_row \<Rightarrow> order_row \<Rightarrow> order_row" where
  "merge_order old new = old\<lparr>or_status := or_status new, or_exchange_id := or_exchange_id new,
     or_filled := or_filled new, or_avg_price := or_avg_price new,
     or_updated_at := or_updated_at new, or_reason := or_reason new\<rparr>"

definition upsert_order :: "order_row \<Rightarrow> db \<Rightarrow> db" where
  "upsert_order r d = d\<lparr>db_orders := upsert or_cid merge_order r (db_orders d)\<rparr>"

definition get_order :: "db \<Rightarrow> string \<Rightarrow> order_row option" where
  "get_order d cid = find (\<lambda>r. or_cid r = cid) (db_orders d)"

definition list_orders :: "db \<Rightarrow> string \<Rightarrow> order_row list" where
  "list_orders d run = sort_key or_submitted_at (filter (\<lambda>r. or_run r = run) (db_orders d))"

definition list_orders_status :: "db \<Rightarrow> string \<Rightarrow> ostatus \<Rightarrow> order_row list" where
  "list_orders_status d run st =
     sort_key or_submitted_at (filter (\<lambda>r. or_run r = run \<and> or_status r = st) (db_orders d))"

section \<open>Local positions\<close>

definition position_key :: "position_row \<Rightarrow> string \<times> int" where
  "position_key p = (pr_run p, pr_instrument p)"

definition merge_position :: "position_row \<Rightarrow> position_row \<Rightarrow> position_row" where
  "merge_position old new = old\<lparr>pr_state := pr_state new, pr_size := pr_size new,
     pr_entry := pr_entry new, pr_stop := pr_stop new, pr_stop_order_id := pr_stop_order_id new,
     pr_funding := pr_funding new, pr_updated_at := pr_updated_at new\<rparr>"

definition upsert_position_local :: "position_row \<Rightarrow> db \<Rightarrow> db" where
  "upsert_position_local p d =
     d\<lparr>db_positions := upsert position_key merge_position p (db_positions d)\<rparr>"

text \<open>The dict keyed by instrument; a later row of the same key replaces an earlier one.\<close>

definition get_positions_local :: "db \<Rightarrow> string \<Rightarrow> (int \<times> position_row) list" where
  "get_positions_local d run =
     foldl (\<lambda>m r. AList.update (pr_instrument r) r m) []
       (filter (\<lambda>r. pr_run r = run) (db_positions d))"

section \<open>Accounts, alerts, recovery\<close>

definition save_sim_account :: "string \<Rightarrow> sim_json \<Rightarrow> db \<Rightarrow> db" where
  "save_sim_account run text d = d\<lparr>db_sim := AList.update run text (db_sim d)\<rparr>"

definition load_sim_account :: "db \<Rightarrow> string \<Rightarrow> sim_json option" where
  "load_sim_account d run = map_of (db_sim d) run"

definition save_account_snapshot ::
  "string \<Rightarrow> account_snapshot \<Rightarrow> dec \<Rightarrow> string \<Rightarrow> db \<Rightarrow> db" where
  "save_account_snapshot run sn start executor d =
     d\<lparr>db_accounts := upsert ac_run (\<lambda>_ new. new)
        \<lparr>ac_run = run, ac_snap = sn, ac_executor = executor, ac_start_equity = start\<rparr>
        (db_accounts d)\<rparr>"

definition load_account_snapshot ::
  "db \<Rightarrow> string \<Rightarrow> (account_snapshot \<times> dec \<times> string) option" where
  "load_account_snapshot d run =
     map_option (\<lambda>r. (ac_snap r, ac_start_equity r, ac_executor r))
       (find (\<lambda>r. ac_run r = run) (db_accounts d))"

definition insert_alert :: "string \<Rightarrow> alert \<Rightarrow> db \<Rightarrow> db" where
  "insert_alert run a d = d\<lparr>db_alerts := db_alerts d @ [(run, a)]\<rparr>"

definition list_alerts :: "db \<Rightarrow> string \<Rightarrow> alert list" where
  "list_alerts d run = sort_key al_ts (map snd (filter (\<lambda>(r, _). r = run) (db_alerts d)))"

definition insert_recovery :: "string \<Rightarrow> time \<Rightarrow> recovery_report \<Rightarrow> db \<Rightarrow> db" where
  "insert_recovery run ts findings d =
     d\<lparr>db_recovery := db_recovery d @ [(run, ts, findings)]\<rparr>"

definition list_recovery :: "db \<Rightarrow> string \<Rightarrow> (time \<times> recovery_report) list" where
  "list_recovery d run =
     sort_key fst (map snd (filter (\<lambda>(r, _). r = run) (db_recovery d)))"

section \<open>Laws of the keyed tables\<close>

lemma upsert_keys: "key (merge x r) = key x \<Longrightarrow> (\<And>y. key (merge y r) = key y) \<Longrightarrow>
    key ` set (upsert key merge r rows) = insert (key r) (key ` set rows)"
  by (induction rows) auto

lemma find_upsert_same:
  assumes "\<And>y. key (merge y r) = key y"
  shows "find (\<lambda>x. key x = key r) (upsert key merge r rows) =
    Some (case find (\<lambda>x. key x = key r) rows of None \<Rightarrow> r | Some y \<Rightarrow> merge y r)"
  using assms by (induction rows) auto

lemma find_upsert_other:
  assumes "\<And>y. key (merge y r) = key y" "k \<noteq> key r"
  shows "find (\<lambda>x. key x = k) (upsert key merge r rows) = find (\<lambda>x. key x = k) rows"
  using assms by (induction rows) auto

lemma merge_order_cid [simp]: "or_cid (merge_order a b) = or_cid a"
  by (simp add: merge_order_def)

lemma merge_position_key [simp]: "position_key (merge_position a b) = position_key a"
  by (simp add: merge_position_def position_key_def)

lemma get_order_upsert_same:
  "get_order (upsert_order r d) (or_cid r) =
     Some (case get_order d (or_cid r) of None \<Rightarrow> r | Some y \<Rightarrow> merge_order y r)"
  by (simp add: get_order_def upsert_order_def find_upsert_same)

lemma get_order_upsert_other:
  "cid \<noteq> or_cid r \<Longrightarrow> get_order (upsert_order r d) cid = get_order d cid"
  by (simp add: get_order_def upsert_order_def find_upsert_other)

lemma get_order_cid: "get_order d cid = Some r \<Longrightarrow> or_cid r = cid"
  by (auto simp: get_order_def find_Some_iff)

end
