(* ===== verification/Bar_Types.thy ===== *)
theory Bar_Types
  imports Exec_Types
begin

text \<open>
  The hourly bar of \<open>polyperps/backtest/bars.py\<close> with its time rounding, and the execution cost
  model of \<open>polyperps/backtest/costs.py\<close> that the backtest and the paper executor share.
\<close>

section \<open>Bars\<close>

datatype spread_source = FromBook | FromConstant

record bar =
  br_instrument :: int
  br_source :: source_type
  br_open_ts :: time
  br_open :: "dec option"
  br_high :: "dec option"
  br_low :: "dec option"
  br_close :: "dec option"
  br_index_close :: "dec option"
  br_funding :: "dec option"
  br_spread_bps :: dec
  br_spread_source :: spread_source
  br_complete :: bool

definition HOUR :: time where "HOUR = hours 1"

definition floor_hour :: "time \<Rightarrow> time" where
  "floor_hour t = t - t mod hours 1"

definition floor_minute :: "time \<Rightarrow> time" where
  "floor_minute t = t - t mod minutes 1"

lemma floor_hour_le: "floor_hour t \<le> t"
  by (simp add: floor_hour_def hours_def)

lemma floor_hour_gt: "t < floor_hour t + HOUR"
  by (simp add: floor_hour_def HOUR_def hours_def)

lemma floor_hour_dvd: "hours 1 dvd floor_hour t"
  by (simp add: floor_hour_def minus_mod_eq_mult_div)

lemma floor_hour_idem [simp]: "floor_hour (floor_hour t) = floor_hour t"
  using floor_hour_dvd [of t] by (simp add: floor_hour_def [of "floor_hour t"])

lemma floor_hour_mono: "s \<le> t \<Longrightarrow> floor_hour s \<le> floor_hour t"
  by (simp add: floor_hour_def minus_mod_eq_mult_div hours_def zdiv_mono1)

section \<open>Costs\<close>

definition BPS :: dec where "BPS = 10000"

definition fill_cost :: "dec \<Rightarrow> dec \<Rightarrow> dec \<Rightarrow> dec \<Rightarrow> dec \<Rightarrow> dec res" where
  "fill_cost notional_delta notional spread_bps taker_fee_rate impact_bps =
     (if notional_delta = 0 then Inr 0
      else
        rbind (ddiv notional_delta notional) (\<lambda>turnover_fraction.
        rbind (ddiv spread_bps (dmul 2 BPS)) (\<lambda>half_spread.
        rbind (ddiv impact_bps BPS) (\<lambda>impact.
          let rate = dadd (dadd taker_fee_rate half_spread) (dmul impact turnover_fraction) in
          Inr (dmul notional_delta rate)))))"

end
