(* ===== verification/Market_Store.thy ===== *)
theory Market_Store
  imports Store Bar_Types
begin

text \<open>
  The market-data half of \<open>polyperps/storage/db.py\<close>: idempotent inserts under composite keys, the range
  queries, the per-hour reductions and the hourly rollup that outlives the raw rows. A dict keyed by hour is
  an association list. Timestamps are stored as ISO text in UTC, which sorts as the instants do.
\<close>

section \<open>Inserts\<close>

definition tick_key :: "tick \<Rightarrow> int \<times> source_type \<times> time" where
  "tick_key t = (tk_instrument t, tk_source t, tk_exchange_ts t)"

definition insert_tick :: "tick \<Rightarrow> db \<Rightarrow> bool \<times> db" where
  "insert_tick t d = (let (new, rows) = insert_or_ignore tick_key t (db_ticks d) in (new, d\<lparr>db_ticks := rows\<rparr>))"

definition funding_key :: "funding_obs \<Rightarrow> int \<times> source_type \<times> time" where
  "funding_key f = (fo_instrument f, fo_source f, fo_exchange_ts f)"

definition insert_funding :: "funding_obs \<Rightarrow> db \<Rightarrow> bool \<times> db" where
  "insert_funding f d =
     (let (new, rows) = insert_or_ignore funding_key f (db_funding d) in (new, d\<lparr>db_funding := rows\<rparr>))"

definition book_key :: "book_snapshot \<Rightarrow> int \<times> source_type \<times> time" where
  "book_key b = (bs_instrument b, bs_source b, bs_exchange_ts b)"

text \<open>Only the first \<open>max_levels\<close> levels of each side are stored.\<close>

definition insert_book :: "nat \<Rightarrow> book_snapshot \<Rightarrow> db \<Rightarrow> bool \<times> db" where
  "insert_book max_levels b d =
     (let row = b\<lparr>bs_bids := take max_levels (bs_bids b), bs_asks := take max_levels (bs_asks b)\<rparr>;
          (new, rows) = insert_or_ignore book_key row (db_books d) in (new, d\<lparr>db_books := rows\<rparr>))"

definition candle_key :: "candle \<Rightarrow> int \<times> string \<times> source_type \<times> time" where
  "candle_key c = (cd_instrument c, cd_interval c, cd_source c, cd_open_ts c)"

definition insert_candle :: "candle \<Rightarrow> db \<Rightarrow> bool \<times> db" where
  "insert_candle c d =
     (let (new, rows) = insert_or_ignore candle_key c (db_candles d) in (new, d\<lparr>db_candles := rows\<rparr>))"

definition insert_rejection :: "int \<Rightarrow> string \<Rightarrow> text_t \<Rightarrow> time \<Rightarrow> db \<Rightarrow> db" where
  "insert_rejection iid reason detail at_ts d = d\<lparr>db_rejections := db_rejections d @
     [\<lparr>rj_instrument = iid, rj_at = at_ts, rj_reason = reason, rj_detail = detail\<rparr>]\<rparr>"

definition insert_fee :: "fee_schedule \<Rightarrow> db \<Rightarrow> bool \<times> db" where
  "insert_fee f d =
     (let (new, rows) = insert_or_ignore (\<lambda>f. (fs_category f, fs_fetched_at f)) f (db_fees d)
      in (new, d\<lparr>db_fees := rows\<rparr>))"

text \<open>\<open>ORDER BY fetched_at DESC LIMIT 1\<close>; the key makes the newest row of a category unique.\<close>

definition latest_fee :: "db \<Rightarrow> string \<Rightarrow> fee_schedule option" where
  "latest_fee d category =
     (let rows = sort_key fs_fetched_at (filter (\<lambda>f. fs_category f = category) (db_fees d)) in
      if rows = [] then None else Some (last rows))"

text \<open>\<open>GROUP BY reason\<close>, as a dict.\<close>

definition count_rejections :: "db \<Rightarrow> int \<Rightarrow> (string \<times> nat) list" where
  "count_rejections d iid =
     (let reasons = map rj_reason (filter (\<lambda>r. rj_instrument r = iid) (db_rejections d)) in
      map (\<lambda>r. (r, length (filter (\<lambda>q. q = r) reasons))) (remdups reasons))"

section \<open>Range queries\<close>

definition source_clause :: "source_type option \<Rightarrow> source_type \<Rightarrow> bool" where
  "source_clause want s = (case want of None \<Rightarrow> True | Some w \<Rightarrow> s = w)"

definition between :: "time \<Rightarrow> time \<Rightarrow> time \<Rightarrow> bool" where
  "between lo hi t \<longleftrightarrow> lo \<le> t \<and> t \<le> hi"

text \<open>\<open>ORDER BY exchange_ts, sequence\<close>: a NULL sequence sorts first.\<close>

definition seq_rank :: "int option \<Rightarrow> bool \<times> int" where
  "seq_rank s = (case s of None \<Rightarrow> (False, 0) | Some n \<Rightarrow> (True, n))"

definition query_ticks :: "db \<Rightarrow> int \<Rightarrow> time \<Rightarrow> time \<Rightarrow> source_type option \<Rightarrow> tick list" where
  "query_ticks d iid start end_ts src =
     sort_key tk_exchange_ts
      (sort_key (\<lambda>t. snd (seq_rank (tk_sequence t))) (sort_key (\<lambda>t. fst (seq_rank (tk_sequence t)))
        (filter (\<lambda>t. tk_instrument t = iid \<and> between start end_ts (tk_exchange_ts t) \<and> source_clause src (tk_source t))
          (db_ticks d))))"

definition query_funding :: "db \<Rightarrow> int \<Rightarrow> time \<Rightarrow> time \<Rightarrow> source_type option \<Rightarrow> funding_obs list" where
  "query_funding d iid start end_ts src =
     sort_key fo_exchange_ts
       (filter (\<lambda>f. fo_instrument f = iid \<and> between start end_ts (fo_exchange_ts f) \<and> source_clause src (fo_source f))
         (db_funding d))"

definition query_candles :: "db \<Rightarrow> int \<Rightarrow> string \<Rightarrow> source_type \<Rightarrow> time \<Rightarrow> time \<Rightarrow> candle list" where
  "query_candles d iid interval src start end_ts =
     sort_key cd_open_ts
       (filter (\<lambda>c. cd_instrument c = iid \<and> cd_interval c = interval \<and> cd_source c = src
           \<and> between start end_ts (cd_open_ts c)) (db_candles d))"

text \<open>The top of the stored book; \<open>None\<close> when a side is missing.\<close>

definition stored_spread :: "book_snapshot \<Rightarrow> dec option res" where
  "stored_spread b =
     (if bs_bids b = [] \<or> bs_asks b = [] then Inr None
      else
        let best_bid = Max (set (map bl_price (bs_bids b)));
            best_ask = Min (set (map bl_price (bs_asks b))) in
        rbind (ddiv (dadd best_bid best_ask) 2) (\<lambda>mid.
        rmap (\<lambda>q. Some (dmul q 10000)) (ddiv (dsub best_ask best_bid) mid)))"

definition books_between :: "db \<Rightarrow> int \<Rightarrow> time \<Rightarrow> time \<Rightarrow> book_snapshot list" where
  "books_between d iid start end_ts =
     sort_key bs_exchange_ts
       (filter (\<lambda>b. bs_instrument b = iid \<and> between start end_ts (bs_exchange_ts b)) (db_books d))"

text \<open>Each book with its spread, those without one dropped; the first spread that raises ends the loop.\<close>

fun spreads_of :: "book_snapshot list \<Rightarrow> (time \<times> dec) list res" where
  "spreads_of [] = Inr []"
| "spreads_of (b # bs) =
     rbind (stored_spread b) (\<lambda>s. rmap (\<lambda>rest. case s of None \<Rightarrow> rest | Some v \<Rightarrow> (bs_exchange_ts b, v) # rest)
       (spreads_of bs))"

definition query_book_spread_bps :: "db \<Rightarrow> int \<Rightarrow> time \<Rightarrow> time \<Rightarrow> (time \<times> dec) list res" where
  "query_book_spread_bps d iid start end_ts = spreads_of (books_between d iid start end_ts)"

section \<open>Per-hour reductions\<close>

definition MICRO :: time where "MICRO = 1"

definition native_source :: "source_type \<Rightarrow> bool" where
  "native_source s \<longleftrightarrow> s = POLYMARKET_WS \<or> s = POLYMARKET_REST"

definition FILL_LATENCY :: time where "FILL_LATENCY = seconds 2"
definition ROLLUP_GRACE :: time where "ROLLUP_GRACE = minutes 5"

text \<open>The hours \<open>h, h + 1h, \<dots>\<close> up to and including \<open>e\<close>.\<close>

function hours_upto :: "time \<Rightarrow> time \<Rightarrow> time list" where
  "hours_upto h e = (if h \<le> e then h # hours_upto (h + HOUR) e else [])"
  by pat_completeness auto
termination
  by (relation "measure (\<lambda>(h, e). nat (e - h + 1))") (auto simp: HOUR_def hours_def)

declare hours_upto.simps [simp del]

text \<open>The non-NULL values of a column for hours that lie wholly inside the window.\<close>

definition rollup_values ::
  "(rollup_row \<Rightarrow> dec option) \<Rightarrow> db \<Rightarrow> int \<Rightarrow> time \<Rightarrow> time \<Rightarrow> (time \<times> dec) list" where
  "rollup_values column d iid start end_ts =
     List.map_filter (\<lambda>r. case column r of
         None \<Rightarrow> None
       | Some v \<Rightarrow>
           if hr_instrument r = iid \<and> between start end_ts (hr_hour r)
              \<and> start \<le> hr_hour r \<and> hr_hour r + HOUR - MICRO \<le> end_ts
           then Some (hr_hour r, v) else None)
       (db_rollup d)"

text \<open>
  The newest native tick of a window. On equal timestamps the reverse index scan meets the row inserted last
  first.
\<close>

definition newest_native :: "db \<Rightarrow> int \<Rightarrow> time \<Rightarrow> time \<Rightarrow> tick option" where
  "newest_native d iid lo hi =
     (let rows = sort_key tk_exchange_ts
        (filter (\<lambda>t. tk_instrument t = iid \<and> between lo hi (tk_exchange_ts t) \<and> native_source (tk_source t))
          (db_ticks d)) in
      if rows = [] then None else Some (last rows))"

definition index_step :: "db \<Rightarrow> int \<Rightarrow> time \<Rightarrow> time \<Rightarrow> (time \<times> dec) list \<Rightarrow> time \<Rightarrow> (time \<times> dec) list" where
  "index_step d iid start end_ts out hour =
     (if map_of out hour \<noteq> None then out
      else
        case newest_native d iid (max hour start) (min (hour + HOUR - MICRO) end_ts) of
          None \<Rightarrow> out
        | Some t \<Rightarrow> AList.update hour (tk_index t) out)"

definition query_last_index_by_hour :: "db \<Rightarrow> int \<Rightarrow> time \<Rightarrow> time \<Rightarrow> (time \<times> dec) list" where
  "query_last_index_by_hour d iid start end_ts =
     foldl (index_step d iid start end_ts) (rollup_values hr_index d iid start end_ts)
       (hours_upto (floor_hour start) end_ts)"

text \<open>The contiguous runs of hours to read from the raw books, as (first, stop).\<close>

definition run_step :: "(time \<Rightarrow> bool) \<Rightarrow> (time \<times> time) list \<Rightarrow> time \<Rightarrow> (time \<times> time) list" where
  "run_step need runs hour =
     (if \<not> need hour then runs
      else if runs \<noteq> [] \<and> snd (last runs) = hour then butlast runs @ [(fst (last runs), hour + HOUR)]
      else runs @ [(hour, hour + HOUR)])"

definition first_book :: "db \<Rightarrow> int \<Rightarrow> time option" where
  "first_book d iid =
     (let ts = map bs_exchange_ts (filter (\<lambda>b. bs_instrument b = iid) (db_books d)) in
      if ts = [] then None else Some (Min (set ts)))"

definition book_runs :: "db \<Rightarrow> int \<Rightarrow> time \<Rightarrow> time \<Rightarrow> (time \<times> dec list) list \<Rightarrow> (time \<times> time) list" where
  "book_runs d iid start end_ts out =
     (let first_hour = (case first_book d iid of None \<Rightarrow> end_ts + HOUR | Some t \<Rightarrow> floor_hour t) in
      foldl (run_step (\<lambda>hour. map_of out hour = None \<and> first_hour \<le> hour)) []
        (hours_upto (floor_hour start) end_ts))"

text \<open>\<open>out.setdefault(hour, []).append(bps)\<close>.\<close>

definition append_at :: "(time \<times> dec list) list \<Rightarrow> time \<times> dec \<Rightarrow> (time \<times> dec list) list" where
  "append_at out p = (case p of (ts, bps) \<Rightarrow>
     AList.update (floor_hour ts)
       ((case map_of out (floor_hour ts) of None \<Rightarrow> [] | Some l \<Rightarrow> l) @ [bps]) out)"

fun read_runs ::
  "db \<Rightarrow> int \<Rightarrow> time \<Rightarrow> time \<Rightarrow> (time \<times> dec list) list \<Rightarrow> (time \<times> time) list \<Rightarrow> (time \<times> dec list) list res" where
  "read_runs d iid start end_ts out [] = Inr out"
| "read_runs d iid start end_ts out ((first, stop) # runs) =
     rbind (spreads_of (books_between d iid (max first start) (min (stop - MICRO) end_ts))) (\<lambda>ps.
       read_runs d iid start end_ts (foldl append_at out ps) runs)"

definition query_book_spread_bps_by_hour ::
  "db \<Rightarrow> int \<Rightarrow> time \<Rightarrow> time \<Rightarrow> (time \<times> dec list) list res" where
  "query_book_spread_bps_by_hour d iid start end_ts =
     (let out = map (\<lambda>(h, v). (h, [v])) (rollup_values hr_spread d iid start end_ts) in
      read_runs d iid start end_ts out (book_runs d iid start end_ts out))"

section \<open>The hourly rollup\<close>

definition median_opt :: "dec list \<Rightarrow> dec option res" where
  "median_opt xs =
     (let ys = sort xs; n = length ys in
      if n = 0 then Inr None
      else if odd n then Inr (Some (ys ! (n div 2)))
      else rmap Some (ddiv (dadd (ys ! (n div 2 - 1)) (ys ! (n div 2))) 2))"

text \<open>One hour of one instrument: the row to insert, if any of the three values exists.\<close>

definition rollup_one :: "db \<Rightarrow> int \<Rightarrow> time \<Rightarrow> rollup_row option res" where
  "rollup_one d iid hour =
     (let lo = hour; hi = hour + HOUR - MICRO;
          idx = map_of (query_last_index_by_hour d iid lo hi) hour in
      rbind (query_book_spread_bps_by_hour d iid lo hi) (\<lambda>by_hour.
      rbind (median_opt (case map_of by_hour hour of None \<Rightarrow> [] | Some l \<Rightarrow> l)) (\<lambda>spread.
        let mark = map_option tk_mark (newest_native d iid (hour - HOUR) (hour + FILL_LATENCY)) in
        Inr (if idx = None \<and> spread = None \<and> mark = None then None
             else Some \<lparr>hr_instrument = iid, hr_hour = hour, hr_index = idx, hr_spread = spread,
                        hr_open_mark = mark\<rparr>))))"

definition min_of :: "int list \<Rightarrow> int option" where
  "min_of xs = (if xs = [] then None else Some (Min (set xs)))"

definition max_of :: "int list \<Rightarrow> int option" where
  "max_of xs = (if xs = [] then None else Some (Max (set xs)))"

definition rollup_ids :: "db \<Rightarrow> int list" where
  "rollup_ids d = sort (remdups (map tk_instrument (db_ticks d) @ map bs_instrument (db_books d)))"

text \<open>
  The first hour to consider: that of the oldest raw row, or the hour after the newest rollup row when that is
  later. An instrument of \<open>rollup_ids\<close> has a raw row, so the minimum exists.
\<close>

definition rollup_start :: "db \<Rightarrow> int \<Rightarrow> time" where
  "rollup_start d iid =
     (let ts = map tk_exchange_ts (filter (\<lambda>t. tk_instrument t = iid) (db_ticks d))
               @ map bs_exchange_ts (filter (\<lambda>b. bs_instrument b = iid) (db_books d));
          hour = floor_hour (case min_of ts of None \<Rightarrow> 0 | Some t \<Rightarrow> t) in
      case max_of (map hr_hour (filter (\<lambda>r. hr_instrument r = iid) (db_rollup d))) of
        None \<Rightarrow> hour
      | Some newest \<Rightarrow> max hour (newest + HOUR))"

definition rollup_rows :: "db \<Rightarrow> time \<Rightarrow> int \<Rightarrow> rollup_row list res" where
  "rollup_rows d now iid =
     rmap (List.map_filter id) (rmapM (rollup_one d iid)
       (hours_upto (rollup_start d iid) (now - HOUR - ROLLUP_GRACE)))"

definition rollup_key :: "rollup_row \<Rightarrow> int \<times> time" where
  "rollup_key r = (hr_instrument r, hr_hour r)"

text \<open>All reads precede the writes; the count is the number of rows really inserted.\<close>

definition rollup_hours :: "time \<Rightarrow> (db, nat) eff" where
  "rollup_hours now = (\<lambda>d.
     case rmap concat (rmapM (rollup_rows d now) (rollup_ids d)) of
       Inl e \<Rightarrow> (Inl e, d)
     | Inr rows \<Rightarrow>
         let new = foldl (\<lambda>acc r. snd (insert_or_ignore rollup_key r acc)) (db_rollup d) rows in
         (Inr (length new - length (db_rollup d)), d\<lparr>db_rollup := new\<rparr>))"

end
