(* ===== verification/Bars.thy ===== *)
theory Bars
  imports Market_Store
begin

text \<open>
  \<open>polyperps/backtest/bars.py\<close>: hourly bars built from the stored candles, funding rows, ticks and books.
  A hole in the data leaves the field \<open>None\<close> and the bar incomplete.
\<close>

definition is_native :: "source_type \<Rightarrow> bool" where
  "is_native s \<longleftrightarrow> s \<in> {POLYMARKET_WS, POLYMARKET_REST}"

text \<open>\<open>statistics.median\<close> of a list that is not empty.\<close>

definition median_of :: "dec list \<Rightarrow> dec res" where
  "median_of xs =
     (let ys = sort xs; n = length ys in
      if n = 0 then Inl (Exn (OtherException ''StatisticsError'') [S ''no median for empty data''])
      else if odd n then Inr (ys ! (n div 2))
      else ddiv (dadd (ys ! (n div 2 - 1)) (ys ! (n div 2))) 2)"

definition bar_at ::
  "int \<Rightarrow> source_type \<Rightarrow> dec \<Rightarrow> (time \<Rightarrow> candle option) \<Rightarrow> (time \<Rightarrow> dec option) \<Rightarrow> (time \<times> dec) list
     \<Rightarrow> (time \<times> dec list) list \<Rightarrow> time \<Rightarrow> bar res" where
  "bar_at iid src proxy candles funding index_by_hour spreads_by_hour open_ts =
     (let c = candles open_ts;
          rate = funding (open_ts + HOUR);
          spreads = (if is_native src then map_of spreads_by_hour open_ts else None) in
      rmap (\<lambda>(spread, spread_src).
         \<lparr>br_instrument = iid, br_source = src, br_open_ts = open_ts,
          br_open = map_option cd_open c, br_high = map_option cd_high c, br_low = map_option cd_low c,
          br_close = map_option cd_close c,
          br_index_close = (if is_native src then map_of index_by_hour open_ts else None),
          br_funding = rate, br_spread_bps = spread, br_spread_source = spread_src,
          br_complete = (c \<noteq> None \<and> rate \<noteq> None)\<rparr>)
        (case spreads of
           None \<Rightarrow> Inr (proxy, FromConstant)
         | Some l \<Rightarrow> if l = [] then Inr (proxy, FromConstant) else rmap (\<lambda>m. (m, FromBook)) (median_of l)))"

definition build_bars :: "db \<Rightarrow> int \<Rightarrow> source_type \<Rightarrow> time \<Rightarrow> time \<Rightarrow> dec \<Rightarrow> bar list res" where
  "build_bars d iid src start end_ts proxy =
     (let first = floor_hour start in
      if end_ts \<le> first then Inr []
      else
        let last_open = floor_hour (end_ts - MICRO);
            candles = map_of (dict_of (map (\<lambda>c. (cd_open_ts c, c)) (query_candles d iid ''1h'' src first last_open)));
            funding = map_of (dict_of (map (\<lambda>f. (floor_hour (fo_exchange_ts f), fo_rate f))
              (query_funding d iid (first + HOUR) (last_open + 2 * HOUR - MICRO) (Some src))));
            tick_end = last_open + HOUR - MICRO;
            index_by_hour = (if is_native src then query_last_index_by_hour d iid first tick_end else []) in
        rbind (if is_native src then query_book_spread_bps_by_hour d iid first tick_end else Inr []) (\<lambda>spreads.
          rmapM (bar_at iid src proxy candles funding index_by_hour spreads) (hours_upto first last_open)))"

definition align_pair :: "bar list \<Rightarrow> bar list \<Rightarrow> (bar \<times> bar) list" where
  "align_pair native proxy =
     (let by_ts = map_of (dict_of (map (\<lambda>b. (br_open_ts b, b)) (filter br_complete proxy))) in
      List.map_filter (\<lambda>n. if br_complete n then map_option (Pair n) (by_ts (br_open_ts n)) else None) native)"

definition load_minute_closes :: "db \<Rightarrow> int \<Rightarrow> source_type \<Rightarrow> time \<Rightarrow> time \<Rightarrow> (time \<times> dec) list" where
  "load_minute_closes d iid src start end_ts =
     dict_of (map (\<lambda>c. (cd_open_ts c, cd_close c)) (query_candles d iid ''1m'' src start end_ts))"

text \<open>\<open>xs[-n:]\<close>: the last \<open>n\<close> elements, all of them for 0.\<close>

definition last_n :: "nat \<Rightarrow> 'a list \<Rightarrow> 'a list" where
  "last_n n xs = (if n = 0 then xs else drop (length xs - n) xs)"

section \<open>The hours of a window\<close>

lemma hours_upto_unfold:
  "h \<le> e \<Longrightarrow> hours_upto h e = h # hours_upto (h + HOUR) e"
  "e < h \<Longrightarrow> hours_upto h e = []"
  by (simp_all add: hours_upto.simps [of h e])

lemma HOUR_pos: "0 < HOUR"
  by (simp add: HOUR_def hours_def)

lemma hours_upto_range: "t \<in> set (hours_upto h e) \<Longrightarrow> h \<le> t \<and> t \<le> e"
proof (induction h e rule: hours_upto.induct)
  case (1 h e)
  show ?case
  proof (cases "h \<le> e")
    case True
    then have "t = h \<or> t \<in> set (hours_upto (h + HOUR) e)" using "1.prems" by (simp add: hours_upto_unfold)
    then show ?thesis using 1(1) True HOUR_pos by force
  next
    case False
    then show ?thesis using "1.prems" by (simp add: hours_upto_unfold)
  qed
qed

lemma distinct_hours_upto: "distinct (hours_upto h e)"
proof (induction h e rule: hours_upto.induct)
  case (1 h e)
  have "h \<notin> set (hours_upto (h + HOUR) e)" using hours_upto_range [of h "h + HOUR" e] HOUR_pos by auto
  with 1 show ?case by (cases "h \<le> e") (simp_all add: hours_upto_unfold)
qed

lemma sorted_hours_upto: "sorted (hours_upto h e)"
proof (induction h e rule: hours_upto.induct)
  case (1 h e)
  have "\<forall>t \<in> set (hours_upto (h + HOUR) e). h \<le> t" using hours_upto_range [of _ "h + HOUR" e] HOUR_pos by force
  with 1 show ?case by (cases "h \<le> e") (simp_all add: hours_upto_unfold)
qed

lemma mem_hours_upto: "HOUR dvd h \<Longrightarrow> t \<in> set (hours_upto h e) \<longleftrightarrow> HOUR dvd t \<and> h \<le> t \<and> t \<le> e"
proof (induction h e rule: hours_upto.induct)
  case (1 h e)
  show ?case
  proof (cases "h \<le> e")
    case True
    have "HOUR dvd t \<Longrightarrow> h < t \<Longrightarrow> h + HOUR \<le> t"
      using "1.prems" zdvd_imp_le [of HOUR "t - h"] by (simp add: dvd_diff)
    moreover have "HOUR dvd h + HOUR" using "1.prems" by simp
    ultimately show ?thesis using 1 True HOUR_pos by (auto simp: hours_upto_unfold)
  qed (auto simp: hours_upto_unfold)
qed

lemma floor_hour_unique: "HOUR dvd h \<Longrightarrow> h \<le> t \<Longrightarrow> t < h + HOUR \<Longrightarrow> floor_hour t = h"
proof -
  assume h: "HOUR dvd h" "h \<le> t" "t < h + HOUR"
  then obtain k where k: "h = HOUR * k" by (auto elim: dvdE)
  have "t div HOUR = k" using h k HOUR_pos by (intro int_div_pos_eq [of _ _ _ "t - h"]) auto
  then show ?thesis using k by (simp add: floor_hour_def HOUR_def minus_mod_eq_mult_div)
qed

section \<open>What a bar says\<close>

lemma rmapM_all2: "rmapM f xs = Inr ys \<longleftrightarrow> list_all2 (\<lambda>x y. f x = Inr y) xs ys"
  by (induction xs arbitrary: ys) (auto simp: list_all2_Cons1)

lemma bar_at_fields:
  assumes "bar_at iid src proxy cs fs ix sp t = Inr b"
  shows "br_open_ts b = t" "br_close b = map_option cd_close (cs t)" "br_open b = map_option cd_open (cs t)"
    "br_funding b = fs (t + HOUR)" "br_complete b \<longleftrightarrow> cs t \<noteq> None \<and> fs (t + HOUR) \<noteq> None"
    "br_high b = map_option cd_high (cs t)" "br_low b = map_option cd_low (cs t)"
  using assms by (auto simp: bar_at_def Let_def)

end
