(* ===== verification/Executor.thy ===== *)
theory Executor
  imports Bar_Types
begin

text \<open>
  \<open>polyperps/execution/executor.py\<close>: the only surface the router talks to. The protocol is a record
  of operations over the executor's own state; every operation may raise and may leave the state
  changed when it does (an order whose acknowledgement is lost has landed).
\<close>

record 'x exec_ops =
  xo_name :: string
  xo_submit :: "order_request \<Rightarrow> ('x, order_ack) eff"
  xo_cancel :: "string \<Rightarrow> ('x, unit) eff"
  xo_place_stop :: "int \<Rightarrow> dec \<Rightarrow> ('x, stop_ack) eff"
  xo_cancel_stop :: "int \<Rightarrow> ('x, unit) eff"
  xo_heartbeat :: "('x, unit) eff"
  xo_snapshot :: "('x, account_snapshot) eff"
  xo_on_tick :: "tick \<Rightarrow> ('x, unit) eff"
  xo_on_bar :: "bar \<Rightarrow> ('x, unit) eff"
  xo_poll_fills :: "('x, fill_update list) eff"

text \<open>The error the router reads as "the order may have landed".\<close>

definition is_timeout :: "exn \<Rightarrow> bool" where
  "is_timeout e \<longleftrightarrow> exc_class e = ExecutorTimeout \<or> exc_class e = AsyncTimeoutError"

text \<open>
  What the router and the recovery rely on beyond the types, over two observations of the
  executor's state: the positions and the stops of the account. Reading a snapshot reports both
  and changes neither; placing a stop leaves the positions alone and, when it returns, has set
  that instrument's stop; when it raises, the stop may or may not have landed.
\<close>

locale executor_laws =
  fixes ops :: "'x exec_ops"
    and venue_positions :: "'x \<Rightarrow> position_view list"
    and venue_stops :: "'x \<Rightarrow> (int \<rightharpoonup> dec)"
  assumes snapshot_keeps: "xo_snapshot ops x = (r, x') \<Longrightarrow>
      venue_positions x' = venue_positions x \<and> venue_stops x' = venue_stops x"
    and snapshot_reports: "xo_snapshot ops x = (Inr sn, x') \<Longrightarrow>
      sn_positions sn = venue_positions x \<and> map_of (sn_stops sn) = venue_stops x"
    and place_stop_positions: "xo_place_stop ops i p x = (rp, x') \<Longrightarrow>
      venue_positions x' = venue_positions x"
    and place_stop_sets: "xo_place_stop ops i p x = (Inr a, x') \<Longrightarrow>
      venue_stops x' = (venue_stops x)(i \<mapsto> p)"
    and place_stop_raises: "xo_place_stop ops i p x = (Inl e, x') \<Longrightarrow>
      venue_stops x' = venue_stops x \<or> venue_stops x' = (venue_stops x)(i \<mapsto> p)"
    and cancel_keeps: "xo_cancel ops cid x = (rc, x') \<Longrightarrow>
      venue_positions x' = venue_positions x \<and> venue_stops x' = venue_stops x"
    and cancel_stop_positions: "xo_cancel_stop ops i x = (rs, x') \<Longrightarrow>
      venue_positions x' = venue_positions x"
    and cancel_stop_sets: "xo_cancel_stop ops i x = (ru, x') \<Longrightarrow>
      j \<noteq> i \<Longrightarrow> venue_stops x' j = venue_stops x j"

text \<open>An executor that writes to its account: it may fail to place a stop, but never refuses to.\<close>

locale writing_executor = executor_laws ops venue_positions venue_stops
  for ops :: "'x exec_ops" and venue_positions venue_stops +
  assumes place_stop_not_refused: "xo_place_stop ops i p x = (Inl er, x') \<Longrightarrow> exc_class er \<noteq> ShadowRefused"

end
