(* ===== verification/Risk_Guard.thy ===== *)
theory Risk_Guard
  imports Exec_Types
begin

text \<open>
  \<open>polyperps/risk/liquidation_guard.py\<close>: the leverage cap and the liquidation-distance floor on an
  entry, the guards on an open position, the stop price and the liquidation price.
\<close>

section \<open>Limits and verdicts\<close>

record risk_limits =
  rl_max_leverage :: int
  rl_min_liq_distance :: dec
  rl_stop_distance :: dec
  rl_notional_usd :: dec
  rl_max_funding_cost :: dec
  rl_maintenance_rate :: dec

definition LIMITS :: risk_limits where
  "LIMITS = \<lparr>rl_max_leverage = 3, rl_min_liq_distance = 25/100, rl_stop_distance = 15/100,
     rl_notional_usd = 100, rl_max_funding_cost = 2/100, rl_maintenance_rate = 2/100\<rparr>"

datatype verdict = Allow | Resize dec | Reject text_t

fun verdict_label :: "verdict \<Rightarrow> text_t" where
  "verdict_label Allow = [S ''allow'']"
| "verdict_label (Resize q) = [S ''resize:'', D q]"
| "verdict_label (Reject r) = S ''reject:'' # r"

definition is_reject :: "verdict \<Rightarrow> bool" where
  "is_reject v = (case v of Reject _ \<Rightarrow> True | _ \<Rightarrow> False)"

section \<open>Entry\<close>

text \<open>
  The last step both entry guards share: \<open>Allow\<close> when nothing was cut, otherwise the quantity that
  the allowed notional buys at \<open>mark\<close>, rounded down to 8 decimals.
\<close>

definition allow_or_resize :: "dec \<Rightarrow> dec \<Rightarrow> dec \<Rightarrow> verdict res" where
  "allow_or_resize allowed wanted mark =
     (if wanted \<le> allowed then Inr Allow
      else rbind (ddiv allowed mark) (\<lambda>q. rmap Resize (quantize round_down 8 q)))"

text \<open>The notional already committed: open positions and entries sent but not yet filled.\<close>

definition entry_existing :: "account_snapshot \<Rightarrow> intent list \<Rightarrow> dec" where
  "entry_existing sn pending =
     dadd (dsum (map pv_notional (sn_positions sn)))
       (dsum (map it_notional (filter (\<lambda>j. \<not> it_reduce_only j) pending)))"

definition vet_entry ::
  "intent \<Rightarrow> dec \<Rightarrow> account_snapshot \<Rightarrow> risk_limits \<Rightarrow> intent list \<Rightarrow> verdict res" where
  "vet_entry i mark sn limits pending =
     (if sn_equity sn \<le> 0 then Inr (Reject [S ''equity <= 0''])
      else
        let existing = entry_existing sn pending;
            cap = dsub (dmul (of_int (rl_max_leverage limits)) (sn_equity sn)) existing in
        if cap \<le> 0 then
          Inr (Reject [S ''leverage cap '', I (rl_max_leverage limits), S ''x already used''])
        else
          let allowed = min (it_notional i) cap in
          rbind (ddiv 1 (dadd (rl_min_liq_distance limits) (rl_maintenance_rate limits))) (\<lambda>max_lev.
            let floor_notional = dsub (dmul max_lev (sn_equity sn)) existing in
            if floor_notional \<le> 0 then
              Inr (Reject [S ''liquidation-distance floor leaves no room''])
            else allow_or_resize (min allowed floor_notional) (it_notional i) mark))"

section \<open>Open positions\<close>

datatype guard_action = Hold | Flatten

definition check_open :: "position_view \<Rightarrow> dec \<Rightarrow> risk_limits \<Rightarrow> guard_action res" where
  "check_open p mark limits =
     (case pv_liq_price p of
        None \<Rightarrow> Inr Hold
      | Some liq \<Rightarrow>
          if pv_size p = 0 then Inr Hold
          else rbind (ddiv (dabs (dsub liq mark)) mark) (\<lambda>distance.
                 Inr (if distance < rl_min_liq_distance limits then Flatten else Hold)))"

datatype dir = Long | Short

definition stop_price :: "dir \<Rightarrow> dec \<Rightarrow> risk_limits \<Rightarrow> dec res" where
  "stop_price d entry limits =
     (let factor = (case d of Long \<Rightarrow> dsub 1 (rl_stop_distance limits)
                            | Short \<Rightarrow> dadd 1 (rl_stop_distance limits))
      in quantize rhe 2 (dmul entry factor))"

definition liquidation_price :: "dec \<Rightarrow> dec \<Rightarrow> risk_limits \<Rightarrow> dec res" where
  "liquidation_price sz entry limits =
     rbind (ddiv 1 (of_int (rl_max_leverage limits))) (\<lambda>inv.
       quantize rhe 2 (dmul entry
         (if 0 < sz then dadd (dsub 1 inv) (rl_maintenance_rate limits)
          else dsub (dadd 1 inv) (rl_maintenance_rate limits))))"

definition funding_exit_due :: "position_view \<Rightarrow> risk_limits \<Rightarrow> bool" where
  "funding_exit_due p limits \<longleftrightarrow>
     dmul (rl_max_funding_cost limits) (pv_notional p) \<le> dneg (pv_funding p)"

section \<open>What an entry verdict grants\<close>

lemma dsum_nonneg: "\<forall>x \<in> set xs. 0 \<le> x \<Longrightarrow> 0 \<le> dsum xs"
proof -
  have "0 \<le> a \<Longrightarrow> \<forall>x \<in> set xs. 0 \<le> x \<Longrightarrow> 0 \<le> foldl dadd a xs" for a
    by (induction xs arbitrary: a) (auto simp: dadd_def)
  then show "\<forall>x \<in> set xs. 0 \<le> x \<Longrightarrow> 0 \<le> dsum xs" by (simp add: dsum_def)
qed

lemma entry_existing_nonneg:
  assumes "\<forall>p \<in> set (sn_positions sn). 0 \<le> pv_notional p" "\<forall>j \<in> set pending. 0 \<le> it_notional j"
  shows "0 \<le> entry_existing sn pending"
proof -
  have "0 \<le> dsum (map pv_notional (sn_positions sn))" using assms by (intro dsum_nonneg) auto
  moreover have "0 \<le> dsum (map it_notional (filter (\<lambda>j. \<not> it_reduce_only j) pending))"
    using assms by (intro dsum_nonneg) auto
  ultimately show ?thesis by (simp add: entry_existing_def dadd_def)
qed

lemma allow_or_resize_grants:
  assumes "allow_or_resize allowed wanted mark = Inr v" "0 < mark" "0 \<le> allowed"
  shows "v = Allow \<and> wanted \<le> allowed \<or>
    (\<exists>q. v = Resize q \<and> allowed < wanted \<and> 0 \<le> q
       \<and> q * mark \<le> allowed * (1 + 5 / 10 ^ 28)
       \<and> allowed * (1 - 5 / 10 ^ 28) < (q + 1 / 10 ^ 8) * mark)"
proof (cases "wanted \<le> allowed")
  case True
  then show ?thesis using assms by (simp add: allow_or_resize_def)
next
  case False
  let ?z = "ctx (allowed / mark)"
  obtain q where q: "quantize round_down 8 ?z = Inr q" "v = Resize q"
    using assms False by (auto simp: allow_or_resize_def)
  have am: "0 \<le> allowed / mark" using assms by simp
  have b: "0 \<le> q" "q \<le> ?z" "?z < q + 1 / 10 ^ 8"
    using quantize_down_bounds [OF q(1)] am by simp_all
  have "q * mark \<le> (allowed / mark * (1 + 5 / 10 ^ 28)) * mark"
    using b(2) ctx_upper [OF am] assms(2) by (intro mult_right_mono) auto
  moreover have "(allowed / mark * (1 - 5 / 10 ^ 28)) * mark < (q + 1 / 10 ^ 8) * mark"
    using b(3) ctx_lower [OF am] assms(2) by (intro mult_strict_right_mono) auto
  ultimately show ?thesis using q b(1) False assms(2) by auto
qed

lemma vet_entry_cases:
  assumes "vet_entry i mark sn limits pending = Inr v" "\<not> is_reject v"
  shows "\<exists>room. 0 < sn_equity sn \<and> 0 < room
    \<and> room \<le> dsub (dmul (of_int (rl_max_leverage limits)) (sn_equity sn)) (entry_existing sn pending)
    \<and> allow_or_resize (min (it_notional i) room) (it_notional i) mark = Inr v"
  using assms
  by (auto simp: vet_entry_def Let_def is_reject_def ddiv_def min.assoc split: if_splits
      intro!: exI [of _ "min (dsub (dmul (of_int (rl_max_leverage limits)) (sn_equity sn)) (entry_existing sn pending))
        (dsub (dmul (ctx (1 / dadd (rl_min_liq_distance limits) (rl_maintenance_rate limits))) (sn_equity sn))
          (entry_existing sn pending))"])

text \<open>The notional a verdict lets through at \<open>mark\<close>.\<close>

fun granted :: "verdict \<Rightarrow> dec \<Rightarrow> dec \<Rightarrow> dec" where
  "granted Allow wanted mark = wanted"
| "granted (Resize q) wanted mark = q * mark"
| "granted (Reject r) wanted mark = 0"

lemma allow_or_resize_granted:
  assumes "allow_or_resize (min wanted room) wanted mark = Inr v" "0 < mark" "0 \<le> wanted" "0 \<le> room"
  shows "granted v wanted mark \<le> room * (1 + 5 / 10 ^ 28)" "\<not> is_reject v"
proof -
  note g = allow_or_resize_grants [OF assms(1,2)]
  have m: "min wanted room * (1 + 5 / 10 ^ 28) \<le> room * (1 + 5 / 10 ^ 28)"
    by (intro mult_right_mono) auto
  have "room \<le> room * (1 + 5 / 10 ^ 28)" using assms(4) by simp
  then show "granted v wanted mark \<le> room * (1 + 5 / 10 ^ 28)"
    using g m assms(3,4) by auto
  show "\<not> is_reject v" using g assms(3,4) by (auto simp: is_reject_def)
qed

lemma cap_slack:
  assumes "room \<le> dsub (dmul l e) x" "0 \<le> l * e" "0 \<le> x" "0 < room" "0 \<le> t" "t \<le> 4 / 10 ^ 27"
  shows "x + room * (1 + t) \<le> l * e * (1 + 1 / 10 ^ 26)"
proof -
  let ?d = "5 / 10 ^ 28 :: rat" and ?t = "4 / 10 ^ 27 :: rat"
  have "0 < dsub (dmul l e) x" using assms by linarith
  then have pos: "0 < dmul l e - x" by (simp add: dsub_def)
  have "room \<le> (dmul l e - x) * (1 + ?d)"
    using assms(1) ctx_upper [of "dmul l e - x"] pos by (simp add: dsub_def)
  then have "room * (1 + t) \<le> (dmul l e - x) * (1 + ?d) * (1 + ?t)"
    using assms(4-6) pos by (intro mult_mono) auto
  also have "\<dots> = (dmul l e - x) + (dmul l e - x) * ((1 + ?d) * (1 + ?t) - 1)" by algebra
  also have "\<dots> \<le> (dmul l e - x) + dmul l e * ((1 + ?d) * (1 + ?t) - 1)"
    using assms(3) by (intro add_left_mono mult_right_mono) auto
  finally have "x + room * (1 + t) \<le> dmul l e * ((1 + ?d) * (1 + ?t))" by (simp add: algebra_simps)
  also have "\<dots> \<le> (l * e * (1 + ?d)) * ((1 + ?d) * (1 + ?t))"
    using ctx_upper [OF assms(2)] by (intro mult_right_mono) (auto simp: dmul_def)
  also have "\<dots> = l * e * ((1 + ?d) * ((1 + ?d) * (1 + ?t)))" by simp
  also have "\<dots> \<le> l * e * (1 + 1 / 10 ^ 26)" using assms(2) by (intro mult_left_mono) auto
  finally show ?thesis .
qed

lemma vet_entry_granted:
  assumes "vet_entry i mark sn limits pending = Inr v" "\<not> is_reject v"
    and "0 < mark" "0 \<le> it_notional i" "0 \<le> rl_max_leverage limits" "0 \<le> entry_existing sn pending"
  shows "entry_existing sn pending + granted v (it_notional i) mark
    \<le> of_int (rl_max_leverage limits) * sn_equity sn * (1 + 1 / 10 ^ 26)"
proof -
  obtain room where r: "0 < sn_equity sn" "0 < room"
      "room \<le> dsub (dmul (of_int (rl_max_leverage limits)) (sn_equity sn)) (entry_existing sn pending)"
      "allow_or_resize (min (it_notional i) room) (it_notional i) mark = Inr v"
    using vet_entry_cases [OF assms(1,2)] by blast
  have "granted v (it_notional i) mark \<le> room * (1 + 5 / 10 ^ 28)"
    using allow_or_resize_granted [OF r(4) assms(3,4)] r(2) by simp
  moreover have "entry_existing sn pending + room * (1 + 5 / 10 ^ 28)
      \<le> of_int (rl_max_leverage limits) * sn_equity sn * (1 + 1 / 10 ^ 26)"
    using r assms(5,6) by (intro cap_slack) auto
  ultimately show ?thesis by linarith
qed

section \<open>Stop, liquidation and the distance guard\<close>

lemma dist_quantized:
  assumes "quantize rhe 2 (dmul e f) = Inr y" "0 \<le> e" "0 \<le> f"
  shows "\<bar>y - e * f\<bar> \<le> 1 / 200 + e * f * (5 / 10 ^ 28)"
proof -
  have "\<bar>y - dmul e f\<bar> \<le> 1 / 200" using quantize_half_even_error [OF assms(1)] by simp
  moreover have "\<bar>dmul e f - e * f\<bar> \<le> e * f * (5 / 10 ^ 28)"
    using ctx_error [of "e * f"] assms by (simp add: dmul_def)
  ultimately show ?thesis by linarith
qed

lemma limits_factors:
  "dsub 1 (rl_stop_distance LIMITS) = 85/100" "dadd 1 (rl_stop_distance LIMITS) = 115/100"
  "ddiv 1 (of_int (rl_max_leverage LIMITS)) = Inr (3333333333333333333333333333 / 10 ^ 28)"
  "dadd (dsub 1 (3333333333333333333333333333 / 10 ^ 28)) (rl_maintenance_rate LIMITS) = 6866666666666666666666666667 / 10 ^ 28"
  "dsub (dadd 1 (3333333333333333333333333333 / 10 ^ 28)) (rl_maintenance_rate LIMITS) = 1313333333333333333333333333 / 10 ^ 27"
  by code_simp+

lemma stop_price_bounds:
  assumes "stop_price d e LIMITS = Inr s" "0 \<le> e"
  shows "d = Long \<Longrightarrow> 849/1000 * e - 1/200 \<le> s \<and> s \<le> 851/1000 * e + 1/200"
    and "d = Short \<Longrightarrow> 1149/1000 * e - 1/200 \<le> s \<and> s \<le> 1151/1000 * e + 1/200"
proof -
  let ?f = "(case d of Long \<Rightarrow> 85/100 | Short \<Rightarrow> 115/100) :: rat"
  have "quantize rhe 2 (dmul e ?f) = Inr s"
    using assms(1) unfolding stop_price_def Let_def limits_factors .
  then have b: "\<bar>s - e * ?f\<bar> \<le> 1 / 200 + e * ?f * (5 / 10 ^ 28)"
    using assms(2) by (intro dist_quantized) (auto split: dir.split)
  show "d = Long \<Longrightarrow> 849/1000 * e - 1/200 \<le> s \<and> s \<le> 851/1000 * e + 1/200"
    using b assms(2) by (simp add: abs_le_iff)
  show "d = Short \<Longrightarrow> 1149/1000 * e - 1/200 \<le> s \<and> s \<le> 1151/1000 * e + 1/200"
    using b assms(2) by (simp add: abs_le_iff)
qed

lemma liquidation_price_bounds:
  assumes "liquidation_price sz e LIMITS = Inr l" "0 \<le> e"
  shows "0 < sz \<Longrightarrow> 686/1000 * e - 1/200 \<le> l \<and> l \<le> 687/1000 * e + 1/200"
    and "sz \<le> 0 \<Longrightarrow> 1313/1000 * e - 1/200 \<le> l \<and> l \<le> 1314/1000 * e + 1/200"
proof -
  let ?f = "if 0 < sz then 6866666666666666666666666667 / 10 ^ 28
    else 1313333333333333333333333333 / 10 ^ 27"
  have "quantize rhe 2 (dmul e ?f) = Inr l"
    using assms(1) unfolding liquidation_price_def limits_factors by (simp only: rbind_simps limits_factors)
  then have b: "\<bar>l - e * ?f\<bar> \<le> 1 / 200 + e * ?f * (5 / 10 ^ 28)"
    using assms(2) by (intro dist_quantized) auto
  show "0 < sz \<Longrightarrow> 686/1000 * e - 1/200 \<le> l \<and> l \<le> 687/1000 * e + 1/200"
    using b assms(2) by (simp add: abs_le_iff)
  show "sz \<le> 0 \<Longrightarrow> 1313/1000 * e - 1/200 \<le> l \<and> l \<le> 1314/1000 * e + 1/200"
    using b assms(2) by (simp add: abs_le_iff)
qed

text \<open>The distance the guard measures, sandwiched between exact ones.\<close>

lemma check_open_cases:
  assumes "pv_liq_price p = Some liq" "pv_size p \<noteq> 0" "0 < mark"
  shows "check_open p mark limits =
    Inr (if ctx (dabs (dsub liq mark) / mark) < rl_min_liq_distance limits then Flatten else Hold)"
  using assms by (simp add: check_open_def)

lemma distance_upper:
  assumes "\<bar>liq - mark\<bar> \<le> d * mark" "0 < mark" "0 \<le> d"
  shows "ctx (dabs (dsub liq mark) / mark) \<le> d * (1 + 2 / 10 ^ 27)"
proof -
  let ?k = "1 + 5 / 10 ^ 28 :: rat"
  have k: "0 \<le> ?k" "?k * (?k * ?k) \<le> 1 + 2 / 10 ^ 27" by simp_all
  have "dabs (dsub liq mark) \<le> \<bar>dsub liq mark\<bar> * ?k" unfolding dabs_def by (rule ctx_upper) simp
  also have "\<bar>dsub liq mark\<bar> \<le> \<bar>liq - mark\<bar> * ?k"
    unfolding dsub_def ctx_abs [symmetric] by (rule ctx_upper) simp
  finally have a: "dabs (dsub liq mark) \<le> (\<bar>liq - mark\<bar> * ?k) * ?k" using k(1) by (simp add: mult_right_mono)
  have "ctx (dabs (dsub liq mark) / mark) \<le> dabs (dsub liq mark) / mark * ?k"
    using assms(2) by (intro ctx_upper) simp
  also have "\<dots> \<le> ((d * mark * ?k) * ?k) / mark * ?k"
  proof (intro mult_right_mono divide_right_mono k)
    show "dabs (dsub liq mark) \<le> (d * mark * ?k) * ?k"
      using a assms(1) by (meson k(1) mult_right_mono order_trans)
  qed (use assms in auto)
  also have "\<dots> = d * (?k * (?k * ?k))" using assms(2) by simp
  also have "\<dots> \<le> d * (1 + 2 / 10 ^ 27)" by (intro mult_left_mono k assms)
  finally show ?thesis .
qed

lemma distance_lower:
  assumes "d * mark \<le> \<bar>liq - mark\<bar>" "0 < mark" "0 \<le> d"
  shows "d * (1 - 2 / 10 ^ 27) \<le> ctx (dabs (dsub liq mark) / mark)"
proof -
  let ?k = "1 - 5 / 10 ^ 28 :: rat"
  have k: "0 \<le> ?k" "1 - 2 / 10 ^ 27 \<le> ?k * (?k * ?k)" by simp_all
  have "\<bar>liq - mark\<bar> * ?k \<le> \<bar>dsub liq mark\<bar>"
    unfolding dsub_def ctx_abs [symmetric] by (rule ctx_lower) simp
  then have "(\<bar>liq - mark\<bar> * ?k) * ?k \<le> \<bar>dsub liq mark\<bar> * ?k" by (rule mult_right_mono) (rule k)
  also have "\<dots> \<le> dabs (dsub liq mark)" unfolding dabs_def by (rule ctx_lower) simp
  finally have a: "(\<bar>liq - mark\<bar> * ?k) * ?k \<le> dabs (dsub liq mark)" .
  have "d * (1 - 2 / 10 ^ 27) \<le> d * (?k * (?k * ?k))" by (intro mult_left_mono k assms)
  also have "\<dots> = ((d * mark * ?k) * ?k) / mark * ?k" using assms(2) by simp
  also have "\<dots> \<le> dabs (dsub liq mark) / mark * ?k"
  proof (intro mult_right_mono divide_right_mono k)
    show "(d * mark * ?k) * ?k \<le> dabs (dsub liq mark)"
      using a assms(1) by (meson k(1) mult_right_mono order_trans)
  qed (use assms in auto)
  also have "\<dots> \<le> ctx (dabs (dsub liq mark) / mark)" using assms(2) by (intro ctx_lower) simp
  finally show ?thesis .
qed

lemma check_open_flattens:
  assumes "pv_liq_price p = Some liq" "pv_size p \<noteq> 0" "0 < mark" "\<bar>liq - mark\<bar> \<le> 249/1000 * mark"
  shows "check_open p mark LIMITS = Inr Flatten"
  using distance_upper [OF assms(4,3)] by (simp add: check_open_cases assms LIMITS_def)

lemma check_open_holds:
  assumes "pv_liq_price p = Some liq" "pv_size p \<noteq> 0" "0 < mark" "251/1000 * mark \<le> \<bar>liq - mark\<bar>"
  shows "check_open p mark LIMITS = Inr Hold"
  using distance_lower [OF assms(4,3)] by (simp add: check_open_cases assms LIMITS_def)

section \<open>Properties\<close>

text \<open>
  C1. An entry that is not rejected never takes the account past the leverage cap: the notional
  already committed (positions and in-flight entries) plus what the verdict grants at the mark is at
  most \<open>max_leverage * equity\<close>, up to the rounding of the 28-digit context.
\<close>

theorem vet_entry_within_leverage_cap:
  assumes "vet_entry i mark sn limits pending = Inr v" "\<not> is_reject v" "0 < mark"
    and "0 \<le> it_notional i" "0 \<le> rl_max_leverage limits"
    and "\<forall>p \<in> set (sn_positions sn). 0 \<le> pv_notional p" "\<forall>j \<in> set pending. 0 \<le> it_notional j"
  shows "entry_existing sn pending + granted v (it_notional i) mark
    \<le> of_int (rl_max_leverage limits) * sn_equity sn * (1 + 1 / 10 ^ 26)"
  by (rule vet_entry_granted [OF assms(1-5) entry_existing_nonneg [OF assms(6,7)]])

definition sample_entry :: "dec \<Rightarrow> intent" where
  "sample_entry q = \<lparr>it_instrument = 6, it_side = Buy, it_quantity = q, it_notional = 100,
     it_reduce_only = False, it_reason = ''strategy''\<rparr>"

definition sample_view :: "dec \<Rightarrow> dec \<Rightarrow> dec \<Rightarrow> dec \<Rightarrow> position_view" where
  "sample_view sz entry notional liq = \<lparr>pv_instrument = 6, pv_size = sz, pv_entry = entry,
     pv_notional = notional, pv_leverage = 3, pv_liq_price = Some liq, pv_unrealised = 0, pv_funding = 0\<rparr>"

definition sample_snapshot :: "dec \<Rightarrow> position_view list \<Rightarrow> account_snapshot" where
  "sample_snapshot equity ps = \<lparr>sn_equity = equity, sn_positions = ps, sn_open_orders = [],
     sn_stops = [], sn_in_liquidation = False, sn_ts = 0\<rparr>"

lemma vet_entry_within_leverage_cap_witness:
  "entry_existing (sample_snapshot 50 [sample_view 2 50 100 34]) [] + granted (Resize (1/2)) 100 100
    \<le> of_int (rl_max_leverage LIMITS) * sn_equity (sample_snapshot 50 [sample_view 2 50 100 34]) * (1 + 1 / 10 ^ 26)"
proof -
  have "vet_entry (sample_entry 1) 100 (sample_snapshot 50 [sample_view 2 50 100 34]) LIMITS [] = Inr (Resize (1/2))"
    by code_simp
  from vet_entry_within_leverage_cap [OF this] show ?thesis
    by (simp add: is_reject_def sample_entry_def sample_snapshot_def sample_view_def LIMITS_def)
qed

text \<open>
  C2. Under the pinned \<open>LIMITS\<close> the liquidation-distance floor never changes an entry verdict: its
  \<open>1 / 0.27 = 3.7\<close> times equity always exceeds the cap of 3 times equity, so the verdict is the one of the
  leverage cap alone.
\<close>

theorem liquidation_floor_never_binds:
  assumes "0 < sn_equity sn" "cap = dsub (dmul 3 (sn_equity sn)) (entry_existing sn pending)"
  shows "vet_entry i mark sn LIMITS pending =
    (if cap \<le> 0 then Inr (Reject [S ''leverage cap '', I 3, S ''x already used''])
     else allow_or_resize (min (it_notional i) cap) (it_notional i) mark)"
proof -
  have f: "dadd (rl_min_liq_distance LIMITS) (rl_maintenance_rate LIMITS) = 27/100" by code_simp
  have g: "ddiv 1 (27/100) = Inr (3703703703703703703703703704 / 10 ^ 27)" by code_simp
  let ?fl = "dsub (dmul (3703703703703703703703703704 / 10 ^ 27) (sn_equity sn)) (entry_existing sn pending)"
  have "cap \<le> ?fl"
    unfolding assms(2) dsub_def dmul_def
    using assms(1) by (intro ctx_mono diff_right_mono) simp
  then have m: "0 < cap \<Longrightarrow> 0 < ?fl" "min (min (it_notional i) cap) ?fl = min (it_notional i) cap"
    by linarith+
  show ?thesis
    unfolding vet_entry_def Let_def f g rbind_simps using assms m
    by (auto simp add: LIMITS_def not_less assms(2) [symmetric] intro: leI)
qed

lemma liquidation_floor_never_binds_witness:
  "vet_entry (sample_entry 1) 100 (sample_snapshot 50 [sample_view 2 50 100 34]) LIMITS [] = Inr (Resize (1/2))"
proof -
  have "entry_existing (sample_snapshot 50 [sample_view 2 50 100 34]) [] = 100" "dsub (dmul 3 50) 100 = 50"
    "allow_or_resize (min 100 50) 100 100 = Inr (Resize (1/2))" by code_simp+
  moreover have "dmul 3 50 = 150" by code_simp
  ultimately show ?thesis
    using liquidation_floor_never_binds [of "sample_snapshot 50 [sample_view 2 50 100 34]" 50 "[]" "sample_entry 1" 100]
    by (simp add: sample_snapshot_def sample_entry_def)
qed

text \<open>
  C3. For an entry price of at least 0.1 the stop lies strictly between the liquidation price and the
  entry, on both sides of the book: the stop fires before the venue liquidates.
\<close>

theorem stop_before_liquidation:
  assumes "1/10 \<le> e" "sz \<noteq> 0"
    and "stop_price (if 0 < sz then Long else Short) e LIMITS = Inr s" "liquidation_price sz e LIMITS = Inr l"
  shows "if 0 < sz then l < s \<and> s < e else e < s \<and> s < l"
  using stop_price_bounds [OF assms(3)] liquidation_price_bounds [OF assms(4)] assms(1,2)
  by (auto split: if_splits)

lemma sample_prices: "stop_price Long 100 LIMITS = Inr 85 \<and> liquidation_price 2 100 LIMITS = Inr 68.67"
  by code_simp

lemma stop_before_liquidation_witness:
  "if 0 < (2::rat) then (68.67 :: rat) < 85 \<and> (85::rat) < 100 else (100::rat) < 85 \<and> (85::rat) < 68.67"
  using stop_before_liquidation [of 100 2 85 "68.67"] sample_prices by simp

text \<open>
  C4. For an entry of at least 0.2, a position marked anywhere from its stop to its liquidation price
  is flattened by \<open>check_open\<close>, while at its entry price it is held: the distance guard always acts before
  the stop does.
\<close>

theorem distance_guard_acts_before_stop:
  assumes "1/5 \<le> e" "pv_size p \<noteq> 0" "pv_liq_price p = Some l"
    and "liquidation_price (pv_size p) e LIMITS = Inr l"
    and "stop_price (if 0 < pv_size p then Long else Short) e LIMITS = Inr s"
    and "min s l \<le> mark" "mark \<le> max s l"
  shows "check_open p mark LIMITS = Inr Flatten \<and> check_open p e LIMITS = Inr Hold"
proof
  note b = stop_price_bounds [OF assms(5)] liquidation_price_bounds [OF assms(4)]
  have m: "0 < mark \<and> \<bar>l - mark\<bar> \<le> 249/1000 * mark"
  proof (cases "0 < pv_size p")
    case True
    then have "849/1000 * e - 1/200 \<le> s" "s \<le> 851/1000 * e + 1/200"
      "686/1000 * e - 1/200 \<le> l" "l \<le> 687/1000 * e + 1/200" using b assms(1) by auto
    then show ?thesis using assms(1,6,7) by (simp add: abs_le_iff min_def max_def split: if_splits)
  next
    case False
    then have "1149/1000 * e - 1/200 \<le> s" "s \<le> 1151/1000 * e + 1/200"
      "1313/1000 * e - 1/200 \<le> l" "l \<le> 1314/1000 * e + 1/200" using b assms(1) by auto
    then show ?thesis using assms(1,6,7) by (simp add: abs_le_iff min_def max_def split: if_splits)
  qed
  then show "check_open p mark LIMITS = Inr Flatten" by (intro check_open_flattens [OF assms(3,2)]) auto
  have h: "251/1000 * e \<le> \<bar>l - e\<bar>"
    using b(3,4) assms(1) by (cases "0 < pv_size p") (simp_all add: abs_if not_less)
  show "check_open p e LIMITS = Inr Hold"
    using h assms(1) by (intro check_open_holds [OF assms(3,2)]) auto
qed

lemma distance_guard_acts_before_stop_witness:
  "check_open (sample_view 2 100 180 68.67) 80 LIMITS = Inr Flatten \<and>
   check_open (sample_view 2 100 180 68.67) 100 LIMITS = Inr Hold"
  using distance_guard_acts_before_stop [of 100 "sample_view 2 100 180 68.67" "68.67" 85 80] sample_prices
  by (simp add: sample_view_def)

text \<open>
  C27. The distance is an absolute value: a mark that has gapped past the liquidation price by more than
  about a third reads as far away from it, and the guard holds the position.
\<close>

theorem distance_guard_blind_past_liquidation:
  assumes "pv_liq_price p = Some l" "pv_size p \<noteq> 0" "0 < mark"
    and "if 0 < pv_size p then mark * (1251/1000) \<le> l else l \<le> mark * (749/1000)"
  shows "check_open p mark LIMITS = Inr Hold"
  using assms(3,4) by (intro check_open_holds [OF assms(1,2)]) (auto split: if_splits)

lemma distance_guard_blind_past_liquidation_witness:
  "check_open (sample_view 2 100 100 68.67) 50 LIMITS = Inr Hold"
  using distance_guard_blind_past_liquidation [of "sample_view 2 100 100 68.67" "68.67" 50]
  by (simp add: sample_view_def)

end
