(* ===== verification/Sim_Exec.thy ===== *)
theory Sim_Exec
  imports Executor Risk_Guard
begin

text \<open>
  \<open>polyperps/execution/sim_executor.py\<close>: the paper executor. An in-memory account that fills at
  the live mark with the backtest's cost model, fires its own stops, and hands its JSON text to a
  persistence callback after every change.
\<close>

section \<open>State\<close>

definition new_pos :: sim_pos where
  "new_pos = \<lparr>sp_size = 0, sp_entry = 0, sp_funding = 0\<rparr>"

datatype fail_mode = FailTimeout | FailReject | FailDrop

record sim =
  sx_cash :: dec
  sx_start_equity :: dec
  sx_fee :: dec
  sx_spread :: dec
  sx_impact :: dec
  sx_notional :: dec
  sx_clock :: "nat \<Rightarrow> time"
  sx_reads :: nat
  sx_persist :: bool
  sx_saved :: "sim_json option"
  sx_marks :: "(int \<times> dec) list"
  sx_pos :: "(int \<times> sim_pos) list"
  sx_stops :: "(int \<times> dec) list"
  sx_queue :: "event list"
  sx_n :: int
  sx_fail_next :: "fail_mode option"
  sx_fail_queue :: "fail_mode list"
  sx_heartbeats :: nat

definition sim_init ::
  "dec \<Rightarrow> dec \<Rightarrow> dec \<Rightarrow> dec \<Rightarrow> dec \<Rightarrow> (nat \<Rightarrow> time) \<Rightarrow> bool \<Rightarrow> sim" where
  "sim_init equity fee spread impact notional clock persist =
     \<lparr>sx_cash = equity, sx_start_equity = equity, sx_fee = fee, sx_spread = spread,
      sx_impact = impact, sx_notional = notional, sx_clock = clock, sx_reads = 0,
      sx_persist = persist, sx_saved = None, sx_marks = [], sx_pos = [], sx_stops = [],
      sx_queue = [], sx_n = 0, sx_fail_next = None, sx_fail_queue = [], sx_heartbeats = 0\<rparr>"

definition sim_clock :: "(sim, time) eff" where
  "sim_clock = (\<lambda>x. (Inr (sx_clock x (sx_reads x)), x\<lparr>sx_reads := Suc (sx_reads x)\<rparr>))"

section \<open>Persistence\<close>

definition to_json :: "sim \<Rightarrow> sim_json" where
  "to_json x = \<lparr>js_cash = sx_cash x, js_start_equity = Some (sx_start_equity x), js_n = sx_n x,
     js_positions = filter (\<lambda>(_, p). sp_size p \<noteq> 0) (sx_pos x),
     js_stops = sx_stops x, js_marks = Some (sx_marks x)\<rparr>"

definition sim_save :: "(sim, unit) eff" where
  "sim_save = upd (\<lambda>x. if sx_persist x then x\<lparr>sx_saved := Some (to_json x)\<rparr> else x)"

text \<open>\<open>from_json\<close> on a text and the keyword arguments of the constructor.\<close>

definition from_json ::
  "sim_json \<Rightarrow> dec \<Rightarrow> dec \<Rightarrow> dec \<Rightarrow> dec \<Rightarrow> (nat \<Rightarrow> time) \<Rightarrow> bool \<Rightarrow> sim" where
  "from_json j fee spread impact notional clock persist =
     (sim_init (js_cash j) fee spread impact notional clock persist)
       \<lparr>sx_start_equity := (case js_start_equity j of None \<Rightarrow> js_cash j | Some e \<Rightarrow> e),
        sx_n := js_n j, sx_pos := js_positions j, sx_stops := js_stops j,
        sx_marks := (case js_marks j of None \<Rightarrow> [] | Some m \<Rightarrow> m)\<rparr>"

section \<open>Market data in\<close>

definition update_mark :: "int \<Rightarrow> dec \<Rightarrow> (sim, unit) eff" where
  "update_mark iid mark = upd (\<lambda>x. x\<lparr>sx_marks := AList.update iid mark (sx_marks x)\<rparr>)"

definition mark_of :: "int \<Rightarrow> sim \<Rightarrow> dec res" where
  "mark_of iid x = (case map_of (sx_marks x) iid of None \<Rightarrow> Inl (Exn KeyError [I iid]) | Some m \<Rightarrow> Inr m)"

definition set_pos :: "int \<Rightarrow> sim_pos \<Rightarrow> sim \<Rightarrow> sim" where
  "set_pos iid p x = x\<lparr>sx_pos := AList.update iid p (sx_pos x)\<rparr>"

definition apply_funding :: "int \<Rightarrow> dec \<Rightarrow> (sim, unit) eff" where
  "apply_funding iid rate =
     bind (get (\<lambda>x. map_of (sx_pos x) iid)) (\<lambda>po.
       case po of
         None \<Rightarrow> ret ()
       | Some p \<Rightarrow>
           if sp_size p = 0 then ret ()
           else
             bind (getr (mark_of iid)) (\<lambda>mark.
               let paid = dmul (dmul (dneg (sp_size p)) mark) rate in
               andthen
                 (upd (\<lambda>x. (set_pos iid (p\<lparr>sp_funding := dadd (sp_funding p) paid\<rparr>) x)
                    \<lparr>sx_cash := dadd (sx_cash x) paid\<rparr>))
                 sim_save))"

definition sim_on_tick :: "tick \<Rightarrow> (sim, unit) eff" where
  "sim_on_tick t = update_mark (tk_instrument t) (tk_mark t)"

definition sim_on_bar :: "bar \<Rightarrow> (sim, unit) eff" where
  "sim_on_bar b = (case br_funding b of None \<Rightarrow> ret () | Some r \<Rightarrow> apply_funding (br_instrument b) r)"

section \<open>Fills\<close>

text \<open>
  The pure part of \<open>_apply_position\<close>: the new position, and what a closed part realises (nothing
  when the position opens or grows: the cash is then not touched).
\<close>

definition position_after :: "sim_pos \<Rightarrow> dec \<Rightarrow> dec \<Rightarrow> (sim_pos \<times> dec option) res" where
  "position_after p delta price =
     (let old = sp_size p; new = dadd old delta;
          fin = (\<lambda>q realised. Inr (if sp_size q = 0 then q\<lparr>sp_funding := 0\<rparr> else q, realised)) in
      if old = 0 then fin (p\<lparr>sp_size := new, sp_entry := price\<rparr>) None
      else if (0 < old) = (0 < new) \<and> dabs old < dabs new then
        rbind (ddiv (dadd (dmul (dabs old) (sp_entry p)) (dmul (dabs delta) price)) (dabs new))
          (\<lambda>entry. fin (p\<lparr>sp_size := new, sp_entry := entry\<rparr>) None)
      else if (0 < old) = (0 < new) \<and> new \<noteq> 0 then
        let closed = dsub (dabs old) (dabs new) in
        fin (p\<lparr>sp_size := new\<rparr>)
          (Some (dmul (dmul closed (if 0 < old then 1 else - 1)) (dsub price (sp_entry p))))
      else
        fin (p\<lparr>sp_size := new, sp_entry := (if new \<noteq> 0 then price else 0)\<rparr>)
          (Some (dmul old (dsub price (sp_entry p)))))"

definition pos_or_new :: "int \<Rightarrow> sim \<Rightarrow> sim_pos" where
  "pos_or_new iid x = (case map_of (sx_pos x) iid of None \<Rightarrow> new_pos | Some p \<Rightarrow> p)"

definition apply_position :: "int \<Rightarrow> dec \<Rightarrow> dec \<Rightarrow> (sim, unit) eff" where
  "apply_position iid delta price =
     bind (get (pos_or_new iid)) (\<lambda>p.
     bind (lift (position_after p delta price)) (\<lambda>(q, realised).
       upd (\<lambda>x. (set_pos iid q x)
         \<lparr>sx_cash := (case realised of None \<Rightarrow> sx_cash x | Some r \<Rightarrow> dadd (sx_cash x) r)\<rparr>)))"

definition sim_fill :: "order_request \<Rightarrow> time \<Rightarrow> dec \<Rightarrow> dec option \<Rightarrow> (sim, fill_update) eff" where
  "sim_fill order now qty price =
     bind (case price of None \<Rightarrow> getr (mark_of (rq_instrument order)) | Some p \<Rightarrow> ret p) (\<lambda>px.
     bind (getr (\<lambda>x. fill_cost (dmul qty px) (sx_notional x) (sx_spread x) (sx_fee x) (sx_impact x))) (\<lambda>fee.
     andthen (upd (\<lambda>x. x\<lparr>sx_cash := dsub (sx_cash x) fee\<rparr>))
     (andthen (apply_position (rq_instrument order)
        (dmul (case rq_side order of Buy \<Rightarrow> 1 | Sell \<Rightarrow> - 1) qty) px)
     (ret \<lparr>fu_cid = rq_cid order, fu_instrument = rq_instrument order, fu_side = rq_side order,
        fu_quantity = qty, fu_price = px, fu_fee = fee, fu_ts = now\<rparr>))))"

section \<open>The executor protocol\<close>

definition next_mode :: "(sim, fail_mode option) eff" where
  "next_mode = (\<lambda>x.
     case sx_fail_queue x of
       m # ms \<Rightarrow> (Inr (Some m), x\<lparr>sx_fail_queue := ms\<rparr>)
     | [] \<Rightarrow> (Inr (sx_fail_next x), x\<lparr>sx_fail_next := None\<rparr>))"

definition sim_ack :: "order_request \<Rightarrow> string option \<Rightarrow> ack_status \<Rightarrow> text_t \<Rightarrow> time \<Rightarrow> order_ack" where
  "sim_ack order xid st reason now =
     \<lparr>ak_cid = rq_cid order, ak_exchange_id = xid, ak_status = st, ak_reason = reason, ak_ts = now\<rparr>"

definition sim_submit :: "order_request \<Rightarrow> (sim, order_ack) eff" where
  "sim_submit order =
     bind sim_clock (\<lambda>now.
     bind next_mode (\<lambda>m.
       if m = Some FailDrop then
         raise (Exn ExecutorTimeout [S ''sim: injected drop for '', S (rq_cid order)])
       else if m = Some FailReject then
         ret (sim_ack order None AckRejected [S ''sim: injected reject''] now)
       else
         bind (get (pos_or_new (rq_instrument order))) (\<lambda>p.
         andthen (upd (set_pos (rq_instrument order) p))
         (if rq_reduce_only order \<and> (sp_size p = 0 \<or> (0 < sp_size p) = (rq_side order = Buy)) then
            ret (sim_ack order None AckRejected
              [S ''reduce_only order would open or increase a position''] now)
          else
            let fill_qty = (if rq_reduce_only order then min (rq_quantity order) (dabs (sp_size p))
                            else rq_quantity order) in
            andthen (upd (\<lambda>x. x\<lparr>sx_n := sx_n x + 1\<rparr>))
            (bind (get (\<lambda>x. ''sim-'' @ show_int (sx_n x))) (\<lambda>xid.
             bind (sim_fill order now fill_qty None) (\<lambda>fill.
             andthen (upd (\<lambda>x. x\<lparr>sx_queue := sx_queue x @
                 [EvOrder \<lparr>ou_cid = rq_cid order, ou_status = Filled, ou_filled = fill_qty, ou_ts = now\<rparr>,
                  EvFill fill]\<rparr>))
             (andthen sim_save
             (if m = Some FailTimeout then
                raise (Exn ExecutorTimeout [S ''sim: injected timeout for '', S (rq_cid order)])
              else ret (sim_ack order (Some xid) AckAccepted [] now))))))))))"

definition sim_cancel :: "string \<Rightarrow> (sim, unit) eff" where
  "sim_cancel cid = ret ()"

definition sim_place_stop :: "int \<Rightarrow> dec \<Rightarrow> (sim, stop_ack) eff" where
  "sim_place_stop iid trigger =
     andthen (upd (\<lambda>x. x\<lparr>sx_stops := AList.update iid trigger (sx_stops x)\<rparr>))
     (andthen sim_save
     (bind sim_clock (\<lambda>now. ret \<lparr>sa_instrument = iid, sa_trigger = trigger,
        sa_exchange_id = Some (''sim-stop-'' @ show_int iid), sa_ts = now\<rparr>)))"

definition sim_cancel_stop :: "int \<Rightarrow> (sim, unit) eff" where
  "sim_cancel_stop iid =
     andthen (upd (\<lambda>x. x\<lparr>sx_stops := AList.delete iid (sx_stops x)\<rparr>)) sim_save"

definition sim_heartbeat :: "(sim, unit) eff" where
  "sim_heartbeat = upd (\<lambda>x. x\<lparr>sx_heartbeats := Suc (sx_heartbeats x)\<rparr>)"

text \<open>
  \<open>check_triggers\<close>: the loop runs over a copy of the stops, and fires each one its mark has reached
  at the trigger price. The fills are returned, never queued.
\<close>

definition stop_hit :: "dec \<Rightarrow> dec \<Rightarrow> dec \<Rightarrow> bool" where
  "stop_hit sz mark trig \<longleftrightarrow> 0 < sz \<and> mark \<le> trig \<or> sz < 0 \<and> trig \<le> mark"

fun fire_stops :: "(int \<times> dec) list \<Rightarrow> (sim, fill_update list) eff" where
  "fire_stops [] = ret []"
| "fire_stops ((iid, trig) # rest) =
     bind (get (\<lambda>x. (map_of (sx_pos x) iid, map_of (sx_marks x) iid))) (\<lambda>pm.
       case pm of
         (Some p, Some mark) \<Rightarrow>
           if sp_size p \<noteq> 0 \<and> stop_hit (sp_size p) mark trig then
             andthen (upd (\<lambda>x. x\<lparr>sx_n := sx_n x + 1\<rparr>))
             (bind (get sx_n) (\<lambda>n.
              bind sim_clock (\<lambda>ts.
              bind sim_clock (\<lambda>now.
              bind (sim_fill
                \<lparr>rq_cid = ''sim-stop-'' @ show_int iid @ ''-'' @ show_int n, rq_instrument = iid,
                 rq_side = (if 0 < sp_size p then Sell else Buy), rq_quantity = dabs (sp_size p),
                 rq_reduce_only = True, rq_ts = ts\<rparr> now (dabs (sp_size p)) (Some trig)) (\<lambda>fill.
              andthen (upd (\<lambda>x. x\<lparr>sx_stops := AList.delete iid (sx_stops x)\<rparr>))
              (bind (fire_stops rest) (\<lambda>fills. ret (fill # fills))))))))
           else fire_stops rest
       | _ \<Rightarrow> fire_stops rest)"

definition check_triggers :: "(sim, fill_update list) eff" where
  "check_triggers =
     bind (get sx_stops) (\<lambda>stops.
     bind (fire_stops stops) (\<lambda>fired.
       if fired \<noteq> [] then andthen sim_save (ret fired) else ret fired))"

definition sim_view :: "sim \<Rightarrow> int \<times> sim_pos \<Rightarrow> position_view res" where
  "sim_view x = (\<lambda>(iid, p).
     rbind (mark_of iid x) (\<lambda>mark.
     rbind (liquidation_price (sp_size p) (sp_entry p) LIMITS) (\<lambda>liq.
       Inr \<lparr>pv_instrument = iid, pv_size = sp_size p, pv_entry = sp_entry p,
         pv_notional = dmul (dabs (sp_size p)) mark, pv_leverage = rl_max_leverage LIMITS,
         pv_liq_price = Some liq, pv_unrealised = dmul (sp_size p) (dsub mark (sp_entry p)),
         pv_funding = sp_funding p\<rparr>)))"

definition open_positions :: "sim \<Rightarrow> (int \<times> sim_pos) list" where
  "open_positions x = filter (\<lambda>(_, p). sp_size p \<noteq> 0) (sx_pos x)"

definition sim_snapshot :: "(sim, account_snapshot) eff" where
  "sim_snapshot =
     bind (getr (\<lambda>x. rmapM (sim_view x) (open_positions x))) (\<lambda>views.
     bind sim_clock (\<lambda>now.
     bind (get id) (\<lambda>x. ret
       \<lparr>sn_equity = dadd (sx_cash x) (dsum (map pv_unrealised views)), sn_positions = views,
        sn_open_orders = [], sn_stops = sx_stops x, sn_in_liquidation = False, sn_ts = now\<rparr>)))"

definition drain_events :: "(sim, event list) eff" where
  "drain_events = (\<lambda>x. (Inr (sx_queue x), x\<lparr>sx_queue := []\<rparr>))"

definition sim_ops :: "sim exec_ops" where
  "sim_ops = \<lparr>xo_name = ''sim'', xo_submit = sim_submit, xo_cancel = sim_cancel,
     xo_place_stop = sim_place_stop, xo_cancel_stop = sim_cancel_stop,
     xo_heartbeat = sim_heartbeat, xo_snapshot = sim_snapshot, xo_on_tick = sim_on_tick,
     xo_on_bar = sim_on_bar, xo_poll_fills = check_triggers\<rparr>"

section \<open>The executor laws hold of the paper account\<close>

definition sim_positions :: "sim \<Rightarrow> position_view list" where
  "sim_positions x = (case rmapM (sim_view x) (open_positions x) of Inl e \<Rightarrow> [] | Inr vs \<Rightarrow> vs)"

definition sim_stops :: "sim \<Rightarrow> (int \<rightharpoonup> dec)" where
  "sim_stops x = map_of (sx_stops x)"

lemmas sim_eff_defs = bind_def andthen_def get_def getr_def upd_def lift_def ret_def raise_def
  sim_clock_def sim_save_def

lemma sim_view_cong: "sx_marks y = sx_marks x \<Longrightarrow> sim_view y = sim_view x"
  by (simp add: sim_view_def mark_of_def fun_eq_iff)

lemma sim_positions_cong:
  "sx_marks y = sx_marks x \<Longrightarrow> sx_pos y = sx_pos x \<Longrightarrow> sim_positions y = sim_positions x"
  by (simp add: sim_positions_def open_positions_def sim_view_cong [of y x])

interpretation paper: writing_executor sim_ops sim_positions sim_stops
proof (unfold_locales, goal_cases)
  case (1 x r x')
  then show ?case
    by (auto simp: sim_ops_def sim_snapshot_def sim_eff_defs sim_stops_def
        split: sum.splits intro!: sim_positions_cong)
next
  case (2 x sn x')
  then show ?case
    by (auto simp: sim_ops_def sim_snapshot_def sim_eff_defs sim_stops_def sim_positions_def
        split: sum.splits)
next
  case (3 i p x r x')
  then show ?case
    by (auto simp: sim_ops_def sim_place_stop_def sim_eff_defs intro!: sim_positions_cong)
next
  case (4 i p x a x')
  then show ?case
    by (auto simp: sim_ops_def sim_place_stop_def sim_eff_defs sim_stops_def update_conv')
next
  case (5 i p x e x')
  then show ?case by (auto simp: sim_ops_def sim_place_stop_def sim_eff_defs)
next
  case (6 cid x r x')
  then show ?case by (auto simp: sim_ops_def sim_cancel_def sim_eff_defs)
next
  case (7 i x r x')
  then show ?case
    by (auto simp: sim_ops_def sim_cancel_stop_def sim_eff_defs intro!: sim_positions_cong)
next
  case (9 i p x e x')
  then show ?case by (auto simp: sim_ops_def sim_place_stop_def sim_eff_defs)
next
  case (8 i x u x' j)
  then show ?case
    by (auto simp: sim_ops_def sim_cancel_stop_def sim_eff_defs sim_stops_def delete_conv')
qed

end
