(* ===== verification/Exposure.thy ===== *)
theory Exposure
  imports Risk_Guard
begin

text \<open>
  \<open>polyperps/risk/portfolio_exposure.py\<close>: the aggregate exposure caps. Clusters are instrument
  categories; the categories map of the routers is a partial function.
\<close>

record exposure_limits =
  xl_gross :: dec
  xl_cluster_net :: dec

definition EXPOSURE :: exposure_limits where
  "EXPOSURE = \<lparr>xl_gross = 1, xl_cluster_net = 6/10\<rparr>"

definition known_clusters :: "string list" where
  "known_clusters = [''crypto'', ''equity'', ''index'', ''commodity'']"

definition cluster_of :: "string \<Rightarrow> string" where
  "cluster_of category = (if category \<in> set known_clusters then category else ''other'')"

definition cluster_in :: "(int \<rightharpoonup> string) \<Rightarrow> int \<Rightarrow> string" where
  "cluster_in categories iid =
     cluster_of (case categories iid of None \<Rightarrow> ''other'' | Some c \<Rightarrow> c)"

definition side_sign :: "side \<Rightarrow> dec" where
  "side_sign s = (case s of Buy \<Rightarrow> 1 | Sell \<Rightarrow> - 1)"

definition gross_existing :: "position_view list \<Rightarrow> intent list \<Rightarrow> dec" where
  "gross_existing positions entries =
     dadd (dsum (map pv_notional positions)) (dsum (map it_notional entries))"

definition net_existing ::
  "(int \<rightharpoonup> string) \<Rightarrow> string \<Rightarrow> position_view list \<Rightarrow> intent list \<Rightarrow> dec" where
  "net_existing categories cl positions entries =
     dadd
       (dsum (map (\<lambda>p. dmul (if 0 < pv_size p then 1 else - 1) (pv_notional p))
          (filter (\<lambda>p. cluster_in categories (pv_instrument p) = cl) positions)))
       (dsum (map (\<lambda>i. dmul (side_sign (it_side i)) (it_notional i))
          (filter (\<lambda>i. cluster_in categories (it_instrument i) = cl) entries)))"

definition vet_exposure ::
  "intent \<Rightarrow> position_view list \<Rightarrow> dec \<Rightarrow> (int \<rightharpoonup> string) \<Rightarrow> exposure_limits \<Rightarrow> intent list \<Rightarrow> verdict res" where
  "vet_exposure i positions equity categories limits pending =
     (if equity \<le> 0 then Inr (Reject [S ''equity <= 0''])
      else
        let sign = side_sign (it_side i);
            my_cluster = cluster_in categories (it_instrument i);
            entries = filter (\<lambda>j. \<not> it_reduce_only j) pending;
            gross = gross_existing positions entries;
            net = net_existing categories my_cluster positions entries;
            gross_room = dsub (dmul (xl_gross limits) equity) gross in
        if gross_room \<le> 0 then Inr (Reject [S ''gross exposure cap already used''])
        else
          let allowed = min (it_notional i) gross_room;
              cluster_room = dsub (dmul (xl_cluster_net limits) equity) (dmul sign net) in
          if cluster_room \<le> 0 then
            Inr (Reject [S ''cluster net cap already used in '', S my_cluster])
          else
            let allowed = min allowed cluster_room in
            if it_notional i \<le> allowed then Inr Allow
            else rbind (ddiv (it_notional i) (it_quantity i)) (\<lambda>mark.
                   allow_or_resize allowed (it_notional i) mark))"

section \<open>What an exposure verdict grants\<close>

definition gross_room :: "exposure_limits \<Rightarrow> dec \<Rightarrow> position_view list \<Rightarrow> intent list \<Rightarrow> dec" where
  "gross_room limits equity positions pending =
     dsub (dmul (xl_gross limits) equity)
       (gross_existing positions (filter (\<lambda>j. \<not> it_reduce_only j) pending))"

definition cluster_room ::
  "exposure_limits \<Rightarrow> dec \<Rightarrow> (int \<rightharpoonup> string) \<Rightarrow> intent \<Rightarrow> position_view list \<Rightarrow> intent list \<Rightarrow> dec" where
  "cluster_room limits equity categories i positions pending =
     dsub (dmul (xl_cluster_net limits) equity)
       (dmul (side_sign (it_side i)) (net_existing categories (cluster_in categories (it_instrument i))
          positions (filter (\<lambda>j. \<not> it_reduce_only j) pending)))"

lemma vet_exposure_eq:
  "vet_exposure i positions equity categories limits pending =
     (if equity \<le> 0 then Inr (Reject [S ''equity <= 0''])
      else if gross_room limits equity positions pending \<le> 0 then
        Inr (Reject [S ''gross exposure cap already used''])
      else if cluster_room limits equity categories i positions pending \<le> 0 then
        Inr (Reject [S ''cluster net cap already used in '', S (cluster_in categories (it_instrument i))])
      else
        let allowed = min (min (it_notional i) (gross_room limits equity positions pending))
              (cluster_room limits equity categories i positions pending) in
        if it_notional i \<le> allowed then Inr Allow
        else rbind (ddiv (it_notional i) (it_quantity i)) (\<lambda>mark.
               allow_or_resize allowed (it_notional i) mark))"
  by (simp add: vet_exposure_def gross_room_def cluster_room_def Let_def)

lemma vet_exposure_cases:
  assumes "vet_exposure i positions equity categories limits pending = Inr v" "\<not> is_reject v"
  shows "\<exists>room. 0 < equity \<and> 0 < room
    \<and> room \<le> gross_room limits equity positions pending
    \<and> room \<le> cluster_room limits equity categories i positions pending
    \<and> (v = Allow \<and> it_notional i \<le> room
       \<or> it_quantity i \<noteq> 0
         \<and> allow_or_resize (min (it_notional i) room) (it_notional i) (ctx (it_notional i / it_quantity i)) = Inr v)"
  using assms
  by (auto simp: vet_exposure_eq Let_def is_reject_def ddiv_eq_Inr min.assoc not_le split: if_splits
      intro!: exI [of _ "min (gross_room limits equity positions pending)
        (cluster_room limits equity categories i positions pending)"])

text \<open>Both rooms bound what a verdict lets through, measured at the intent's own price.\<close>

lemma vet_exposure_granted:
  assumes "vet_exposure i positions equity categories limits pending = Inr v" "\<not> is_reject v"
    and "0 \<le> it_notional i" "0 \<le> it_quantity i"
  shows "\<exists>room. 0 < room \<and> room \<le> gross_room limits equity positions pending
    \<and> room \<le> cluster_room limits equity categories i positions pending
    \<and> (v = Allow \<and> it_notional i \<le> room
      \<or> (\<exists>q. v = Resize q \<and> 0 \<le> q \<and> 0 < it_quantity i \<and> 0 < it_notional i
          \<and> q * (it_notional i / it_quantity i) \<le> room * (1 + 2 / 10 ^ 27)))"
proof -
  obtain room where r: "0 < room" "room \<le> gross_room limits equity positions pending"
      "room \<le> cluster_room limits equity categories i positions pending"
      "v = Allow \<and> it_notional i \<le> room \<or> it_quantity i \<noteq> 0
         \<and> allow_or_resize (min (it_notional i) room) (it_notional i) (ctx (it_notional i / it_quantity i)) = Inr v"
    using vet_exposure_cases [OF assms(1,2)] by blast
  have "v = Allow \<and> it_notional i \<le> room \<or>
    (\<exists>q. v = Resize q \<and> 0 \<le> q \<and> 0 < it_quantity i \<and> 0 < it_notional i
      \<and> q * (it_notional i / it_quantity i) \<le> room * (1 + 2 / 10 ^ 27))"
  proof (cases "v = Allow \<and> it_notional i \<le> room")
    case False
    let ?m = "it_notional i / it_quantity i"
    have a: "allow_or_resize (min (it_notional i) room) (it_notional i) (ctx ?m) = Inr v" and q0: "0 < it_quantity i"
      using False r(4) assms(4) by auto
    have n0: "0 < it_notional i"
    proof (rule ccontr)
      assume "\<not> 0 < it_notional i"
      then have "it_notional i = 0" using assms(3) by simp
      then show False using a False r(1) by (simp add: allow_or_resize_def)
    qed
    have m: "0 < ?m" using q0 n0 by simp
    obtain q where q: "v = Resize q" "0 \<le> q" "q * ctx ?m \<le> min (it_notional i) room * (1 + 5 / 10 ^ 28)"
      using allow_or_resize_grants [OF a] m r(1) n0 False by auto
    have "q * ?m * (1 - 5 / 10 ^ 28) = q * (?m * (1 - 5 / 10 ^ 28))" by simp
    also have "\<dots> \<le> q * ctx ?m" using q(2) ctx_lower [of ?m] m by (intro mult_left_mono) auto
    also have "\<dots> \<le> room * (1 + 5 / 10 ^ 28)"
      by (rule order_trans [OF q(3)]) (intro mult_right_mono, auto)
    finally have "q * ?m * (1 - 5 / 10 ^ 28) \<le> room * (1 + 5 / 10 ^ 28)" .
    also have "\<dots> \<le> room * (1 + 2 / 10 ^ 27) * (1 - 5 / 10 ^ 28)" using r(1) by (simp add: field_simps)
    finally have "q * ?m \<le> room * (1 + 2 / 10 ^ 27)" by (rule mult_right_le_imp_le) simp
    then show ?thesis using q q0 n0 by blast
  qed blast
  then show ?thesis using r(1-3) by blast
qed

end
