(* ===== verification/Kill_Switch.thy ===== *)
theory Kill_Switch
  imports Alerting
begin

text \<open>
  \<open>polyperps/risk/kill_switch.py\<close>: the Sharpe divergence check and the hard loss limit; the
  stricter of the two wins. Sharpe ratios are binary floats.
\<close>

datatype mode = Paper | Live

datatype action = Run | Pause | Shutdown

fun action_rank :: "action \<Rightarrow> nat" where
  "action_rank Run = 0"
| "action_rank Pause = 1"
| "action_rank Shutdown = 2"

text \<open>The rank orders the actions: \<open>max\<close> of the library is the source's \<open>max\<close> by rank.\<close>

lemma action_rank_inj: "action_rank a = action_rank b \<longleftrightarrow> a = b"
  by (cases a; cases b) simp_all

instantiation action :: linorder
begin

definition less_eq_action :: "action \<Rightarrow> action \<Rightarrow> bool" where
  "less_eq_action a b \<longleftrightarrow> action_rank a \<le> action_rank b"

definition less_action :: "action \<Rightarrow> action \<Rightarrow> bool" where
  "less_action a b \<longleftrightarrow> action_rank a < action_rank b"

instance
  by standard (auto simp: less_eq_action_def less_action_def action_rank_inj)

end

lemma action_bounds [simp]: "Run \<le> a" "a \<le> Shutdown" "Shutdown \<le> a \<longleftrightarrow> a = Shutdown" "a \<le> Run \<longleftrightarrow> a = Run"
  "Pause \<le> a \<longleftrightarrow> a \<noteq> Run"
  by (cases a; simp add: less_eq_action_def)+

record kill_thresholds =
  kt_pause :: "dec option"
  kt_shutdown :: "dec option"

definition THRESHOLDS :: kill_thresholds where
  "THRESHOLDS = \<lparr>kt_pause = None, kt_shutdown = None\<rparr>"

definition divergence :: "rat option \<Rightarrow> rat option \<Rightarrow> dec option" where
  "divergence live backtest =
     (case (live, backtest) of
        (Some l, Some b) \<Rightarrow>
          if b = 0 then None else Some (repr_dec (fl (\<bar>fl (l - b)\<bar> / \<bar>b\<bar>)))
      | _ \<Rightarrow> None)"

definition mode_default :: "mode \<Rightarrow> action" where
  "mode_default m = (case m of Live \<Rightarrow> Pause | Paper \<Rightarrow> Run)"

definition divergence_action ::
  "rat option \<Rightarrow> rat option \<Rightarrow> mode \<Rightarrow> kill_thresholds \<Rightarrow> action" where
  "divergence_action live backtest m t =
     (case (kt_pause t, kt_shutdown t) of
        (Some pause, Some shutdown) \<Rightarrow>
          (case divergence live backtest of
             None \<Rightarrow> mode_default m
           | Some d \<Rightarrow> if shutdown \<le> d then Shutdown else if pause \<le> d then Pause else Run)
      | _ \<Rightarrow> mode_default m)"

definition loss_limit :: "dec option \<Rightarrow> dec option \<Rightarrow> action" where
  "loss_limit equity start =
     (case (equity, start) of
        (Some e, Some s) \<Rightarrow>
          if s \<le> 0 then Run
          else
            (let drawdown = dsub (ctx (e / s)) 1 in
             if drawdown \<le> at_pnl_critical ALERT_THRESHOLDS then Shutdown
             else if drawdown \<le> at_pnl_warn ALERT_THRESHOLDS then Pause
             else Run)
      | _ \<Rightarrow> Run)"

text \<open>\<open>max\<close> with a key keeps its first argument on a tie; equal ranks are equal actions.\<close>

definition kill_evaluate ::
  "rat option \<Rightarrow> rat option \<Rightarrow> mode \<Rightarrow> dec option \<Rightarrow> dec option \<Rightarrow> kill_thresholds \<Rightarrow> action" where
  "kill_evaluate live backtest m equity start t =
     (let a = divergence_action live backtest m t; b = loss_limit equity start in
      if action_rank a < action_rank b then b else a)"


section \<open>Properties\<close>

lemma ctx_tenths: "ctx (- 1 / 10) = - 1 / 10" "ctx (- 1 / 20) = - 1 / 20"
  by code_simp+

lemma drawdown_bound:
  assumes "ctx (- c) = - c" "0 < c" "c < 1" "0 < s"
  shows "e \<le> (1 - c) * s \<Longrightarrow> ctx (1 - c) = 1 - c \<Longrightarrow> dsub (ctx (e / s)) 1 \<le> - c"
    and "dsub (ctx (e / s)) 1 \<le> - c \<Longrightarrow> c \<le> 1 / 10 \<Longrightarrow> e \<le> (1 - c) * s * (1 + 1 / 10 ^ 27)"
proof -
  assume a: "e \<le> (1 - c) * s" "ctx (1 - c) = 1 - c"
  have "ctx (e / s) \<le> ctx (1 - c)" using a(1) assms by (intro ctx_mono) (simp add: divide_le_eq)
  then have "ctx (ctx (e / s) - 1) \<le> ctx (- c)" using a(2) by (intro ctx_mono) simp
  then show "dsub (ctx (e / s)) 1 \<le> - c" by (simp add: dsub_def assms(1))
next
  assume a: "dsub (ctx (e / s)) 1 \<le> - c" "c \<le> 1 / 10"
  let ?y = "1 - ctx (e / s)"
  have "c \<le> ctx ?y" using a ctx_minus [of ?y] by (simp add: dsub_def)
  moreover have "0 \<le> ?y" using calculation assms(2) ctx_nonneg_iff [of ?y] by linarith
  ultimately have y: "c \<le> ?y * (1 + 5 / 10 ^ 28)" using ctx_upper [of ?y] by linarith
  show "e \<le> (1 - c) * s * (1 + 1 / 10 ^ 27)"
  proof (cases "0 \<le> e")
    case True
    then have "e / s * (1 - 5 / 10 ^ 28) \<le> ctx (e / s)" using assms by (intro ctx_lower) simp
    moreover have "ctx (e / s) * (1 + 5 / 10 ^ 28) \<le> 1 + 5 / 10 ^ 28 - c" using y by (simp add: algebra_simps)
    ultimately have "e / s * ((1 - 5 / 10 ^ 28) * (1 + 5 / 10 ^ 28)) \<le> 1 + 5 / 10 ^ 28 - c" by simp
    also have "\<dots> \<le> (1 - c) * (1 + 6 / 10 ^ 28)" using a(2) by simp
    also have "\<dots> \<le> (1 - c) * ((1 + 1 / 10 ^ 27) * ((1 - 5 / 10 ^ 28) * (1 + 5 / 10 ^ 28)))"
      using assms by (intro mult_left_mono) auto
    finally have "e / s \<le> (1 - c) * (1 + 1 / 10 ^ 27)"
      unfolding mult.assoc [symmetric, of "1 - c"] by (rule mult_right_le_imp_le) simp
    then have "e / s * s \<le> ((1 - c) * (1 + 1 / 10 ^ 27)) * s" using assms by (intro mult_right_mono) auto
    also have "\<dots> = (1 - c) * s * (1 + 1 / 10 ^ 27)" by simp
    finally show ?thesis using assms by simp
  next
    case False
    moreover have "0 \<le> (1 - c) * s * (1 + 1 / 10 ^ 27)" using assms by simp
    ultimately show ?thesis by linarith
  qed
qed


lemma loss_limit_cases:
  assumes "0 < s"
  shows "loss_limit (Some e) (Some s) =
    (if dsub (ctx (e / s)) 1 \<le> - (1 / 10) then Shutdown
     else if dsub (ctx (e / s)) 1 \<le> - (1 / 20) then Pause else Run)"
  using assms by (simp add: loss_limit_def ALERT_THRESHOLDS_def Let_def)

text \<open>
  C7. The hard loss limit: equity at or below 90 % of the start equity always shuts down, at or below 95 %
  never lets the bot run on, and neither happens above those lines, up to the context's rounding.
\<close>

theorem loss_limit_exact:
  assumes "0 < s"
  shows "(e \<le> 9/10 * s \<longrightarrow> loss_limit (Some e) (Some s) = Shutdown)
    \<and> (e \<le> 19/20 * s \<longrightarrow> loss_limit (Some e) (Some s) \<noteq> Run)
    \<and> (loss_limit (Some e) (Some s) = Shutdown \<longrightarrow> e \<le> 9/10 * s * (1 + 1 / 10 ^ 27))
    \<and> (loss_limit (Some e) (Some s) \<noteq> Run \<longrightarrow> e \<le> 19/20 * s * (1 + 1 / 10 ^ 27))"
proof -
  have c: "ctx (- (1/10)) = - (1/10)" "ctx (- (1/20)) = - (1/20)" "ctx (1 - 1/10) = 1 - 1/10"
    "ctx (1 - 1/20) = 1 - 1/20" by code_simp+
  note t = drawdown_bound [OF c(1) _ _ assms] and w = drawdown_bound [OF c(2) _ _ assms]
  have 1: "e \<le> 9/10 * s \<Longrightarrow> dsub (ctx (e / s)) 1 \<le> - (1/10)"
    "e \<le> 19/20 * s \<Longrightarrow> dsub (ctx (e / s)) 1 \<le> - (1/20)"
    using t(1) [of e] w(1) [of e] c by simp_all
  have 2: "dsub (ctx (e / s)) 1 \<le> - (1/10) \<Longrightarrow> e \<le> 9/10 * s * (1 + 1 / 10 ^ 27)"
    "dsub (ctx (e / s)) 1 \<le> - (1/20) \<Longrightarrow> e \<le> 19/20 * s * (1 + 1 / 10 ^ 27)"
    using t(2) [of e] w(2) [of e] by simp_all
  have 3: "dsub (ctx (e / s)) 1 \<le> - (1/10) \<Longrightarrow> dsub (ctx (e / s)) 1 \<le> - (1/20)" by linarith
  show ?thesis using 1 2 3 unfolding loss_limit_cases [OF assms] by (auto split: if_splits)
qed

lemma loss_limit_exact_witness: "loss_limit (Some 90) (Some 100) = Shutdown"
  using loss_limit_exact [of 100 90] by simp

text \<open>A smaller equity never loosens the limit.\<close>

lemma loss_limit_antimono: "e \<le> e' \<Longrightarrow> loss_limit (Some e') (Some s) \<le> loss_limit (Some e) (Some s)"
proof (cases "0 < s")
  case True
  assume "e \<le> e'"
  then have "ctx (e / s) - 1 \<le> ctx (e' / s) - 1" using True by (simp add: ctx_mono divide_right_mono)
  then have "dsub (ctx (e / s)) 1 \<le> dsub (ctx (e' / s)) 1" by (simp add: dsub_def ctx_mono)
  with True show ?thesis by (auto simp: loss_limit_cases)
qed (simp add: loss_limit_def)

text \<open>
  The stricter check wins: the decision is the maximum of both, a loss of ten percent shuts the bot down whatever the
  Sharpe ratios say, and with the pinned thresholds a live run never runs.
\<close>

theorem kill_evaluate_strictest:
  "kill_evaluate l b m e s t = max (divergence_action l b m t) (loss_limit e s)
   \<and> (loss_limit e s = Shutdown \<longrightarrow> kill_evaluate l b m e s t = Shutdown)
   \<and> kill_evaluate l b Live e s THRESHOLDS \<noteq> Run"
proof -
  have eval: "kill_evaluate l b m e s t = max (divergence_action l b m t) (loss_limit e s)" for m t
    by (auto simp: kill_evaluate_def Let_def max_def less_eq_action_def action_rank_inj not_less)
  have "divergence_action l b Live THRESHOLDS = Pause"
    by (simp add: divergence_action_def THRESHOLDS_def mode_default_def)
  then show ?thesis by (auto simp: eval max_def)
qed

lemma kill_evaluate_strictest_witness: "kill_evaluate None None Paper (Some 90) (Some 100) THRESHOLDS = Shutdown"
proof -
  have "loss_limit (Some 90) (Some 100) = Shutdown" by code_simp
  then show ?thesis using kill_evaluate_strictest [of None None Paper "Some 90" "Some 100" THRESHOLDS] by simp
qed

end
