(* ===== verification/Reconcile.thy ===== *)
theory Reconcile
  imports Store
begin

text \<open>
  \<open>polyperps/execution/reconciliation.py\<close>: the local rows against the executor's view, as a pure
  diff. The responses are in the portfolio.
\<close>

datatype mismatch_kind = KSize | KUnknownOrder | KMissingStop | KStopWithoutPosition | KStopDrift

record mismatch =
  mm_kind :: mismatch_kind
  mm_instrument :: "int option"
  mm_local :: text_t
  mm_remote :: text_t

definition text_of_opt :: "dec option \<Rightarrow> text_t" where
  "text_of_opt d = (case d of None \<Rightarrow> [S ''None''] | Some x \<Rightarrow> [D x])"

definition remote_pos :: "account_snapshot \<Rightarrow> int \<Rightarrow> position_view option" where
  "remote_pos sn = map_of (rev (map (\<lambda>p. (pv_instrument p, p)) (sn_positions sn)))"

definition remote_size :: "account_snapshot \<Rightarrow> int \<Rightarrow> dec" where
  "remote_size sn iid = (case remote_pos sn iid of None \<Rightarrow> 0 | Some p \<Rightarrow> pv_size p)"

definition remote_stop :: "account_snapshot \<Rightarrow> int \<Rightarrow> dec option" where
  "remote_stop sn iid = map_of (sn_stops sn) iid"

definition pending_state :: "rstate \<Rightarrow> bool" where
  "pending_state s \<longleftrightarrow> s = ENTRY_PENDING \<or> s = EXIT_PENDING"

definition local_size :: "position_row option \<Rightarrow> dec" where
  "local_size lrow = (case lrow of None \<Rightarrow> 0 | Some r \<Rightarrow> pr_size r)"

definition drifts :: "dec \<Rightarrow> dec option \<Rightarrow> dec option \<Rightarrow> bool" where
  "drifts tol rstop lstop =
     (case (rstop, lstop) of
        (Some r, Some l) \<Rightarrow> l \<noteq> 0 \<and> tol < ctx (dabs (dsub r l) / l)
      | _ \<Rightarrow> False)"

text \<open>
  One instrument of the loop over both key sets: the missing-stop check comes first and looks at
  the remote side only; a row with an order in flight skips the rest.
\<close>

definition diff_missing :: "account_snapshot \<Rightarrow> int \<Rightarrow> position_row option \<Rightarrow> mismatch list" where
  "diff_missing sn iid lrow =
     (if remote_size sn iid \<noteq> 0 \<and> remote_stop sn iid = None then
        [\<lparr>mm_kind = KMissingStop, mm_instrument = Some iid,
          mm_local = text_of_opt (case lrow of None \<Rightarrow> None | Some r \<Rightarrow> pr_stop r),
          mm_remote = [S ''none'']\<rparr>]
      else [])"

definition diff_size :: "dec \<Rightarrow> account_snapshot \<Rightarrow> int \<Rightarrow> position_row option \<Rightarrow> mismatch list" where
  "diff_size tol sn iid lrow =
     (let rsize = remote_size sn iid in
      if (case lrow of None \<Rightarrow> False | Some r \<Rightarrow> pending_state (pr_state r)) then []
      else if local_size lrow \<noteq> rsize then
        [\<lparr>mm_kind = KSize, mm_instrument = Some iid, mm_local = [D (local_size lrow)],
          mm_remote = [D rsize]\<rparr>]
      else if rsize \<noteq> 0 then
        (case lrow of
           None \<Rightarrow> []
         | Some r \<Rightarrow>
             if pr_state r = OPEN \<and> drifts tol (remote_stop sn iid) (pr_stop r) then
               [\<lparr>mm_kind = KStopDrift, mm_instrument = Some iid,
                 mm_local = text_of_opt (pr_stop r), mm_remote = text_of_opt (remote_stop sn iid)\<rparr>]
             else [])
      else [])"

definition diff_one :: "dec \<Rightarrow> account_snapshot \<Rightarrow> int \<Rightarrow> position_row option \<Rightarrow> mismatch list" where
  "diff_one tol sn iid lrow = diff_missing sn iid lrow @ diff_size tol sn iid lrow"

definition diff_keys :: "(int \<times> position_row) list \<Rightarrow> account_snapshot \<Rightarrow> int list" where
  "diff_keys locals sn = sort (remdups (map fst locals @ map pv_instrument (sn_positions sn)))"

definition orphan_stops :: "account_snapshot \<Rightarrow> mismatch list" where
  "orphan_stops sn =
     map (\<lambda>(iid, trig). \<lparr>mm_kind = KStopWithoutPosition, mm_instrument = Some iid,
            mm_local = [S ''none''], mm_remote = [D trig]\<rparr>)
       (filter (\<lambda>(iid, trig). remote_size sn iid = 0) (sn_stops sn))"

definition startswith :: "string \<Rightarrow> string \<Rightarrow> bool" where
  "startswith s pre \<longleftrightarrow> take (length pre) s = pre"

definition unknown_orders :: "string \<Rightarrow> string list \<Rightarrow> account_snapshot \<Rightarrow> mismatch list" where
  "unknown_orders run known sn =
     map (\<lambda>oid. \<lparr>mm_kind = KUnknownOrder, mm_instrument = None, mm_local = [S ''none''],
            mm_remote = [S oid]\<rparr>)
       (filter (\<lambda>oid. \<not> startswith oid (run @ ''-'') \<or> oid \<notin> set known) (sn_open_orders sn))"

definition STOP_DRIFT_TOLERANCE :: dec where "STOP_DRIFT_TOLERANCE = 5/100"

definition diff ::
  "(int \<times> position_row) list \<Rightarrow> account_snapshot \<Rightarrow> string \<Rightarrow> string list \<Rightarrow> dec \<Rightarrow> mismatch list" where
  "diff locals sn run known tol =
     concat (map (\<lambda>iid. diff_one tol sn iid (map_of locals iid)) (diff_keys locals sn))
     @ orphan_stops sn @ unknown_orders run known sn"

section \<open>What the diff reports\<close>

lemma remote_pos_None: "remote_pos sn iid = None \<longleftrightarrow> iid \<notin> pv_instrument ` set (sn_positions sn)"
  by (simp add: remote_pos_def map_of_eq_None_iff image_image)

lemma set_diff_keys: "set (diff_keys locals sn) = fst ` set locals \<union> pv_instrument ` set (sn_positions sn)"
  by (simp add: diff_keys_def)

lemma remote_size_key: "remote_size sn iid \<noteq> 0 \<Longrightarrow> iid \<in> set (diff_keys locals sn)"
  using remote_pos_None [of sn iid] by (auto simp: remote_size_def set_diff_keys split: option.splits)

lemma diff_size_kind: "list_all (\<lambda>m. mm_kind m \<noteq> KMissingStop) (diff_size tol sn iid lrow)"
  by (simp add: diff_size_def Let_def split: option.split)

lemma diff_one_missing:
  "(\<exists>m \<in> set (diff_one tol sn iid lrow). mm_kind m = KMissingStop \<and> mm_instrument m = Some j) \<longleftrightarrow>
     iid = j \<and> remote_size sn iid \<noteq> 0 \<and> remote_stop sn iid = None"
  using diff_size_kind [of tol sn iid lrow] by (auto simp: diff_one_def diff_missing_def list_all_iff)

lemma mem_diff:
  "m \<in> set (diff locals sn run known tol) \<longleftrightarrow>
     (\<exists>iid \<in> set (diff_keys locals sn). m \<in> set (diff_one tol sn iid (map_of locals iid)))
     \<or> m \<in> set (orphan_stops sn) \<or> m \<in> set (unknown_orders run known sn)"
  by (auto simp: diff_def)

lemma diff_missing_stop:
  "(\<exists>m \<in> set (diff locals sn run known tol).
      mm_kind m = KMissingStop \<and> mm_instrument m = Some iid) \<longleftrightarrow>
   remote_size sn iid \<noteq> 0 \<and> remote_stop sn iid = None"
proof -
  have "(\<exists>m \<in> set (orphan_stops sn) \<union> set (unknown_orders run known sn).
      mm_kind m = KMissingStop \<and> mm_instrument m = Some iid) = False"
    by (auto simp: orphan_stops_def unknown_orders_def)
  then have "(\<exists>m \<in> set (diff locals sn run known tol).
      mm_kind m = KMissingStop \<and> mm_instrument m = Some iid) \<longleftrightarrow>
    (\<exists>i \<in> set (diff_keys locals sn). \<exists>m \<in> set (diff_one tol sn i (map_of locals i)).
      mm_kind m = KMissingStop \<and> mm_instrument m = Some iid)"
    unfolding mem_diff Bex_def by blast
  then show ?thesis using remote_size_key [of sn iid locals] by (auto simp: diff_one_missing)
qed

text \<open>What agreement of the two views means, field by field.\<close>

definition instrument_agrees :: "dec \<Rightarrow> account_snapshot \<Rightarrow> int \<Rightarrow> position_row option \<Rightarrow> bool" where
  "instrument_agrees tol sn iid lrow \<longleftrightarrow>
     (remote_size sn iid \<noteq> 0 \<longrightarrow> remote_stop sn iid \<noteq> None)
     \<and> ((case lrow of None \<Rightarrow> False | Some r \<Rightarrow> pending_state (pr_state r)) \<or>
        local_size lrow = remote_size sn iid
        \<and> (remote_size sn iid \<noteq> 0 \<longrightarrow> (case lrow of None \<Rightarrow> True
             | Some r \<Rightarrow> pr_state r = OPEN \<longrightarrow> \<not> drifts tol (remote_stop sn iid) (pr_stop r))))"

lemma diff_one_empty: "diff_one tol sn iid lrow = [] \<longleftrightarrow> instrument_agrees tol sn iid lrow"
  by (cases lrow) (simp_all add: diff_one_def diff_missing_def diff_size_def instrument_agrees_def Let_def)

lemma diff_empty_iff:
  "diff locals sn run known tol = [] \<longleftrightarrow>
     (\<forall>iid. instrument_agrees tol sn iid (map_of locals iid))
     \<and> (\<forall>iid trig. (iid, trig) \<in> set (sn_stops sn) \<longrightarrow> remote_size sn iid \<noteq> 0)
     \<and> (\<forall>oid \<in> set (sn_open_orders sn). startswith oid (run @ ''-'') \<and> oid \<in> set known)"
proof -
  have keys: "instrument_agrees tol sn iid (map_of locals iid)" if "iid \<notin> set (diff_keys locals sn)" for iid
  proof -
    have "map_of locals iid = None" using that by (simp add: set_diff_keys map_of_eq_None_iff)
    moreover have "remote_size sn iid = 0" using that remote_size_key by blast
    ultimately show ?thesis by (simp add: instrument_agrees_def local_size_def)
  qed
  show ?thesis
    using keys by (auto simp: diff_def diff_one_empty orphan_stops_def unknown_orders_def filter_empty_conv)
qed

end
