(* ===== verification/Router.thy ===== *)
theory Router
  imports Sim_Exec Exposure Kill_Switch Reconcile
begin

text \<open>
  \<open>polyperps/execution/order_router.py\<close>, first half: \<open>InstrumentRouter\<close>, the state machine of one
  instrument. A router runs in a world of its own fields and the shared outside: the database, the
  executor, the alerts handed to the alerter (which never raises, see \<open>Alerting\<close>), and the clock.
  Every public entry point runs under the portfolio's lock, so each method is one atomic step.
\<close>

section \<open>Constants and the guards' combination\<close>

definition terminal_status :: "ostatus \<Rightarrow> bool" where
  "terminal_status s \<longleftrightarrow> s \<in> {Filled, Cancelled, Auto_Cancelled, Rejected, Lost, Errored,
     Shadow_Refused, Timeout_Adopted}"

definition gave_up :: "ostatus \<Rightarrow> bool" where
  "gave_up s \<longleftrightarrow> s \<in> {Lost, Errored, Shadow_Refused, Timeout_Adopted}"

definition PENDING_TIMEOUT :: time where "PENDING_TIMEOUT = seconds 30"

definition frozen :: "rstate \<Rightarrow> bool" where
  "frozen s \<longleftrightarrow> s = HALTED \<or> s = LIQUIDATED"

definition resize_of :: "verdict \<Rightarrow> dec option" where
  "resize_of v = (case v of Resize q \<Rightarrow> Some q | _ \<Rightarrow> None)"

text \<open>\<open>apply_guards\<close>: the smallest quantity wins, a single reject drops the order.\<close>

definition apply_guards ::
  "intent \<Rightarrow> (string \<times> verdict) list \<Rightarrow> (intent option \<times> (string \<times> text_t) list) res" where
  "apply_guards i verdicts =
     (let labels = map (\<lambda>(n, v). (n, verdict_label v)) verdicts in
      if list_ex (\<lambda>(_, v). is_reject v) verdicts then Inr (None, labels)
      else
        let qty = foldl min (it_quantity i) (List.map_filter (\<lambda>(_, v). resize_of v) verdicts) in
        if qty = it_quantity i then Inr (Some i, labels)
        else
          rbind (ddiv (dmul (it_notional i) qty) (it_quantity i)) (\<lambda>n.
          rbind (quantize rhe 2 n) (\<lambda>notional.
            Inr (Some (i\<lparr>it_quantity := qty, it_notional := notional\<rparr>), labels))))"

definition clamp_target :: "dec \<Rightarrow> dec" where
  "clamp_target x = max (- 1) (min 1 x)"

definition dir_of :: "dec \<Rightarrow> dir" where
  "dir_of sz = (if 0 < sz then Long else Short)"

definition place_exchange_stop ::
  "'x exec_ops \<Rightarrow> position_view \<Rightarrow> risk_limits \<Rightarrow> ('x, dec) eff" where
  "place_exchange_stop X p limits =
     (if pv_entry p \<le> 0 then
        raise (Exn ValueError [S ''no stop for instrument '', I (pv_instrument p),
          S '': exchange entry price '', D (pv_entry p)])
      else
        bind (lift (stop_price (dir_of (pv_size p)) (pv_entry p) limits)) (\<lambda>trigger.
          andthen (bind (xo_place_stop X (pv_instrument p) trigger) (\<lambda>_. ret ()))
            (ret trigger)))"

section \<open>The world of a router\<close>

text \<open>The optional hooks of a strategy are looked up with \<open>getattr\<close>.\<close>

record 's strat_ops =
  st_name :: string
  st_params :: "(string \<times> text_t) list"
  st_warmup :: nat
  st_target :: "bar list \<Rightarrow> ('s, dec) eff"
  st_on_flatten :: "('s, unit) eff option"
  st_on_recover :: "(int \<Rightarrow> ('s, unit) eff) option"

record 's router =
  rt_run :: string
  rt_iid :: int
  rt_category :: string
  rt_strategy :: "'s strat_ops"
  rt_strat :: 's
  rt_categories :: "int \<rightharpoonup> string"
  rt_limits :: risk_limits
  rt_exposure :: exposure_limits
  rt_state :: rstate
  rt_seq :: int
  rt_size :: dec
  rt_entry :: "dec option"
  rt_stop :: "dec option"
  rt_funding :: dec
  rt_pending_cid :: "string option"
  rt_pending_since :: "time option"
  rt_pending_intent :: "intent option"
  rt_dseq :: int
  rt_margin_level :: "level option"

definition router_init ::
  "string \<Rightarrow> int \<Rightarrow> string \<Rightarrow> 's strat_ops \<Rightarrow> 's \<Rightarrow> (int \<rightharpoonup> string) \<Rightarrow> risk_limits \<Rightarrow> exposure_limits \<Rightarrow> 's router" where
  "router_init run iid category strat s categories limits exposure =
     \<lparr>rt_run = run, rt_iid = iid, rt_category = category, rt_strategy = strat, rt_strat = s,
      rt_categories = categories, rt_limits = limits, rt_exposure = exposure, rt_state = FLAT,
      rt_seq = 0, rt_size = 0, rt_entry = None, rt_stop = None, rt_funding = 0,
      rt_pending_cid = None, rt_pending_since = None, rt_pending_intent = None, rt_dseq = 0,
      rt_margin_level = None\<rparr>"

record 'x io =
  io_db :: db
  io_ex :: 'x
  io_alerts :: "alert list"
  io_clock :: "nat \<Rightarrow> time"
  io_reads :: nat

record ('x, 's) renv =
  re_rt :: "'s router"
  re_io :: "'x io"

type_synonym ('x, 's, 'a) rop = "(('x, 's) renv, 'a) eff"

definition io_now :: "('x io, time) eff" where
  "io_now = (\<lambda>i. (Inr (io_clock i (io_reads i)), i\<lparr>io_reads := Suc (io_reads i)\<rparr>))"

definition io_exec :: "('x, 'a) eff \<Rightarrow> ('x io, 'a) eff" where
  "io_exec m = focus io_ex (\<lambda>x i. i\<lparr>io_ex := x\<rparr>) m"

definition io_store :: "(db, 'a) eff \<Rightarrow> ('x io, 'a) eff" where
  "io_store m = focus io_db (\<lambda>d i. i\<lparr>io_db := d\<rparr>) m"

definition io_emit :: "alert \<Rightarrow> ('x io, unit) eff" where
  "io_emit a = upd (\<lambda>i. i\<lparr>io_alerts := io_alerts i @ [a]\<rparr>)"

definition rio :: "('x io, 'a) eff \<Rightarrow> ('x, 's, 'a) rop" where
  "rio m = focus re_io (\<lambda>i w. w\<lparr>re_io := i\<rparr>) m"

definition rget :: "('s router \<Rightarrow> 'a) \<Rightarrow> ('x, 's, 'a) rop" where
  "rget f = get (\<lambda>w. f (re_rt w))"

definition rupd :: "('s router \<Rightarrow> 's router) \<Rightarrow> ('x, 's, unit) rop" where
  "rupd f = upd (\<lambda>w. w\<lparr>re_rt := f (re_rt w)\<rparr>)"

definition rstrat :: "('s strat_ops \<Rightarrow> ('s, 'a) eff) \<Rightarrow> ('x, 's, 'a) rop" where
  "rstrat m = bind (rget rt_strategy) (\<lambda>st.
     focus (\<lambda>w. rt_strat (re_rt w)) (\<lambda>s w. w\<lparr>re_rt := (re_rt w)\<lparr>rt_strat := s\<rparr>\<rparr>) (m st))"

definition rclock :: "('x, 's, time) rop" where
  "rclock = rio io_now"

definition rexec :: "('x, 'a) eff \<Rightarrow> ('x, 's, 'a) rop" where
  "rexec m = rio (io_exec m)"

definition rdb :: "(db \<Rightarrow> db) \<Rightarrow> ('x, 's, unit) rop" where
  "rdb f = rio (io_store (upd f))"

definition rread :: "(db \<Rightarrow> 'a) \<Rightarrow> ('x, 's, 'a) rop" where
  "rread f = rio (io_store (get f))"

section \<open>Persistence helpers\<close>

definition row_of :: "'s router \<Rightarrow> time \<Rightarrow> position_row" where
  "row_of r now = \<lparr>pr_run = rt_run r, pr_instrument = rt_iid r, pr_state = rt_state r,
     pr_size = rt_size r, pr_entry = rt_entry r, pr_stop = rt_stop r, pr_stop_order_id = None,
     pr_funding = rt_funding r, pr_updated_at = now\<rparr>"

definition persist :: "('x, 's, unit) rop" where
  "persist = bind rclock (\<lambda>now. bind (rget id) (\<lambda>r. rdb (upsert_position_local (row_of r now))))"

definition set_state :: "rstate \<Rightarrow> ('x, 's, unit) rop" where
  "set_state s = andthen (rupd (rt_state_update (\<lambda>_. s))) persist"

definition ralert :: "level \<Rightarrow> string \<Rightarrow> (string \<times> text_t) list \<Rightarrow> ('x, 's, unit) rop" where
  "ralert lv kind detail =
     bind rclock (\<lambda>now. bind (rget rt_iid) (\<lambda>iid.
       rio (io_emit \<lparr>al_level = lv, al_kind = kind, al_instrument = Some iid,
         al_detail = detail, al_ts = now\<rparr>)))"

definition record_decision ::
  "dec option \<Rightarrow> (string \<times> text_t) list \<Rightarrow> intent option \<Rightarrow> string option \<Rightarrow> string \<Rightarrow> ('x, 's, unit) rop" where
  "record_decision target verdicts i cid note =
     andthen (rupd (\<lambda>r. r\<lparr>rt_dseq := rt_dseq r + 1\<rparr>))
     (bind rclock (\<lambda>now. bind (rget id) (\<lambda>r.
       rio (io_store (insert_decision \<lparr>dr_run = rt_run r, dr_instrument = rt_iid r,
         dr_seq = rt_dseq r, dr_ts = now, dr_state_before = rt_state r, dr_target = target,
         dr_verdicts = verdicts, dr_intent = i, dr_cid = cid, dr_note = note\<rparr>)))))"

text \<open>
  \<open>tail = client_order_id.rsplit("-", 1)[-1]\<close>: what follows the last dash, or the whole id.
\<close>

definition cid_tail :: "string \<Rightarrow> string" where
  "cid_tail cid = rev (takeWhile (\<lambda>c. c \<noteq> CHR ''-'') (rev cid))"

definition max_or_0 :: "int list \<Rightarrow> int" where
  "max_or_0 xs = (case xs of [] \<Rightarrow> 0 | y # ys \<Rightarrow> foldl max y ys)"

definition load_local :: "position_row \<Rightarrow> ('x, 's, unit) rop" where
  "load_local row =
     andthen (rupd (\<lambda>r. r\<lparr>rt_state := pr_state row, rt_size := pr_size row, rt_entry := pr_entry row,
       rt_stop := pr_stop row, rt_funding := pr_funding row\<rparr>))
     (bind (rget id) (\<lambda>r.
      bind (rread (\<lambda>d. list_decisions d (rt_run r) (rt_iid r))) (\<lambda>ds.
      andthen (rupd (rt_dseq_update (\<lambda>_. max_or_0 (map dr_seq ds))))
      (bind (rread (\<lambda>d. list_orders d (rt_run r))) (\<lambda>os.
       let tails = map (\<lambda>o'. cid_tail (or_cid o')) (filter (\<lambda>o'. or_instrument o' = rt_iid r) os) in
       rupd (rt_seq_update (\<lambda>_. max_or_0 (map parse_nat (filter isdigit tails)))))))))"

section \<open>Order rows\<close>

definition update_order :: "string \<Rightarrow> bool \<Rightarrow> (order_row \<Rightarrow> order_row) \<Rightarrow> ('x, 's, unit) rop" where
  "update_order cid skip_if_terminal changes =
     bind (rread (\<lambda>d. get_order d cid)) (\<lambda>ro.
       case ro of
         None \<Rightarrow> ret ()
       | Some row \<Rightarrow>
           if skip_if_terminal \<and> terminal_status (or_status row) then ret ()
           else bind rclock (\<lambda>now. rdb (upsert_order ((changes row)\<lparr>or_updated_at := now\<rparr>))))"

text \<open>The pure part of \<open>_record_fill\<close>: the row's new status, filled quantity and average price.\<close>

definition filled_row :: "order_row \<Rightarrow> fill_update \<Rightarrow> (ostatus \<times> dec \<times> dec) res" where
  "filled_row row ev =
     (let filled = dadd (or_filled row) (fu_quantity ev);
          st = (if terminal_status (or_status row) then or_status row
                else if or_quantity row \<le> filled then Filled else Partial) in
      rmap (\<lambda>avg. (st, filled, avg))
        (case or_avg_price row of
           None \<Rightarrow> Inr (fu_price ev)
         | Some a \<Rightarrow>
             if or_filled row = 0 then Inr (fu_price ev)
             else ddiv (dadd (dmul a (or_filled row)) (dmul (fu_price ev) (fu_quantity ev))) filled))"

definition record_fill :: "order_row \<Rightarrow> fill_update \<Rightarrow> ('x, 's, unit) rop" where
  "record_fill row ev =
     bind (lift (filled_row row ev)) (\<lambda>(st, filled, avg).
       update_order (or_cid row) False
         (\<lambda>r. r\<lparr>or_status := st, or_filled := filled, or_avg_price := Some avg\<rparr>))"

section \<open>Halting and sending\<close>

definition halt :: "text_t \<Rightarrow> ('x, 's, unit) rop" where
  "halt reason =
     bind (rget rt_state) (\<lambda>st.
       if frozen st then ret ()
       else andthen (ralert CRITICAL ''halted'' [(''reason'', reason)])
            (andthen (rupd (rt_pending_cid_update (\<lambda>_. None)))
             (set_state HALTED)))"

text \<open>\<open>_adopt\<close>: take the venue's size as ours and make sure a venue stop guards it.\<close>

definition adopt :: "'x exec_ops \<Rightarrow> account_snapshot \<Rightarrow> ('x, 's, unit) rop" where
  "adopt X sn =
     andthen (rupd (\<lambda>r. r\<lparr>rt_pending_cid := None, rt_pending_since := None\<rparr>))
     (bind (rget id) (\<lambda>r.
       andthen
         (case position_of sn (rt_iid r) of
            None \<Rightarrow> rupd (\<lambda>r. r\<lparr>rt_size := 0, rt_entry := None, rt_stop := None, rt_funding := 0\<rparr>)
          | Some p \<Rightarrow>
              if pv_size p = 0 then
                rupd (\<lambda>r. r\<lparr>rt_size := 0, rt_entry := None, rt_stop := None, rt_funding := 0\<rparr>)
              else
                andthen (rupd (\<lambda>r. r\<lparr>rt_size := pv_size p, rt_entry := Some (pv_entry p),
                  rt_funding := pv_funding p\<rparr>))
                (case map_of (sn_stops sn) (rt_iid r) of
                   Some t \<Rightarrow> rupd (rt_stop_update (\<lambda>_. Some t))
                 | None \<Rightarrow>
                     attempt
                       (bind (rexec (place_exchange_stop X p (rt_limits r)))
                          (\<lambda>t. rupd (rt_stop_update (\<lambda>_. Some t))))
                       (\<lambda>e. if exc_class e = ShadowRefused then
                              andthen (rupd (rt_stop_update (\<lambda>_. None)))
                                (ralert WARN ''shadow_refused'' [(''size'', [D (pv_size p)])])
                            else raise e)))
         persist))"

definition settled_state :: "dec \<Rightarrow> rstate" where
  "settled_state sz = (if sz \<noteq> 0 then OPEN else FLAT)"

definition flatten_hook :: "('x, 's, unit) rop" where
  "flatten_hook = rstrat (\<lambda>st. case st_on_flatten st of None \<Rightarrow> ret () | Some h \<Rightarrow> h)"

definition recover_hook :: "int \<Rightarrow> ('x, 's, unit) rop" where
  "recover_hook sign = rstrat (\<lambda>st. case st_on_recover st of None \<Rightarrow> ret () | Some h \<Rightarrow> h sign)"

definition adopt_and_settle :: "'x exec_ops \<Rightarrow> account_snapshot \<Rightarrow> ('x, 's, unit) rop" where
  "adopt_and_settle X sn =
     andthen (adopt X sn)
     (andthen
       (bind (rget id) (\<lambda>r.
         if frozen (rt_state r) then ret () else set_state (settled_state (rt_size r))))
     (bind (rget rt_size) (\<lambda>sz.
       if sz = 0 then
         andthen (bind (rget rt_iid) (\<lambda>iid. rexec (xo_cancel_stop X iid))) flatten_hook
       else recover_hook (if 0 < sz then 1 else - 1))))"

text \<open>
  \<open>_landed\<close> and \<open>_submit_with_recovery\<close>: at most two attempts with one request, and after each
  timeout the venue is read before the next.
\<close>

definition landed :: "int \<Rightarrow> order_request \<Rightarrow> account_snapshot \<Rightarrow> dec \<Rightarrow> bool" where
  "landed iid req sn size_before \<longleftrightarrow>
     rq_cid req \<in> set (sn_open_orders sn) \<or>
     (let moved = dsub (case position_of sn iid of None \<Rightarrow> 0 | Some p \<Rightarrow> pv_size p) size_before in
      case rq_side req of Buy \<Rightarrow> 0 < moved | Sell \<Rightarrow> moved < 0)"

fun submit_attempts ::
  "'x exec_ops \<Rightarrow> order_request \<Rightarrow> dec \<Rightarrow> int list \<Rightarrow> ('x, 's, order_ack option) rop" where
  "submit_attempts X req size_before [] = ret None"
| "submit_attempts X req size_before (n # ns) =
     bind
       (attempt (bind (rexec (xo_submit X req)) (\<lambda>a. ret (Some a)))
         (\<lambda>e. if is_timeout e then ret None else raise e)) (\<lambda>acked.
     case acked of
       Some a \<Rightarrow> ret (Some a)
     | None \<Rightarrow>
         bind (rexec (xo_snapshot X)) (\<lambda>sn.
         bind (rget rt_iid) (\<lambda>iid.
           if landed iid req sn size_before then
             andthen (ralert WARN ''ack_lost''
               [(''client_order_id'', [S (rq_cid req)]), (''attempt'', [I n])])
             (bind rclock (\<lambda>now. ret (Some \<lparr>ak_cid = rq_cid req, ak_exchange_id = None,
                ak_status = AckAccepted, ak_reason = [S ''adopted after timeout''], ak_ts = now\<rparr>)))
           else
             andthen (if n = 1 then ralert WARN ''retry'' [(''client_order_id'', [S (rq_cid req)])]
                      else ret ())
             (submit_attempts X req size_before ns))))"

definition submit_with_recovery ::
  "'x exec_ops \<Rightarrow> order_request \<Rightarrow> dec \<Rightarrow> ('x, 's, order_ack option) rop" where
  "submit_with_recovery X req size_before = submit_attempts X req size_before [1, 2]"

definition cid_of :: "'s router \<Rightarrow> string" where
  "cid_of r = rt_run r @ ''-'' @ show_int (rt_iid r) @ ''-'' @ show_int (rt_seq r)"

definition new_order_row :: "'s router \<Rightarrow> string \<Rightarrow> intent \<Rightarrow> time \<Rightarrow> order_row" where
  "new_order_row r cid i now =
     \<lparr>or_cid = cid, or_run = rt_run r, or_instrument = rt_iid r, or_side = it_side i,
      or_quantity = it_quantity i, or_reduce_only = it_reduce_only i, or_status = Submitting,
      or_exchange_id = None, or_filled = 0, or_avg_price = None, or_submitted_at = now,
      or_updated_at = now, or_reason = [S (it_reason i)]\<rparr>"

definition request_of :: "'s router \<Rightarrow> string \<Rightarrow> intent \<Rightarrow> time \<Rightarrow> order_request" where
  "request_of r cid i now =
     \<lparr>rq_cid = cid, rq_instrument = rt_iid r, rq_side = it_side i, rq_quantity = it_quantity i,
      rq_reduce_only = it_reduce_only i, rq_ts = now\<rparr>"

text \<open>The \<open>except Exception\<close> handler of \<open>_send\<close>.\<close>

definition submit_failed :: "'x exec_ops \<Rightarrow> string \<Rightarrow> exn \<Rightarrow> ('x, 's, unit) rop" where
  "submit_failed X cid e =
     (let name = exn_name (exc_class e) in
      andthen (update_order cid False (\<lambda>r. r\<lparr>
        or_status := (if exc_class e = ShadowRefused then Shadow_Refused else Errored),
        or_reason := S name # S '': '' # exc_msg e\<rparr>))
      (andthen (ralert CRITICAL ''submit_error''
        [(''client_order_id'', [S cid]), (''error'', [S name])])
      (andthen (halt [S ''submit error: '', S name])
      (bind (rexec (xo_snapshot X)) (adopt X)))))"

text \<open>What \<open>_send\<close> does once the attempts returned; \<open>prior\<close> is the state before the send.\<close>

definition submit_returned ::
  "string \<Rightarrow> rstate \<Rightarrow> intent \<Rightarrow> order_ack option \<Rightarrow> ('x, 's, unit) rop" where
  "submit_returned cid prior i acked =
     (case acked of
        None \<Rightarrow>
          andthen (update_order cid False (\<lambda>r. r\<lparr>or_status := Lost,
            or_reason := [S ''no ack after timeout and retry'']\<rparr>))
          (halt [S ''order lost after timeout and retry''])
      | Some a \<Rightarrow>
          if ak_status a = AckRejected then
            andthen (update_order cid False (\<lambda>r. r\<lparr>or_status := Rejected, or_reason := ak_reason a\<rparr>))
            (andthen (ralert WARN ''order_rejected''
              [(''client_order_id'', [S cid]), (''reason'', ak_reason a)])
            (andthen (rupd (rt_pending_cid_update (\<lambda>_. None)))
             (set_state prior)))
          else
            update_order cid True (\<lambda>r. r\<lparr>or_status := Accepted, or_exchange_id := ak_exchange_id a,
              or_reason := (if ak_reason a = [] then [S (it_reason i)] else ak_reason a)\<rparr>))"

definition attempt_send ::
  "'x exec_ops \<Rightarrow> string \<Rightarrow> rstate \<Rightarrow> intent \<Rightarrow> order_request \<Rightarrow> dec \<Rightarrow> ('x, 's, unit) rop" where
  "attempt_send X cid prior i req size_before =
     bind (attempt (bind (submit_with_recovery X req size_before) (\<lambda>a. ret (Inr a)))
            (\<lambda>e. ret (Inl e))) (\<lambda>outcome.
       case outcome of
         Inl e \<Rightarrow> submit_failed X cid e
       | Inr acked \<Rightarrow> submit_returned cid prior i acked)"

definition pending_of :: "intent \<Rightarrow> rstate" where
  "pending_of i = (if it_reduce_only i then EXIT_PENDING else ENTRY_PENDING)"

text \<open>The rows, the pending bookkeeping, then the submit, for the router as it was before the send.\<close>

definition place_order :: "'x exec_ops \<Rightarrow> 's router \<Rightarrow> intent \<Rightarrow> time \<Rightarrow> ('x, 's, unit) rop" where
  "place_order X r0 i now =
     andthen (rdb (upsert_order (new_order_row r0 (cid_of r0) i now)))
     (andthen (rupd (\<lambda>r. r\<lparr>rt_pending_cid := Some (cid_of r0), rt_pending_since := Some now,
        rt_pending_intent := Some i\<rparr>))
     (andthen (set_state (pending_of i))
     (bind (rget rt_size)
        (attempt_send X (cid_of r0) (rt_state r0) i (request_of r0 (cid_of r0) i now)))))"

definition send ::
  "'x exec_ops \<Rightarrow> intent \<Rightarrow> dec option \<Rightarrow> (string \<times> text_t) list \<Rightarrow> ('x, 's, unit) rop" where
  "send X i target verdicts =
     andthen (rupd (\<lambda>r. r\<lparr>rt_seq := rt_seq r + 1\<rparr>))
     (bind (rget id) (\<lambda>r0.
      andthen (record_decision target verdicts (Some i) (Some (cid_of r0)) (it_reason i))
      (bind rclock (place_order X r0 i))))"

end
