(* ===== verification/Backtest.thy ===== *)
theory Backtest
  imports Bars Router
begin

text \<open>
  \<open>polyperps/backtest/harness.py\<close>: the event-driven hourly backtest. The book, the running result and the
  strategy are one state; every step is an effect on it, so a division by a zero price stops the run as it does
  in Python. \<open>minute_closes\<close> is an association list, the strategy the record of operations the router uses.
\<close>

section \<open>State\<close>

datatype ledger_kind = LFunding | LFill | LFillUnavailable | LGapFlatten | LMark | LStop | LGuardExit

record ledger_row =
  lg_ts :: time
  lg_kind :: ledger_kind
  lg_position :: dec
  lg_price :: "dec option"
  lg_cash_delta :: dec
  lg_equity :: dec
  lg_note :: text_t

record bt_result =
  br_ledger :: "ledger_row list"
  br_equity :: "(time \<times> dec) list"
  br_returns :: "dec list"
  br_trade_pnls :: "dec list"
  br_fill_notionals :: "dec list"
  br_trades :: "(time \<times> side \<times> dec) list"
  br_params :: "(string \<times> text_t) list"
  br_bars_total :: nat
  br_bars_complete :: nat
  br_bars_constant_spread :: nat
  br_fills :: nat
  br_fills_unavailable :: nat
  br_fills_at_hourly_open :: nat
  br_fills_at_last_trade :: nat
  br_max_age_min :: int

record 's bt =
  bk_cash :: dec
  bk_position :: dec
  bk_entry :: dec
  bk_funding :: dec
  bk_last_equity :: dec
  bk_strat :: 's
  bk_res :: bt_result

type_synonym ('s, 'a) bop = "('s bt, 'a) eff"

datatype fill_fallback = LastTrade | HourlyOpen

record bt_params =
  bp_minutes :: "(time \<times> dec) list"
  bp_fee :: dec
  bp_warmup :: nat
  bp_latency_s :: int
  bp_impact :: dec
  bp_notional :: dec
  bp_fallback :: fill_fallback
  bp_max_age_min :: int

definition HARNESS_VERSION :: int where "HARNESS_VERSION = 4"

definition bt_init :: "bar list \<Rightarrow> (string \<times> text_t) list \<Rightarrow> 's \<Rightarrow> 's bt" where
  "bt_init bars params s =
     \<lparr>bk_cash = 0, bk_position = 0, bk_entry = 0, bk_funding = 0, bk_last_equity = 0, bk_strat = s,
      bk_res = \<lparr>br_ledger = [], br_equity = [], br_returns = [], br_trade_pnls = [], br_fill_notionals = [],
        br_trades = [], br_params = params, br_bars_total = length bars,
        br_bars_complete = length (filter br_complete bars),
        br_bars_constant_spread = length (filter (\<lambda>b. br_spread_source b = FromConstant) bars),
        br_fills = 0, br_fills_unavailable = 0, br_fills_at_hourly_open = 0, br_fills_at_last_trade = 0,
        br_max_age_min = 0\<rparr>\<rparr>"

section \<open>The book\<close>

definition dsign :: "dec \<Rightarrow> dec" where
  "dsign x = (if 0 < x then 1 else if x < 0 then - 1 else 0)"

text \<open>Contracts of a leg, rounded down to 8 places.\<close>

definition units :: "dec \<Rightarrow> dec \<Rightarrow> dec \<Rightarrow> dec res" where
  "units fraction notional price =
     rbind (ddiv (dmul (dabs fraction) notional) price) (quantize round_down 8)"

text \<open>\<open>notional * fraction * (price / entry - 1)\<close>, the gain of a leg.\<close>

definition gain :: "dec \<Rightarrow> dec \<Rightarrow> dec \<Rightarrow> dec \<Rightarrow> dec res" where
  "gain fraction notional price entry =
     rmap (\<lambda>q. dmul (dmul fraction notional) (dsub q 1)) (ddiv price entry)"

definition unrealised :: "bt_params \<Rightarrow> dec \<Rightarrow> 's bt \<Rightarrow> dec res" where
  "unrealised bp price b =
     (if bk_position b = 0 then Inr 0 else gain (bk_position b) (bp_notional bp) price (bk_entry b))"

definition book_equity :: "bt_params \<Rightarrow> dec option \<Rightarrow> 's bt \<Rightarrow> dec res" where
  "book_equity bp price b =
     (case price of
        None \<Rightarrow> Inr (dadd (bk_cash b) 0)
      | Some p \<Rightarrow> rmap (dadd (bk_cash b)) (unrealised bp p b))"

definition book_view :: "bt_params \<Rightarrow> int \<Rightarrow> dec \<Rightarrow> 's bt \<Rightarrow> position_view res" where
  "book_view bp iid price b =
     rbind (ddiv (dmul (bk_position b) (bp_notional bp)) (bk_entry b)) (\<lambda>sz.
     rmap (\<lambda>liq. \<lparr>pv_instrument = iid, pv_size = sz, pv_entry = bk_entry b, pv_notional = dmul (dabs sz) price,
        pv_leverage = rl_max_leverage LIMITS, pv_liq_price = Some liq,
        pv_unrealised = dmul sz (dsub price (bk_entry b)), pv_funding = bk_funding b\<rparr>)
       (liquidation_price sz (bk_entry b) LIMITS))"

section \<open>Writing the result\<close>

definition bres :: "(bt_result \<Rightarrow> bt_result) \<Rightarrow> ('s, unit) bop" where
  "bres f = upd (bk_res_update f)"

definition blog ::
  "bt_params \<Rightarrow> time \<Rightarrow> ledger_kind \<Rightarrow> dec option \<Rightarrow> dec \<Rightarrow> text_t \<Rightarrow> ('s, unit) bop" where
  "blog bp ts kind price cash_delta note =
     bind (getr (book_equity bp price)) (\<lambda>eq. bind (get bk_position) (\<lambda>pos.
       bres (\<lambda>r. r\<lparr>br_ledger := br_ledger r @
         [\<lparr>lg_ts = ts, lg_kind = kind, lg_position = pos, lg_price = price, lg_cash_delta = cash_delta,
           lg_equity = eq, lg_note = note\<rparr>]\<rparr>)))"

definition bmark :: "bt_params \<Rightarrow> time \<Rightarrow> dec option \<Rightarrow> ('s, unit) bop" where
  "bmark bp ts price =
     bind (getr (book_equity bp price)) (\<lambda>eq.
     andthen (bres (\<lambda>r. r\<lparr>br_equity := br_equity r @ [(ts, eq)]\<rparr>))
     (bind (get bk_last_equity) (\<lambda>last.
     bind (lift (ddiv (dsub eq last) (bp_notional bp))) (\<lambda>ret'.
     andthen (bres (\<lambda>r. r\<lparr>br_returns := br_returns r @ [ret']\<rparr>))
     (andthen (upd (\<lambda>b. b\<lparr>bk_last_equity := eq\<rparr>))
     (blog bp ts LMark price 0 []))))))"

section \<open>Trading\<close>

definition bstrat :: "('s, 'a) eff \<Rightarrow> ('s, 'a) bop" where
  "bstrat m = focus bk_strat (\<lambda>s b. b\<lparr>bk_strat := s\<rparr>) m"

text \<open>Realising a closed part: the gain goes to the cash and the list of trade results.\<close>

definition realise :: "dec \<Rightarrow> ('s, unit) bop" where
  "realise x =
     andthen (upd (\<lambda>b. b\<lparr>bk_cash := dadd (bk_cash b) x\<rparr>))
       (bres (\<lambda>r. r\<lparr>br_trade_pnls := br_trade_pnls r @ [x]\<rparr>))"

definition reduces :: "dec \<Rightarrow> dec \<Rightarrow> bool" where
  "reduces target old \<longleftrightarrow> old \<noteq> 0 \<and> dabs target < dabs old"

text \<open>The first branch of \<open>trade_to\<close>: realise what closes, return the entry price the book keeps.\<close>

definition settle_entry :: "bt_params \<Rightarrow> dec \<Rightarrow> dec \<Rightarrow> dec \<Rightarrow> dec \<Rightarrow> ('s, dec) bop" where
  "settle_entry bp target delta old price =
     bind (get bk_entry) (\<lambda>old_entry.
       if old \<noteq> 0 \<and> target = 0 then
         bind (lift (gain old (bp_notional bp) price old_entry)) (\<lambda>x. andthen (realise x) (ret 0))
       else if reduces target old then
         bind (lift (gain (dmul (dsub (dabs old) (dabs target)) (dsign old)) (bp_notional bp) price old_entry))
           (\<lambda>x. andthen (realise x) (ret old_entry))
       else lift (ddiv (dadd (dmul (dabs old) old_entry) (dmul (dabs delta) price)) (dabs target)))"

text \<open>The traded value and the contracts: a closing leg at its current value, an opening one at the notional.\<close>

definition leg_value :: "bt_params \<Rightarrow> dec \<Rightarrow> dec \<Rightarrow> dec \<Rightarrow> dec \<Rightarrow> dec \<Rightarrow> (dec \<times> dec) res" where
  "leg_value bp target delta old old_entry price =
     (if reduces target old then
        rbind (ddiv (dmul (dmul (dabs delta) (bp_notional bp)) price) old_entry) (\<lambda>v.
          rmap (Pair v) (units delta (bp_notional bp) old_entry))
      else rmap (Pair (dmul (dabs delta) (bp_notional bp))) (units delta (bp_notional bp) price))"

definition bt_flattened :: "'s strat_ops \<Rightarrow> ('s, unit) bop" where
  "bt_flattened st =
     andthen (upd (\<lambda>b. b\<lparr>bk_funding := 0\<rparr>))
       (case st_on_flatten st of None \<Rightarrow> ret () | Some hook \<Rightarrow> bstrat hook)"

text \<open>The last part of \<open>trade_to\<close>: pay the cost, move the book, record the fill.\<close>

definition write_trade ::
  "bt_params \<Rightarrow> 's strat_ops \<Rightarrow> dec \<Rightarrow> dec \<Rightarrow> dec \<Rightarrow> dec \<times> dec \<Rightarrow> dec \<Rightarrow> dec \<Rightarrow> time \<Rightarrow> ledger_kind \<Rightarrow> text_t \<Rightarrow> ('s, unit) bop"
  where
  "write_trade bp st target delta new_entry leg cost price ts kind note =
     andthen (upd (\<lambda>b. b\<lparr>bk_cash := dsub (bk_cash b) cost, bk_position := target, bk_entry := new_entry\<rparr>))
     (andthen (bres (\<lambda>r. r\<lparr>br_fill_notionals := br_fill_notionals r @ [fst leg],
        br_trades := br_trades r @ [(ts, if 0 < delta then Buy else Sell, snd leg)], br_fills := br_fills r + 1\<rparr>))
     (andthen (blog bp ts kind (Some price) (dneg cost) note)
     (if target = 0 then bt_flattened st else ret ())))"

definition trade_to ::
  "bt_params \<Rightarrow> 's strat_ops \<Rightarrow> dec \<Rightarrow> dec \<Rightarrow> dec \<Rightarrow> time \<Rightarrow> ledger_kind \<Rightarrow> text_t \<Rightarrow> ('s, unit) bop" where
  "trade_to bp st target price spread ts kind note =
     bind (get bk_position) (\<lambda>old.
       let delta = dsub target old in
       if delta = 0 then ret ()
       else
         bind (get bk_entry) (\<lambda>old_entry.
         bind (settle_entry bp target delta old price) (\<lambda>new_entry.
         bind (lift (leg_value bp target delta old old_entry price)) (\<lambda>leg.
         bind (lift (fill_cost (fst leg) (bp_notional bp) spread (bp_fee bp) (bp_impact bp))) (\<lambda>cost.
         write_trade bp st target delta new_entry leg cost price ts kind note)))))"

section \<open>One bar\<close>

definition stop_step :: "bt_params \<Rightarrow> 's strat_ops \<Rightarrow> bar \<Rightarrow> ('s, unit) bop" where
  "stop_step bp st b =
     bind (get bk_position) (\<lambda>pos.
       case (br_high b, br_low b) of
         (Some high, Some low) \<Rightarrow>
           if pos = 0 then ret ()
           else
             bind (get bk_entry) (\<lambda>entry.
             bind (lift (stop_price (dir_of pos) entry LIMITS)) (\<lambda>trigger.
               if (if 0 < pos then low \<le> trigger else trigger \<le> high)
               then trade_to bp st 0 trigger (br_spread_bps b) (br_open_ts b) LStop []
               else ret ()))
       | _ \<Rightarrow> ret ())"

definition funding_step :: "bt_params \<Rightarrow> bar \<Rightarrow> ('s, unit) bop" where
  "funding_step bp b =
     bind (get bk_position) (\<lambda>pos.
       case (br_funding b, br_close b) of
         (Some rate, Some close) \<Rightarrow>
           if pos = 0 then ret ()
           else
             bind (getr (\<lambda>s. ddiv close (bk_entry s))) (\<lambda>q.
               let paid = dmul (dmul (dmul (dneg pos) (bp_notional bp)) q) rate in
               andthen (upd (\<lambda>s. s\<lparr>bk_cash := dadd (bk_cash s) paid, bk_funding := dadd (bk_funding s) paid\<rparr>))
                 (blog bp (br_open_ts b) LFunding (Some close) paid []))
       | _ \<Rightarrow> ret ())"

definition gap_step :: "bt_params \<Rightarrow> 's strat_ops \<Rightarrow> bar \<Rightarrow> bar \<Rightarrow> ('s, unit) bop" where
  "gap_step bp st b nxt =
     andthen
       (bind (get bk_position) (\<lambda>pos.
          case br_close b of
            None \<Rightarrow> ret ()
          | Some close \<Rightarrow>
              if pos = 0 then ret ()
              else trade_to bp st 0 close (br_spread_bps b) (br_open_ts nxt) LGapFlatten []))
       (bmark bp (br_open_ts nxt) (br_close nxt))"

definition guard_step :: "bt_params \<Rightarrow> 's strat_ops \<Rightarrow> bar \<Rightarrow> dec \<Rightarrow> time \<Rightarrow> ('s, unit) bop" where
  "guard_step bp st b close ts =
     bind (get bk_position) (\<lambda>pos.
       if pos = 0 then ret ()
       else
         bind (getr (book_view bp (br_instrument b) close)) (\<lambda>view.
         bind (lift (check_open view close LIMITS)) (\<lambda>g.
           if g = Flatten \<or> funding_exit_due view LIMITS
           then trade_to bp st 0 close (br_spread_bps b) ts LGuardExit []
           else ret ())))"

text \<open>The same step of a bar without a close: the view of an open position multiplies by \<open>None\<close>.\<close>

definition guard_unpriced :: "('s, unit) bop" where
  "guard_unpriced = bind (get bk_position) (\<lambda>pos. if pos = 0 then ret () else raise (Exn TypeError []))"

text \<open>The 1-minute close of the fill minute, else the last one not older than the bound, else the hourly open.\<close>

datatype fill_source = MinuteClose dec | LastTradeAt dec int | AtHourlyOpen dec | NoPrice

definition last_trade :: "bt_params \<Rightarrow> time \<Rightarrow> time option" where
  "last_trade bp at_ts =
     (let keys = (case bp_fallback bp of LastTrade \<Rightarrow> filter (\<lambda>k. k \<le> at_ts) (map fst (bp_minutes bp))
                  | HourlyOpen \<Rightarrow> []) in
      if keys = [] then None
      else let k = Max (set keys) in if at_ts - k \<le> minutes (bp_max_age_min bp) then Some k else None)"

definition fill_source_of :: "bt_params \<Rightarrow> bar \<Rightarrow> fill_source" where
  "fill_source_of bp nxt =
     (let minute = floor_minute (br_open_ts nxt + seconds (bp_latency_s bp)) in
      case map_of (bp_minutes bp) minute of
        Some p \<Rightarrow> MinuteClose p
      | None \<Rightarrow>
          (case last_trade bp minute of
             Some k \<Rightarrow> LastTradeAt (the (map_of (bp_minutes bp) k)) ((minute - k) div minutes 1)
           | None \<Rightarrow> (case br_open nxt of Some p \<Rightarrow> AtHourlyOpen p | None \<Rightarrow> NoPrice)))"

definition fill_step :: "bt_params \<Rightarrow> 's strat_ops \<Rightarrow> bar \<Rightarrow> bar \<Rightarrow> dec \<Rightarrow> ('s, unit) bop" where
  "fill_step bp st b nxt target =
     (let ts = br_open_ts nxt; go = (\<lambda>p. trade_to bp st target p (br_spread_bps b) ts LFill) in
      case fill_source_of bp nxt of
        MinuteClose p \<Rightarrow> go p []
      | LastTradeAt p age \<Rightarrow>
          andthen (bres (\<lambda>r. r\<lparr>br_fills_at_last_trade := br_fills_at_last_trade r + 1,
             br_max_age_min := max (br_max_age_min r) age\<rparr>))
            (go p [S ''fill_source=last_trade age_min='', I age])
      | AtHourlyOpen p \<Rightarrow>
          andthen (bres (\<lambda>r. r\<lparr>br_fills_at_hourly_open := br_fills_at_hourly_open r + 1\<rparr>))
            (go p [S ''fill_source=hourly_open''])
      | NoPrice \<Rightarrow>
          andthen (bres (\<lambda>r. r\<lparr>br_fills_unavailable := br_fills_unavailable r + 1\<rparr>))
            (blog bp ts LFillUnavailable None 0 [S ''no price at '', I (ts + seconds (bp_latency_s bp))]))"

text \<open>A flip only exits; the other side is the next bar's decision.\<close>

definition unflip :: "dec \<Rightarrow> dec \<Rightarrow> dec" where
  "unflip pos target = (if pos \<noteq> 0 \<and> target \<noteq> 0 \<and> dsign target \<noteq> dsign pos then 0 else target)"

definition decide_step :: "bt_params \<Rightarrow> 's strat_ops \<Rightarrow> bar list \<Rightarrow> bar \<Rightarrow> bar \<Rightarrow> ('s, unit) bop" where
  "decide_step bp st history b nxt =
     bind (bstrat (st_target st history)) (\<lambda>raw.
     bind (get bk_position) (\<lambda>pos.
       let target = unflip pos (clamp_target raw) in
       if target = pos then ret () else fill_step bp st b nxt target))"

definition bar_step :: "bt_params \<Rightarrow> 's strat_ops \<Rightarrow> bar list \<Rightarrow> bar \<Rightarrow> bar \<Rightarrow> ('s, unit) bop" where
  "bar_step bp st history b nxt =
     andthen (stop_step bp st b)
     (andthen (funding_step bp b)
     (if \<not> br_complete b \<or> br_close nxt = None then gap_step bp st b nxt
      else
        andthen (case br_close b of None \<Rightarrow> guard_unpriced | Some c \<Rightarrow> guard_step bp st b c (br_open_ts nxt))
        (andthen (decide_step bp st history b nxt)
        (bmark bp (br_open_ts nxt) (br_close nxt)))))"

text \<open>Step \<open>t\<close> sees \<open>bars[:t+1]\<close> and the bar that follows.\<close>

definition bt_step :: "bt_params \<Rightarrow> 's strat_ops \<Rightarrow> bar list \<Rightarrow> nat \<Rightarrow> ('s, unit) bop" where
  "bt_step bp st bars t = bar_step bp st (take (t + 1) bars) (bars ! t) (bars ! (t + 1))"

definition bt_header :: "bt_params \<Rightarrow> 's strat_ops \<Rightarrow> (string \<times> text_t) list" where
  "bt_header bp st =
     [(''taker_fee_rate'', [D (bp_fee bp)]), (''latency_s'', [I (bp_latency_s bp)]),
      (''impact_bps'', [D (bp_impact bp)]), (''notional'', [D (bp_notional bp)]),
      (''warmup'', [I (int (bp_warmup bp))]),
      (''fill_fallback'', [S (case bp_fallback bp of LastTrade \<Rightarrow> ''last_trade'' | HourlyOpen \<Rightarrow> ''hourly_open'')]),
      (''strategy'', [S (st_name st)]),
      (''strategy_params'', concat (map (\<lambda>(k, v). S k # v) (st_params st)))]"

definition run_backtest :: "bt_params \<Rightarrow> 's strat_ops \<Rightarrow> bar list \<Rightarrow> 's \<Rightarrow> bt_result res \<times> 's" where
  "run_backtest bp st bars s =
     (case forM [bp_warmup bp ..< length bars - 1] (bt_step bp st bars) (bt_init bars (bt_header bp st) s) of
        (Inl e, b) \<Rightarrow> (Inl e, bk_strat b)
      | (Inr _, b) \<Rightarrow> (Inr (bk_res b), bk_strat b))"

end
