(* ===== verification/Evidence.thy ===== *)
theory Evidence
  imports Bars Backtest
begin

text \<open>
  \<open>polyperps/signal\<close>: the pre-registered sufficiency bar (\<open>sufficiency.py\<close>), the verdict on a run
  (\<open>validation_log.py\<close>), the signal gate derived from the committed files (\<open>base.py\<close>), and the
  three locks of \<open>gates.py\<close>.
\<close>

section \<open>The bar\<close>

record sufficiency_bar =
  sb_native_only :: bool
  sb_min_days :: int
  sb_min_funding_periods :: int
  sb_holdout_fraction :: dec
  sb_min_oos_sharpe :: dec
  sb_bootstrap_ci :: dec
  sb_latency_s :: int
  sb_impact_bps :: dec
  sb_proxy_spread_bps :: dec
  sb_block_len :: nat
  sb_resamples :: nat
  sb_notional_usd :: dec
  sb_last_trade_max_age_min :: int

definition BAR :: sufficiency_bar where
  "BAR = \<lparr>sb_native_only = True, sb_min_days = 60, sb_min_funding_periods = 1000, sb_holdout_fraction = 3/10,
     sb_min_oos_sharpe = 1, sb_bootstrap_ci = 8/10, sb_latency_s = 2, sb_impact_bps = 5, sb_proxy_spread_bps = 5,
     sb_block_len = 24, sb_resamples = 2000, sb_notional_usd = 100, sb_last_trade_max_age_min = 60\<rparr>"

fun source_value :: "source_type \<Rightarrow> string" where
  "source_value POLYMARKET_WS = ''polymarket_ws''"
| "source_value POLYMARKET_REST = ''polymarket_rest''"
| "source_value PROXY_HYPERLIQUID = ''proxy_hyperliquid''"
| "source_value PROXY_CEX = ''proxy_cex''"
| "source_value SYNTHETIC_TEST = ''synthetic_test''"

definition NATIVE_SOURCES :: "source_type list" where
  "NATIVE_SOURCES = [POLYMARKET_WS, POLYMARKET_REST]"

record sufficiency_report =
  sr_met :: bool
  sr_days :: dec
  sr_funding_periods :: int
  sr_source :: source_type
  sr_shortfall :: "(string \<times> text_t) list"

definition dataset_meets_bar :: "dec \<Rightarrow> int \<Rightarrow> source_type \<Rightarrow> sufficiency_bar \<Rightarrow> sufficiency_report" where
  "dataset_meets_bar span_days funding_periods src bar =
     (let shortfall =
        (if sb_native_only bar \<and> src \<notin> set NATIVE_SOURCES then
           [(''source_type'', [S (source_value src), S '' is a proxy source; only native data can meet the bar''])] else []) @
        (if span_days < of_int (sb_min_days bar) then [(''days'', [D span_days, S '' < '', I (sb_min_days bar)])] else []) @
        (if funding_periods < sb_min_funding_periods bar then
           [(''funding_periods'', [I funding_periods, S '' < '', I (sb_min_funding_periods bar)])] else [])
      in \<lparr>sr_met = (shortfall = []), sr_days = span_days, sr_funding_periods = funding_periods, sr_source = src,
          sr_shortfall = shortfall\<rparr>)"

definition stats_clear_bar :: "rat \<Rightarrow> rat \<Rightarrow> sufficiency_bar \<Rightarrow> bool" where
  "stats_clear_bar oos_sharpe ci_lo bar \<longleftrightarrow> fl (sb_min_oos_sharpe bar) \<le> oos_sharpe \<and> 0 < ci_lo"

definition two_sided_level :: "sufficiency_bar \<Rightarrow> rat" where
  "two_sided_level bar = fl (fl (2 * fl (sb_bootstrap_ci bar)) - 1)"

text \<open>
  A span in days to two places: \<open>total_seconds()\<close> is a float, its \<open>Decimal\<close> is exact, the quotient is
  rounded to the context. \<open>_EPOCH\<close> is the first of January 2000.
\<close>

definition days_of :: "time \<Rightarrow> dec res" where
  "days_of dt = rbind (ddiv (fl (of_int dt / 1000000)) 86400) (quantize rhe 2)"

definition EPOCH_2000 :: time where "EPOCH_2000 = seconds 946684800"

definition check_dataset :: "db \<Rightarrow> int \<Rightarrow> source_type \<Rightarrow> time \<Rightarrow> sufficiency_bar \<Rightarrow> sufficiency_report res" where
  "check_dataset d iid src now bar =
     (let rows = query_funding d iid EPOCH_2000 now (Some src) in
      if rows = [] then Inr (dataset_meets_bar 0 0 src bar)
      else
        rmap (\<lambda>n. dataset_meets_bar n (int (length rows)) src bar)
          (days_of (fo_exchange_ts (last rows) - fo_exchange_ts (hd rows))))"

section \<open>The verdict on a run\<close>

definition evaluate_run ::
  "source_type \<Rightarrow> sufficiency_report \<Rightarrow> rat \<Rightarrow> rat option \<Rightarrow> rat option \<Rightarrow> int \<Rightarrow> dec \<Rightarrow> bool \<Rightarrow> sufficiency_bar
     \<Rightarrow> bool \<times> bool" where
  "evaluate_run src sufficiency holdout_sharpe ci_lo ci_hi fills_at_hourly_open tested_days robust_screened bar =
     (case (ci_lo, ci_hi) of
        (Some lo, Some hi) \<Rightarrow>
          (let screened = stats_clear_bar holdout_sharpe lo bar in
           (screened,
            screened \<and> src \<in> set NATIVE_SOURCES \<and> sr_met sufficiency \<and> fills_at_hourly_open = 0
              \<and> of_int (sb_min_days bar) \<le> tested_days \<and> robust_screened))
      | _ \<Rightarrow> (False, False))"

section \<open>Records as JSON values\<close>

text \<open>
  What \<open>json.loads\<close> returns. A file is the outcome of reading and parsing it: the approval one value,
  the log one value per line that is not blank. The parser, the rendering of floats and containers
  by \<open>str\<close> and the date parser belong to Python's library: the values they return are parameters.
\<close>

datatype json =
  JNull | JBool bool | JInt int | JNum rat | JStr string | JArr "json list" | JObj "(string \<times> json) list"

datatype stamp = NaiveStamp | AwareStamp time

record pylib =
  pl_iso :: "string \<Rightarrow> stamp option"
  pl_str :: "json \<Rightarrow> string"

record gate_files =
  gf_approval :: "json res option"
  gf_log :: "json res list option"

definition obj_of :: "json \<Rightarrow> (string \<times> json) list res" where
  "obj_of j = (case j of JObj kvs \<Rightarrow> Inr kvs
     | _ \<Rightarrow> Inl (Exn (OtherException ''AttributeError'') [S ''object has no attribute get'']))"

definition jget :: "(string \<times> json) list \<Rightarrow> string \<Rightarrow> json" where
  "jget kvs k = (case map_of kvs k of None \<Rightarrow> JNull | Some v \<Rightarrow> v)"

text \<open>\<open>str\<close> of a value.\<close>

fun jstr :: "pylib \<Rightarrow> json \<Rightarrow> string" where
  "jstr lib JNull = ''None''"
| "jstr lib (JBool b) = (if b then ''True'' else ''False'')"
| "jstr lib (JInt n) = show_int n"
| "jstr lib (JStr s) = s"
| "jstr lib j = pl_str lib j"

text \<open>\<open>str.lower\<close> and \<open>str.strip\<close> on ASCII text.\<close>

definition lower_char :: "char \<Rightarrow> char" where
  "lower_char c = (let n = of_char c :: nat in if 65 \<le> n \<and> n \<le> 90 then char_of (n + 32) else c)"

definition lower :: "string \<Rightarrow> string" where
  "lower s = map lower_char s"

definition is_space :: "char \<Rightarrow> bool" where
  "is_space c \<longleftrightarrow> (let n = of_char c :: nat in n = 32 \<or> (9 \<le> n \<and> n \<le> 13) \<or> (28 \<le> n \<and> n \<le> 31))"

definition strip :: "string \<Rightarrow> string" where
  "strip s = rev (dropWhile is_space (rev (dropWhile is_space s)))"

definition NATIVE_VALUES :: "string list" where
  "NATIVE_VALUES = map source_value NATIVE_SOURCES"

text \<open>Membership in the frozen set of native values: a container is not hashable.\<close>

definition in_native :: "json \<Rightarrow> bool res" where
  "in_native j = (case j of JStr s \<Rightarrow> Inr (s \<in> set NATIVE_VALUES)
     | JArr _ \<Rightarrow> Inl (Exn TypeError [S ''unhashable type: list''])
     | JObj _ \<Rightarrow> Inl (Exn TypeError [S ''unhashable type: dict''])
     | _ \<Rightarrow> Inr False)"

definition aware :: "pylib \<Rightarrow> json \<Rightarrow> time option" where
  "aware lib j = (case j of JStr s \<Rightarrow> (case pl_iso lib s of Some (AwareStamp t) \<Rightarrow> Some t | _ \<Rightarrow> None) | _ \<Rightarrow> None)"

section \<open>The signal gate\<close>

text \<open>The keys of a record that place it in time: its window's end and the time of the run.\<close>

definition placed :: "pylib \<Rightarrow> (string \<times> json) list \<Rightarrow> bool" where
  "placed lib r =
     (case (jget r ''end'', jget r ''hypothesis'', jget r ''instrument_id'') of
        (JStr e, JStr _, JInt _) \<Rightarrow>
          (case (aware lib (JStr e), aware lib (jget r ''ts'')) of
             (Some window_end, Some ts) \<Rightarrow> window_end \<le> ts
           | _ \<Rightarrow> False)
      | _ \<Rightarrow> False)"

definition record_passes :: "pylib \<Rightarrow> json \<Rightarrow> string \<Rightarrow> bool res" where
  "record_passes lib record run_id =
     rbind (obj_of record) (\<lambda>r.
       if jget r ''run_id'' \<noteq> JStr run_id \<or> jget r ''passed'' \<noteq> JBool True then Inr False
       else if jget r ''harness_version'' \<noteq> JInt HARNESS_VERSION then Inr False
       else
         rbind (in_native (jget r ''source_type'')) (\<lambda>native.
           if \<not> native then Inr False
           else
             case jget r ''sufficiency'' of
               JObj suff \<Rightarrow>
                 if jget suff ''met'' \<noteq> JBool True then Inr False
                 else if jget r ''robust_screened'' \<noteq> JBool True then Inr False
                 else if \<not> placed lib r then Inr False
                 else
                   (case jget r ''holdout'' of
                      JObj holdout \<Rightarrow> Inr (jget holdout ''fills_at_hourly_open'' = JInt 0)
                    | _ \<Rightarrow> Inr False)
             | _ \<Rightarrow> Inr False))"

text \<open>\<open>approved\<close> is an object whose \<open>hypothesis\<close> is a string, since it passed.\<close>

definition revokes :: "pylib \<Rightarrow> json \<Rightarrow> (string \<times> json) list \<Rightarrow> bool res" where
  "revokes lib later approved =
     rbind (obj_of later) (\<lambda>r.
       if jget r ''hypothesis'' \<noteq> JNull
          \<and> lower (jstr lib (jget r ''hypothesis'')) = lower (jstr lib (jget approved ''hypothesis''))
          \<and> jstr lib (jget r ''instrument_id'') = jstr lib (jget approved ''instrument_id'')
          \<and> jstr lib (jget r ''harness_version'') = show_int HARNESS_VERSION
          \<and> lower (jstr lib (jget r ''source_type'')) \<in> set NATIVE_VALUES
          \<and> jget r ''passed'' \<noteq> JBool True
       then
         (case aware lib (jget r ''end'') of
            None \<Rightarrow> Inr True
          | Some later_end \<Rightarrow>
              (case aware lib (jget approved ''end'') of
                 None \<Rightarrow> Inl (Exn TypeError [S ''comparison with None''])
               | Some approved_end \<Rightarrow> Inr (approved_end < later_end)))
       else Inr False)"

text \<open>\<open>next((r for r in records if ...), None)\<close> and \<open>any(...)\<close>: both stop at the first hit.\<close>

fun first_passing :: "pylib \<Rightarrow> string \<Rightarrow> json list \<Rightarrow> (string \<times> json) list option res" where
  "first_passing lib run_id [] = Inr None"
| "first_passing lib run_id (r # rs) =
     rbind (record_passes lib r run_id) (\<lambda>ok.
       if ok then rmap Some (obj_of r) else first_passing lib run_id rs)"

fun any_revokes :: "pylib \<Rightarrow> (string \<times> json) list \<Rightarrow> json list \<Rightarrow> bool res" where
  "any_revokes lib approved [] = Inr False"
| "any_revokes lib approved (r # rs) =
     rbind (revokes lib r approved) (\<lambda>hit. if hit then Inr True else any_revokes lib approved rs)"

definition read_records :: "gate_files \<Rightarrow> json list res" where
  "read_records f = (case gf_log f of None \<Rightarrow> Inr [] | Some ls \<Rightarrow> rmapM (\<lambda>l. l) ls)"

definition read_passing :: "gate_files \<Rightarrow> json list res" where
  "read_passing f = rbind (read_records f) (\<lambda>rs.
     rmap (map fst) (rmap (filter snd) (rmapM (\<lambda>r. rmap (\<lambda>o'. (r, jget o' ''passed'' = JBool True)) (obj_of r)) rs)))"

definition filled_in :: "json \<Rightarrow> bool" where
  "filled_in j = (case j of JStr s \<Rightarrow> strip s \<noteq> [] | _ \<Rightarrow> False)"

definition check_approval :: "pylib \<Rightarrow> gate_files \<Rightarrow> (string \<times> json) list \<Rightarrow> bool res" where
  "check_approval lib f approval =
     (if \<not> list_all (\<lambda>k. filled_in (jget approval k)) [''run_id'', ''approved_by'', ''approved_at''] then Inr False
      else
        let run_id = (case jget approval ''run_id'' of JStr s \<Rightarrow> strip s | _ \<Rightarrow> []) in
        rbind (read_records f) (\<lambda>records.
        rbind (first_passing lib run_id records) (\<lambda>approved.
          case approved of
            None \<Rightarrow> Inr False
          | Some a \<Rightarrow> rmap Not (any_revokes lib a records))))"

text \<open>Whatever raises on the way leaves the gate closed.\<close>

definition load_validated :: "pylib \<Rightarrow> gate_files \<Rightarrow> bool" where
  "load_validated lib f =
     (case gf_approval f of
        Some (Inr (JObj approval)) \<Rightarrow> (case check_approval lib f approval of Inr b \<Rightarrow> b | Inl _ \<Rightarrow> False)
      | _ \<Rightarrow> False)"

section \<open>The three locks\<close>

datatype execution_mode = MANUAL_REVIEW | PAPER | AUTO

fun mode_value :: "execution_mode \<Rightarrow> string" where
  "mode_value MANUAL_REVIEW = ''manual_review''"
| "mode_value PAPER = ''paper''"
| "mode_value AUTO = ''auto''"

record gate_decision =
  gd_allowed :: bool
  gd_reason :: text_t

definition LIVE_ENV_VAR :: string where "LIVE_ENV_VAR = ''POLYMARKET_LIVE_TRADING''"

text \<open>\<open>validated_now\<close> is \<open>signal.base.SIGNAL_VALIDATED\<close>, read when the caller passes no override.\<close>

definition live_orders_allowed ::
  "int \<Rightarrow> (int \<rightharpoonup> execution_mode) \<Rightarrow> (string \<rightharpoonup> string) \<Rightarrow> bool option \<Rightarrow> bool \<Rightarrow> gate_decision" where
  "live_orders_allowed iid modes env signal_validated validated_now =
     (let validated = (case signal_validated of None \<Rightarrow> validated_now | Some v \<Rightarrow> v);
          mode = (case modes iid of None \<Rightarrow> MANUAL_REVIEW | Some m \<Rightarrow> m) in
      if mode \<noteq> AUTO then
        \<lparr>gd_allowed = False,
          gd_reason = [S ''instrument '', I iid, S '' mode is '', S (mode_value mode), S '', not auto'']\<rparr>
      else if env LIVE_ENV_VAR \<noteq> Some ''true'' then
        \<lparr>gd_allowed = False, gd_reason = [S LIVE_ENV_VAR, S '' is not exactly 'true'']\<rparr>
      else if \<not> validated then
        \<lparr>gd_allowed = False, gd_reason = [S ''SIGNAL_VALIDATED is False - Phase 1 has not cleared'']\<rparr>
      else \<lparr>gd_allowed = True, gd_reason = [S ''all gates passed'']\<rparr>)"

end
