(* ===== verification/Row_Text.thy ===== *)
theory Row_Text
  imports Iso_Time Decimal_Text Store Evidence
begin

text \<open>
  The rows of \<open>storage/db.py\<close> as SQLite holds them: an instant and a decimal are texts, an enumeration is the text of its
  value, a nested value is JSON. The other theories keep typed rows (\<open>Store\<close>); here the statements run on cells, and
  reading the cells gives the typed rows back.
\<close>

section \<open>Cells\<close>

text \<open>
  A value of a column. As everywhere in this development the text of a message is the list of its pieces. A JSON text is
  the value it stands for.
\<close>

datatype cell = NullCell | IntCell int | TextCell string | MessageCell text_t | JsonCell json

definition bad_cell :: exn where
  "bad_cell = Exn TypeError []"

text \<open>\<open>rep\<close> is the representation that the \<open>Decimal\<close> object of a value happens to have.\<close>

type_synonym reps = "dec \<Rightarrow> decimal"

definition dec_text :: "reps \<Rightarrow> dec \<Rightarrow> string" where
  "dec_text rep x = dm_text (rep x)"

definition dec_cell :: "reps \<Rightarrow> dec \<Rightarrow> cell" where
  "dec_cell rep x = TextCell (dec_text rep x)"

fun opt_cell :: "('a \<Rightarrow> cell) \<Rightarrow> 'a option \<Rightarrow> cell" where
  "opt_cell f None = NullCell"
| "opt_cell f (Some x) = f x"

fun read_text :: "cell \<Rightarrow> string res" where
  "read_text (TextCell s) = Inr s"
| "read_text _ = Inl bad_cell"

fun read_int :: "cell \<Rightarrow> int res" where
  "read_int (IntCell n) = Inr n"
| "read_int _ = Inl bad_cell"

fun read_message :: "cell \<Rightarrow> text_t res" where
  "read_message (MessageCell m) = Inr m"
| "read_message _ = Inl bad_cell"

definition read_decimal :: "string \<Rightarrow> dec res" where
  "read_decimal s = the_finite (py_decimal s)"

definition read_dec :: "cell \<Rightarrow> dec res" where
  "read_dec c = rbind (read_text c) read_decimal"

definition read_ts :: "cell \<Rightarrow> time res" where
  "read_ts c = rmap ts_parse (read_text c)"

text \<open>A nullable column; \<open>_dec\<close> is the case of a decimal.\<close>

fun read_opt :: "(cell \<Rightarrow> 'a res) \<Rightarrow> cell \<Rightarrow> 'a option res" where
  "read_opt f NullCell = Inr None"
| "read_opt f c = rmap Some (f c)"

text \<open>An enumeration by the text of its value; any other text raises.\<close>

definition read_enum :: "('a \<Rightarrow> string) \<Rightarrow> 'a list \<Rightarrow> cell \<Rightarrow> 'a res" where
  "read_enum value xs c = rbind (read_text c) (\<lambda>s.
     case find (\<lambda>x. value x = s) xs of None \<Rightarrow> Inl (value_error s) | Some x \<Rightarrow> Inr x)"

definition all_states :: "rstate list" where
  "all_states = [FLAT, ENTRY_PENDING, OPEN, EXIT_PENDING, LIQUIDATED, HALTED]"

definition all_statuses :: "ostatus list" where
  "all_statuses = [Accepted, Resting, Partial, Filled, Cancelled, Auto_Cancelled, Rejected, Submitting, Lost, Errored,
     Shadow_Refused, Timeout_Adopted, Adopted, Abandoned]"

fun side_value :: "side \<Rightarrow> string" where
  "side_value Buy = ''buy''"
| "side_value Sell = ''sell''"

definition read_side :: "cell \<Rightarrow> side res" where
  "read_side = read_enum side_value [Buy, Sell]"

section \<open>Orders\<close>

definition order_cells :: "reps \<Rightarrow> order_row \<Rightarrow> cell list" where
  "order_cells rep o' =
     [TextCell (or_cid o'), TextCell (or_run o'), IntCell (or_instrument o'), TextCell (side_value (or_side o')), dec_cell rep (or_quantity o'),
      IntCell (if or_reduce_only o' then 1 else 0), TextCell (status_value (or_status o')), opt_cell TextCell (or_exchange_id o'),
      dec_cell rep (or_filled o'), opt_cell (dec_cell rep) (or_avg_price o'), TextCell (ts_text (or_submitted_at o')),
      TextCell (ts_text (or_updated_at o')), MessageCell (or_reason o')]"

fun order_from_row :: "cell list \<Rightarrow> order_row res" where
  "order_from_row [cid, run, iid, sd, qty, ro, st, xid, filled, avg, sent, changed, reason] =
     rbind (read_text cid) (\<lambda>cid. rbind (read_text run) (\<lambda>run. rbind (read_int iid) (\<lambda>iid. rbind (read_side sd) (\<lambda>sd.
     rbind (read_dec qty) (\<lambda>qty. rbind (read_int ro) (\<lambda>ro. rbind (read_enum status_value all_statuses st) (\<lambda>st.
     rbind (read_opt read_text xid) (\<lambda>xid. rbind (read_dec filled) (\<lambda>filled. rbind (read_opt read_dec avg) (\<lambda>avg.
     rbind (read_ts sent) (\<lambda>sent. rbind (read_ts changed) (\<lambda>changed. rmap (\<lambda>reason.
       \<lparr>or_cid = cid, or_run = run, or_instrument = iid, or_side = sd, or_quantity = qty, or_reduce_only = (ro \<noteq> 0),
        or_status = st, or_exchange_id = xid, or_filled = filled, or_avg_price = avg, or_submitted_at = sent,
        or_updated_at = changed, or_reason = reason\<rparr>)
     (read_message reason)))))))))))))"
| "order_from_row _ = Inl bad_cell"

text \<open>\<open>ON CONFLICT(client_order_id) DO UPDATE SET status, exchange_order_id, filled_quantity, avg_price, updated_at, reason\<close>.\<close>

fun update_columns :: "bool list \<Rightarrow> cell list \<Rightarrow> cell list \<Rightarrow> cell list" where
  "update_columns (b # bs) (x # xs) (y # ys) = (if b then y else x) # update_columns bs xs ys"
| "update_columns _ xs _ = xs"

definition upsert_order_cells :: "cell list \<Rightarrow> cell list list \<Rightarrow> cell list list" where
  "upsert_order_cells =
     upsert (take 1) (update_columns [False, False, False, False, False, False, True, True, True, True, False, True, True])"

section \<open>Local positions\<close>

definition position_cells :: "reps \<Rightarrow> position_row \<Rightarrow> cell list" where
  "position_cells rep p =
     [TextCell (pr_run p), IntCell (pr_instrument p), TextCell (state_value (pr_state p)), dec_cell rep (pr_size p),
      opt_cell (dec_cell rep) (pr_entry p), opt_cell (dec_cell rep) (pr_stop p), opt_cell TextCell (pr_stop_order_id p),
      dec_cell rep (pr_funding p), TextCell (ts_text (pr_updated_at p))]"

fun position_from_row :: "cell list \<Rightarrow> position_row res" where
  "position_from_row [run, iid, st, sz, entry, stop, sid, funding, changed] =
     rbind (read_text run) (\<lambda>run. rbind (read_int iid) (\<lambda>iid. rbind (read_enum state_value all_states st) (\<lambda>st.
     rbind (read_dec sz) (\<lambda>sz. rbind (read_opt read_dec entry) (\<lambda>entry. rbind (read_opt read_dec stop) (\<lambda>stop.
     rbind (read_opt read_text sid) (\<lambda>sid. rbind (read_dec funding) (\<lambda>funding. rmap (\<lambda>changed.
       \<lparr>pr_run = run, pr_instrument = iid, pr_state = st, pr_size = sz, pr_entry = entry, pr_stop = stop,
        pr_stop_order_id = sid, pr_funding = funding, pr_updated_at = changed\<rparr>)
     (read_ts changed)))))))))"
| "position_from_row _ = Inl bad_cell"

definition upsert_position_cells :: "cell list \<Rightarrow> cell list list \<Rightarrow> cell list list" where
  "upsert_position_cells = upsert (take 2) (update_columns [False, False, True, True, True, True, True, True, True])"

section \<open>What is written is read back\<close>

text \<open>The decimals of a row are finite, so each has a representation, and its instants are dates of the calendar.\<close>

definition writes :: "reps \<Rightarrow> dec \<Rightarrow> bool" where
  "writes rep x \<longleftrightarrow> dm_value (rep x) = x"

definition writes_opt :: "reps \<Rightarrow> dec option \<Rightarrow> bool" where
  "writes_opt rep x \<longleftrightarrow> (case x of None \<Rightarrow> True | Some y \<Rightarrow> writes rep y)"

definition order_written :: "reps \<Rightarrow> order_row \<Rightarrow> bool" where
  "order_written rep o' \<longleftrightarrow> writes rep (or_quantity o') \<and> writes rep (or_filled o') \<and> writes_opt rep (or_avg_price o') \<and>
     in_range (or_submitted_at o') \<and> in_range (or_updated_at o')"

definition position_written :: "reps \<Rightarrow> position_row \<Rightarrow> bool" where
  "position_written rep p \<longleftrightarrow> writes rep (pr_size p) \<and> writes_opt rep (pr_entry p) \<and> writes_opt rep (pr_stop p) \<and>
     writes rep (pr_funding p) \<and> in_range (pr_updated_at p)"

lemma read_decimal_text: "writes rep x \<Longrightarrow> read_decimal (dec_text rep x) = Inr x"
  by (simp add: read_decimal_def dec_text_def decimal_text_is_read_back the_finite_def writes_def)

lemma read_dec_cell [simp]: "writes rep x \<Longrightarrow> read_dec (dec_cell rep x) = Inr x"
  by (simp add: read_dec_def dec_cell_def read_decimal_text)

lemma read_opt_dec [simp]: "writes_opt rep x \<Longrightarrow> read_opt read_dec (opt_cell (dec_cell rep) x) = Inr x"
  by (cases x) (simp_all add: writes_opt_def dec_cell_def read_dec_def read_decimal_text)

lemma read_opt_text [simp]: "read_opt read_text (opt_cell TextCell x) = Inr x"
  by (cases x) simp_all

lemma read_ts_cell [simp]: "in_range t \<Longrightarrow> read_ts (TextCell (ts_text t)) = Inr t"
  by (simp add: read_ts_def ts_parse_text)

lemma read_state [simp]: "read_enum state_value all_states (TextCell (state_value s)) = Inr s"
  by (cases s) (simp_all add: read_enum_def all_states_def)

lemma read_status [simp]: "read_enum status_value all_statuses (TextCell (status_value s)) = Inr s"
  by (cases s) (simp_all add: read_enum_def all_statuses_def)

lemma read_side_cell [simp]: "read_side (TextCell (side_value s)) = Inr s"
  by (cases s) (simp_all add: read_side_def read_enum_def)

lemma order_read_back: "order_written rep o' \<Longrightarrow> order_from_row (order_cells rep o') = Inr o'"
  by (simp add: order_cells_def order_written_def)

lemma position_read_back: "position_written rep p \<Longrightarrow> position_from_row (position_cells rep p) = Inr p"
  by (simp add: position_cells_def position_written_def)

lemma rows_read_back:
  "(\<And>x. x \<in> set xs \<Longrightarrow> read (write x) = Inr x) \<Longrightarrow> rmapM read (map write xs) = Inr xs"
  by (induction xs) simp_all

section \<open>The statements on cells\<close>

text \<open>An upsert on cells is the upsert on typed rows, when the key columns are the key and the update is the merge.\<close>

lemma upsert_cells:
  assumes "\<And>x y. ckey (write x) = ckey (write y) \<longleftrightarrow> key x = key y"
    and "\<And>x y. key x = key y \<Longrightarrow> cmerge (write x) (write y) = write (merge x y)"
  shows "upsert ckey cmerge (write r) (map write rows) = map write (upsert key merge r rows)"
  using assms by (induction rows) auto

lemma upsert_order_cells_rows:
  "upsert_order_cells (order_cells rep r) (map (order_cells rep) rows) = map (order_cells rep) (upsert or_cid merge_order r rows)"
  unfolding upsert_order_cells_def
  by (rule upsert_cells) (simp_all add: order_cells_def merge_order_def)

lemma upsert_position_cells_rows:
  "upsert_position_cells (position_cells rep r) (map (position_cells rep) rows) =
     map (position_cells rep) (upsert position_key merge_position r rows)"
  unfolding upsert_position_cells_def
  by (rule upsert_cells) (auto simp: position_cells_def merge_position_def position_key_def numeral_2_eq_2)

lemma upsert_set: "x \<in> set (upsert key merge r rows) \<Longrightarrow> x = r \<or> x \<in> set rows \<or> (\<exists>y \<in> set rows. x = merge y r)"
  by (induction rows) (auto split: if_splits)

lemma merged_written:
  "order_written rep x \<Longrightarrow> order_written rep y \<Longrightarrow> order_written rep (merge_order x y)"
  "position_written rep p \<Longrightarrow> position_written rep q \<Longrightarrow> position_written rep (merge_position p q)"
  by (simp_all add: order_written_def merge_order_def position_written_def merge_position_def)

lemma upserted_written:
  "order_written rep r \<Longrightarrow> \<forall>x \<in> set rows. order_written rep x \<Longrightarrow> x \<in> set (upsert or_cid merge_order r rows) \<Longrightarrow>
   order_written rep x"
  "position_written rep p \<Longrightarrow> \<forall>x \<in> set prows. position_written rep x \<Longrightarrow>
   q \<in> set (upsert position_key merge_position p prows) \<Longrightarrow> position_written rep q"
  by (auto dest!: upsert_set intro: merged_written)

text \<open>
  C10. The tables on disk are the typed tables. Whatever rows of orders and of local positions the database holds, whatever
  representations their decimals have, writing a row to the cells of its table (inserting it, or updating the columns the
  statement names on a conflict of keys) and reading the table back gives the rows that the typed operation gives.
\<close>

theorem stored_rows_are_the_typed_rows:
  assumes "order_written rep r" "\<forall>x \<in> set (db_orders d). order_written rep x"
    and "position_written rep p" "\<forall>x \<in> set (db_positions d). position_written rep x"
  shows "rmapM order_from_row (upsert_order_cells (order_cells rep r) (map (order_cells rep) (db_orders d))) =
      Inr (db_orders (upsert_order r d)) \<and>
    rmapM position_from_row (upsert_position_cells (position_cells rep p) (map (position_cells rep) (db_positions d))) =
      Inr (db_positions (upsert_position_local p d))"
proof
  show "rmapM order_from_row (upsert_order_cells (order_cells rep r) (map (order_cells rep) (db_orders d))) =
      Inr (db_orders (upsert_order r d))"
    unfolding upsert_order_cells_rows upsert_order_def
    by (simp, rule rows_read_back, rule order_read_back, rule upserted_written(1) [OF assms(1,2)])
  show "rmapM position_from_row (upsert_position_cells (position_cells rep p) (map (position_cells rep) (db_positions d))) =
      Inr (db_positions (upsert_position_local p d))"
    unfolding upsert_position_cells_rows upsert_position_local_def
    by (simp, rule rows_read_back, rule position_read_back, rule upserted_written(2) [OF assms(3,4)])
qed

text \<open>An order that is first submitted and then reported filled, and the position it opened.\<close>

definition whole_rep :: reps where
  "whole_rep x = Decimal (x < 0) (nat \<lfloor>\<bar>x\<bar>\<rfloor>) 0"

definition sample_order :: "ostatus \<Rightarrow> dec \<Rightarrow> dec option \<Rightarrow> order_row" where
  "sample_order st filled avg = \<lparr>or_cid = ''r-6-1'', or_run = ''r'', or_instrument = 6, or_side = Sell, or_quantity = 2,
     or_reduce_only = False, or_status = st, or_exchange_id = None, or_filled = filled, or_avg_price = avg,
     or_submitted_at = 1709251199000000, or_updated_at = 1709251199500000, or_reason = []\<rparr>"

definition sample_local :: position_row where
  "sample_local = \<lparr>pr_run = ''r'', pr_instrument = 6, pr_state = OPEN, pr_size = - 2, pr_entry = Some 100, pr_stop = Some 115,
     pr_stop_order_id = None, pr_funding = 0, pr_updated_at = 1709251199500000\<rparr>"

lemma stored_rows_are_the_typed_rows_witness:
  "rmapM order_from_row (upsert_order_cells (order_cells whole_rep (sample_order Filled 2 (Some 100)))
     [order_cells whole_rep (sample_order Submitting 0 None)]) = Inr [sample_order Filled 2 (Some 100)]"
  using stored_rows_are_the_typed_rows
    [of whole_rep "sample_order Filled 2 (Some 100)" "empty_db\<lparr>db_orders := [sample_order Submitting 0 None]\<rparr>" sample_local]
  by (simp add: order_written_def position_written_def writes_def writes_opt_def whole_rep_def dm_value_def sample_order_def
      sample_local_def in_range_def EPOCH_def empty_db_def upsert_order_def merge_order_def)

section \<open>JSON columns\<close>

text \<open>
  \<open>d[key]\<close> of a parsed object raises when the key is missing. A value of another type, which the code would carry on
  untyped, is an error here.
\<close>

definition field :: "(string \<times> json) list \<Rightarrow> string \<Rightarrow> (json \<Rightarrow> 'a res) \<Rightarrow> 'a res" where
  "field d k f = (case map_of d k of None \<Rightarrow> Inl (Exn KeyError [S k]) | Some j \<Rightarrow> f j)"

fun j_int :: "json \<Rightarrow> int res" where
  "j_int (JInt n) = Inr n"
| "j_int _ = Inl bad_cell"

fun j_bool :: "json \<Rightarrow> bool res" where
  "j_bool (JBool b) = Inr b"
| "j_bool _ = Inl bad_cell"

fun j_text :: "json \<Rightarrow> string res" where
  "j_text (JStr s) = Inr s"
| "j_text _ = Inl bad_cell"

fun j_list :: "json \<Rightarrow> json list res" where
  "j_list (JArr xs) = Inr xs"
| "j_list _ = Inl bad_cell"

fun j_obj :: "json \<Rightarrow> (string \<times> json) list res" where
  "j_obj (JObj kvs) = Inr kvs"
| "j_obj _ = Inl bad_cell"

definition j_dec :: "json \<Rightarrow> dec res" where
  "j_dec j = rbind (j_text j) read_decimal"

fun j_opt :: "(json \<Rightarrow> 'a res) \<Rightarrow> json \<Rightarrow> 'a option res" where
  "j_opt f JNull = Inr None"
| "j_opt f j = rmap Some (f j)"

definition dec_json :: "reps \<Rightarrow> dec \<Rightarrow> json" where
  "dec_json rep x = JStr (dec_text rep x)"

definition read_side_text :: "string \<Rightarrow> side res" where
  "read_side_text s = read_side (TextCell s)"

definition intent_json :: "reps \<Rightarrow> intent \<Rightarrow> json" where
  "intent_json rep i =
     JObj [(''instrument_id'', JInt (it_instrument i)), (''side'', JStr (side_value (it_side i))),
       (''quantity'', dec_json rep (it_quantity i)), (''notional'', dec_json rep (it_notional i)),
       (''reduce_only'', JBool (it_reduce_only i)), (''reason'', JStr (it_reason i))]"

definition intent_cell :: "reps \<Rightarrow> intent option \<Rightarrow> cell" where
  "intent_cell rep = opt_cell (\<lambda>i. JsonCell (intent_json rep i))"

definition intent_from_json :: "json \<Rightarrow> intent res" where
  "intent_from_json j =
     rbind (j_obj j) (\<lambda>d.
     rbind (field d ''instrument_id'' j_int) (\<lambda>iid. rbind (rbind (field d ''side'' j_text) read_side_text) (\<lambda>sd.
     rbind (field d ''quantity'' j_dec) (\<lambda>qty. rbind (field d ''notional'' j_dec) (\<lambda>notional.
     rbind (field d ''reduce_only'' j_bool) (\<lambda>ro. rmap (\<lambda>reason.
       \<lparr>it_instrument = iid, it_side = sd, it_quantity = qty, it_notional = notional, it_reduce_only = ro, it_reason = reason\<rparr>)
     (field d ''reason'' j_text)))))))"

fun read_json :: "cell \<Rightarrow> json res" where
  "read_json (JsonCell j) = Inr j"
| "read_json _ = Inl bad_cell"

definition intent_from_cell :: "cell \<Rightarrow> intent option res" where
  "intent_from_cell = read_opt (\<lambda>c. rbind (read_json c) intent_from_json)"

definition view_json :: "reps \<Rightarrow> position_view \<Rightarrow> json" where
  "view_json rep p =
     JObj [(''instrument_id'', JInt (pv_instrument p)), (''size'', dec_json rep (pv_size p)),
       (''entry_price'', dec_json rep (pv_entry p)), (''notional'', dec_json rep (pv_notional p)),
       (''leverage'', JInt (pv_leverage p)),
       (''liquidation_price'', case pv_liq_price p of None \<Rightarrow> JNull | Some x \<Rightarrow> dec_json rep x),
       (''unrealised_pnl'', dec_json rep (pv_unrealised p)), (''cumulative_funding'', dec_json rep (pv_funding p))]"

definition view_from_json :: "json \<Rightarrow> position_view res" where
  "view_from_json j =
     rbind (j_obj j) (\<lambda>p.
     rbind (field p ''instrument_id'' j_int) (\<lambda>iid. rbind (field p ''size'' j_dec) (\<lambda>sz.
     rbind (field p ''entry_price'' j_dec) (\<lambda>entry. rbind (field p ''notional'' j_dec) (\<lambda>notional.
     rbind (field p ''leverage'' j_int) (\<lambda>lev. rbind (field p ''liquidation_price'' (j_opt j_dec)) (\<lambda>liq.
     rbind (field p ''unrealised_pnl'' j_dec) (\<lambda>pnl. rmap (\<lambda>funding.
       \<lparr>pv_instrument = iid, pv_size = sz, pv_entry = entry, pv_notional = notional, pv_leverage = lev, pv_liq_price = liq,
        pv_unrealised = pnl, pv_funding = funding\<rparr>)
     (field p ''cumulative_funding'' j_dec)))))))))"

text \<open>One row per run: the run, the instant, the executor, the start equity and the snapshot as JSON.\<close>

definition account_cells :: "reps \<Rightarrow> account_row \<Rightarrow> cell list" where
  "account_cells rep a =
     (let sn = ac_snap a in
      [TextCell (ac_run a), TextCell (ts_text (sn_ts sn)), TextCell (ac_executor a), dec_cell rep (ac_start_equity a),
       JsonCell (JObj [(''equity'', dec_json rep (sn_equity sn)), (''in_liquidation'', JBool (sn_in_liquidation sn)),
         (''open_orders'', JArr (map JStr (sn_open_orders sn))),
         (''stops'', JObj (map (\<lambda>(i, t). (show_int i, dec_json rep t)) (sn_stops sn))),
         (''positions'', JArr (map (view_json rep) (sn_positions sn)))])])"

fun stop_from_json :: "string \<times> json \<Rightarrow> (int \<times> dec) res" where
  "stop_from_json (i, t) = rbind (py_int i) (\<lambda>i. rmap (Pair i) (j_dec t))"

definition snapshot_from_json :: "json \<Rightarrow> time \<Rightarrow> account_snapshot res" where
  "snapshot_from_json j ts =
     rbind (j_obj j) (\<lambda>d.
     rbind (rbind (field d ''positions'' j_list) (rmapM view_from_json)) (\<lambda>positions.
     rbind (field d ''equity'' j_dec) (\<lambda>equity. rbind (rbind (field d ''open_orders'' j_list) (rmapM j_text)) (\<lambda>oo.
     rbind (rbind (field d ''stops'' j_obj) (rmapM stop_from_json)) (\<lambda>stops. rmap (\<lambda>liq.
       \<lparr>sn_equity = equity, sn_positions = positions, sn_open_orders = oo, sn_stops = dict_of stops, sn_in_liquidation = liq,
        sn_ts = ts\<rparr>)
     (field d ''in_liquidation'' j_bool))))))"

fun account_from_row :: "cell list \<Rightarrow> account_row res" where
  "account_from_row [run, ts, ex, start, blob] =
     rbind (read_text run) (\<lambda>run. rbind (read_json blob) (\<lambda>j. rbind (read_ts ts) (\<lambda>ts.
     rbind (snapshot_from_json j ts) (\<lambda>sn. rbind (read_dec start) (\<lambda>start. rmap (\<lambda>ex.
       \<lparr>ac_run = run, ac_snap = sn, ac_executor = ex, ac_start_equity = start\<rparr>)
     (read_text ex))))))"
| "account_from_row _ = Inl bad_cell"

definition view_written :: "reps \<Rightarrow> position_view \<Rightarrow> bool" where
  "view_written rep p \<longleftrightarrow> writes rep (pv_size p) \<and> writes rep (pv_entry p) \<and> writes rep (pv_notional p) \<and>
     writes_opt rep (pv_liq_price p) \<and> writes rep (pv_unrealised p) \<and> writes rep (pv_funding p)"

text \<open>The keys of a dict are distinct, and an instrument id is one that \<open>int\<close> would read.\<close>

definition account_written :: "reps \<Rightarrow> account_row \<Rightarrow> bool" where
  "account_written rep a \<longleftrightarrow>
     (let sn = ac_snap a in
      writes rep (sn_equity sn) \<and> list_all (view_written rep) (sn_positions sn) \<and>
      list_all (\<lambda>(i, t). length (show_digits \<bar>i\<bar>) \<le> 4300 \<and> writes rep t) (sn_stops sn) \<and>
      distinct (map fst (sn_stops sn)) \<and> in_range (sn_ts sn) \<and> writes rep (ac_start_equity a))"

lemma field_Cons: "field ((k', j) # d) k f = (if k = k' then f j else field d k f)"
  by (auto simp: field_def)

lemma j_dec_json [simp]: "writes rep x \<Longrightarrow> j_dec (dec_json rep x) = Inr x"
  by (simp add: j_dec_def dec_json_def read_decimal_text)

lemma j_opt_json [simp]:
  "writes_opt rep x \<Longrightarrow> j_opt j_dec (case x of None \<Rightarrow> JNull | Some y \<Rightarrow> dec_json rep y) = Inr x"
  by (cases x) (simp_all add: writes_opt_def dec_json_def j_dec_def read_decimal_text)

lemma intent_read_back:
  "(\<And>i. io = Some i \<Longrightarrow> writes rep (it_quantity i) \<and> writes rep (it_notional i)) \<Longrightarrow>
   intent_from_cell (intent_cell rep io) = Inr io"
  by (cases io) (simp_all add: intent_from_cell_def intent_cell_def intent_from_json_def intent_json_def field_Cons
      read_side_text_def)

lemma view_read_back: "view_written rep p \<Longrightarrow> view_from_json (view_json rep p) = Inr p"
  by (simp add: view_from_json_def view_json_def view_written_def field_Cons)

lemma dict_of_distinct: "distinct (map fst kvs) \<Longrightarrow> dict_of kvs = kvs"
proof -
  have "distinct (map fst (m @ kvs)) \<Longrightarrow> foldl (\<lambda>m (k, v). AList.update k v m) m kvs = m @ kvs" for m
  proof (induction kvs arbitrary: m)
    case (Cons kv kvs)
    have new: "k \<notin> fst ` set m \<Longrightarrow> AList.update k v m = m @ [(k, v)]" for k and v :: 'b
      by (induction m) auto
    show ?case using Cons.IH [of "m @ [kv]"] Cons.prems by (cases kv) (simp add: new)
  qed simp
  from this [of "[]"] show "distinct (map fst kvs) \<Longrightarrow> dict_of kvs = kvs" by (simp add: dict_of_def)
qed

lemma stop_read_back:
  "length (show_digits \<bar>i\<bar>) \<le> 4300 \<and> writes rep t \<Longrightarrow> stop_from_json (show_int i, dec_json rep t) = Inr (i, t)"
  by (simp add: py_int_show_int)

lemma account_read_back:
  assumes "account_written rep a"
  shows "account_from_row (account_cells rep a) = Inr a"
proof -
  let ?sn = "ac_snap a"
  have views: "rmapM view_from_json (map (view_json rep) (sn_positions ?sn)) = Inr (sn_positions ?sn)"
    by (rule rows_read_back) (use assms in \<open>auto simp: account_written_def Let_def list_all_iff intro: view_read_back\<close>)
  have ids: "rmapM j_text (map JStr (sn_open_orders ?sn)) = Inr (sn_open_orders ?sn)"
    by (rule rows_read_back) simp
  have stops: "rmapM stop_from_json (map (\<lambda>(i, t). (show_int i, dec_json rep t)) (sn_stops ?sn)) = Inr (sn_stops ?sn)"
    by (rule rows_read_back) (use assms in \<open>auto simp: account_written_def Let_def list_all_iff py_int_show_int\<close>)
  show ?thesis
    using assms dict_of_distinct [of "sn_stops ?sn"]
    by (simp add: account_cells_def Let_def account_written_def snapshot_from_json_def field_Cons views ids stops)
qed

end
