(* ===== verification/Router_Step.thy ===== *)
theory Router_Step
  imports Router
begin

text \<open>
  \<open>polyperps/execution/order_router.py\<close>, second part of \<open>InstrumentRouter\<close>: the entry points the
  portfolio drives, one definition per method.
\<close>

section \<open>Pending timeout and the stop\<close>

definition check_pending :: "'x exec_ops \<Rightarrow> account_snapshot \<Rightarrow> ('x, 's, unit) rop" where
  "check_pending X sn =
     bind (rget id) (\<lambda>r.
       case rt_pending_since r of
         None \<Rightarrow> ret ()
       | Some since \<Rightarrow>
           if \<not> pending_state (rt_state r) then ret ()
           else
             bind rclock (\<lambda>now.
               if now - since \<le> PENDING_TIMEOUT then ret ()
               else
                 andthen (ralert WARN ''pending_timeout''
                   [(''client_order_id'', [S (case rt_pending_cid r of None \<Rightarrow> ''None'' | Some c \<Rightarrow> c)]),
                    (''state'', [S (state_value (rt_state r))])])
                 (andthen
                   (case rt_pending_cid r of
                      None \<Rightarrow> ret ()
                    | Some cid \<Rightarrow> update_order cid False (\<lambda>o'. o'\<lparr>or_status := Timeout_Adopted,
                        or_reason := [S ''pending timeout: adopted the exchange size'']\<rparr>))
                  (adopt_and_settle X sn))))"

definition replace_stop :: "'x exec_ops \<Rightarrow> ('x, 's, unit) rop" where
  "replace_stop X =
     bind (rget id) (\<lambda>r.
       case rt_entry r of
         None \<Rightarrow> ret ()
       | Some entry \<Rightarrow>
           if rt_size r = 0 then ret ()
           else
             bind (lift (stop_price (dir_of (rt_size r)) entry (rt_limits r))) (\<lambda>trigger.
             bind (attempt (bind (rexec (xo_place_stop X (rt_iid r) trigger)) (\<lambda>_. ret True))
                    (\<lambda>e. if exc_class e = ShadowRefused then ret False else raise e)) (\<lambda>placed.
               if placed then
                 andthen (rupd (rt_stop_update (\<lambda>_. Some trigger)))
                 (andthen persist (ralert INFO ''stop_placed'' [(''trigger'', [D trigger])]))
               else
                 andthen (rupd (rt_stop_update (\<lambda>_. None)))
                 (andthen persist (ralert WARN ''shadow_refused'' [(''trigger'', [D trigger])])))))"

section \<open>Exits\<close>

definition exit_intent :: "int \<Rightarrow> dec \<Rightarrow> dec \<Rightarrow> string \<Rightarrow> intent res" where
  "exit_intent iid sz mark reason =
     rmap (\<lambda>notional. \<lparr>it_instrument = iid, it_side = (if 0 < sz then Sell else Buy),
         it_quantity = dabs sz, it_notional = notional, it_reduce_only = True, it_reason = reason\<rparr>)
       (quantize rhe 2 (dmul (dabs sz) mark))"

definition exit_position ::
  "'x exec_ops \<Rightarrow> dec \<Rightarrow> string \<Rightarrow> dec option \<Rightarrow> dec option \<Rightarrow> ('x, 's, unit) rop" where
  "exit_position X mark reason target szo =
     bind (rget id) (\<lambda>r.
     bind (lift (exit_intent (rt_iid r) (case szo of None \<Rightarrow> rt_size r | Some s \<Rightarrow> s) mark reason)) (\<lambda>i.
       send X i target []))"

definition shutdown :: "'x exec_ops \<Rightarrow> dec \<Rightarrow> dec option \<Rightarrow> ('x, 's, unit) rop" where
  "shutdown X mark exchange_size =
     bind (rget id) (\<lambda>r.
       let held = (case exchange_size of None \<Rightarrow> rt_size r | Some s \<Rightarrow> s);
           was_halted = (rt_state r = HALTED) in
       if rt_state r = LIQUIDATED \<or> was_halted \<and> held = 0 then ret ()
       else
         andthen
           (if held \<noteq> 0 \<and> (rt_state r = OPEN \<or> rt_state r = HALTED \<or> rt_state r = FLAT) then
              exit_position X mark ''kill_shutdown'' None (Some held)
            else ret ())
         (andthen
           (if was_halted then ret ()
            else ralert CRITICAL ''kill_switch'' [(''action'', [S ''shutdown''])])
          (set_state HALTED)))"

definition clear_halt :: "('x, 's, unit) rop" where
  "clear_halt = bind (rget rt_size) (\<lambda>sz. set_state (settled_state sz))"

definition adopt_pending :: "string \<Rightarrow> rstate \<Rightarrow> ('x, 's, unit) rop" where
  "adopt_pending cid st =
     (if \<not> pending_state st then
        raise (Exn ValueError [S ''adopt_pending: state must be ENTRY_PENDING or EXIT_PENDING, got '',
          S (state_value st)])
      else
        andthen (rupd (rt_pending_cid_update (\<lambda>_. Some cid)))
        (andthen (bind rclock (\<lambda>now. rupd (rt_pending_since_update (\<lambda>_. Some now))))
         (set_state st)))"

section \<open>The bar cycle\<close>

definition skip :: "dec option \<Rightarrow> string \<Rightarrow> ('x, 's, unit) rop" where
  "skip target note = record_decision target [] None None note"

definition last_bar :: "bar list \<Rightarrow> bar res" where
  "last_bar bars = (if bars = [] then Inl (Exn IndexError [S ''list index out of range'']) else Inr (last bars))"

definition entry_intent :: "'s router \<Rightarrow> dec \<Rightarrow> dec \<Rightarrow> intent res" where
  "entry_intent r target mark =
     rbind (ddiv (rl_notional_usd (rt_limits r)) mark) (\<lambda>q.
     rmap (\<lambda>qty. \<lparr>it_instrument = rt_iid r, it_side = (if 0 < target then Buy else Sell),
         it_quantity = qty, it_notional = rl_notional_usd (rt_limits r), it_reduce_only = False,
         it_reason = ''strategy''\<rparr>)
       (quantize round_down 8 q))"

definition guarded ::
  "'s router \<Rightarrow> intent \<Rightarrow> dec \<Rightarrow> account_snapshot \<Rightarrow> intent list \<Rightarrow>
     (intent option \<times> (string \<times> text_t) list) res" where
  "guarded r i mark sn pending =
     rbind (vet_entry i mark sn (rt_limits r) pending) (\<lambda>v1.
     rbind (vet_exposure i (sn_positions sn) (sn_equity sn) (rt_categories r) (rt_exposure r) pending) (\<lambda>v2.
       apply_guards i [(''vet_entry'', v1), (''vet_exposure'', v2)]))"

text \<open>The branch of a flat router that has a target.\<close>

definition enter ::
  "'x exec_ops \<Rightarrow> dec \<Rightarrow> dec \<Rightarrow> account_snapshot \<Rightarrow> intent list \<Rightarrow> ('x, 's, unit) rop" where
  "enter X target mark sn pending =
     bind (rget id) (\<lambda>r.
     bind (lift (entry_intent r target mark)) (\<lambda>i.
     bind (lift (guarded r i mark sn pending)) (\<lambda>(final, labels).
       case final of
         None \<Rightarrow> record_decision (Some target) labels None None ''rejected''
       | Some j \<Rightarrow> send X j (Some target) labels)))"

definition on_target ::
  "'x exec_ops \<Rightarrow> dec \<Rightarrow> dec \<Rightarrow> account_snapshot \<Rightarrow> action \<Rightarrow> intent list \<Rightarrow> ('x, 's, unit) rop" where
  "on_target X target mark sn kill pending =
     bind (rget id) (\<lambda>r.
       if rt_state r = FLAT then
         if target = 0 \<or> kill = Pause then
           skip (Some target) (if kill = Pause then ''kill:pause'' else ''flat:no_target'')
         else enter X target mark sn pending
       else
         let flip = (0 < rt_size r \<and> target < 0 \<or> rt_size r < 0 \<and> 0 < target) in
         if target = 0 \<or> flip then
           exit_position X mark (if target = 0 then ''strategy'' else ''flip'') (Some target) None
         else skip (Some target) ''hold'')"

definition router_on_bar ::
  "'x exec_ops \<Rightarrow> bar list \<Rightarrow> account_snapshot \<Rightarrow> action \<Rightarrow> intent list \<Rightarrow> ('x, 's, unit) rop" where
  "router_on_bar X history sn kill pending =
     bind (rget id) (\<lambda>r.
       if frozen (rt_state r) \<or> pending_state (rt_state r) then
         skip None (''skip:'' @ state_value (rt_state r))
       else
         bind (lift (last_bar history)) (\<lambda>b.
           case br_close b of
             None \<Rightarrow> skip None ''skip:no_close''
           | Some mark \<Rightarrow>
               if kill = Shutdown then shutdown X mark None
               else if \<not> br_complete b then
                 if rt_state r = OPEN then exit_position X mark ''data_gap'' None None
                 else skip None ''skip:data_gap''
               else if length history < st_warmup (rt_strategy r) then skip None ''skip:warmup''
               else
                 bind (rstrat (\<lambda>st. st_target st history)) (\<lambda>t.
                   on_target X (clamp_target t) mark sn kill pending)))"

section \<open>The fast loop\<close>

definition margin_check :: "position_view \<Rightarrow> dec \<Rightarrow> ('x, 's, unit) rop" where
  "margin_check p mark =
     (case pv_liq_price p of
        None \<Rightarrow> ret ()
      | Some liq \<Rightarrow>
          bind (lift (ddiv (dabs (dsub liq mark)) mark)) (\<lambda>d.
          bind (rget id) (\<lambda>r.
          bind rclock (\<lambda>now.
            let a = margin_alert d (rt_iid r) now ALERT_THRESHOLDS; lv = map_option al_level a in
            andthen
              (case a of
                 None \<Rightarrow> ret ()
               | Some al \<Rightarrow> if lv \<noteq> rt_margin_level r then rio (io_emit al) else ret ())
              (rupd (rt_margin_level_update (\<lambda>_. lv)))))))"

definition router_on_fast :: "'x exec_ops \<Rightarrow> dec \<Rightarrow> account_snapshot \<Rightarrow> ('x, 's, unit) rop" where
  "router_on_fast X mark sn =
     bind (rget id) (\<lambda>r.
       if rt_state r \<noteq> OPEN then ret ()
       else if sn_in_liquidation sn \<and> rt_size r \<noteq> 0 then
         andthen (ralert CRITICAL ''liquidation'' [(''size'', [D (rt_size r)]), (''mark'', [D mark])])
           (set_state LIQUIDATED)
       else
         case position_of sn (rt_iid r) of
           None \<Rightarrow> ret ()
         | Some p \<Rightarrow>
             andthen (margin_check p mark)
             (bind (lift (check_open p mark (rt_limits r))) (\<lambda>g.
               if g = Flatten then exit_position X mark ''liq_distance'' None None
               else if funding_exit_due p (rt_limits r) then
                 exit_position X mark ''funding_cost'' None None
               else ret ())))"

section \<open>Events\<close>

text \<open>
  The size and entry a fill leaves (the pure part of \<open>_apply_fill\<close>); \<open>self.entry or Decimal(0)\<close> reads
  a missing and a zero entry alike.
\<close>

definition local_after :: "dec \<Rightarrow> dec option \<Rightarrow> side \<Rightarrow> dec \<Rightarrow> dec \<Rightarrow> (dec \<times> dec option) res" where
  "local_after old entry sd qty price =
     (let delta = (case sd of Buy \<Rightarrow> qty | Sell \<Rightarrow> dneg qty);
          new = dadd old delta;
          e = (case entry of None \<Rightarrow> 0 | Some x \<Rightarrow> x) in
      if old = 0 \<or> new = 0 \<or> (0 < old) \<noteq> (0 < new) then
        Inr (new, if new \<noteq> 0 then Some price else None)
      else if dabs old < dabs new then
        rmap (\<lambda>avg. (new, Some avg))
          (ddiv (dadd (dmul (dabs old) e) (dmul (dabs delta) price)) (dabs new))
      else Inr (new, entry))"

definition apply_fill :: "fill_update \<Rightarrow> ('x, 's, unit) rop" where
  "apply_fill ev =
     bind (rget id) (\<lambda>r.
     bind (lift (local_after (rt_size r) (rt_entry r) (fu_side ev) (fu_quantity ev) (fu_price ev)))
       (\<lambda>(new, entry).
       andthen (rupd (\<lambda>r. r\<lparr>rt_size := new, rt_entry := entry\<rparr>))
       (andthen (if new = 0 then rupd (\<lambda>r. r\<lparr>rt_funding := 0, rt_margin_level := None\<rparr>) else ret ())
        persist)))"

definition order_update_event :: "order_update \<Rightarrow> ('x, 's, unit) rop" where
  "order_update_event ev =
     bind (rget id) (\<lambda>r.
       if Some (ou_cid ev) = rt_pending_cid r \<and>
          (ou_status ev = Cancelled \<or> ou_status ev = Auto_Cancelled \<or> ou_status ev = Rejected) then
         andthen (update_order (ou_cid ev) False (or_status_update (\<lambda>_. ou_status ev)))
         (andthen (ralert WARN (''order_'' @ status_value (ou_status ev))
            [(''client_order_id'', [S (ou_cid ev)])])
         (andthen (rupd (rt_pending_cid_update (\<lambda>_. None)))
          (if frozen (rt_state r) then ret () else set_state (settled_state (rt_size r)))))
       else
         bind (rread (\<lambda>d. get_order d (ou_cid ev))) (\<lambda>ro.
           case ro of
             None \<Rightarrow> ret ()
           | Some row \<Rightarrow>
               if gave_up (or_status row) then ret ()
               else update_order (ou_cid ev) True (or_status_update (\<lambda>_. ou_status ev))))"

text \<open>A fill of an order we already gave up on: the venue's size is read instead of added to.\<close>

definition late_fill :: "'x exec_ops \<Rightarrow> order_row \<Rightarrow> fill_update \<Rightarrow> ('x, 's, unit) rop" where
  "late_fill X row ev =
     bind (rget rt_state) (\<lambda>st.
     andthen (ralert WARN ''late_fill''
       [(''client_order_id'', [S (fu_cid ev)]), (''state'', [S (state_value st)])])
     (andthen (update_order (fu_cid ev) False
        (or_filled_update (\<lambda>_. dadd (or_filled row) (fu_quantity ev))))
     (bind (rexec (xo_snapshot X)) (adopt_and_settle X))))"

definition flattened_by_fill :: "'x exec_ops \<Rightarrow> bool \<Rightarrow> fill_update \<Rightarrow> ('x, 's, unit) rop" where
  "flattened_by_fill X ours ev =
     bind (rget id) (\<lambda>r.
       let was_pending = (rt_state r = EXIT_PENDING \<and> Some (fu_cid ev) = rt_pending_cid r);
           liquidated = (rt_state r = LIQUIDATED) in
       andthen (rupd (\<lambda>r. r\<lparr>rt_pending_cid := None, rt_stop := None\<rparr>))
       (andthen (rexec (xo_cancel_stop X (rt_iid r)))
       (andthen (if frozen (rt_state r) then persist else set_state FLAT)
       (andthen flatten_hook
        (if \<not> was_pending \<and> \<not> ours \<and> \<not> liquidated then
           ralert WARN ''stop_fired''
             [(''price'', [D (fu_price ev)]), (''quantity'', [D (fu_quantity ev)])]
         else ret ())))))"

definition after_fill :: "'x exec_ops \<Rightarrow> bool \<Rightarrow> dec \<Rightarrow> fill_update \<Rightarrow> ('x, 's, unit) rop" where
  "after_fill X ours size_before ev =
     bind (rget id) (\<lambda>r.
       if rt_state r = ENTRY_PENDING \<and> Some (fu_cid ev) = rt_pending_cid r \<and> rt_size r \<noteq> 0 then
         andthen (rupd (rt_pending_cid_update (\<lambda>_. None)))
         (andthen (set_state OPEN) (replace_stop X))
       else if rt_size r = 0 then flattened_by_fill X ours ev
       else if frozen (rt_state r) then
         andthen (ralert WARN ''late_fill'' [(''client_order_id'', [S (fu_cid ev)]),
           (''state'', [S (state_value (rt_state r))]), (''size_after'', [D (rt_size r)])])
         (replace_stop X)
       else if ours \<and> rt_state r \<noteq> FLAT then ret ()
       else
         andthen (ralert WARN ''unexpected_fill'' [(''client_order_id'', [S (fu_cid ev)]),
           (''state'', [S (state_value (rt_state r))]), (''size_before'', [D size_before]),
           (''size_after'', [D (rt_size r)])])
         (if rt_state r = FLAT then andthen (set_state OPEN) (replace_stop X) else ret ()))"

definition fill_event :: "'x exec_ops \<Rightarrow> fill_update \<Rightarrow> ('x, 's, unit) rop" where
  "fill_event X ev =
     bind (rget id) (\<lambda>r0.
       if fu_instrument ev \<noteq> rt_iid r0 then ret ()
       else
         bind (rread (\<lambda>d. get_order d (fu_cid ev))) (\<lambda>ro.
           case ro of
             Some row \<Rightarrow>
               if gave_up (or_status row) \<and> Some (fu_cid ev) \<noteq> rt_pending_cid r0 then
                 late_fill X row ev
               else
                 andthen (apply_fill ev)
                 (andthen (record_fill row ev) (after_fill X True (rt_size r0) ev))
           | None \<Rightarrow> andthen (apply_fill ev) (after_fill X False (rt_size r0) ev)))"

definition handle_event :: "'x exec_ops \<Rightarrow> event \<Rightarrow> ('x, 's, unit) rop" where
  "handle_event X ev =
     (case ev of
        EvOrder u \<Rightarrow> order_update_event u
      | EvFill f \<Rightarrow> fill_event X f
      | EvReconcileNow _ \<Rightarrow> raise (Exn (OtherException ''AttributeError'') []))"

section \<open>What the guards let through\<close>

lemma foldl_min_le: "foldl min a xs \<le> (a :: dec)" "x \<in> set xs \<Longrightarrow> foldl min a xs \<le> (x :: dec)"
proof -
  show le: "foldl min a xs \<le> (a :: dec)" for a xs
    by (induction xs arbitrary: a) (auto, meson min.cobounded1 order_trans)
  show "x \<in> set xs \<Longrightarrow> foldl min a xs \<le> x"
    by (induction xs arbitrary: a) (auto, meson le min.cobounded2 order_trans)
qed

lemma apply_guards_Some:
  assumes "apply_guards i vs = Inr (Some j, labels)"
  shows "it_quantity j \<le> it_quantity i"
    and "(n, Resize q) \<in> set vs \<Longrightarrow> it_quantity j \<le> q"
    and "\<not> list_ex (\<lambda>(_, v). is_reject v) vs"
    and "it_instrument j = it_instrument i \<and> it_side j = it_side i \<and> it_reduce_only j = it_reduce_only i
      \<and> it_reason j = it_reason i"
proof -
  let ?qs = "List.map_filter (\<lambda>(_, v). resize_of v) vs"
  have nr: "\<not> list_ex (\<lambda>(_, v). is_reject v) vs" and q: "it_quantity j = foldl min (it_quantity i) ?qs"
    and k: "it_instrument j = it_instrument i \<and> it_side j = it_side i
      \<and> it_reduce_only j = it_reduce_only i \<and> it_reason j = it_reason i"
    using assms by (auto simp: apply_guards_def Let_def split: if_splits)
  show "\<not> list_ex (\<lambda>(_, v). is_reject v) vs" by (rule nr)
  show "it_quantity j \<le> it_quantity i" unfolding q by (rule foldl_min_le)
  show "it_instrument j = it_instrument i \<and> it_side j = it_side i \<and> it_reduce_only j = it_reduce_only i
    \<and> it_reason j = it_reason i" by (rule k)
  assume "(n, Resize q) \<in> set vs"
  then have "q \<in> set ?qs" by (force simp: List.map_filter_def resize_of_def image_iff)
  then show "it_quantity j \<le> q" unfolding q by (rule foldl_min_le)
qed

lemma apply_guards_None:
  "apply_guards i vs = Inr (None, labels) \<Longrightarrow> list_ex (\<lambda>(_, v). is_reject v) vs"
  by (auto simp: apply_guards_def Let_def split: if_splits)

lemma entry_intent_value:
  assumes "entry_intent r target mark = Inr i" "0 < mark" "0 \<le> rl_notional_usd (rt_limits r)"
  shows "it_notional i = rl_notional_usd (rt_limits r)" "0 \<le> it_quantity i"
    "it_quantity i * mark \<le> it_notional i * (1 + 5 / 10 ^ 28)" "\<not> it_reduce_only i"
    "it_instrument i = rt_iid r" "it_side i = (if 0 < target then Buy else Sell)"
proof -
  let ?N = "rl_notional_usd (rt_limits r)"
  obtain qty where q: "quantize round_down 8 (ctx (?N / mark)) = Inr qty"
      and i: "i = \<lparr>it_instrument = rt_iid r, it_side = (if 0 < target then Buy else Sell),
         it_quantity = qty, it_notional = ?N, it_reduce_only = False, it_reason = ''strategy''\<rparr>"
    using assms by (auto simp: entry_intent_def ddiv_eq_Inr)
  have nm: "0 \<le> ?N / mark" using assms by simp
  have b: "0 \<le> qty" "qty \<le> ctx (?N / mark)" using quantize_down_bounds [OF q] nm by auto
  have "qty * mark \<le> (?N / mark * (1 + 5 / 10 ^ 28)) * mark"
    using b(2) ctx_upper [OF nm] assms(2) by (intro mult_right_mono) auto
  then show "it_notional i = ?N" "0 \<le> it_quantity i" "it_quantity i * mark \<le> it_notional i * (1 + 5 / 10 ^ 28)"
    "\<not> it_reduce_only i" "it_instrument i = rt_iid r" "it_side i = (if 0 < target then Buy else Sell)"
    using b(1) assms(2) by (simp_all add: i)
qed

lemma guarded_Some:
  assumes "guarded r i mark sn pending = Inr (Some j, labels)"
  obtains v1 v2 where "vet_entry i mark sn (rt_limits r) pending = Inr v1" "\<not> is_reject v1"
    "vet_exposure i (sn_positions sn) (sn_equity sn) (rt_categories r) (rt_exposure r) pending = Inr v2"
    "\<not> is_reject v2" "it_quantity j \<le> it_quantity i"
    "\<And>q. v1 = Resize q \<Longrightarrow> it_quantity j \<le> q" "\<And>q. v2 = Resize q \<Longrightarrow> it_quantity j \<le> q"
proof -
  obtain v1 v2 where v: "vet_entry i mark sn (rt_limits r) pending = Inr v1"
    "vet_exposure i (sn_positions sn) (sn_equity sn) (rt_categories r) (rt_exposure r) pending = Inr v2"
    "apply_guards i [(''vet_entry'', v1), (''vet_exposure'', v2)] = Inr (Some j, labels)"
    using assms by (auto simp: guarded_def)
  note g = apply_guards_Some [OF v(3)]
  show ?thesis using that [OF v(1) _ v(2)] g by auto
qed

text \<open>The room of the leverage cap, and the value at the mark of what is sent.\<close>

lemma guarded_leverage_room:
  assumes "entry_intent r target mark = Inr i" "guarded r i mark sn pending = Inr (Some j, labels)"
    and "0 < mark" "0 \<le> rl_notional_usd (rt_limits r)"
  shows "\<exists>room. 0 < room \<and> it_quantity j * mark \<le> room * (1 + 5 / 10 ^ 28)
    \<and> room \<le> dsub (dmul (of_int (rl_max_leverage (rt_limits r))) (sn_equity sn)) (entry_existing sn pending)
    \<and> 0 < sn_equity sn"
proof -
  note e = entry_intent_value [OF assms(1,3,4)]
  obtain v1 where v: "vet_entry i mark sn (rt_limits r) pending = Inr v1" "\<not> is_reject v1"
    "it_quantity j \<le> it_quantity i" "\<And>q. v1 = Resize q \<Longrightarrow> it_quantity j \<le> q"
    using guarded_Some [OF assms(2)] by metis
  obtain room where r: "0 < sn_equity sn" "0 < room"
    "room \<le> dsub (dmul (of_int (rl_max_leverage (rt_limits r))) (sn_equity sn)) (entry_existing sn pending)"
    "allow_or_resize (min (it_notional i) room) (it_notional i) mark = Inr v1"
    using vet_entry_cases [OF v(1,2)] by blast
  have n0: "0 \<le> it_notional i" using e(1) assms(4) by simp
  have "it_quantity j * mark \<le> room * (1 + 5 / 10 ^ 28)"
  proof (cases v1)
    case Allow
    then have "it_notional i \<le> room" using allow_or_resize_grants [OF r(4) assms(3)] r(2) n0 by auto
    then have "it_notional i * (1 + 5 / 10 ^ 28) \<le> room * (1 + 5 / 10 ^ 28)" by (intro mult_right_mono) auto
    then show ?thesis using v(3) e(3) mult_right_mono [of "it_quantity j" "it_quantity i" mark] assms(3) by linarith
  next
    case (Resize q)
    then have "q * mark \<le> min (it_notional i) room * (1 + 5 / 10 ^ 28)"
      using allow_or_resize_grants [OF r(4) assms(3)] r(2) n0 by auto
    also have "\<dots> \<le> room * (1 + 5 / 10 ^ 28)" by (intro mult_right_mono) auto
    finally show ?thesis using v(4) [OF Resize] mult_right_mono [of "it_quantity j" q mark] assms(3) by linarith
  qed (use v(2) in \<open>simp add: is_reject_def\<close>)
  then show ?thesis using r by blast
qed

lemma guarded_exposure_room:
  assumes "entry_intent r target mark = Inr i" "guarded r i mark sn pending = Inr (Some j, labels)"
    and "0 < mark" "0 \<le> rl_notional_usd (rt_limits r)"
  shows "\<exists>room. 0 < room \<and> it_quantity j * mark \<le> room * (1 + 4 / 10 ^ 27)
    \<and> room \<le> gross_room (rt_exposure r) (sn_equity sn) (sn_positions sn) pending
    \<and> room \<le> cluster_room (rt_exposure r) (sn_equity sn) (rt_categories r) i (sn_positions sn) pending"
proof -
  note e = entry_intent_value [OF assms(1,3,4)]
  obtain v2 where v: "vet_exposure i (sn_positions sn) (sn_equity sn) (rt_categories r) (rt_exposure r) pending = Inr v2"
    "\<not> is_reject v2" "it_quantity j \<le> it_quantity i" "\<And>q. v2 = Resize q \<Longrightarrow> it_quantity j \<le> q"
    using guarded_Some [OF assms(2)] by metis
  have n0: "0 \<le> it_notional i" using e(1) assms(4) by simp
  obtain room where r: "0 < room" "room \<le> gross_room (rt_exposure r) (sn_equity sn) (sn_positions sn) pending"
    "room \<le> cluster_room (rt_exposure r) (sn_equity sn) (rt_categories r) i (sn_positions sn) pending"
    "v2 = Allow \<and> it_notional i \<le> room
      \<or> (\<exists>q. v2 = Resize q \<and> 0 \<le> q \<and> 0 < it_quantity i \<and> 0 < it_notional i
          \<and> q * (it_notional i / it_quantity i) \<le> room * (1 + 2 / 10 ^ 27))"
    using vet_exposure_granted [OF v(1,2) n0 e(2)] by blast
  have "it_quantity j * mark \<le> room * (1 + 4 / 10 ^ 27)"
    using r(4)
  proof (elim disjE exE conjE)
    assume a: "v2 = Allow" "it_notional i \<le> room"
    then have "it_notional i * (1 + 5 / 10 ^ 28) \<le> room * (1 + 4 / 10 ^ 27)"
      using r(1) n0 by (intro mult_mono) auto
    then show ?thesis using v(3) e(3) mult_right_mono [of "it_quantity j" "it_quantity i" mark] assms(3) by linarith
  next
    fix q assume q: "v2 = Resize q" "0 \<le> q" "0 < it_quantity i" "0 < it_notional i"
      "q * (it_notional i / it_quantity i) \<le> room * (1 + 2 / 10 ^ 27)"
    have "mark \<le> it_notional i / it_quantity i * (1 + 5 / 10 ^ 28)"
      using e(3) q(3) by (simp add: field_simps)
    then have "q * mark \<le> q * (it_notional i / it_quantity i) * (1 + 5 / 10 ^ 28)"
      using mult_left_mono [OF _ q(2)] by (simp only: mult.assoc)
    also have "\<dots> \<le> (room * (1 + 2 / 10 ^ 27)) * (1 + 5 / 10 ^ 28)" by (intro mult_right_mono q) simp
    also have "\<dots> \<le> room * (1 + 4 / 10 ^ 27)" using r(1) by simp
    finally show ?thesis using v(4) [OF q(1)] mult_right_mono [of "it_quantity j" q mark] assms(3) by linarith
  qed
  then show ?thesis using r by blast
qed


section \<open>All caps at once\<close>

text \<open>
  At the mark the quantity of an entry the guards let through is worth no more than the room left under the leverage
  cap (positions and given pending entries counted), under the gross exposure cap, and within its cluster's net cap,
  up to the rounding of the context.
\<close>

lemma entry_order_within_caps:
  assumes "entry_intent r target mark = Inr i" "guarded r i mark sn pending = Inr (Some j, labels)"
    and "0 < mark" "0 \<le> rl_notional_usd (rt_limits r)"
    and "0 \<le> rl_max_leverage (rt_limits r)" "0 \<le> xl_gross (rt_exposure r)"
    and "\<forall>p \<in> set (sn_positions sn). 0 \<le> pv_notional p" "\<forall>k \<in> set pending. 0 \<le> it_notional k"
  shows "entry_existing sn pending + it_quantity j * mark
      \<le> of_int (rl_max_leverage (rt_limits r)) * sn_equity sn * (1 + 1 / 10 ^ 26)
    \<and> entry_existing sn pending + it_quantity j * mark
      \<le> xl_gross (rt_exposure r) * sn_equity sn * (1 + 1 / 10 ^ 26)
    \<and> it_quantity j * mark
      \<le> cluster_room (rt_exposure r) (sn_equity sn) (rt_categories r) i (sn_positions sn) pending
        * (1 + 4 / 10 ^ 27)"
proof -
  note e = entry_existing_nonneg [OF assms(7,8)]
  obtain a where a: "0 < a" "it_quantity j * mark \<le> a * (1 + 5 / 10 ^ 28)" "0 < sn_equity sn"
    "a \<le> dsub (dmul (of_int (rl_max_leverage (rt_limits r))) (sn_equity sn)) (entry_existing sn pending)"
    using guarded_leverage_room [OF assms(1-4)] by blast
  obtain b where b: "0 < b" "it_quantity j * mark \<le> b * (1 + 4 / 10 ^ 27)"
    "b \<le> dsub (dmul (xl_gross (rt_exposure r)) (sn_equity sn)) (entry_existing sn pending)"
    "b \<le> cluster_room (rt_exposure r) (sn_equity sn) (rt_categories r) i (sn_positions sn) pending"
    using guarded_exposure_room [OF assms(1-4)]
    by (auto simp: gross_room_def gross_existing_def entry_existing_def)
  have "entry_existing sn pending + a * (1 + 5 / 10 ^ 28)
      \<le> of_int (rl_max_leverage (rt_limits r)) * sn_equity sn * (1 + 1 / 10 ^ 26)"
    using a assms(5) e by (intro cap_slack) auto
  moreover have "entry_existing sn pending + b * (1 + 4 / 10 ^ 27)
      \<le> xl_gross (rt_exposure r) * sn_equity sn * (1 + 1 / 10 ^ 26)"
    using a(3) b assms(6) e by (intro cap_slack) auto
  moreover have "b * (1 + 4 / 10 ^ 27) \<le> cluster_room (rt_exposure r) (sn_equity sn) (rt_categories r) i
      (sn_positions sn) pending * (1 + 4 / 10 ^ 27)" using b(4) by (intro mult_right_mono) auto
  ultimately show ?thesis using a(2) b(2) by linarith
qed

definition sample_strategy :: "unit strat_ops" where
  "sample_strategy = \<lparr>st_name = ''long'', st_params = [], st_warmup = 0, st_target = (\<lambda>_. ret 1),
     st_on_flatten = None, st_on_recover = None\<rparr>"

definition sample_router :: "unit router" where
  "sample_router = router_init ''r'' 6 ''crypto'' sample_strategy () [6 \<mapsto> ''crypto'', 7 \<mapsto> ''crypto''] LIMITS EXPOSURE"

end
