(* ===== verification/Router_Laws.thy ===== *)
theory Router_Laws
  imports Router_Step
begin

text \<open>
  Laws of the router's steps for an arbitrary executor: what each primitive leaves alone, the frozen
  states, what a send can end in, and how the local position row follows the router.
\<close>

section \<open>Primitives\<close>

lemma keeps_rio [keeps_intros]: "keeps (\<lambda>w. P (re_rt w)) (rio m)"
  by (auto simp: keeps_def rio_def focus_def split: prod.split)

lemma keeps_rget [keeps_intros]: "keeps P (rget f)"
  by (simp add: rget_def keeps_get)

lemma keeps_rupd: "(\<And>w. P w \<Longrightarrow> P (w\<lparr>re_rt := f (re_rt w)\<rparr>)) \<Longrightarrow> keeps P (rupd f)"
  by (simp add: rupd_def keeps_upd)

lemma keeps_rget_bind:
  "(\<And>r. (\<exists>w. P w \<and> f (re_rt w) = r) \<Longrightarrow> keeps P (g r)) \<Longrightarrow> keeps P (bind (rget f) g)"
  unfolding rget_def by (rule keeps_get_bind) simp

lemma keeps_rt [keeps_intros]:
  "keeps (\<lambda>w. P (re_rt w)) rclock"
  "keeps (\<lambda>w. P (re_rt w)) (rexec m)"
  "keeps (\<lambda>w. P (re_rt w)) (rdb g)"
  "keeps (\<lambda>w. P (re_rt w)) (rread h)"
  unfolding rclock_def rexec_def rdb_def rread_def by (rule keeps_rio)+

lemma keeps_rstrat:
  "(\<And>r s. P (r\<lparr>rt_strat := s\<rparr>) = P r) \<Longrightarrow> keeps (\<lambda>w. P (re_rt w)) (rstrat m)"
  by (auto simp: keeps_def rstrat_def rget_def bind_def get_def focus_def split: prod.split)

lemma keeps_persist [keeps_intros]: "keeps (\<lambda>w. P (re_rt w)) persist"
  unfolding persist_def by (intro keeps_intros)

lemma keeps_ralert [keeps_intros]: "keeps (\<lambda>w. P (re_rt w)) (ralert lv kind detail)"
  unfolding ralert_def by (intro keeps_intros)

lemma keeps_update_order [keeps_intros]: "keeps (\<lambda>w. P (re_rt w)) (update_order cid b f)"
  unfolding update_order_def by (intro keeps_intros)

lemma keeps_record_fill [keeps_intros]: "keeps (\<lambda>w. P (re_rt w)) (record_fill row ev)"
  unfolding record_fill_def by (auto intro!: keeps_intros split: prod.split)

section \<open>Frozen routers\<close>

text \<open>
  A predicate on the control state alone: the fields the other updates write do not matter.
\<close>

definition in_state :: "(rstate \<Rightarrow> bool) \<Rightarrow> ('x, 's) renv \<Rightarrow> bool" where
  "in_state A w \<longleftrightarrow> A (rt_state (re_rt w))"

lemma in_state_keeps [keeps_intros]:
  "keeps (in_state A) rclock" "keeps (in_state A) (rexec m)" "keeps (in_state A) (rdb g)"
  "keeps (in_state A) (rread h)" "keeps (in_state A) persist" "keeps (in_state A) (ralert lv kind detail)"
  "keeps (in_state A) (update_order cid b f)" "keeps (in_state A) (record_fill row ev)"
  "keeps (in_state A) (rio m')" "keeps (in_state A) (rstrat st)"
  unfolding in_state_def by (intro keeps_intros keeps_rstrat; simp)+

lemma in_state_rupd:
  "(\<And>r. rt_state (f r) = rt_state r) \<Longrightarrow> keeps (in_state A) (rupd f)"
  by (rule keeps_rupd) (simp add: in_state_def)

lemma in_state_set: "A s \<Longrightarrow> keeps (in_state A) (set_state s)"
  unfolding set_state_def by (intro keeps_intros keeps_rupd) (simp add: in_state_def)

lemma in_state_record [keeps_intros]: "keeps (in_state A) (record_decision t v i c n)"
  unfolding record_decision_def by (intro keeps_intros in_state_rupd) simp

lemma in_state_flatten [keeps_intros]: "keeps (in_state A) flatten_hook"
  unfolding flatten_hook_def by (intro keeps_intros)

lemma in_state_recover [keeps_intros]: "keeps (in_state A) (recover_hook sg)"
  unfolding recover_hook_def by (intro keeps_intros)

lemma in_state_read:
  "(\<And>r. A (rt_state r) \<Longrightarrow> keeps (in_state A) (g r)) \<Longrightarrow> keeps (in_state A) (bind (rget id) g)"
  by (rule keeps_rget_bind) (auto simp: in_state_def)

lemma in_state_read_state:
  "(\<And>st. A st \<Longrightarrow> keeps (in_state A) (g st)) \<Longrightarrow> keeps (in_state A) (bind (rget rt_state) g)"
  by (rule keeps_rget_bind) (auto simp: in_state_def)

lemma adopt_keeps_state [keeps_intros]: "keeps (in_state A) (adopt X sn)"
  unfolding adopt_def
  by (intro keeps_intros in_state_rupd in_state_read; simp)

lemma adopt_and_settle_frozen: "frozen s0 \<Longrightarrow> keeps (in_state (\<lambda>s. s = s0)) (adopt_and_settle X sn)"
  unfolding adopt_and_settle_def
  by (auto intro!: keeps_intros in_state_read)

section \<open>Quiet steps\<close>

text \<open>
  A quiet step leaves the router and the order rows alone; a total one never raises. Both are what a
  proof about a send needs of the steps between the ones that matter.
\<close>

definition orders :: "('x, 's) renv \<Rightarrow> order_row list" where
  "orders w = db_orders (io_db (re_io w))"

definition quiet :: "('x, 's, 'a) rop \<Rightarrow> bool" where
  "quiet m \<longleftrightarrow> (\<forall>w. re_rt (snd (m w)) = re_rt w \<and> orders (snd (m w)) = orders w)"

definition total :: "('w, 'a) eff \<Rightarrow> bool" where
  "total m \<longleftrightarrow> (\<forall>w. \<exists>a w'. m w = (Inr a, w'))"

named_theorems quiet_intros "quiet and total steps"

lemma quiet_bind [quiet_intros]: "quiet m \<Longrightarrow> (\<And>a. quiet (f a)) \<Longrightarrow> quiet (bind m f)"
  by (auto simp: quiet_def bind_def split: prod.splits sum.splits) (metis snd_conv)+

lemma quiet_andthen [quiet_intros]: "quiet m \<Longrightarrow> quiet n \<Longrightarrow> quiet (andthen m n)"
  unfolding andthen_def by (rule quiet_bind)

lemma quiet_attempt [quiet_intros]: "quiet m \<Longrightarrow> (\<And>e. quiet (h e)) \<Longrightarrow> quiet (attempt m h)"
  by (auto simp: quiet_def attempt_def split: prod.splits sum.splits) (metis snd_conv)+

lemma quiet_if [quiet_intros]: "(c \<Longrightarrow> quiet m) \<Longrightarrow> (\<not> c \<Longrightarrow> quiet n) \<Longrightarrow> quiet (if c then m else n)"
  by simp

lemma quiet_case_option [quiet_intros]:
  "(x = None \<Longrightarrow> quiet m) \<Longrightarrow> (\<And>a. x = Some a \<Longrightarrow> quiet (f a)) \<Longrightarrow>
   quiet (case x of None \<Rightarrow> m | Some a \<Rightarrow> f a)"
  by (simp split: option.split)

lemma quiet_prims [quiet_intros]:
  "quiet (ret a)" "quiet (raise e)" "quiet (rget f)" "quiet (lift r)" "quiet rclock" "quiet (rexec m)"
  "quiet (rread g)" "quiet (rio (io_emit al))"
  by (simp_all add: quiet_def ret_def raise_def rget_def get_def lift_def rclock_def rexec_def rread_def
      rio_def io_now_def io_exec_def io_store_def io_emit_def upd_def focus_def orders_def split: prod.split)

lemma quiet_ralert [quiet_intros]: "quiet (ralert lv kind detail)"
  unfolding ralert_def by (intro quiet_intros)

lemma quiet_persist [quiet_intros]: "quiet persist"
  by (auto simp: quiet_def persist_def rclock_def rdb_def rio_def io_now_def io_store_def upd_def focus_def
      rget_def get_def bind_def orders_def upsert_position_local_def)

lemma quiet_submit_attempts [quiet_intros]: "quiet (submit_attempts X req sz ns)"
  by (induction ns) (auto intro!: quiet_intros)

lemma total_prims [quiet_intros]:
  "total (ret a)" "total (rget f)" "total rclock" "total (rread g)" "total (rio (io_emit al))"
  "total (rdb h)" "total (rupd k)"
  by (simp_all add: total_def ret_def rget_def get_def rclock_def rread_def rdb_def rupd_def
      rio_def io_now_def io_store_def io_emit_def upd_def focus_def split: prod.split)

lemma total_wp: "total m \<longleftrightarrow> (\<forall>w. wp m (\<lambda>_ _. True) (\<lambda>_ _. False) w)"
proof -
  have "(\<exists>a w'. m w = (Inr a, w')) \<longleftrightarrow> wp m (\<lambda>_ _. True) (\<lambda>_ _. False) w" for w
    by (cases "m w"; cases "fst (m w)") (auto simp: wp_def)
  then show ?thesis by (simp add: total_def)
qed

lemma total_bind [quiet_intros]: "total m \<Longrightarrow> (\<And>a. total (f a)) \<Longrightarrow> total (bind m f)"
  by (auto simp: total_wp wp_bind intro: wp_mono)

lemma total_andthen [quiet_intros]: "total m \<Longrightarrow> total n \<Longrightarrow> total (andthen m n)"
  unfolding andthen_def by (rule total_bind)

lemma total_if [quiet_intros]: "(c \<Longrightarrow> total m) \<Longrightarrow> (\<not> c \<Longrightarrow> total n) \<Longrightarrow> total (if c then m else n)"
  by simp

lemma total_case_option [quiet_intros]:
  "(x = None \<Longrightarrow> total m) \<Longrightarrow> (\<And>a. x = Some a \<Longrightarrow> total (f a)) \<Longrightarrow>
   total (case x of None \<Rightarrow> m | Some a \<Rightarrow> f a)"
  by (simp split: option.split)

lemma total_ops [quiet_intros]:
  "total (ralert lv kind detail)" "total persist" "total (set_state s)" "total (update_order cid b f)"
  unfolding ralert_def persist_def set_state_def update_order_def by (intro quiet_intros)+

lemma total_halt [quiet_intros]: "total (halt reason)"
  unfolding halt_def by (intro quiet_intros)

lemma wp_quiet:
  assumes "quiet m"
    and "\<And>a w'. re_rt w' = re_rt w \<Longrightarrow> orders w' = orders w \<Longrightarrow> Q a w'"
    and "\<And>e w'. re_rt w' = re_rt w \<Longrightarrow> orders w' = orders w \<Longrightarrow> E e w'"
  shows "wp m Q E w"
  using assms by (auto simp: quiet_def wp_iff) (metis snd_conv)+

lemma wp_quiet_total:
  assumes "quiet m" "total m"
    and "\<And>a w'. re_rt w' = re_rt w \<Longrightarrow> orders w' = orders w \<Longrightarrow> Q a w'"
  shows "wp m Q E w"
proof -
  obtain a w' where "m w = (Inr a, w')" using assms(2) unfolding total_def by blast
  then show ?thesis using assms(1,3) by (auto simp: wp_def quiet_def) (metis snd_conv)
qed

text \<open>The steps that do change the router or an order row.\<close>

lemma wp_rupd [wp_simps]: "wp (rupd f) Q E w = Q () (w\<lparr>re_rt := f (re_rt w)\<rparr>)"
  by (simp add: rupd_def wp_upd)

lemma wp_rget [wp_simps]: "wp (rget f) Q E w = Q (f (re_rt w)) w"
  by (simp add: rget_def wp_get)

lemma wp_rread [wp_simps]: "wp (rread f) Q E w = Q (f (io_db (re_io w))) w"
  by (simp add: rread_def rio_def io_store_def wp_focus wp_get)

lemma orders_rt [simp]: "orders (w\<lparr>re_rt := r\<rparr>) = orders w"
  by (simp add: orders_def)

lemma wp_set_state:
  assumes "\<And>w'. re_rt w' = (re_rt w)\<lparr>rt_state := s\<rparr> \<Longrightarrow> orders w' = orders w \<Longrightarrow> Q () w'"
  shows "wp (set_state s) Q E w"
  unfolding set_state_def wp_simps
  by (rule wp_quiet_total [OF quiet_persist total_ops(2)]) (simp add: assms)

lemma wp_halt:
  assumes "frozen (rt_state (re_rt w)) \<Longrightarrow> Q () w"
    and "\<And>w'. \<not> frozen (rt_state (re_rt w)) \<Longrightarrow>
      re_rt w' = (re_rt w)\<lparr>rt_pending_cid := None, rt_state := HALTED\<rparr> \<Longrightarrow> orders w' = orders w \<Longrightarrow> Q () w'"
  shows "wp (halt reason) Q E w"
proof (cases "frozen (rt_state (re_rt w))")
  case True
  then show ?thesis using assms(1) by (simp add: halt_def wp_simps)
next
  case False
  have "wp (ralert CRITICAL ''halted'' [(''reason'', reason)])
      (\<lambda>_. wp (andthen (rupd (rt_pending_cid_update (\<lambda>_. None))) (set_state HALTED)) Q E) E w"
    by (rule wp_quiet_total [OF quiet_ralert total_ops(1)], unfold wp_simps, rule wp_set_state)
      (use assms(2) False in simp)
  then show ?thesis using False by (simp add: halt_def wp_simps)
qed

definition order_at :: "string \<Rightarrow> ('x, 's) renv \<Rightarrow> order_row option" where
  "order_at cid w = find (\<lambda>r. or_cid r = cid) (orders w)"

lemma order_at_get: "order_at cid w = get_order (io_db (re_io w)) cid"
  by (simp add: order_at_def get_order_def orders_def)

lemma order_at_cong: "orders w' = orders w \<Longrightarrow> order_at cid w' = order_at cid w"
  by (simp add: order_at_def)

lemma wp_rdb_order:
  assumes "\<And>w'. re_rt w' = re_rt w \<Longrightarrow> order_at (or_cid row) w' =
      Some (case order_at (or_cid row) w of None \<Rightarrow> row | Some old \<Rightarrow> merge_order old row) \<Longrightarrow> Q () w'"
  shows "wp (rdb (upsert_order row)) Q E w"
  unfolding rdb_def rio_def io_store_def wp_focus wp_upd
  by (rule assms) (simp_all add: order_at_get get_order_upsert_same)

lemma wp_update_order:
  fixes w :: "('x, 's) renv"
  assumes "order_at cid w = Some row" "\<And>r. or_cid (f r) = or_cid r"
    and "b \<Longrightarrow> \<not> terminal_status (or_status row)"
    and "\<And>w' new. re_rt w' = re_rt w \<Longrightarrow> order_at cid w' = Some new \<Longrightarrow>
      or_status new = or_status (f row) \<Longrightarrow> or_filled new = or_filled (f row) \<Longrightarrow> Q () w'"
  shows "wp (update_order cid b f) Q E w"
proof -
  have c: "or_cid row = cid" using assms(1) by (simp add: order_at_get get_order_cid)
  have "wp rclock (\<lambda>now. wp (rdb (upsert_order ((f row)\<lparr>or_updated_at := now\<rparr>))) Q E) E w"
  proof (rule wp_quiet_total)
    show "quiet rclock" "total rclock" by (intro quiet_intros)+
    fix now and w' :: "('x, 's) renv" assume w': "re_rt w' = re_rt w" "orders w' = orders w"
    show "wp (rdb (upsert_order ((f row)\<lparr>or_updated_at := now\<rparr>))) Q E w'"
    proof (rule wp_rdb_order)
      fix v :: "('x, 's) renv"
      assume v: "re_rt v = re_rt w'" "order_at (or_cid ((f row)\<lparr>or_updated_at := now\<rparr>)) v =
        Some (case order_at (or_cid ((f row)\<lparr>or_updated_at := now\<rparr>)) w' of
          None \<Rightarrow> (f row)\<lparr>or_updated_at := now\<rparr> | Some old \<Rightarrow> merge_order old ((f row)\<lparr>or_updated_at := now\<rparr>))"
      show "Q () v"
        using v w' assms(1,2) c
        by (intro assms(4) [of v "merge_order row ((f row)\<lparr>or_updated_at := now\<rparr>)"])
          (simp_all add: order_at_cong [OF w'(2)] merge_order_def)
    qed
  qed
  then show ?thesis
    using assms(1,3) by (auto simp add: update_order_def wp_simps order_at_get)
qed

section \<open>What a send ends in\<close>

lemma wp_order_quiet:
  assumes "quiet m" "total m" "order_at cid w = Some row"
    and "\<And>a w'. re_rt w' = re_rt w \<Longrightarrow> order_at cid w' = Some row \<Longrightarrow> Q a w'"
  shows "wp m Q E w"
  using assms(3) by (intro wp_quiet_total [OF assms(1,2)] assms(4)) (simp_all add: order_at_def)

text \<open>The exceptional end: an errored row, a halted router, the venue's size adopted.\<close>

lemma quiet_adopt_orders:
  "orders (snd (adopt X sn w)) = orders w"
proof -
  have "keeps (\<lambda>v. orders v = orders w) (adopt X sn)"
  proof -
    have q: "keeps (\<lambda>v. orders v = orders w) m" if "quiet m" for m :: "('a, 'b, 'c) rop"
      using that by (simp add: keeps_def quiet_def)
    have u: "keeps (\<lambda>v. orders v = orders w) (rupd f)" for f by (rule keeps_rupd) simp
    have e: "keeps (\<lambda>v. orders v = orders w) (rexec m')" "keeps (\<lambda>v. orders v = orders w) persist"
      "keeps (\<lambda>v. orders v = orders w) (ralert lv k d)" for m' :: "('a, 'd) eff" and lv k d
      by (simp_all add: keeps_def quiet_intros [unfolded quiet_def])
    show ?thesis unfolding adopt_def by (intro keeps_intros u e)
  qed
  from keepsD [OF this refl] show ?thesis .
qed

lemma adopt_pending_cleared: "keeps (\<lambda>w. rt_pending_cid (re_rt w) = None \<and> A (rt_state (re_rt w))) (adopt X sn)"
  unfolding adopt_def by (intro keeps_intros keeps_rupd) simp_all

definition errored :: "string \<Rightarrow> ('x, 's) renv \<Rightarrow> bool" where
  "errored cid w \<longleftrightarrow> (\<exists>row. order_at cid w = Some row \<and> or_status row \<in> {Shadow_Refused, Errored})
     \<and> rt_state (re_rt w) = HALTED \<and> rt_pending_cid (re_rt w) = None"

lemma quiet_errored: "quiet m \<Longrightarrow> keeps (errored cid) m"
  by (simp add: keeps_def quiet_def errored_def order_at_def)

lemma adopt_errored:
  fixes X :: "'x exec_ops"
  shows "keeps (errored cid :: ('x, 's) renv \<Rightarrow> bool) (adopt X sn)"
  unfolding keeps_def
proof (intro allI impI)
  fix w :: "('x, 's) renv"
  assume e: "errored cid w"
  have "rt_pending_cid (re_rt (snd (adopt X sn w))) = None \<and> rt_state (re_rt (snd (adopt X sn w))) = HALTED"
    using keepsD [OF adopt_pending_cleared [of "\<lambda>s. s = HALTED" X sn], of w] e by (simp add: errored_def)
  then show "errored cid (snd (adopt X sn w))"
    using e quiet_adopt_orders [of X sn w] by (simp add: errored_def order_at_def)
qed

lemma wp_submit_failed:
  fixes w :: "('x, 's) renv"
  assumes "order_at cid w = Some row" "\<not> frozen (rt_state (re_rt w))"
  shows "wp (submit_failed X cid e) (\<lambda>_. errored cid) (\<lambda>_. errored cid) w"
proof -
  let ?snap = "bind (rexec (xo_snapshot X)) (adopt X)" and ?name = "exn_name (exc_class e)"
  have k: "wp ?snap (\<lambda>_. errored cid) (\<lambda>_. errored cid) v" if "errored cid v" for v :: "('x, 's) renv"
    by (rule keeps_wpD [where P = "errored cid", OF _ that])
      (intro keeps_intros adopt_errored quiet_errored quiet_prims(6))
  have h: "wp (halt [S ''submit error: '', S ?name]) (\<lambda>_. wp ?snap (\<lambda>_. errored cid) (\<lambda>_. errored cid)) (\<lambda>_. errored cid) v"
    if "order_at cid v = Some new" "or_status new \<in> {Shadow_Refused, Errored}" "re_rt v = re_rt w"
    for new and v :: "('x, 's) renv"
    by (rule wp_halt) (use that assms(2) in \<open>auto intro!: k simp: errored_def order_at_def\<close>)
  show ?thesis
    unfolding submit_failed_def Let_def wp_andthen
    by (rule wp_update_order [OF assms(1)], simp, simp, rule wp_order_quiet [OF quiet_ralert total_ops(1)],
        assumption, rule h) (auto split: if_splits)
qed

text \<open>The regular end: the acknowledgement decides.\<close>

definition settled :: "string \<Rightarrow> rstate \<Rightarrow> intent \<Rightarrow> ('x, 's) renv \<Rightarrow> bool" where
  "settled cid prior i w \<longleftrightarrow> (\<exists>row. order_at cid w = Some row \<and>
     (or_status row = Accepted \<and> rt_state (re_rt w) = pending_of i \<and> rt_pending_cid (re_rt w) = Some cid
    \<or> or_status row = Rejected \<and> rt_state (re_rt w) = prior \<and> rt_pending_cid (re_rt w) = None
    \<or> or_status row = Lost \<and> rt_state (re_rt w) = HALTED \<and> rt_pending_cid (re_rt w) = None))"

lemma wp_submit_returned:
  fixes w :: "('x, 's) renv"
  assumes "order_at cid w = Some row" "or_status row = Submitting"
    and "rt_state (re_rt w) = pending_of i" "rt_pending_cid (re_rt w) = Some cid"
  shows "wp (submit_returned cid prior i acked) (\<lambda>_. settled cid prior i) (\<lambda>_ _. False) w"
proof -
  have nf: "\<not> frozen (rt_state (re_rt w))" using assms(3) by (simp add: frozen_def pending_of_def)
  show ?thesis
  proof (cases acked)
    case None
    then show ?thesis
      unfolding submit_returned_def None option.case wp_andthen
      using nf
      by (intro wp_update_order [OF assms(1)] wp_halt) (auto simp: settled_def order_at_def)
  next
    case (Some a)
    show ?thesis
    proof (cases "ak_status a = AckRejected")
      case True
      show ?thesis
        unfolding submit_returned_def Some option.case if_P [OF True] wp_andthen wp_rupd
        by (rule wp_update_order [OF assms(1)], simp, simp, rule wp_order_quiet [OF quiet_ralert total_ops(1)],
            assumption, rule wp_set_state) (simp add: settled_def order_at_def)
    next
      case False
      show ?thesis
        unfolding submit_returned_def Some option.case if_not_P [OF False]
        by (rule wp_update_order [OF assms(1)]) (use assms in \<open>auto simp: terminal_status_def settled_def\<close>)
    qed
  qed
qed

lemma wp_attempt_send:
  fixes w :: "('x, 's) renv"
  assumes "order_at cid w = Some row" "or_status row = Submitting"
    and "rt_state (re_rt w) = pending_of i" "rt_pending_cid (re_rt w) = Some cid"
  shows "wp (attempt_send X cid prior i req sz) (\<lambda>_ w'. settled cid prior i w' \<or> errored cid w')
    (\<lambda>_. errored cid) w"
proof -
  have nf: "\<not> frozen (rt_state (re_rt w))" using assms(3) by (simp add: frozen_def pending_of_def)
  have q: "quiet (submit_with_recovery X req sz)" for req and sz :: dec
    unfolding submit_with_recovery_def by (rule quiet_submit_attempts)
  show ?thesis
    unfolding attempt_send_def wp_bind wp_attempt wp_ret
  proof (rule wp_quiet [OF q], goal_cases)
    case (1 a v)
    show ?case
      unfolding sum.case
      by (rule wp_mono [OF wp_submit_returned [of cid v row]]) (use 1 assms in \<open>simp_all add: order_at_def\<close>)
  next
    case (2 e v)
    show ?case
      unfolding sum.case
      by (rule wp_mono [OF wp_submit_failed [of cid v row]]) (use 2 assms nf in \<open>simp_all add: order_at_def\<close>)
  qed
qed

lemmas eff_defs = bind_def andthen_def get_def getr_def upd_def lift_def ret_def raise_def focus_def
  rget_def rupd_def rclock_def rdb_def rread_def rio_def io_now_def io_store_def io_exec_def io_emit_def

lemma wp_record:
  assumes "\<And>w'. re_rt w' = (re_rt w)\<lparr>rt_dseq := rt_dseq (re_rt w) + 1\<rparr> \<Longrightarrow> orders w' = orders w \<Longrightarrow> Q () w'"
    and "\<And>e w'. re_rt w' = (re_rt w)\<lparr>rt_dseq := rt_dseq (re_rt w) + 1\<rparr> \<Longrightarrow> orders w' = orders w \<Longrightarrow> E e w'"
  shows "wp (record_decision t v i c n) Q E w"
  by (auto simp: record_decision_def eff_defs insert_decision_def wp_def orders_def intro!: assms)

definition next_cid :: "'s router \<Rightarrow> string" where
  "next_cid r = cid_of (r\<lparr>rt_seq := rt_seq r + 1\<rparr>)"

lemma wp_place_order:
  fixes w :: "('x, 's) renv"
  shows "wp (place_order X r0 i now)
    (\<lambda>_ w'. settled (cid_of r0) (rt_state r0) i w' \<or> errored (cid_of r0) w') (\<lambda>_. errored (cid_of r0)) w"
  unfolding place_order_def wp_andthen wp_bind
proof (rule wp_rdb_order, unfold wp_rupd, rule wp_set_state, unfold wp_rget, goal_cases)
  case (1 v1 v2)
  have "\<exists>row. order_at (cid_of r0) v1 = Some row \<and> or_status row = Submitting"
    using 1(2) by (auto simp: new_order_row_def merge_order_def split: option.splits)
  then obtain row where row: "order_at (cid_of r0) v1 = Some row" "or_status row = Submitting" by blast
  show ?case by (rule wp_attempt_send [of _ _ row]) (use 1 row in \<open>simp_all add: order_at_def\<close>)
qed

lemma wp_send:
  fixes w :: "('x, 's) renv"
  shows "wp (send X i t v)
    (\<lambda>_ w'. settled (next_cid (re_rt w)) (rt_state (re_rt w)) i w' \<or> errored (next_cid (re_rt w)) w')
    (\<lambda>_ w'. rt_state (re_rt w') = rt_state (re_rt w) \<or> errored (next_cid (re_rt w)) w') w"
  unfolding send_def wp_andthen wp_rupd wp_bind wp_rget
proof (rule wp_record, goal_cases)
  case (1 v)
  show ?case
    by (rule wp_quiet_total, intro quiet_intros, intro quiet_intros, rule wp_mono [OF wp_place_order])
      (simp_all add: next_cid_def)
qed simp

section \<open>Every step keeps a frozen router frozen\<close>

lemma replace_stop_state: "keeps (in_state A) (replace_stop X)"
  unfolding replace_stop_def
  by (auto intro!: keeps_intros in_state_rupd in_state_read split: option.split)

lemma apply_fill_state: "keeps (in_state A) (apply_fill ev)"
  unfolding apply_fill_def
  by (auto intro!: keeps_intros in_state_rupd in_state_read split: prod.split)

lemma halt_frozen: "frozen s0 \<Longrightarrow> keeps (in_state (\<lambda>s. s = s0)) (halt reason)"
  unfolding halt_def
  by (auto intro!: keeps_intros in_state_rupd in_state_read_state)

lemma order_update_frozen: "frozen s0 \<Longrightarrow> keeps (in_state (\<lambda>s. s = s0)) (order_update_event ev)"
  unfolding order_update_event_def
  by (auto intro!: keeps_intros in_state_rupd in_state_read split: option.split)

lemma late_fill_frozen: "frozen s0 \<Longrightarrow> keeps (in_state (\<lambda>s. s = s0)) (late_fill X row ev)"
  unfolding late_fill_def by (auto intro!: keeps_intros adopt_and_settle_frozen)

lemma flattened_frozen: "frozen s0 \<Longrightarrow> keeps (in_state (\<lambda>s. s = s0)) (flattened_by_fill X ours ev)"
  unfolding flattened_by_fill_def Let_def
  by (auto intro!: keeps_intros in_state_rupd in_state_read)

lemma after_fill_frozen: "frozen s0 \<Longrightarrow> keeps (in_state (\<lambda>s. s = s0)) (after_fill X ours sz ev)"
  unfolding after_fill_def
  by (rule in_state_read)
    (auto intro!: keeps_intros flattened_frozen replace_stop_state in_state_rupd simp: frozen_def)

lemma fill_event_frozen: "frozen s0 \<Longrightarrow> keeps (in_state (\<lambda>s. s = s0)) (fill_event X ev)"
  unfolding fill_event_def
  by (auto intro!: keeps_intros late_fill_frozen after_fill_frozen apply_fill_state in_state_read split: option.split)

lemma handle_event_frozen: "frozen s0 \<Longrightarrow> keeps (in_state (\<lambda>s. s = s0)) (handle_event X ev)"
  unfolding handle_event_def
  by (auto intro!: keeps_intros fill_event_frozen order_update_frozen split: event.split)

lemma check_pending_frozen: "frozen s0 \<Longrightarrow> keeps (in_state (\<lambda>s. s = s0)) (check_pending X sn)"
  unfolding check_pending_def
  by (rule in_state_read) (auto intro!: keeps_intros simp: frozen_def pending_state_def split: option.split)

lemma on_bar_frozen: "frozen s0 \<Longrightarrow> keeps (in_state (\<lambda>s. s = s0)) (router_on_bar X h sn kill pending)"
  unfolding router_on_bar_def skip_def by (rule in_state_read) (auto intro!: keeps_intros)

lemma on_fast_frozen: "frozen s0 \<Longrightarrow> keeps (in_state (\<lambda>s. s = s0)) (router_on_fast X mark sn)"
  unfolding router_on_fast_def by (rule in_state_read) (auto intro!: keeps_intros simp: frozen_def)

lemma wp_exit_position:
  fixes w :: "('x, 's) renv"
  shows "wp (exit_position X mark reason t szo) (\<lambda>_ _. True)
    (\<lambda>_ w'. rt_state (re_rt w') = rt_state (re_rt w) \<or> rt_state (re_rt w') = HALTED) w"
  unfolding exit_position_def wp_bind wp_rget wp_lift
  by (auto intro!: wp_mono [OF wp_send] simp: errored_def split: sum.split)

lemma wp_shutdown:
  fixes w :: "('x, 's) renv"
  shows "wp (shutdown X mark sz)
    (\<lambda>_. in_state (\<lambda>s. s = (if rt_state (re_rt w) = LIQUIDATED then LIQUIDATED else HALTED)))
    (\<lambda>_ w'. rt_state (re_rt w') = rt_state (re_rt w)
      \<or> rt_state (re_rt w) \<noteq> LIQUIDATED \<and> rt_state (re_rt w') = HALTED) w"
proof -
  let ?s = "if rt_state (re_rt w) = LIQUIDATED then LIQUIDATED else HALTED"
  have halted: "wp (set_state HALTED) (\<lambda>_. in_state (\<lambda>s. s = HALTED)) E v" for E and v :: "('x, 's) renv"
    by (rule wp_set_state) (simp add: in_state_def)
  have "wp (andthen (ret ()) (set_state HALTED)) (\<lambda>_. in_state (\<lambda>s. s = HALTED)) E v"
    "wp (andthen (ralert lv k d) (set_state HALTED)) (\<lambda>_. in_state (\<lambda>s. s = HALTED)) E v"
    for lv k d E and v :: "('x, 's) renv"
    unfolding wp_andthen wp_ret by (auto intro: halted wp_quiet_total [OF quiet_ralert total_ops(1)])
  note last = this
  show ?thesis
    unfolding shutdown_def wp_bind wp_rget Let_def wp_if wp_ret wp_andthen [of "if _ \<and> _ then _ else _"]
    by (auto intro!: last wp_mono [OF wp_exit_position] simp: in_state_def)
qed

lemma shutdown_frozen: "frozen s0 \<Longrightarrow> keeps (in_state (\<lambda>s. s = s0)) (shutdown X mark sz)"
  unfolding keeps_wp
  by (intro allI impI, rule wp_mono [OF wp_shutdown]) (auto simp: in_state_def frozen_def split: if_splits)

section \<open>The state machine of a router\<close>

text \<open>
  Every call the portfolio can make on a router, and the relation of the worlds a sequence of them
  reaches; between two calls the outside (database, venue, clock, alerts) may change in any way.
  \<open>clear_halt\<close>, \<open>load_local\<close> and \<open>adopt_pending\<close> are not calls of the running bot: an operator or the
  recovery makes them.
\<close>

datatype router_call =
    OnBar "bar list" account_snapshot action "intent list"
  | OnFast dec account_snapshot
  | OnEvent event
  | CheckPending account_snapshot
  | Halt text_t
  | ShutDown dec "dec option"
  | ReplaceStop

fun run_call :: "'x exec_ops \<Rightarrow> router_call \<Rightarrow> ('x, 's, unit) rop" where
  "run_call X (OnBar h sn kill pending) = router_on_bar X h sn kill pending"
| "run_call X (OnFast mark sn) = router_on_fast X mark sn"
| "run_call X (OnEvent ev) = handle_event X ev"
| "run_call X (CheckPending sn) = check_pending X sn"
| "run_call X (Halt reason) = halt reason"
| "run_call X (ShutDown mark sz) = shutdown X mark sz"
| "run_call X ReplaceStop = replace_stop X"

inductive reaches :: "'x exec_ops \<Rightarrow> ('x, 's) renv \<Rightarrow> ('x, 's) renv \<Rightarrow> bool" for X where
  start: "reaches X w w"
| call: "reaches X w v \<Longrightarrow> run_call X c v = (r, v') \<Longrightarrow> reaches X w v'"
| outside: "reaches X w v \<Longrightarrow> reaches X w (v\<lparr>re_io := i\<rparr>)"

lemma run_call_frozen: "frozen s0 \<Longrightarrow> keeps (in_state (\<lambda>s. s = s0)) (run_call X c)"
  by (cases c) (simp_all add: on_bar_frozen on_fast_frozen handle_event_frozen check_pending_frozen
    halt_frozen shutdown_frozen replace_stop_state)

text \<open>
  HALTED and LIQUIDATED are absorbing: whatever bars, marks, fills, order updates, timeouts, halts
  and shutdowns reach a frozen router, with any executor and whether or not calls raise, it stays in
  exactly that state until an operator clears it.
\<close>

theorem frozen_until_cleared:
  assumes "reaches X w w'" "frozen (rt_state (re_rt w))"
  shows "rt_state (re_rt w') = rt_state (re_rt w)"
  using assms
proof (induction rule: reaches.induct)
  case (call w v c r v')
  then show ?case using keepsD [OF run_call_frozen [of "rt_state (re_rt w)" X c], of v]
    by (simp add: in_state_def)
qed simp_all

text \<open>A concrete world to evaluate the properties in: the paper executor, an empty database.\<close>

definition sample_clock :: "nat \<Rightarrow> time" where "sample_clock n = int n * 1000000"

definition sample_sim :: sim where
  "sample_sim = (sim_init 1000 0 0 0 100 sample_clock False)\<lparr>sx_marks := [(6, 100)]\<rparr>"

definition sample_io :: "sim io" where
  "sample_io = \<lparr>io_db = empty_db, io_ex = sample_sim, io_alerts = [], io_clock = sample_clock, io_reads = 0\<rparr>"

definition sample_env :: "rstate \<Rightarrow> (sim, unit) renv" where
  "sample_env st = \<lparr>re_rt = sample_router\<lparr>rt_state := st\<rparr>, re_io = sample_io\<rparr>"

lemma frozen_until_cleared_witness:
  "rt_state (re_rt (snd (run_call sim_ops (ShutDown 100 (Some 2)) (sample_env HALTED)))) = HALTED"
proof -
  have "reaches sim_ops (sample_env HALTED) (snd (run_call sim_ops (ShutDown 100 (Some 2)) (sample_env HALTED)))"
    by (rule reaches.call [OF reaches.start]) (rule prod.collapse [symmetric])
  from frozen_until_cleared [OF this] show ?thesis by (simp add: sample_env_def frozen_def)
qed

end
