(* ===== verification/Router_Machine.thy ===== *)
theory Router_Machine
  imports Router_Laws
begin

text \<open>
  The state machine that \<open>polyperps/execution/order_router.py\<close> promises, as a relation on the six states alone, and
  the proof that every call of a router is one of its moves.
\<close>

section \<open>The abstract machine\<close>

text \<open>What moves a router: a closed bar, a mark of the fast loop, a report of the venue, an order to stop.\<close>

datatype trigger = Bar_Closed | Mark_Seen | Report | Stop_Order | Upkeep

text \<open>
  FLAT, ENTRY_PENDING, OPEN, EXIT_PENDING, FLAT is the life of a position. A bar alone opens, and only from FLAT; bars
  and marks close, and only from OPEN; only the venue's reports end a pending state. Everything that is not frozen
  can be halted; what is frozen stays.
\<close>

inductive moves :: "trigger \<Rightarrow> rstate \<Rightarrow> rstate \<Rightarrow> bool" where
  stay: "moves t s s"
| enter: "moves Bar_Closed FLAT ENTRY_PENDING"
| leave_bar: "moves Bar_Closed OPEN EXIT_PENDING"
| leave_mark: "moves Mark_Seen OPEN EXIT_PENDING"
| liquidated: "moves Mark_Seen OPEN LIQUIDATED"
| settle: "\<not> frozen s \<Longrightarrow> s' = FLAT \<or> s' = OPEN \<Longrightarrow> moves Report s s'"
| halt_bar: "s = FLAT \<or> s = OPEN \<Longrightarrow> moves Bar_Closed s HALTED"
| halt_mark: "moves Mark_Seen OPEN HALTED"
| halt_order: "\<not> frozen s \<Longrightarrow> moves Stop_Order s HALTED"

code_pred moves .

inductive_simps moves_to_entry: "moves t s ENTRY_PENDING"
inductive_simps moves_to_exit: "moves t s EXIT_PENDING"
inductive_simps moves_to_liquidated: "moves t s LIQUIDATED"
inductive_simps moves_upkeep: "moves Upkeep s s'"
inductive_cases moves_frozenE: "moves t s s'"

lemma moves_settled: "\<not> frozen s \<Longrightarrow> moves Report s (settled_state q)"
  by (auto simp: settled_state_def intro: moves.settle)

lemma settle_flat: "\<not> frozen s \<Longrightarrow> moves Report s FLAT" "\<not> frozen s \<Longrightarrow> moves Report s OPEN"
  by (auto intro: moves.settle)

lemmas moves_intros = moves.intros(1-5,7-) moves_settled settle_flat

text \<open>
  Only a flat router is about to enter, only an open one about to leave or liquidated; frozen states have no way out.
\<close>

lemma only_flat_enters: "moves t s ENTRY_PENDING \<Longrightarrow> s = FLAT \<and> t = Bar_Closed \<or> s = ENTRY_PENDING"
  by (auto simp: moves_to_entry)

lemma only_open_leaves: "moves t s EXIT_PENDING \<Longrightarrow> s = OPEN \<or> s = EXIT_PENDING"
  by (auto simp: moves_to_exit)

lemma only_open_is_liquidated: "moves t s LIQUIDATED \<Longrightarrow> s = OPEN \<and> t = Mark_Seen \<or> s = LIQUIDATED"
  by (auto simp: moves_to_liquidated)

lemma moves_frozen: "moves t s s' \<Longrightarrow> frozen s \<Longrightarrow> s' = s"
  by (erule moves_frozenE) (auto simp: frozen_def)

fun trigger_of :: "router_call \<Rightarrow> trigger" where
  "trigger_of (OnBar h sn kill pending) = Bar_Closed"
| "trigger_of (OnFast mark sn) = Mark_Seen"
| "trigger_of (OnEvent ev) = Report"
| "trigger_of (CheckPending sn) = Report"
| "trigger_of (Halt reason) = Stop_Order"
| "trigger_of (ShutDown mark sz) = Stop_Order"
| "trigger_of ReplaceStop = Upkeep"

section \<open>Where a step can land\<close>

definition lands :: "(rstate \<Rightarrow> bool) \<Rightarrow> rstate \<Rightarrow> ('x, 's, 'a) rop \<Rightarrow> bool" where
  "lands A s m \<longleftrightarrow> (\<forall>w. rt_state (re_rt w) = s \<longrightarrow> wp m (\<lambda>_. in_state A) (\<lambda>_. in_state A) w)"

named_theorems lands_intros "steps whose end state is known"

lemma lands_keeps: "keeps (in_state ((=) s)) m \<Longrightarrow> A s \<Longrightarrow> lands A s m"
  unfolding lands_def by (auto simp: in_state_def keeps_wp intro: wp_mono)

lemma lands_ret [lands_intros]: "A s \<Longrightarrow> lands A s (ret a)"
  by (rule lands_keeps) (rule keeps_intros)

lemma lands_if [lands_intros]: "(c \<Longrightarrow> lands A s m) \<Longrightarrow> (\<not> c \<Longrightarrow> lands A s n) \<Longrightarrow> lands A s (if c then m else n)"
  by simp

lemma lands_option [lands_intros]:
  "(x = None \<Longrightarrow> lands A s m) \<Longrightarrow> (\<And>a. x = Some a \<Longrightarrow> lands A s (f a)) \<Longrightarrow>
   lands A s (case x of None \<Rightarrow> m | Some a \<Rightarrow> f a)"
  by (simp split: option.split)

lemma lands_read: "(\<And>r. rt_state r = s \<Longrightarrow> lands A s (f r)) \<Longrightarrow> lands A s (bind (rget id) f)"
  by (auto simp: lands_def wp_simps)

lemma lands_read_state: "lands A s (f s) \<Longrightarrow> lands A s (bind (rget rt_state) f)"
  by (auto simp: lands_def wp_simps)

lemma lands_lift: "(\<And>a. x = Inr a \<Longrightarrow> lands A s (f a)) \<Longrightarrow> A s \<Longrightarrow> lands A s (bind (lift x) f)"
  by (auto simp: lands_def wp_simps in_state_def split: sum.split)

text \<open>First a step that leaves the state, then the rest.\<close>

lemma lands_bind:
  fixes m :: "('x, 's, 'a) rop"
  assumes "keeps (in_state ((=) s)) m" "A s" "\<And>a. lands A s (f a)"
  shows "lands A s (bind m f)"
  unfolding lands_def wp_bind
proof (intro allI impI)
  fix w :: "('x, 's) renv" assume s: "rt_state (re_rt w) = s"
  have "wp m (\<lambda>_. in_state ((=) s)) (\<lambda>_. in_state ((=) s)) w" by (rule keeps_wpD [OF assms(1)]) (simp add: in_state_def s)
  then show "wp m (\<lambda>a. wp (f a) (\<lambda>_. in_state A) (\<lambda>_. in_state A)) (\<lambda>_. in_state A) w"
    by (rule wp_mono) (use assms(2,3) in \<open>auto simp: in_state_def lands_def\<close>)
qed

lemma lands_andthen: "keeps (in_state ((=) s)) m \<Longrightarrow> A s \<Longrightarrow> lands A s n \<Longrightarrow> lands A s (andthen m n)"
  unfolding andthen_def by (rule lands_bind)

text \<open>First the step that moves, then steps that leave every state.\<close>

lemma lands_then: "lands A s m \<Longrightarrow> keeps (in_state A) n \<Longrightarrow> lands A s (andthen m n)"
  unfolding lands_def wp_andthen by (intro allI impI, rule wp_mono [of m "\<lambda>_. in_state A" "\<lambda>_. in_state A"]) (auto intro: keeps_wpD)

lemma lands_set: "A s' \<Longrightarrow> lands A s (set_state s')"
  by (auto simp: lands_def in_state_def intro: wp_set_state)

lemma lands_send: "A s \<Longrightarrow> A HALTED \<Longrightarrow> A (pending_of i) \<Longrightarrow> lands A s (send X i t v)"
  by (auto simp: lands_def in_state_def settled_def errored_def intro!: wp_mono [OF wp_send])

lemma lands_exit: "A s \<Longrightarrow> A HALTED \<Longrightarrow> A EXIT_PENDING \<Longrightarrow> lands A s (exit_position X mark reason t sz)"
  unfolding exit_position_def
  by (rule lands_read, rule lands_lift, rule lands_send) (auto simp: exit_intent_def pending_of_def)

lemma lands_shutdown: "A s \<Longrightarrow> s \<noteq> LIQUIDATED \<Longrightarrow> A HALTED \<Longrightarrow> lands A s (shutdown X mark sz)"
  by (auto simp: lands_def in_state_def intro!: wp_mono [OF wp_shutdown])

lemma lands_skip: "A s \<Longrightarrow> lands A s (skip t note)"
  by (rule lands_keeps) (auto simp: skip_def intro: keeps_intros)

section \<open>Every call is a move\<close>

lemma lands_enter: "A FLAT \<Longrightarrow> A HALTED \<Longrightarrow> A ENTRY_PENDING \<Longrightarrow> lands A FLAT (enter X t mark sn pending)"
  unfolding enter_def
proof (rule lands_read, rule lands_lift, rule lands_lift, goal_cases)
  case (1 r i gl)
  have "\<not> it_reduce_only j" if "fst gl = Some j" for j
    using 1 that by (cases gl) (auto simp: guarded_def entry_intent_def dest: apply_guards_Some(4))
  with 1 show ?case
    by (auto simp: pending_of_def intro: lands_send lands_keeps keeps_intros split: prod.split option.split)
qed

lemma lands_on_target:
  assumes "s = FLAT \<or> s = OPEN"
  shows "lands (moves Bar_Closed s) s (on_target X t mark sn kill pending)"
  unfolding on_target_def Let_def using assms
  by (auto intro!: lands_read lands_if lands_skip lands_enter lands_exit intro: moves_intros)

lemma on_bar_moves: "lands (moves Bar_Closed s) s (router_on_bar X h sn kill pending)"
proof (cases "s = FLAT \<or> s = OPEN")
  case True
  then show ?thesis
    unfolding router_on_bar_def
    by (auto intro!: lands_read lands_if lands_lift lands_option lands_skip lands_shutdown lands_exit
        lands_bind lands_on_target in_state_keeps intro: moves_intros)
next
  case False
  then have "frozen s \<or> pending_state s" by (cases s) (simp_all add: frozen_def pending_state_def)
  then show ?thesis unfolding router_on_bar_def by (auto intro!: lands_read lands_skip intro: moves_intros)
qed

lemma margin_check_state: "keeps (in_state A) (margin_check p mark)"
  unfolding margin_check_def Let_def
  by (auto intro!: keeps_intros in_state_rupd in_state_read split: option.split)

lemma on_fast_moves: "lands (moves Mark_Seen s) s (router_on_fast X mark sn)"
  unfolding router_on_fast_def
  by (rule lands_read)
    (auto intro!: lands_if lands_ret lands_option lands_andthen lands_set lands_lift lands_exit margin_check_state
      in_state_keeps intro: moves_intros)

lemma adopt_and_settle_moves: "lands (moves Report s) s (adopt_and_settle X sn)"
  unfolding adopt_and_settle_def
  by (rule lands_andthen [OF adopt_keeps_state moves.stay], rule lands_then,
      auto intro!: lands_read lands_if lands_ret lands_set keeps_intros intro: moves_intros)

lemma order_update_moves: "lands (moves Report s) s (order_update_event ev)"
  unfolding order_update_event_def
  by (rule lands_read)
    (auto intro!: lands_if lands_andthen lands_ret lands_set lands_bind lands_option in_state_keeps in_state_rupd
      lands_keeps [where m = "update_order _ _ _"] intro: moves_intros)

lemma late_fill_moves: "lands (moves Report s) s (late_fill X row ev)"
  unfolding late_fill_def
  by (rule lands_read_state, (rule lands_andthen [OF _ moves.stay], rule in_state_keeps)+,
      rule lands_bind [OF _ moves.stay], rule in_state_keeps, rule adopt_and_settle_moves)

lemma flattened_moves: "lands (moves Report s) s (flattened_by_fill X ours ev)"
  unfolding flattened_by_fill_def Let_def
proof (rule lands_read, rule lands_andthen [OF in_state_rupd moves.stay], simp,
    rule lands_andthen [OF in_state_keeps(2) moves.stay], rule lands_then, goal_cases)
  case (1 r)
  then show ?case by (auto intro!: lands_if lands_keeps [where m = persist] in_state_keeps lands_set settle_flat intro: moves_intros)
next
  case (2 r)
  show ?case by (intro keeps_intros)
qed

lemma after_fill_moves: "lands (moves Report s) s (after_fill X ours sz ev)"
  unfolding after_fill_def
  by (rule lands_read)
    (auto intro!: lands_if lands_andthen lands_then [OF lands_set replace_stop_state] lands_ret flattened_moves settle_flat
      lands_keeps [OF replace_stop_state] in_state_keeps in_state_rupd intro: moves_intros simp: frozen_def)

lemma fill_event_moves: "lands (moves Report s) s (fill_event X ev)"
  unfolding fill_event_def
  by (rule lands_read)
    (auto intro!: lands_if lands_ret lands_bind lands_option lands_andthen late_fill_moves after_fill_moves apply_fill_state
      in_state_keeps intro: moves_intros)

lemma handle_event_moves: "lands (moves Report s) s (handle_event X ev)"
  unfolding handle_event_def
  by (auto intro!: order_update_moves fill_event_moves lands_keeps keeps_intros intro: moves_intros split: event.split)

lemma check_pending_moves: "lands (moves Report s) s (check_pending X sn)"
  unfolding check_pending_def
  by (rule lands_read)
    (auto intro!: lands_option lands_if lands_ret lands_bind lands_andthen adopt_and_settle_moves in_state_keeps
      keeps_intros intro: moves_intros split: option.split)

lemma halt_moves: "lands (moves Stop_Order s) s (halt reason)"
  unfolding halt_def
  by (rule lands_read_state)
    (auto intro!: lands_if lands_ret lands_andthen lands_set in_state_keeps in_state_rupd intro: moves_intros)

lemma shutdown_moves: "lands (moves Stop_Order s) s (shutdown X mark sz)"
proof (cases "frozen s")
  case True
  then have "keeps (in_state ((=) s)) (shutdown X mark sz)"
    by (subst eq_commute [abs_def]) (rule shutdown_frozen)
  then show ?thesis by (rule lands_keeps) (rule moves.stay)
next
  case False
  then show ?thesis by (intro lands_shutdown) (auto simp: frozen_def intro: moves_intros)
qed

lemma call_lands: "lands (moves (trigger_of c) s) s (run_call X c)"
  by (cases c)
    (auto intro: on_bar_moves on_fast_moves handle_event_moves check_pending_moves halt_moves shutdown_moves
      lands_keeps [OF replace_stop_state] moves_intros)

text \<open>
  C5. The router implements its state machine. Whatever the executor, the strategy and the stored rows do, and whether the
  call returns or raises, the state after a call is reached from the state before it by one move of the abstract
  machine for that kind of call.
\<close>

theorem router_implements_its_state_machine:
  "moves (trigger_of c) (rt_state (re_rt w)) (rt_state (re_rt (snd (run_call X c w))))"
  using call_lands [of c "rt_state (re_rt w)" X]
  by (cases "run_call X c w"; cases "fst (run_call X c w)") (auto simp: lands_def wp_def in_state_def)

end
