(* ===== verification/Router_Send.thy ===== *)
theory Router_Send
  imports Router_Laws
begin

text \<open>
  What leaves the router: the outcome of a send, the rows written before it, and how many orders a
  call can submit. Submissions are observed with an executor that logs every request it is given.
\<close>

section \<open>The outcome of a send\<close>

text \<open>
  The router has the size, the entry price and the funding the account shows for its instrument.
\<close>

definition adopted :: "account_snapshot \<Rightarrow> 's router \<Rightarrow> bool" where
  "adopted sn r \<longleftrightarrow> (case position_of sn (rt_iid r) of
     None \<Rightarrow> rt_size r = 0 \<and> rt_entry r = None \<and> rt_funding r = 0
   | Some p \<Rightarrow> rt_size r = pv_size p
       \<and> (if pv_size p = 0 then rt_entry r = None \<and> rt_funding r = 0
          else rt_entry r = Some (pv_entry p) \<and> rt_funding r = pv_funding p))"

lemma adopted_stop [simp]:
  "adopted sn (rt_stop_update f r) = adopted sn r"
  by (simp add: adopted_def split: option.split)

lemma adopted_intros:
  "position_of sn (rt_iid r) = None \<or> position_of sn (rt_iid r) = Some p \<and> pv_size p = 0 \<Longrightarrow>
   adopted sn (r\<lparr>rt_size := 0, rt_entry := None, rt_stop := None, rt_funding := 0\<rparr>)"
  "position_of sn (rt_iid r) = Some p \<Longrightarrow> pv_size p \<noteq> 0 \<Longrightarrow>
   adopted sn (r\<lparr>rt_size := pv_size p, rt_entry := Some (pv_entry p), rt_funding := pv_funding p\<rparr>)"
  by (auto simp: adopted_def)

lemma keeps_adopted: "keeps (\<lambda>w. adopted sn (re_rt w)) persist"
  "keeps (\<lambda>w. adopted sn (re_rt w)) (rupd (rt_stop_update f))"
  "keeps (\<lambda>w. adopted sn (re_rt w)) (rexec m)" "keeps (\<lambda>w. adopted sn (re_rt w)) (ralert lv k d)"
  by (rule keeps_persist keeps_rt keeps_ralert) (rule keeps_rupd keeps_rt keeps_ralert; simp)+

lemma wp_adopts:
  "wp (adopt X sn) (\<lambda>_ w'. adopted sn (re_rt w')) (\<lambda>_ w'. adopted sn (re_rt w')) w"
proof -
  let ?A = "\<lambda>w'. adopted sn (re_rt w')"
  have k: "wp m (\<lambda>_. ?A) (\<lambda>_. ?A) v" if "keeps ?A m" "?A v" for m :: "('a, 'b, 'c) rop" and v
    using that by (rule keeps_wpD)
  have p: "wp m (\<lambda>_. wp persist (\<lambda>_. ?A) (\<lambda>_. ?A)) (\<lambda>_. ?A) v"
    if "keeps ?A m" "?A v" for m :: "('a, 'b, 'c) rop" and v
    by (rule wp_mono [OF k [OF that]]) (auto intro: k keeps_adopted)
  show ?thesis
    unfolding adopt_def wp_andthen wp_rupd wp_bind wp_rget
    by (auto simp: wp_andthen wp_rupd split: option.split
        intro!: k keeps_adopted p keeps_intros adopted_intros)
qed

text \<open>An executor state that a submit of the send that starts in \<open>w\<close> leaves when it raises.\<close>

definition submit_raised :: "'x exec_ops \<Rightarrow> ('x, 's) renv \<Rightarrow> 'x \<Rightarrow> bool" where
  "submit_raised X w x \<longleftrightarrow> (\<exists>req sz e (v :: ('x, 's) renv) v'. submit_with_recovery X req sz v = (Inl e, v')
     \<and> rq_cid req = next_cid (re_rt w) \<and> io_ex (re_io v) = io_ex (re_io w) \<and> io_ex (re_io v') = x)"

text \<open>
  What a send whose submit raised leaves, apart from the errored row and the halt: the account is read
  once more, in the executor state the submit left, and the router has what the account shows. Only a
  reading that raises itself, which then ends the call, leaves the router without it.
\<close>

definition venue_adopted :: "'x exec_ops \<Rightarrow> ('x, 's) renv \<Rightarrow> ('x, 's) renv \<Rightarrow> bool" where
  "venue_adopted X w w' \<longleftrightarrow> (\<exists>x sn y. submit_raised X w x \<and> xo_snapshot X x = (Inr sn, y) \<and> adopted sn (re_rt w'))"

definition venue_unread :: "'x exec_ops \<Rightarrow> ('x, 's) renv \<Rightarrow> bool" where
  "venue_unread X w \<longleftrightarrow> (\<exists>x e y. submit_raised X w x \<and> xo_snapshot X x = (Inl e, y))"

lemma keeps_executor [keeps_intros]:
  "keeps (\<lambda>w. io_ex (re_io w) = x) (rget f)" "keeps (\<lambda>w. io_ex (re_io w) = x) (rupd u)"
  "keeps (\<lambda>w. io_ex (re_io w) = x) rclock" "keeps (\<lambda>w. io_ex (re_io w) = x) (rdb g)"
  "keeps (\<lambda>w. io_ex (re_io w) = x) (rread h)" "keeps (\<lambda>w. io_ex (re_io w) = x) (ralert lv k d)"
  by (simp_all add: keeps_def ralert_def eff_defs)

lemma keeps_executor_steps [keeps_intros]:
  "keeps (\<lambda>w. io_ex (re_io w) = x) persist" "keeps (\<lambda>w. io_ex (re_io w) = x) (update_order cid b f)"
  "keeps (\<lambda>w. io_ex (re_io w) = x) (halt reason)"
  unfolding persist_def update_order_def halt_def set_state_def by (intro keeps_intros)+

lemma wp_submit_failed_adopts:
  assumes "submit_raised X w (io_ex (re_io v))"
  shows "wp (submit_failed X cid e) (\<lambda>_. venue_adopted X w)
    (\<lambda>_ w'. venue_adopted X w w' \<or> venue_unread X w) v"
proof -
  let ?E = "\<lambda>w'. io_ex (re_io w') = io_ex (re_io v)"
  have k: "wp m Q E u" if "keeps ?E m" "?E u" "\<And>a u'. ?E u' \<Longrightarrow> Q a u'" "total m"
    for m :: "('a, 'b, unit) rop" and Q E u
    using keepsD [OF that(1,2)] that(3,4) by (auto simp: total_def wp_iff) (metis prod.inject sum.distinct(1) snd_conv)+
  have s: "wp (bind (rexec (xo_snapshot X)) (adopt X)) (\<lambda>_. venue_adopted X w)
      (\<lambda>_ w'. venue_adopted X w w' \<or> venue_unread X w) u" if u: "?E u" for u
  proof (cases "xo_snapshot X (io_ex (re_io u))")
    case (Pair r y)
    show ?thesis
    proof (cases r)
      case (Inl e')
      then have "venue_unread X w" using assms Pair u by (auto simp: venue_unread_def)
      then show ?thesis
        using Pair Inl by (simp add: wp_def bind_def rexec_def rio_def io_exec_def focus_def)
    next
      case (Inr sn)
      have "venue_adopted X w u'" if "adopted sn (re_rt u')" for u'
        using that assms Pair u Inr by (auto simp: venue_adopted_def)
      then have "wp (adopt X sn) (\<lambda>_. venue_adopted X w) (\<lambda>_ w'. venue_adopted X w w' \<or> venue_unread X w) u'" for u'
        by (intro wp_mono [OF wp_adopts]) auto
      then show ?thesis
        using Pair Inr by (simp add: wp_def bind_def rexec_def rio_def io_exec_def focus_def)
    qed
  qed
  show ?thesis
    unfolding submit_failed_def Let_def wp_andthen
    by (intro k keeps_intros total_ops total_halt s) auto
qed

text \<open>How a send reaches the submit: the decision row that cannot be written ends it before.\<close>

lemma send_reaches_submit:
  fixes w :: "('x, 's) renv"
  obtains (unwritten) e w1 where "send X i t v w = (Inl e, w1)" "rt_state (re_rt w1) = rt_state (re_rt w)"
  | (submits) w1 req sz row where
      "send X i t v w = attempt_send X (next_cid (re_rt w)) (rt_state (re_rt w)) i req sz w1"
      "io_ex (re_io w1) = io_ex (re_io w)" "rq_cid req = next_cid (re_rt w)"
      "order_at (next_cid (re_rt w)) w1 = Some row" "or_status row = Submitting"
      "rt_state (re_rt w1) = pending_of i" "rt_pending_cid (re_rt w1) = Some (next_cid (re_rt w))"
      "rt_pending_intent (re_rt w1) = Some i"
proof -
  let ?r = "(re_rt w)\<lparr>rt_seq := rt_seq (re_rt w) + 1\<rparr>"
  have o1: "\<exists>row. find (\<lambda>r. or_cid r = cid_of ?r) (upsert or_cid merge_order (new_order_row ?r (cid_of ?r) i now) rows) = Some row
      \<and> or_status row = Submitting" for now rows
    using find_upsert_same [of or_cid merge_order "new_order_row ?r (cid_of ?r) i now" rows]
    by (auto simp: new_order_row_def merge_order_def split: option.splits)
  have "(\<exists>e w1. send X i t v w = (Inl e, w1) \<and> rt_state (re_rt w1) = rt_state (re_rt w)) \<or>
    (\<exists>w1 req sz. send X i t v w = attempt_send X (next_cid (re_rt w)) (rt_state (re_rt w)) i req sz w1
      \<and> io_ex (re_io w1) = io_ex (re_io w) \<and> rq_cid req = next_cid (re_rt w)
      \<and> (\<exists>row. order_at (next_cid (re_rt w)) w1 = Some row \<and> or_status row = Submitting)
      \<and> rt_state (re_rt w1) = pending_of i \<and> rt_pending_cid (re_rt w1) = Some (next_cid (re_rt w))
      \<and> rt_pending_intent (re_rt w1) = Some i)"
    apply (simp add: send_def place_order_def record_decision_def eff_defs insert_decision_def set_state_def
        persist_def next_cid_def split: if_split)
    apply (intro impI disjI2)
    apply (rule exI, rule exI, rule conjI, rule exI, rule refl)
    apply (simp add: request_of_def order_at_def orders_def upsert_order_def upsert_position_local_def o1)
    done
  then show thesis using unwritten submits by blast
qed

lemma attempt_send_cases:
  fixes w :: "('x, 's) renv"
  obtains (raised) e v where "submit_with_recovery X req sz w = (Inl e, v)"
      "attempt_send X cid prior i req sz w = submit_failed X cid e v"
      "re_rt v = re_rt w" "orders v = orders w"
  | (answered) acked v where "attempt_send X cid prior i req sz w = submit_returned cid prior i acked v"
      "re_rt v = re_rt w" "orders v = orders w"
proof (cases "submit_with_recovery X req sz w")
  case (Pair r v)
  have "quiet (submit_with_recovery X req sz :: ('x, 's, _) rop)"
    unfolding submit_with_recovery_def by (rule quiet_submit_attempts)
  then have q: "re_rt v = re_rt w" "orders v = orders w" using Pair by (auto simp: quiet_def dest: spec [of _ w])
  show thesis
    by (cases r) (use Pair q in \<open>auto simp: attempt_send_def bind_def attempt_def ret_def intro: raised answered\<close>)
qed

text \<open>
  C11. A send ends in one of four ways, each with its order row, router state and pending id in step:
  accepted (pending), rejected (the state before the send), lost after timeout and retry (HALTED), or
  errored / refused (HALTED). A call that returns from the last has read the account again in the executor
  state the failed submit left, and the router has the size, entry price and funding that reading shows for
  its instrument. When a send raises, the state is the one before it or the router is halted with an errored
  row and, unless that reading itself raised, with the account's size; no send leaves a router pending
  without an accepted order.
\<close>

theorem send_outcome:
  "case send X i t v w of
     (Inr _, w') \<Rightarrow> settled (next_cid (re_rt w)) (rt_state (re_rt w)) i w'
       \<or> errored (next_cid (re_rt w)) w' \<and> venue_adopted X w w'
   | (Inl _, w') \<Rightarrow> rt_state (re_rt w') = rt_state (re_rt w)
       \<or> errored (next_cid (re_rt w)) w' \<and> (venue_adopted X w w' \<or> venue_unread X w)"
proof (cases rule: send_reaches_submit [of X i t v w])
  case (submits w1 req sz row)
  then have nf: "\<not> frozen (rt_state (re_rt w1))" by (simp add: frozen_def pending_of_def)
  show ?thesis
  proof (cases rule: attempt_send_cases [of X req sz w1 "next_cid (re_rt w)" "rt_state (re_rt w)" i])
    case (raised e u)
    then have "submit_raised X w (io_ex (re_io u))"
      using submits(2,3) unfolding submit_raised_def by blast
    then show ?thesis
      using wp_submit_failed [of "next_cid (re_rt w)" u row X e] wp_submit_failed_adopts [of X w u "next_cid (re_rt w)" e]
        raised submits nf
      by (auto simp: wp_def order_at_def split: prod.splits sum.splits)
  next
    case (answered acked u)
    then show ?thesis
      using wp_submit_returned [of "next_cid (re_rt w)" u row i "rt_state (re_rt w)" acked] submits
      by (auto simp: wp_def order_at_def split: prod.splits sum.splits)
  qed
qed simp

section \<open>Rows before side effects\<close>

definition local_row :: "('x, 's) renv \<Rightarrow> string \<Rightarrow> int \<Rightarrow> position_row option" where
  "local_row w run iid = find (\<lambda>p. position_key p = (run, iid)) (db_positions (io_db (re_io w)))"

lemma local_row_upsert:
  "find (\<lambda>p. position_key p = position_key row) (upsert position_key merge_position row rows) =
     Some (case find (\<lambda>p. position_key p = position_key row) rows of None \<Rightarrow> row | Some y \<Rightarrow> merge_position y row)"
  by (rule find_upsert_same) simp

lemma merge_position_row_of:
  "position_key y = position_key (row_of r now) \<Longrightarrow> merge_position y (row_of r now) = row_of r now"
  by (cases y) (simp add: merge_position_def row_of_def position_key_def)

lemma find_key: "find (\<lambda>p. f p = k) xs = Some y \<Longrightarrow> f y = k"
  by (auto simp: find_Some_iff)

lemma local_row_persist:
  "find (\<lambda>p. position_key p = (rt_run r, rt_iid r)) (upsert position_key merge_position (row_of r now) rows) = Some (row_of r now)"
proof -
  have k: "position_key (row_of r now) = (rt_run r, rt_iid r)" by (simp add: position_key_def row_of_def)
  show ?thesis
    using local_row_upsert [of "row_of r now" rows] find_key [of position_key "(rt_run r, rt_iid r)" rows]
    by (auto simp: k merge_position_row_of split: option.splits)
qed

text \<open>
  C12. Rows before side effects: before the executor sees the order, the decision row, the order row
  (status submitting) and the local position row (pending) are all stored under the order's client id and
  the executor is untouched. When the decision row cannot be written, the executor is never reached.
\<close>

theorem rows_before_side_effects:
  "(\<exists>e w1. send X i t v w = (Inl e, w1) \<and> exc_class e = IntegrityError \<and> io_ex (re_io w1) = io_ex (re_io w)) \<or>
   (\<exists>w1 req sz. send X i t v w =
        attempt_send X (next_cid (re_rt w)) (rt_state (re_rt w)) i req sz w1
      \<and> io_ex (re_io w1) = io_ex (re_io w) \<and> rq_cid req = next_cid (re_rt w)
      \<and> (\<exists>row. order_at (next_cid (re_rt w)) w1 = Some row \<and> or_status row = Submitting)
      \<and> (\<exists>d \<in> set (db_decisions (io_db (re_io w1))). dr_cid d = Some (next_cid (re_rt w)) \<and> dr_intent d = Some i)
      \<and> (\<exists>prow. local_row w1 (rt_run (re_rt w)) (rt_iid (re_rt w)) = Some prow \<and> pr_state prow = pending_of i))"
proof -
  let ?r = "(re_rt w)\<lparr>rt_seq := rt_seq (re_rt w) + 1\<rparr>"
  have o1: "\<exists>row. find (\<lambda>r. or_cid r = cid_of ?r) (upsert or_cid merge_order (new_order_row ?r (cid_of ?r) i now) rows) = Some row
      \<and> or_status row = Submitting" for now rows
    using find_upsert_same [of or_cid merge_order "new_order_row ?r (cid_of ?r) i now" rows]
    by (auto simp: new_order_row_def merge_order_def split: option.splits)
  have p1: "\<exists>prow. find (\<lambda>p. position_key p = (rt_run (re_rt w), rt_iid (re_rt w)))
      (upsert position_key merge_position (row_of r now) rows) = Some prow \<and> pr_state prow = st"
    if "rt_run r = rt_run (re_rt w)" "rt_iid r = rt_iid (re_rt w)" "rt_state r = st" for r :: "'b router" and st now rows
    using local_row_persist [of r now rows] that by (simp add: row_of_def)
  show ?thesis
    apply (simp add: send_def place_order_def record_decision_def eff_defs insert_decision_def set_state_def
        persist_def next_cid_def split: if_split)
    apply (intro impI disjI2)
    apply (rule exI, rule exI, rule conjI, rule exI, rule refl)
    apply (simp add: request_of_def order_at_def orders_def upsert_order_def upsert_position_local_def
        local_row_def o1)
    apply (rule p1, simp_all)
    done
qed

section \<open>How many orders a call submits\<close>

text \<open>An executor that keeps every request it is given, in order, before it acts on it.\<close>

definition on_inner :: "('x, 'a) eff \<Rightarrow> ('x \<times> order_request list, 'a) eff" where
  "on_inner m = focus fst (\<lambda>x s. (x, snd s)) m"

definition logged :: "'x exec_ops \<Rightarrow> ('x \<times> order_request list) exec_ops" where
  "logged X = \<lparr>xo_name = xo_name X,
     xo_submit = (\<lambda>req. andthen (upd (\<lambda>(x, l). (x, l @ [req]))) (on_inner (xo_submit X req))),
     xo_cancel = (\<lambda>cid. on_inner (xo_cancel X cid)),
     xo_place_stop = (\<lambda>k p. on_inner (xo_place_stop X k p)),
     xo_cancel_stop = (\<lambda>k. on_inner (xo_cancel_stop X k)),
     xo_heartbeat = on_inner (xo_heartbeat X), xo_snapshot = on_inner (xo_snapshot X),
     xo_on_tick = (\<lambda>t. on_inner (xo_on_tick X t)), xo_on_bar = (\<lambda>b. on_inner (xo_on_bar X b)),
     xo_poll_fills = on_inner (xo_poll_fills X)\<rparr>"

type_synonym ('x, 's) lenv = "('x \<times> order_request list, 's) renv"

definition submitted :: "('x, 's) lenv \<Rightarrow> order_request list" where
  "submitted w = snd (io_ex (re_io w))"

definition silent :: "('x \<times> order_request list, 's, 'a) rop \<Rightarrow> bool" where
  "silent m \<longleftrightarrow> (\<forall>w. submitted (snd (m w)) = submitted w)"

definition one_order :: "('x \<times> order_request list, 's, 'a) rop \<Rightarrow> bool" where
  "one_order m \<longleftrightarrow> (\<forall>w. \<exists>n req. n \<le> 2 \<and> submitted (snd (m w)) = submitted w @ replicate n req)"

lemma silentD: "silent m \<Longrightarrow> submitted (snd (m w)) = submitted w"
  by (simp add: silent_def)

lemma silent_one_order: "silent m \<Longrightarrow> one_order m"
  by (auto simp: silent_def one_order_def intro!: exI [of _ 0])

named_theorems silent_intros "steps that submit nothing"

lemma silent_keeps: "silent m \<longleftrightarrow> (\<forall>l. keeps (\<lambda>w. submitted w = l) m)"
  by (auto simp: silent_def keeps_def)

lemma silent_bind [silent_intros]: "silent m \<Longrightarrow> (\<And>a. silent (f a)) \<Longrightarrow> silent (bind m f)"
  by (auto simp: silent_keeps intro: keeps_bind)

lemma silent_andthen [silent_intros]: "silent m \<Longrightarrow> silent n \<Longrightarrow> silent (andthen m n)"
  by (auto simp: silent_keeps intro: keeps_andthen)

lemma silent_attempt [silent_intros]: "silent m \<Longrightarrow> (\<And>e. silent (h e)) \<Longrightarrow> silent (attempt m h)"
  by (auto simp: silent_keeps intro: keeps_attempt)

lemma silent_if [silent_intros]: "(c \<Longrightarrow> silent m) \<Longrightarrow> (\<not> c \<Longrightarrow> silent n) \<Longrightarrow> silent (if c then m else n)"
  by simp

lemma silent_case_option [silent_intros]:
  "(x = None \<Longrightarrow> silent m) \<Longrightarrow> (\<And>a. x = Some a \<Longrightarrow> silent (f a)) \<Longrightarrow>
   silent (case x of None \<Rightarrow> m | Some a \<Rightarrow> f a)"
  by (simp split: option.split)

lemma silent_prims [silent_intros]:
  "silent (ret a)" "silent (raise e)" "silent (rget f)" "silent (lift r)" "silent rclock"
  "silent (rread g)" "silent (rupd u)" "silent (rdb d)" "silent (rio (io_emit al))"
  "silent (rio (io_store st))"
  by (simp_all add: silent_def eff_defs submitted_def split: prod.split)

lemma silent_rstrat [silent_intros]: "silent (rstrat m)"
  by (simp add: silent_def rstrat_def eff_defs submitted_def split: prod.split)

lemma silent_inner: "silent (rexec (on_inner m))"
  by (simp add: silent_def on_inner_def rexec_def eff_defs submitted_def split: prod.split)

lemma silent_logged [silent_intros]:
  "silent (rexec (xo_cancel (logged X) cid))" "silent (rexec (xo_place_stop (logged X) k p))"
  "silent (rexec (xo_cancel_stop (logged X) k))" "silent (rexec (xo_snapshot (logged X)))"
  by (simp_all add: logged_def silent_inner)

lemma silent_ralert [silent_intros]: "silent (ralert lv kind detail)"
  unfolding ralert_def by (intro silent_intros)

lemma rexec_bind: "rexec (bind m f) = bind (rexec m) (\<lambda>a. rexec (f a))"
  by (auto simp: rexec_def eff_defs fun_eq_iff split: prod.split sum.split)

lemma rexec_pure: "rexec (ret a) = ret a" "rexec (raise e) = raise e" "rexec (lift r) = lift r"
  by (simp_all add: rexec_def eff_defs fun_eq_iff)

lemma silent_place_stop [silent_intros]: "silent (rexec (place_exchange_stop (logged X) p limits))"
  by (auto simp: place_exchange_stop_def andthen_def rexec_bind rexec_pure intro!: silent_intros)


lemma one_order_pre: "silent m \<Longrightarrow> (\<And>a. one_order (f a)) \<Longrightarrow> one_order (bind m f)"
  unfolding silent_def one_order_def
  by (auto simp: bind_def split: prod.split sum.split) (metis append_Nil2 le0 replicate_0 snd_conv)+

lemma one_order_post: "one_order m \<Longrightarrow> (\<And>a. silent (f a)) \<Longrightarrow> one_order (bind m f)"
  unfolding silent_def one_order_def
  by (auto simp: bind_def split: prod.split sum.split) (metis snd_conv)+

lemma one_order_andthen:
  "silent m \<Longrightarrow> one_order n \<Longrightarrow> one_order (andthen m n)"
  "one_order m \<Longrightarrow> silent n \<Longrightarrow> one_order (andthen m n)"
  unfolding andthen_def by (rule one_order_pre one_order_post; simp)+

lemma one_order_case_option:
  "one_order m \<Longrightarrow> (\<And>a. one_order (f a)) \<Longrightarrow> one_order (case x of None \<Rightarrow> m | Some a \<Rightarrow> f a)"
  by (simp split: option.split)

lemma one_orderE: "one_order m \<Longrightarrow> \<exists>n req. submitted (snd (m w)) = submitted w @ replicate n req \<and> n \<le> 2"
  unfolding one_order_def by meson

lemma one_order_if: "(c \<Longrightarrow> one_order m) \<Longrightarrow> (\<not> c \<Longrightarrow> one_order n) \<Longrightarrow> one_order (if c then m else n)"
  by simp

text \<open>At most \<open>k\<close> submissions, all of one request.\<close>

definition upto_times :: "nat \<Rightarrow> order_request \<Rightarrow> ('x \<times> order_request list, 's, 'a) rop \<Rightarrow> bool" where
  "upto_times k req m \<longleftrightarrow> (\<forall>w. \<exists>n \<le> k. submitted (snd (m w)) = submitted w @ replicate n req)"

lemma upto_silent: "silent m \<Longrightarrow> upto_times k req m"
  by (auto simp: silent_def upto_times_def intro!: exI [of _ 0])

lemma upto_bind:
  assumes "upto_times j req m" "\<And>a. upto_times k req (f a)"
  shows "upto_times (j + k) req (bind m f)"
  unfolding upto_times_def
proof
  fix w
  obtain n where n: "n \<le> j" "submitted (snd (m w)) = submitted w @ replicate n req"
    using assms(1) by (auto simp: upto_times_def)
  show "\<exists>n \<le> j + k. submitted (snd (bind m f w)) = submitted w @ replicate n req"
  proof (cases "fst (m w)")
    case (Inl e)
    then show ?thesis using n by (auto simp: bind_def split: prod.splits intro!: exI [of _ n])
  next
    case (Inr a)
    obtain l where l: "l \<le> k" "submitted (snd (f a (snd (m w)))) = submitted (snd (m w)) @ replicate l req"
      using assms(2) by (auto simp: upto_times_def)
    have "snd (bind m f w) = snd (f a (snd (m w)))" using Inr by (auto simp: bind_def split: prod.splits)
    then show ?thesis
      using n l by (intro exI [of _ "n + l"]) (simp add: replicate_add)
  qed
qed

lemma upto_bind_silent: "silent m \<Longrightarrow> (\<And>a. upto_times k req (f a)) \<Longrightarrow> upto_times k req (bind m f)"
  using upto_bind [of 0 req m k f] by (simp add: upto_silent)

lemma upto_then_silent: "upto_times k req m \<Longrightarrow> (\<And>a. silent (f a)) \<Longrightarrow> upto_times k req (bind m f)"
  using upto_bind [of k req m 0 f] by (simp add: upto_silent)

lemma upto_andthen_silent: "silent m \<Longrightarrow> upto_times k req n \<Longrightarrow> upto_times k req (andthen m n)"
  unfolding andthen_def by (rule upto_bind_silent)

lemma upto_attempt: "upto_times k req m \<Longrightarrow> (\<And>e. silent (h e)) \<Longrightarrow> upto_times k req (attempt m h)"
  unfolding upto_times_def silent_def
  by (auto simp: attempt_def split: prod.split sum.split) (metis snd_conv)+

lemma upto_submit: "upto_times 1 req (rexec (xo_submit (logged X) req))"
  by (auto simp: upto_times_def logged_def rexec_def eff_defs on_inner_def submitted_def
      split: prod.split intro!: exI [of _ 1])

lemma upto_ret: "upto_times k req (ret a)"
  by (intro upto_silent silent_intros)

lemma upto_attempts: "upto_times (length ns) req (submit_attempts (logged X) req sz ns)"
proof (induction ns)
  case (Cons k ns)
  have first: "upto_times 1 req (attempt (bind (rexec (xo_submit (logged X) req)) (\<lambda>a. ret (Some a)))
      (\<lambda>e. if is_timeout e then ret None else raise e))"
    by (intro upto_attempt upto_then_silent upto_submit) (auto intro!: silent_intros)
  show ?case
    unfolding submit_attempts.simps length_Cons Suc_eq_plus1_left
    by (rule upto_bind [OF first])
      (auto intro!: upto_bind_silent upto_andthen_silent silent_intros Cons.IH upto_ret
        split: option.split)
qed (simp add: upto_silent silent_intros)

lemma upto_one_order: "upto_times 2 req m \<Longrightarrow> one_order m"
  unfolding upto_times_def one_order_def by meson

lemma upto_submit_with_recovery: "upto_times 2 req (submit_with_recovery (logged X) req sz)"
  using upto_attempts [of "[1, 2]" req X sz]
  by (simp add: submit_with_recovery_def numeral_2_eq_2 del: submit_attempts.simps)

lemma silent_persist [silent_intros]: "silent persist"
  unfolding persist_def by (intro silent_intros)

lemma silent_set_state [silent_intros]: "silent (set_state s)"
  unfolding set_state_def by (intro silent_intros)

lemma silent_update_order [silent_intros]: "silent (update_order cid b f)"
  unfolding update_order_def by (intro silent_intros)

lemma silent_record [silent_intros]: "silent (record_decision t v i c n)"
  unfolding record_decision_def by (intro silent_intros)

lemma silent_record_fill [silent_intros]: "silent (record_fill row ev)"
  unfolding record_fill_def by (auto intro!: silent_intros split: prod.split)

lemma silent_hooks [silent_intros]: "silent flatten_hook" "silent (recover_hook sg)"
  unfolding flatten_hook_def recover_hook_def by (intro silent_intros)+

lemma silent_halt [silent_intros]: "silent (halt reason)"
  unfolding halt_def by (intro silent_intros)

lemma silent_adopt [silent_intros]: "silent (adopt (logged X) sn)"
  unfolding adopt_def by (auto intro!: silent_intros split: option.split)

lemma silent_adopt_and_settle [silent_intros]: "silent (adopt_and_settle (logged X) sn)"
  unfolding adopt_and_settle_def by (auto intro!: silent_intros)

lemma silent_submit_failed [silent_intros]: "silent (submit_failed (logged X) cid e)"
  unfolding submit_failed_def Let_def by (auto intro!: silent_intros)

lemma silent_submit_returned [silent_intros]: "silent (submit_returned cid prior i acked)"
  unfolding submit_returned_def by (auto intro!: silent_intros split: option.split)

lemma upto_attempt_send: "upto_times 2 req (attempt_send (logged X) cid prior i req sz)"
  unfolding attempt_send_def
  by (intro upto_then_silent upto_attempt upto_submit_with_recovery)
    (auto intro!: silent_intros split: sum.split)

lemma place_order_once: "one_order (place_order (logged X) r0 i now)"
  unfolding place_order_def
  by (rule upto_one_order [of "request_of r0 (cid_of r0) i now"]) (intro upto_andthen_silent upto_bind_silent upto_attempt_send silent_intros)

lemma one_order_send: "one_order (send (logged X) i t v)"
  unfolding send_def
  by (intro one_order_andthen one_order_pre silent_intros place_order_once)

lemma one_order_exit: "one_order (exit_position (logged X) mark reason t sz)"
  unfolding exit_position_def by (intro one_order_pre one_order_send silent_intros)

lemma one_order_shutdown: "one_order (shutdown (logged X) mark sz)"
  unfolding shutdown_def Let_def
  by (intro one_order_pre one_order_if one_order_andthen(2) one_order_exit silent_one_order silent_intros)

lemmas one_order_leaves = silent_one_order [OF silent_prims(1)] silent_one_order [OF silent_record]
  silent_one_order [OF silent_andthen [OF silent_ralert silent_set_state]]

lemma one_order_on_bar: "one_order (router_on_bar (logged X) h sn kill pending)"
  unfolding router_on_bar_def on_target_def enter_def skip_def Let_def
  by (auto intro!: one_order_pre one_order_if one_order_exit one_order_send one_order_shutdown
      one_order_leaves silent_intros split: option.split prod.split)

lemma silent_margin [silent_intros]: "silent (margin_check p mark)"
  unfolding margin_check_def Let_def by (auto intro!: silent_intros split: option.split)

lemma one_order_on_fast: "one_order (router_on_fast (logged X) mark sn)"
  unfolding router_on_fast_def
  by (auto intro!: one_order_pre one_order_if one_order_andthen(1) [OF silent_margin] one_order_exit
      one_order_case_option one_order_leaves silent_intros)

lemma silent_replace_stop [silent_intros]: "silent (replace_stop (logged X))"
  unfolding replace_stop_def by (auto intro!: silent_intros split: option.split)

lemma silent_check_pending: "silent (check_pending (logged X) sn)"
  unfolding check_pending_def by (auto intro!: silent_intros split: option.split)

lemma silent_apply_fill [silent_intros]: "silent (apply_fill ev)"
  unfolding apply_fill_def by (auto intro!: silent_intros split: prod.split)

lemma silent_handle_event: "silent (handle_event (logged X) ev)"
  unfolding handle_event_def order_update_event_def fill_event_def late_fill_def after_fill_def
    flattened_by_fill_def Let_def
  by (auto intro!: silent_intros split: event.split option.split)

text \<open>
  C13. One call of a router submits at most one order, and at most twice under the same request and client
  id (the retry after a timeout); fills, order updates, pending timeouts, halts and stop replacements submit
  nothing. This holds for any executor, whether or not the call raises.
\<close>

theorem call_submits_at_most_one_order:
  "\<exists>n req. submitted (snd (run_call (logged X) c w)) = submitted w @ replicate n req
     \<and> n \<le> (case c of OnBar _ _ _ _ \<Rightarrow> 2 | OnFast _ _ \<Rightarrow> 2 | ShutDown _ _ \<Rightarrow> 2 | _ \<Rightarrow> 0)"
proof (cases c)
  case (OnBar h sn kill pending)
  then show ?thesis using one_orderE [OF one_order_on_bar [of X h sn kill pending], of w] by simp
next
  case (OnFast mark sn)
  then show ?thesis using one_orderE [OF one_order_on_fast [of X mark sn], of w] by simp
next
  case (ShutDown mark sz)
  then show ?thesis using one_orderE [OF one_order_shutdown [of X mark sz], of w] by simp
qed (auto simp: silentD [OF silent_check_pending] silentD [OF silent_handle_event] silentD [OF silent_halt]
    silentD [OF silent_replace_stop] intro!: exI [of _ 0])

end
