(* ===== verification/Portfolio.thy ===== *)
theory Portfolio
  imports Router_Step
begin

text \<open>
  \<open>polyperps/execution/order_router.py\<close>, \<open>Portfolio\<close>: the routers behind one lock. Each definition is
  one locked entry point or an internal of one; \<open>run_event_pump\<close> is \<open>dispatch\<close> over the executor's
  stream. The routers of the dict are distinct objects, so "is not router" compares keys.
\<close>

record ('x, 's) pf =
  pf_run :: string
  pf_routers :: "(int \<times> 's router) list"
  pf_start_equity :: "dec option"
  pf_pnl_level :: "level option"
  pf_funding_seen :: "(int \<times> dec) list"
  pf_refused :: "mismatch list"
  pf_io :: "'x io"

type_synonym ('x, 's, 'a) pop = "(('x, 's) pf, 'a) eff"

definition pio :: "('x io, 'a) eff \<Rightarrow> ('x, 's, 'a) pop" where
  "pio m = focus pf_io (\<lambda>i p. p\<lparr>pf_io := i\<rparr>) m"

definition pexec :: "('x, 'a) eff \<Rightarrow> ('x, 's, 'a) pop" where
  "pexec m = pio (io_exec m)"

definition pemit :: "alert \<Rightarrow> ('x, 's, unit) pop" where
  "pemit a = pio (io_emit a)"

definition in_router :: "int \<Rightarrow> ('x, 's, 'a) rop \<Rightarrow> ('x, 's, 'a) pop" where
  "in_router k m = (\<lambda>p.
     case map_of (pf_routers p) k of
       None \<Rightarrow> (Inl (Exn KeyError [I k]), p)
     | Some r \<Rightarrow>
         (case m \<lparr>re_rt = r, re_io = pf_io p\<rparr> of
            (res, w) \<Rightarrow> (res, p\<lparr>pf_routers := AList.update k (re_rt w) (pf_routers p), pf_io := re_io w\<rparr>)))"

definition each_router :: "(int \<Rightarrow> ('x, 's, unit) pop) \<Rightarrow> ('x, 's, unit) pop" where
  "each_router f = bind (get (\<lambda>p. map fst (pf_routers p))) (\<lambda>ks. forM ks f)"

definition on_known :: "int \<Rightarrow> ('x, 's, unit) rop \<Rightarrow> ('x, 's, unit) pop" where
  "on_known k m =
     bind (get (\<lambda>p. map_of (pf_routers p) k)) (\<lambda>ro.
       case ro of None \<Rightarrow> ret () | Some _ \<Rightarrow> in_router k m)"

type_synonym histories = "(int \<times> bar list) list"

section \<open>The bar cycle\<close>

definition in_flight :: "int \<Rightarrow> (int \<times> 's router) list \<Rightarrow> intent list" where
  "in_flight k routers =
     List.map_filter (\<lambda>(j, r). if j \<noteq> k \<and> rt_state r = ENTRY_PENDING then rt_pending_intent r else None)
       routers"

definition check_funding_one ::
  "account_snapshot \<Rightarrow> int \<times> bar list \<Rightarrow> ('x, 's, unit) pop" where
  "check_funding_one sn = (\<lambda>(iid, history).
     let forget = upd (\<lambda>p. p\<lparr>pf_funding_seen := AList.delete iid (pf_funding_seen p)\<rparr>) in
     case (position_of sn iid, if history = [] then None else br_funding (last history)) of
       (Some pos, Some rate) \<Rightarrow>
         if pv_size pos = 0 then forget
         else
           bind (get (\<lambda>p. map_of (pf_funding_seen p) iid)) (\<lambda>prev.
           andthen (upd (\<lambda>p. p\<lparr>pf_funding_seen := AList.update iid (pv_funding pos) (pf_funding_seen p)\<rparr>))
           (case prev of
              None \<Rightarrow> ret ()
            | Some was \<Rightarrow>
                if pv_notional pos = 0 then ret ()
                else
                  bind (lift (ddiv (dsub was (pv_funding pos)) (pv_notional pos))) (\<lambda>realised.
                  bind (lift (funding_drift_alert realised
                    (dmul rate (if 0 < pv_size pos then 1 else - 1)) iid (sn_ts sn) ALERT_THRESHOLDS))
                    (\<lambda>a. case a of None \<Rightarrow> ret () | Some al \<Rightarrow> pemit al))))
     | _ \<Rightarrow> forget)"

definition check_funding :: "histories \<Rightarrow> account_snapshot \<Rightarrow> ('x, 's, unit) pop" where
  "check_funding hs sn = forM hs (check_funding_one sn)"

text \<open>The mark a shutdown flattens at: the last close, the venue's own mark, or the entry.\<close>

definition shutdown_mark ::
  "histories \<Rightarrow> account_snapshot \<Rightarrow> 's router \<Rightarrow> dec res" where
  "shutdown_mark hs sn r =
     (case (case map_of hs (rt_iid r) of None \<Rightarrow> None
            | Some h \<Rightarrow> if h = [] then None else br_close (last h)) of
        Some close \<Rightarrow> Inr close
      | None \<Rightarrow>
          (case position_of sn (rt_iid r) of
             Some pos \<Rightarrow>
               if pv_size pos \<noteq> 0 then ddiv (pv_notional pos) (dabs (pv_size pos))
               else Inr (case rt_entry r of None \<Rightarrow> 0 | Some e \<Rightarrow> e)
           | None \<Rightarrow> Inr (case rt_entry r of None \<Rightarrow> 0 | Some e \<Rightarrow> e)))"

definition shutdown_one ::
  "'x exec_ops \<Rightarrow> histories \<Rightarrow> account_snapshot \<Rightarrow> int \<Rightarrow> ('x, 's, unit) pop" where
  "shutdown_one X hs sn k =
     in_router k
       (bind (rget id) (\<lambda>r.
        bind (lift (shutdown_mark hs sn r)) (\<lambda>mark.
          shutdown X mark (Some (case position_of sn (rt_iid r) of None \<Rightarrow> 0 | Some pos \<Rightarrow> pv_size pos)))))"

definition shutdown_alert :: "account_snapshot \<Rightarrow> dec option \<Rightarrow> alert" where
  "shutdown_alert sn start =
     \<lparr>al_level = CRITICAL,
      al_kind = (if loss_limit (Some (sn_equity sn)) start = Shutdown then ''loss_limit'' else ''divergence''),
      al_instrument = None,
      al_detail = [(''equity'', [D (sn_equity sn)]),
        (''start_equity'', case start of None \<Rightarrow> [S ''None''] | Some s \<Rightarrow> [D s])],
      al_ts = sn_ts sn\<rparr>"

definition pf_shutdown ::
  "'x exec_ops \<Rightarrow> account_snapshot \<Rightarrow> histories \<Rightarrow> ('x, 's, unit) pop" where
  "pf_shutdown X sn hs =
     andthen
       (bind (get id) (\<lambda>p.
         if list_ex (\<lambda>(_, r). \<not> frozen (rt_state r)) (pf_routers p) then
           pemit (shutdown_alert sn (pf_start_equity p))
         else ret ()))
     (each_router (shutdown_one X hs sn))"

definition bar_one ::
  "'x exec_ops \<Rightarrow> account_snapshot \<Rightarrow> action \<Rightarrow> int \<times> bar list \<Rightarrow> ('x, 's, unit) pop" where
  "bar_one X sn kill = (\<lambda>(iid, history).
     if history = [] then ret ()
     else
       bind (get (\<lambda>p. in_flight iid (pf_routers p))) (\<lambda>pending.
         on_known iid (router_on_bar X history sn kill pending)))"

definition pf_on_bar :: "'x exec_ops \<Rightarrow> histories \<Rightarrow> action \<Rightarrow> ('x, 's, unit) pop" where
  "pf_on_bar X hs kill =
     bind (pexec (xo_snapshot X)) (\<lambda>sn.
       if kill = Shutdown then pf_shutdown X sn hs
       else andthen (check_funding hs sn) (forM hs (bar_one X sn kill)))"

section \<open>The fast loop\<close>

definition pnl_check :: "account_snapshot \<Rightarrow> ('x, 's, unit) pop" where
  "pnl_check sn =
     bind (get pf_start_equity) (\<lambda>start.
       case start of
         None \<Rightarrow> ret ()
       | Some s \<Rightarrow>
           bind (lift (pnl_alert (sn_equity sn) s (sn_ts sn) ALERT_THRESHOLDS)) (\<lambda>a.
           bind (get pf_pnl_level) (\<lambda>was.
             let lv = map_option al_level a in
             andthen (case a of None \<Rightarrow> ret () | Some al \<Rightarrow> if lv \<noteq> was then pemit al else ret ())
               (upd (pf_pnl_level_update (\<lambda>_. lv))))))"

definition pf_on_fast :: "'x exec_ops \<Rightarrow> (int \<times> dec) list \<Rightarrow> ('x, 's, account_snapshot) pop" where
  "pf_on_fast X marks =
     bind (pexec (xo_snapshot X)) (\<lambda>sn.
     andthen (each_router (\<lambda>k. in_router k (check_pending X sn)))
     (andthen (forM marks (\<lambda>(iid, mark). on_known iid (router_on_fast X mark sn)))
     (andthen (pnl_check sn) (ret sn))))"

section \<open>Reconciliation\<close>

definition known_orders :: "db \<Rightarrow> string \<Rightarrow> string list" where
  "known_orders d run = map or_cid (filter (\<lambda>o'. \<not> terminal_status (or_status o')) (list_orders d run))"

definition mm_alert ::
  "level \<Rightarrow> string \<Rightarrow> int option \<Rightarrow> (string \<times> text_t) list \<Rightarrow> time \<Rightarrow> alert" where
  "mm_alert lv kind iid detail now =
     \<lparr>al_level = lv, al_kind = kind, al_instrument = iid, al_detail = detail, al_ts = now\<rparr>"

definition order_id_of :: "text_t \<Rightarrow> string" where
  "order_id_of t = (case t of [S oid] \<Rightarrow> oid | _ \<Rightarrow> [])"

definition router_limits :: "int \<Rightarrow> (int \<times> 's router) list \<Rightarrow> risk_limits" where
  "router_limits k routers = (case map_of routers k of None \<Rightarrow> LIMITS | Some r \<Rightarrow> rt_limits r)"

definition restore_stop ::
  "'x exec_ops \<Rightarrow> account_snapshot \<Rightarrow> int \<Rightarrow> (string \<times> text_t) list \<Rightarrow> time \<Rightarrow> ('x, 's, unit) pop" where
  "restore_stop X sn iid detail now =
     (case position_of sn iid of
        None \<Rightarrow> raise (Exn (OtherException ''AttributeError'') [])
      | Some pos \<Rightarrow>
          bind (get (\<lambda>p. router_limits iid (pf_routers p))) (\<lambda>limits.
          bind (pexec (place_exchange_stop X pos limits)) (\<lambda>trigger.
          andthen (on_known iid (andthen (rupd (rt_stop_update (\<lambda>_. Some trigger))) persist))
          (andthen (pemit (mm_alert WARN ''stop_missing'' (Some iid) (detail @ [(''trigger'', [D trigger])]) now))
          (pemit (mm_alert INFO ''stop_placed'' (Some iid) [(''trigger'', [D trigger])] now))))))"

definition mm_detail :: "mismatch \<Rightarrow> (string \<times> text_t) list" where
  "mm_detail m = [(''local'', mm_local m), (''remote'', mm_remote m)]"

definition respond :: "'x exec_ops \<Rightarrow> account_snapshot \<Rightarrow> mismatch \<Rightarrow> time \<Rightarrow> ('x, 's, unit) pop" where
  "respond X sn m now =
     (case (mm_kind m, mm_instrument m) of
        (KSize, Some iid) \<Rightarrow>
          bind (get (\<lambda>p. map_of (pf_routers p) iid)) (\<lambda>ro.
            case ro of
              Some _ \<Rightarrow> in_router iid (halt ([S ''reconcile: size mismatch local=''] @ mm_local m
                @ [S '' remote=''] @ mm_remote m))
            | None \<Rightarrow> pemit (mm_alert CRITICAL ''unknown_position'' (Some iid) (mm_detail m) now))
      | (KSize, None) \<Rightarrow> pemit (mm_alert CRITICAL ''unknown_position'' None (mm_detail m) now)
      | (KUnknownOrder, _) \<Rightarrow>
          andthen (pexec (xo_cancel X (order_id_of (mm_remote m))))
            (pemit (mm_alert WARN ''unknown_order'' None (mm_detail m) now))
      | (KMissingStop, Some iid) \<Rightarrow> restore_stop X sn iid (mm_detail m) now
      | (KStopWithoutPosition, Some iid) \<Rightarrow>
          if xo_name X = ''shadow'' then raise (Exn ShadowRefused [S ''cancel_stop''])
          else
            andthen (pexec (xo_cancel_stop X iid))
              (pemit (mm_alert INFO ''stop_orphan_cancelled'' (Some iid) (mm_detail m) now))
      | (KStopDrift, iid) \<Rightarrow> pemit (mm_alert WARN ''stop_drift'' iid (mm_detail m) now)
      | _ \<Rightarrow> raise (Exn (OtherException ''AttributeError'') []))"

definition refused :: "mismatch \<Rightarrow> time \<Rightarrow> ('x, 's, unit) pop" where
  "refused m now =
     bind (get pf_refused) (\<lambda>seen.
       if m \<in> set seen then ret ()
       else
         andthen (upd (\<lambda>p. p\<lparr>pf_refused := pf_refused p @ [m]\<rparr>))
         (pemit (mm_alert WARN ''shadow_refused'' (mm_instrument m)
           (mm_detail m @ (if mm_kind m = KStopWithoutPosition then [(''action'', [S ''cancel_stop''])] else []))
           now)))"

definition reconcile_one :: "'x exec_ops \<Rightarrow> account_snapshot \<Rightarrow> mismatch \<Rightarrow> ('x, 's, unit) pop" where
  "reconcile_one X sn m =
     bind (pio io_now) (\<lambda>now.
       attempt (respond X sn m now)
         (\<lambda>e. if exc_class e = ShadowRefused then refused m now else raise e))"

definition reconcile_now :: "'x exec_ops \<Rightarrow> ('x, 's, mismatch list) pop" where
  "reconcile_now X =
     bind (pexec (xo_snapshot X)) (\<lambda>sn.
     bind (get id) (\<lambda>p.
       let mms = diff (get_positions_local (io_db (pf_io p)) (pf_run p)) sn (pf_run p)
             (known_orders (io_db (pf_io p)) (pf_run p)) STOP_DRIFT_TOLERANCE in
       andthen (forM mms (reconcile_one X sn))
       (andthen (upd (\<lambda>p. p\<lparr>pf_refused := filter (\<lambda>m. m \<in> set mms) (pf_refused p)\<rparr>))
        (ret mms))))"

section \<open>Events\<close>

definition dispatch :: "'x exec_ops \<Rightarrow> event \<Rightarrow> ('x, 's, unit) pop" where
  "dispatch X ev =
     (case ev of
        EvReconcileNow _ \<Rightarrow> bind (reconcile_now X) (\<lambda>_. ret ())
      | EvFill f \<Rightarrow> on_known (fu_instrument f) (handle_event X ev)
      | EvOrder u \<Rightarrow> each_router (\<lambda>k. in_router k (handle_event X ev)))"

definition run_event_pump :: "'x exec_ops \<Rightarrow> event list \<Rightarrow> ('x, 's, unit) pop" where
  "run_event_pump X evs = forM evs (dispatch X)"

end
