(* ===== verification/Router_Sync.thy ===== *)
theory Router_Sync
  imports Router_Send
begin

text \<open>
  The local position row follows the router: whenever a call returns, the row stored for the
  instrument is the router's state, size, entry, stop and funding. And the gates of the bar cycle:
  what a bar cannot do.
\<close>

section \<open>The row in step with the router\<close>

definition synced :: "('x, 's) renv \<Rightarrow> bool" where
  "synced w \<longleftrightarrow> (\<exists>now. local_row w (rt_run (re_rt w)) (rt_iid (re_rt w)) = Some (row_of (re_rt w) now))"

definition shown :: "'s router \<Rightarrow> string \<times> int \<times> rstate \<times> dec \<times> dec option \<times> dec option \<times> dec" where
  "shown r = (rt_run r, rt_iid r, rt_state r, rt_size r, rt_entry r, rt_stop r, rt_funding r)"

text \<open>A calm step leaves the shown fields and the position rows alone.\<close>

definition calm :: "('x, 's, 'a) rop \<Rightarrow> bool" where
  "calm m \<longleftrightarrow> (\<forall>w. shown (re_rt (snd (m w))) = shown (re_rt w)
     \<and> db_positions (io_db (re_io (snd (m w)))) = db_positions (io_db (re_io w)))"

named_theorems calm_intros "steps that leave the local position row in step"

lemma row_of_shown: "shown r = shown r' \<Longrightarrow> row_of r now = row_of r' now"
  by (simp add: shown_def row_of_def)

lemma calm_synced: "calm m \<Longrightarrow> keeps synced m"
  unfolding keeps_def synced_def
proof (intro allI impI)
  assume c: "calm m"
  fix w :: "('a, 'b) renv"
  assume "\<exists>now. local_row w (rt_run (re_rt w)) (rt_iid (re_rt w)) = Some (row_of (re_rt w) now)"
  then obtain now where now: "local_row w (rt_run (re_rt w)) (rt_iid (re_rt w)) = Some (row_of (re_rt w) now)" ..
  let ?w = "snd (m w)"
  have sh: "shown (re_rt ?w) = shown (re_rt w)"
    and db: "db_positions (io_db (re_io ?w)) = db_positions (io_db (re_io w))"
    using c by (simp_all add: calm_def)
  have "rt_run (re_rt ?w) = rt_run (re_rt w)" "rt_iid (re_rt ?w) = rt_iid (re_rt w)"
    using sh by (simp_all add: shown_def)
  then have "local_row ?w (rt_run (re_rt ?w)) (rt_iid (re_rt ?w)) = Some (row_of (re_rt ?w) now)"
    using now by (simp add: local_row_def db row_of_shown [OF sh])
  then show "\<exists>now. local_row ?w (rt_run (re_rt ?w)) (rt_iid (re_rt ?w)) = Some (row_of (re_rt ?w) now)" ..
qed

lemma calm_nkeeps: "calm m \<Longrightarrow> nkeeps synced m"
  by (rule keeps_nkeeps [OF calm_synced])

lemma calm_keeps: "calm m \<longleftrightarrow> (\<forall>a b. keeps (\<lambda>w. shown (re_rt w) = a \<and> db_positions (io_db (re_io w)) = b) m)"
  unfolding calm_def keeps_def by blast

lemma calm_bind [calm_intros]: "calm m \<Longrightarrow> (\<And>a. calm (f a)) \<Longrightarrow> calm (bind m f)"
  by (auto simp: calm_keeps intro: keeps_bind)

lemma calm_andthen [calm_intros]: "calm m \<Longrightarrow> calm n \<Longrightarrow> calm (andthen m n)"
  by (auto simp: calm_keeps intro: keeps_andthen)

lemma calm_attempt [calm_intros]: "calm m \<Longrightarrow> (\<And>e. calm (h e)) \<Longrightarrow> calm (attempt m h)"
  by (auto simp: calm_keeps intro: keeps_attempt)

lemma calm_if [calm_intros]: "(c \<Longrightarrow> calm m) \<Longrightarrow> (\<not> c \<Longrightarrow> calm n) \<Longrightarrow> calm (if c then m else n)"
  by simp

lemma calm_case_option [calm_intros]:
  "(x = None \<Longrightarrow> calm m) \<Longrightarrow> (\<And>a. x = Some a \<Longrightarrow> calm (f a)) \<Longrightarrow>
   calm (case x of None \<Rightarrow> m | Some a \<Rightarrow> f a)"
  by (simp split: option.split)

lemma calm_prims [calm_intros]:
  "calm (ret a)" "calm (raise e)" "calm (rget f)" "calm (lift r)" "calm rclock"
  "calm (rread g)" "calm (rexec m)" "calm (rio (io_emit al))" "calm (rdb (upsert_order row))"
  "calm (rio (io_store (insert_decision d)))"
  by (simp_all add: calm_def rexec_def eff_defs upsert_order_def insert_decision_def split: prod.split)

lemma calm_rupd: "(\<And>r. shown (f r) = shown r) \<Longrightarrow> calm (rupd f)"
  by (simp add: calm_def rupd_def upd_def)

lemma calm_rstrat [calm_intros]: "calm (rstrat m)"
  by (simp add: calm_def rstrat_def eff_defs shown_def split: prod.split)

lemma calm_ops [calm_intros]:
  "calm (ralert lv kind detail)" "calm (update_order cid b f)" "calm flatten_hook" "calm (recover_hook sg)"
  unfolding ralert_def update_order_def flatten_hook_def recover_hook_def by (intro calm_intros)+

lemma calm_record [calm_intros]: "calm (record_decision t v i c n)"
  unfolding record_decision_def by (intro calm_intros calm_rupd) (simp add: shown_def)

lemma calm_record_fill [calm_intros]: "calm (record_fill row ev)"
  unfolding record_fill_def by (auto intro!: calm_intros split: prod.split)

lemma calm_submit_attempts [calm_intros]: "calm (submit_attempts X req sz ns)"
  by (induction ns) (auto intro!: calm_intros)

lemma nends_persist: "nends synced persist"
  by (auto simp: nends_def wp_def persist_def eff_defs synced_def local_row_def upsert_position_local_def
      local_row_persist)

lemma nends_set_state: "nends synced (set_state s)"
  unfolding set_state_def by (intro nends_andthen nends_persist)

lemmas synced_ends = nends_persist nends_set_state nends_raise
lemmas synced_keeps = nkeeps_bind nkeeps_andthen nkeeps_if nkeeps_case_option
  nends_nkeeps [OF nends_persist] nends_nkeeps [OF nends_set_state]

lemma calm_pending [calm_intros]:
  "calm (rupd (rt_pending_cid_update u))" "calm (rupd (rt_pending_since_update v))"
  "calm (rupd (rt_margin_level_update l))" "calm (rupd (\<lambda>r. r\<lparr>rt_seq := n r\<rparr>))"
  "calm (rupd (\<lambda>r. r\<lparr>rt_pending_cid := a, rt_pending_since := b\<rparr>))"
  "calm (rupd (\<lambda>r. r\<lparr>rt_pending_cid := a, rt_pending_since := b, rt_pending_intent := c\<rparr>))"
  by (rule calm_rupd, simp add: shown_def)+

lemma synced_calm [nkeeps_intros]:
  "nkeeps synced (ralert lv kind detail)" "nkeeps synced (update_order cid b f)" "nkeeps synced (rexec m)"
  "nkeeps synced rclock" "nkeeps synced (rread g)" "nkeeps synced (rget h)" "nkeeps synced (rstrat st)"
  "nkeeps synced (rupd (rt_pending_cid_update u))" "nkeeps synced (rupd (rt_pending_since_update v))"
  "nkeeps synced flatten_hook" "nkeeps synced (recover_hook sg)" "nkeeps synced (record_fill row ev)"
  "nkeeps synced (record_decision t vs i c n)" "nkeeps synced (rdb (upsert_order orow))"
  "nkeeps synced (rio (io_emit al))" "nkeeps synced (rupd (rt_margin_level_update l))"
  "nkeeps synced (rupd (\<lambda>r. r\<lparr>rt_pending_cid := pa, rt_pending_since := pb, rt_pending_intent := pc\<rparr>))"
  "nkeeps synced (rupd (\<lambda>r. r\<lparr>rt_seq := sq r\<rparr>))"
  by (intro calm_nkeeps calm_intros)+

lemma synced_state [nkeeps_intros]: "nkeeps synced persist" "nkeeps synced (set_state s)"
  by (intro nends_nkeeps synced_ends)+

lemma synced_halt [nkeeps_intros]: "nkeeps synced (halt reason)"
  unfolding halt_def by (intro nkeeps_intros)

lemma synced_adopt: "nends synced (adopt X sn)"
  unfolding adopt_def by (intro nends_andthen nends_bind nends_persist)

lemma synced_settle [nkeeps_intros]: "nkeeps synced (adopt_and_settle X sn)"
  unfolding adopt_and_settle_def
  by (intro nkeeps_intros nends_nkeeps [OF synced_adopt])

lemma synced_submit_failed [nkeeps_intros]: "nkeeps synced (submit_failed X cid e)"
  unfolding submit_failed_def Let_def by (intro nkeeps_intros nends_nkeeps [OF synced_adopt])

lemma synced_submit_returned [nkeeps_intros]: "nkeeps synced (submit_returned cid prior i acked)"
  unfolding submit_returned_def by (intro nkeeps_intros)

lemma synced_attempt_send [nkeeps_intros]: "nkeeps synced (attempt_send X cid prior i req sz)"
  unfolding attempt_send_def submit_with_recovery_def
  by (rule nkeeps_bind, intro calm_nkeeps calm_intros)
    (auto intro!: nkeeps_intros split: sum.split)

lemma synced_send [nkeeps_intros]: "nkeeps synced (send X i t v)"
  unfolding send_def place_order_def by (intro nkeeps_intros)

lemma synced_exit [nkeeps_intros]: "nkeeps synced (exit_position X mark reason t sz)"
  unfolding exit_position_def by (intro nkeeps_intros)

lemma synced_shutdown [nkeeps_intros]: "nkeeps synced (shutdown X mark sz)"
  unfolding shutdown_def Let_def by (intro nkeeps_intros)

lemma synced_persist_then: "nkeeps synced m \<Longrightarrow> nkeeps synced (andthen (rupd f) (andthen persist m))"
  by (rule nends_nkeeps, rule nends_andthen, rule nends_andthen_keeps, rule nends_persist)

lemma calm_try [nkeeps_intros]: "(\<And>e. calm (h e)) \<Longrightarrow> nkeeps synced (attempt (bind (rexec m) (\<lambda>_. ret b)) h)"
  by (intro calm_nkeeps calm_intros)

lemma synced_replace_stop [nkeeps_intros]: "nkeeps synced (replace_stop X)"
  unfolding replace_stop_def
  by (auto intro!: nkeeps_bind nkeeps_get nkeeps_if nkeeps_ret nkeeps_lift calm_try calm_intros
      nkeeps_case_option synced_persist_then synced_calm)

lemma synced_apply_fill: "nends synced (apply_fill ev)"
  unfolding apply_fill_def
  by (auto intro!: nends_bind nends_andthen nends_persist split: prod.split)

lemma synced_flattened [nkeeps_intros]: "nkeeps synced (flattened_by_fill X ours ev)"
proof -
  have mid: "nends synced (andthen (if b then persist else set_state FLAT) m)" if "nkeeps synced m"
    for b and m :: "(('x, 's) renv, unit) eff"
    using that by (intro nends_andthen_keeps nends_if synced_ends)
  show ?thesis
    unfolding flattened_by_fill_def Let_def
    by (rule nends_nkeeps, rule nends_bind, rule nends_andthen, rule nends_andthen, rule mid)
      (intro nkeeps_intros)
qed

lemma synced_after_fill [nkeeps_intros]: "nkeeps synced (after_fill X ours sz ev)"
  unfolding after_fill_def by (intro nkeeps_intros)

lemma synced_fill_event [nkeeps_intros]: "nkeeps synced (fill_event X ev)"
  unfolding fill_event_def late_fill_def
  by (intro nkeeps_intros nends_nkeeps [OF synced_apply_fill])

lemma synced_handle_event: "nkeeps synced (handle_event X ev)"
  unfolding handle_event_def order_update_event_def
  by (auto intro!: nkeeps_intros nends_nkeeps [OF nends_raise] split: event.split)

lemma synced_check_pending: "nkeeps synced (check_pending X sn)"
  unfolding check_pending_def by (intro nkeeps_intros)

lemma synced_on_bar: "nkeeps synced (router_on_bar X h sn kill pending)"
  unfolding router_on_bar_def on_target_def enter_def skip_def Let_def
  by (auto intro!: nkeeps_intros split: prod.split)

lemma synced_on_fast: "nkeeps synced (router_on_fast X mark sn)"
  unfolding router_on_fast_def margin_check_def Let_def by (intro nkeeps_intros)

lemma synced_call: "nkeeps synced (run_call X c)"
  by (cases c) (simp_all add: synced_on_bar synced_on_fast synced_handle_event synced_check_pending
    synced_halt synced_shutdown synced_replace_stop)

text \<open>
  C14. The local row follows the router: if the row stored for the instrument shows the router's state, size,
  entry, stop and funding before a call, it shows them again whenever the call returns.
\<close>

theorem local_row_follows_router:
  assumes "synced w" "run_call X c w = (Inr (), w')"
  shows "synced w'"
  using nkeepsD [OF synced_call assms] .

lemma local_row_follows_router_witness:
  "synced (snd (run_call sim_ops (Halt []) (snd (persist (sample_env OPEN)))))"
proof -
  let ?w = "snd (persist (sample_env OPEN))"
  obtain v where "persist (sample_env OPEN) = (Inr (), v)"
    using total_ops(2) unfolding total_def by (metis unit.exhaust)
  then have "synced ?w" using nendsD [OF nends_persist] by fastforce
  moreover have "total (halt [] :: (sim, unit, unit) rop)" by (rule total_halt)
  then obtain a where "run_call sim_ops (Halt []) ?w = (Inr (), a)"
    unfolding total_def by (metis run_call.simps(5) unit.exhaust)
  ultimately show ?thesis using local_row_follows_router [of ?w sim_ops "Halt []"] by fastforce
qed

section \<open>What a bar cannot do\<close>

definition untouched :: "('x, 's) renv \<Rightarrow> ('x, 's) renv \<Rightarrow> bool" where
  "untouched w0 w \<longleftrightarrow> io_ex (re_io w) = io_ex (re_io w0) \<and> orders w = orders w0
     \<and> shown (re_rt w) = shown (re_rt w0) \<and> rt_pending_cid (re_rt w) = rt_pending_cid (re_rt w0)"

lemma bind_get: "bind (rget f) g w = g (f (re_rt w)) w"
  by (simp add: bind_def rget_def get_def)

lemma bind_lift: "bind (lift r) g w = (case r of Inl e \<Rightarrow> (Inl e, w) | Inr a \<Rightarrow> g a w)"
  by (simp add: bind_def lift_def split: sum.split)

lemma skip_untouched: "keeps (untouched w0) (skip t n)"
  by (auto simp: keeps_def skip_def record_decision_def eff_defs insert_decision_def untouched_def orders_def shown_def)

lemma target_untouched: "keeps (untouched w0) (rstrat m)"
  by (auto simp: keeps_def rstrat_def eff_defs untouched_def orders_def shown_def split: prod.split)

text \<open>
  C15. The gates of the bar cycle. A bar leaves the executor, the order rows, the position and the control
  state alone when the router is frozen or has an order in flight, when the bar has no close, and, unless the
  kill switch shuts down, when a flat router is paused, sees an incomplete bar, or lacks its warmup.
\<close>

theorem bar_gates:
  fixes w :: "('x, 's) renv"
  assumes "frozen (rt_state (re_rt w)) \<or> pending_state (rt_state (re_rt w)) \<or> br_close (last h) = None \<or>
      kill \<noteq> Shutdown \<and> rt_state (re_rt w) = FLAT \<and>
        (kill = Pause \<or> \<not> br_complete (last h) \<or> length h < st_warmup (rt_strategy (re_rt w)))"
  shows "untouched w (snd (router_on_bar X h sn kill pending w))"
proof -
  have same: "untouched w w" by (simp add: untouched_def)
  note sk = keepsD [OF skip_untouched same]
  have tgt: "untouched w (snd (on_target X t mark sn Pause pending v))" if "untouched w v" "rt_state (re_rt v) = FLAT"
    for t mark and v :: "('x, 's) renv"
    using keepsD [OF skip_untouched that(1)] that(2)
    by (auto simp: on_target_def bind_def rget_def get_def)
  have call: "untouched w (snd (bind (rstrat m) (\<lambda>t. on_target X (clamp_target t) mark sn Pause pending) w))"
    if "rt_state (re_rt w) = FLAT" for m mark
  proof -
    obtain r v where v: "rstrat m w = (r, v)" by fastforce
    have u: "untouched w v" using keepsD [OF target_untouched same, of m] v by simp
    then have "rt_state (re_rt v) = FLAT" using that by (simp add: untouched_def shown_def)
    then show ?thesis using tgt [OF u] u by (cases r) (simp_all add: bind_def v)
  qed
  show ?thesis
  proof (cases "frozen (rt_state (re_rt w)) \<or> pending_state (rt_state (re_rt w))")
    case True
    then show ?thesis using sk by (simp add: router_on_bar_def bind_def rget_def get_def)
  next
    case False
    have "\<not> frozen FLAT" "\<not> pending_state FLAT" by (simp_all add: frozen_def pending_state_def)
    then show ?thesis
      using False assms sk call same
      by (cases "h = []")
        (auto simp: router_on_bar_def bind_get bind_lift last_bar_def split: option.split)
  qed
qed

definition sample_bar :: "dec \<Rightarrow> bool \<Rightarrow> bar" where
  "sample_bar c whole = \<lparr>br_instrument = 6, br_source = POLYMARKET_WS, br_open_ts = 0, br_open = Some c,
     br_high = Some c, br_low = Some c, br_close = Some c, br_index_close = None, br_funding = None,
     br_spread_bps = 0, br_spread_source = FromConstant, br_complete = whole\<rparr>"

lemma bar_gates_witness:
  "untouched (sample_env FLAT)
     (snd (router_on_bar sim_ops [sample_bar 100 False] (sample_snapshot 1000 []) Run [] (sample_env FLAT)))"
  using bar_gates [of "sample_env FLAT" "[sample_bar 100 False]" Run]
  by (simp add: sample_env_def sample_bar_def)

end
