(* ===== verification/Portfolio_Laws.thy ===== *)
theory Portfolio_Laws
  imports Portfolio Router_Sync
begin

text \<open>
  Laws of the portfolio, for an arbitrary executor: frozen routers stay frozen through every entry
  point, and a shutdown freezes every router.
\<close>

section \<open>Lifting router laws\<close>

definition held :: "int \<Rightarrow> (rstate \<Rightarrow> bool) \<Rightarrow> ('x, 's) pf \<Rightarrow> bool" where
  "held k A p \<longleftrightarrow> (\<exists>r. map_of (pf_routers p) k = Some r \<and> A (rt_state r))"

lemma in_router_result:
  assumes "map_of (pf_routers p) j = Some r"
  shows "map_of (pf_routers (snd (in_router j m p))) k =
    (if k = j then Some (re_rt (snd (m \<lparr>re_rt = r, re_io = pf_io p\<rparr>))) else map_of (pf_routers p) k)"
  by (simp add: in_router_def assms update_conv' split: prod.split)

lemma in_router_held: "keeps (in_state A) m \<Longrightarrow> keeps (held k A) (in_router j m)"
  unfolding keeps_def
proof (intro allI impI)
  fix p :: "('a, 'b) pf"
  assume m: "\<forall>w. in_state A w \<longrightarrow> in_state A (snd (m w))" and h: "held k A p"
  show "held k A (snd (in_router j m p))"
  proof (cases "map_of (pf_routers p) j")
    case None
    then show ?thesis using h by (simp add: in_router_def)
  next
    case (Some r)
    show ?thesis using h m [rule_format, of "\<lparr>re_rt = r, re_io = pf_io p\<rparr>"] Some
      by (auto simp: held_def in_router_result [OF Some] in_state_def)
  qed
qed

lemma keeps_pio: "(\<And>p i. P (p\<lparr>pf_io := i\<rparr>) = P p) \<Longrightarrow> keeps P (pio m)"
  by (auto simp: keeps_def pio_def focus_def split: prod.split)

lemma held_prims [keeps_intros]:
  "keeps (held k A) (pio m)" "keeps (held k A) (pexec m')" "keeps (held k A) (pemit al)"
  unfolding pexec_def pemit_def by (rule keeps_pio, simp add: held_def)+

lemma held_upd: "(\<And>p. pf_routers (f p) = pf_routers p) \<Longrightarrow> keeps (held k A) (upd f)"
  by (rule keeps_upd) (simp add: held_def)

lemma held_on_known: "keeps (in_state A) m \<Longrightarrow> keeps (held k A) (on_known j m)"
  unfolding on_known_def by (intro keeps_intros in_router_held)

lemma held_each: "(\<And>j. keeps (held k A) (f j)) \<Longrightarrow> keeps (held k A) (each_router f)"
  unfolding each_router_def by (intro keeps_intros)

section \<open>Frozen routers\<close>

datatype pf_call = PBar histories action | PFast "(int \<times> dec) list" | PEvent event | PReconcile

fun run_pf :: "'x exec_ops \<Rightarrow> pf_call \<Rightarrow> ('x, 's, unit) pop" where
  "run_pf X (PBar hs kill) = pf_on_bar X hs kill"
| "run_pf X (PFast marks) = bind (pf_on_fast X marks) (\<lambda>_. ret ())"
| "run_pf X (PEvent ev) = dispatch X ev"
| "run_pf X PReconcile = bind (reconcile_now X) (\<lambda>_. ret ())"

lemma pf_shutdown_held: "frozen s0 \<Longrightarrow> keeps (held k (\<lambda>s. s = s0)) (pf_shutdown X sn hs)"
  unfolding pf_shutdown_def shutdown_one_def
  by (intro keeps_intros held_each in_router_held in_state_read shutdown_frozen)

lemma check_funding_held: "frozen s0 \<Longrightarrow> keeps (held k (\<lambda>s. s = s0)) (check_funding hs sn)"
  unfolding check_funding_def check_funding_one_def Let_def
  by (auto intro!: keeps_intros held_upd split: prod.split option.split)

lemma pf_on_bar_held: "frozen s0 \<Longrightarrow> keeps (held k (\<lambda>s. s = s0)) (pf_on_bar X hs kill)"
  unfolding pf_on_bar_def bar_one_def
  by (auto intro!: keeps_intros pf_shutdown_held check_funding_held held_on_known on_bar_frozen split: prod.split)

lemma pf_on_fast_held: "frozen s0 \<Longrightarrow> keeps (held k (\<lambda>s. s = s0)) (pf_on_fast X marks)"
  unfolding pf_on_fast_def pnl_check_def Let_def
  by (auto intro!: keeps_intros held_each in_router_held held_on_known check_pending_frozen on_fast_frozen
      held_upd split: prod.split)

lemma restore_stop_held: "frozen s0 \<Longrightarrow> keeps (held k (\<lambda>s. s = s0)) (restore_stop X sn iid d now)"
  unfolding restore_stop_def
  by (auto intro!: keeps_intros held_on_known in_state_rupd)

lemma respond_held: "frozen s0 \<Longrightarrow> keeps (held k (\<lambda>s. s = s0)) (respond X sn m now)"
  unfolding respond_def
  by (auto intro!: keeps_intros in_router_held halt_frozen restore_stop_held
      split: prod.split option.split mismatch_kind.split)

lemma reconcile_held: "frozen s0 \<Longrightarrow> keeps (held k (\<lambda>s. s = s0)) (reconcile_now X)"
  unfolding reconcile_now_def reconcile_one_def refused_def Let_def
  by (auto intro!: keeps_intros respond_held held_upd)

lemma dispatch_held: "frozen s0 \<Longrightarrow> keeps (held k (\<lambda>s. s = s0)) (dispatch X ev)"
  unfolding dispatch_def
  by (auto intro!: keeps_intros reconcile_held held_on_known held_each in_router_held handle_event_frozen
      split: event.split)

lemma run_pf_held: "frozen s0 \<Longrightarrow> keeps (held k (\<lambda>s. s = s0)) (run_pf X c)"
  by (cases c) (auto intro!: keeps_intros pf_on_bar_held pf_on_fast_held dispatch_held reconcile_held)

inductive pf_reaches :: "'x exec_ops \<Rightarrow> ('x, 's) pf \<Rightarrow> ('x, 's) pf \<Rightarrow> bool" for X where
  start: "pf_reaches X p p"
| call: "pf_reaches X p q \<Longrightarrow> run_pf X c q = (r, q') \<Longrightarrow> pf_reaches X p q'"
| outside: "pf_reaches X p q \<Longrightarrow> pf_reaches X p (q\<lparr>pf_io := i\<rparr>)"

text \<open>
  No sequence of bars, marks, events and reconciliations run by the portfolio, with any executor and
  whatever raises on the way, moves a frozen router out of its state: only \<open>clear_halt\<close> does.
\<close>

theorem portfolio_keeps_frozen:
  assumes "pf_reaches X p p'" "map_of (pf_routers p) k = Some r" "frozen (rt_state r)"
  shows "\<exists>r'. map_of (pf_routers p') k = Some r' \<and> rt_state r' = rt_state r"
proof -
  have "held k (\<lambda>s. s = rt_state r) p'"
    using assms
  proof (induction rule: pf_reaches.induct)
    case (call p q c res q')
    then show ?case using keepsD [OF run_pf_held [of "rt_state r" k X c], of q] by simp
  qed (simp_all add: held_def)
  then show ?thesis by (simp add: held_def)
qed

definition sample_pf :: "rstate \<Rightarrow> (sim, unit) pf" where
  "sample_pf st = \<lparr>pf_run = ''r'', pf_routers = [(6, sample_router\<lparr>rt_state := st\<rparr>), (7, sample_router\<lparr>rt_iid := 7\<rparr>)],
     pf_start_equity = Some 1000, pf_pnl_level = None, pf_funding_seen = [], pf_refused = [], pf_io = sample_io\<rparr>"

lemma portfolio_keeps_frozen_witness:
  "\<exists>r'. map_of (pf_routers (snd (run_pf sim_ops PReconcile (sample_pf HALTED)))) 6 = Some r' \<and> rt_state r' = HALTED"
proof -
  have "pf_reaches sim_ops (sample_pf HALTED) (snd (run_pf sim_ops PReconcile (sample_pf HALTED)))"
    by (rule pf_reaches.call [OF pf_reaches.start]) (rule prod.collapse [symmetric])
  from portfolio_keeps_frozen [OF this, of 6] show ?thesis by (simp add: sample_pf_def frozen_def)
qed

section \<open>Shutdown\<close>

lemma nends_shutdown: "nends (in_state frozen) (shutdown X mark sz)"
  unfolding nends_def by (rule allI, rule wp_mono [OF wp_shutdown]) (auto simp: in_state_def frozen_def)

lemma keeps_shutdown: "keeps (in_state frozen) (shutdown X mark sz)"
  unfolding keeps_wp by (intro allI impI, rule wp_mono [OF wp_shutdown]) (auto simp: in_state_def frozen_def)

lemma in_router_ends: "nends (in_state A) m \<Longrightarrow> nends (held k A) (in_router k m)"
  by (auto simp: nends_def wp_iff in_router_def held_def in_state_def update_conv'
      split: option.splits prod.splits)

lemma shutdown_one_ends: "nends (held k frozen) (shutdown_one X hs sn k)"
  unfolding shutdown_one_def by (intro in_router_ends nends_bind nends_shutdown)

lemma forM_ends:
  assumes "\<And>k. k \<in> set ks \<Longrightarrow> nends (Q k) (f k)" "\<And>j k. nkeeps (Q k) (f j)"
  shows "nends (\<lambda>w. \<forall>k \<in> set ks. Q k w) (forM ks f)"
  using assms(1)
proof (induction ks)
  case (Cons k ks)
  have a: "nends (Q k) (forM (k # ks) f)"
    using Cons.prems by (auto intro!: nends_andthen_keeps nkeeps_forM assms(2))
  have b: "nends (\<lambda>w. \<forall>j \<in> set ks. Q j w) (forM (k # ks) f)"
    using Cons by (auto intro!: nends_andthen)
  show ?case using a b by (simp add: nends_def wp_iff)
qed (simp add: nends_def wp_ret)

lemma held_frozen_shutdown: "nkeeps (held k frozen) (shutdown_one X hs sn j)"
  unfolding shutdown_one_def
  by (intro keeps_nkeeps keeps_intros in_router_held in_state_read keeps_shutdown)

lemma shutdown_each: "nends (\<lambda>w. \<forall>k \<in> set ks. held k frozen w) (forM ks (shutdown_one X hs sn))"
  by (rule forM_ends) (intro shutdown_one_ends held_frozen_shutdown)+

lemma same_routers: "keeps (\<lambda>q. pf_routers q = rs) (pio m)" "keeps (\<lambda>q. pf_routers q = rs) (pexec m')"
  "keeps (\<lambda>q. pf_routers q = rs) (pemit al)"
  unfolding pexec_def pemit_def by (rule keeps_pio, simp)+

lemma wp_pf_shutdown:
  fixes q :: "('x, 's) pf"
  shows "wp (pf_shutdown X sn hs) (\<lambda>_ w. \<forall>k \<in> fst ` set (pf_routers q). held k frozen w) (\<lambda>_ _. True) q"
proof -
  have e: "wp (forM (map fst (pf_routers q)) (shutdown_one X hs sn))
      (\<lambda>_ w. \<forall>k \<in> fst ` set (pf_routers q). held k frozen w) (\<lambda>_ _. True) v" for v :: "('x, 's) pf"
    by (rule shutdown_each [of "map fst (pf_routers q)", unfolded nends_def set_map, THEN spec])
  have "wp (bind (get id) (\<lambda>p'. if list_ex (\<lambda>(_, r). \<not> frozen (rt_state r)) (pf_routers p')
       then pemit (shutdown_alert sn (pf_start_equity p')) else ret ())) (\<lambda>_ v. pf_routers v = pf_routers q)
       (\<lambda>_ v. pf_routers v = pf_routers q) q"
    by (rule keeps_wpD [where P = "\<lambda>v. pf_routers v = pf_routers q"])
      (intro keeps_intros same_routers, rule refl)
  then show ?thesis
    unfolding pf_shutdown_def wp_andthen each_router_def wp_bind [of "get (\<lambda>p. map fst (pf_routers p))"] wp_get
    by (rule wp_mono) (simp_all only: e)
qed

text \<open>
  C17. When the kill switch shuts down and the portfolio's bar returns, every router is frozen, not only
  those whose bar just closed.
\<close>

theorem shutdown_freezes_every_router:
  assumes "pf_on_bar X hs Shutdown p = (Inr (), p')" "k \<in> fst ` set (pf_routers p)"
  shows "\<exists>r. map_of (pf_routers p') k = Some r \<and> frozen (rt_state r)"
proof -
  have "wp (pf_on_bar X hs Shutdown) (\<lambda>_ w. \<forall>k \<in> fst ` set (pf_routers p). held k frozen w) (\<lambda>_ _. True) p"
    unfolding pf_on_bar_def if_P [OF refl] wp_bind
    by (rule wp_mono [OF keeps_wpD [OF same_routers(2) refl]]) (metis wp_pf_shutdown, simp)
  then have "held k frozen p'" using assms by (auto simp: wp_iff)
  then show ?thesis by (simp add: held_def)
qed

lemma shutdown_freezes_every_router_witness:
  "\<exists>r. map_of (pf_routers (snd (pf_on_bar sim_ops [] Shutdown (sample_pf FLAT)))) 7 = Some r \<and> frozen (rt_state r)"
proof -
  have "(case fst (pf_on_bar sim_ops [] Shutdown (sample_pf FLAT)) of Inr _ \<Rightarrow> True | Inl _ \<Rightarrow> False)" by code_simp
  then obtain p' where e: "pf_on_bar sim_ops [] Shutdown (sample_pf FLAT) = (Inr (), p')"
    by (cases "pf_on_bar sim_ops [] Shutdown (sample_pf FLAT)") (auto split: sum.splits)
  have "7 \<in> fst ` set (pf_routers (sample_pf FLAT))" by (simp add: sample_pf_def)
  from shutdown_freezes_every_router [OF e this] show ?thesis by (simp only: e snd_conv)
qed

end
