(* ===== verification/Entry_Caps.thy ===== *)
theory Entry_Caps
  imports Router_Send Router_Machine Portfolio_Laws
begin

text \<open>
  Two entries of one bar: what a router starts to wait on in its turn, what the turns of the others leave of it, and
  the caps over a whole bar of the portfolio (\<open>Portfolio.on_bar\<close>, \<open>Portfolio._in_flight\<close> and
  \<open>InstrumentRouter.on_bar\<close> with the guards).
\<close>

section \<open>What a router sends for an entry\<close>

text \<open>The intent a router waits on is the one it sent.\<close>

lemma keeps_intent [keeps_intros]:
  "keeps (\<lambda>w. rt_pending_intent (re_rt w) = x) (set_state s)"
  "keeps (\<lambda>w. rt_pending_intent (re_rt w) = x) (halt reason)"
  "keeps (\<lambda>w. rt_pending_intent (re_rt w) = x) (record_decision t v i c n)"
  unfolding set_state_def halt_def record_decision_def
  by (intro keeps_intros keeps_rupd keeps_rt keeps_persist keeps_ralert; simp)+

lemma keeps_intent_adopt [keeps_intros]: "keeps (\<lambda>w. rt_pending_intent (re_rt w) = x) (adopt X sn)"
  unfolding adopt_def
  by (intro keeps_intros keeps_rupd keeps_rt keeps_persist keeps_ralert keeps_rget; simp)













section \<open>The bar of the portfolio\<close>




























end
