(* ===== verification/Float_Stats.thy ===== *)
theory Float_Stats
  imports Decimal_Arith
begin

text \<open>
  The functions of Python's \<open>statistics\<close> module the program calls, on lists of binary floats held as
  rationals. \<open>mean\<close> and \<open>stdev\<close> sum exactly and round once at the end; \<open>stdev\<close> ends in a correctly
  rounded square root. Infinities and NaN are outside the model, as they are for \<^const>\<open>fl\<close>.
\<close>

section \<open>Integer square root\<close>

function isqrt :: "int \<Rightarrow> int" where
  "isqrt n = (if n \<le> 0 then 0 else
     let r = 2 * isqrt (n div 4) in if (r + 1) * (r + 1) \<le> n then r + 1 else r)"
  by pat_completeness auto
termination
  by (relation "measure nat") auto

declare isqrt.simps [simp del]

lemma isqrt_bounds: "0 \<le> n \<Longrightarrow> 0 \<le> isqrt n \<and> isqrt n * isqrt n \<le> n \<and> n < (isqrt n + 1) * (isqrt n + 1)"
proof (induction n rule: isqrt.induct)
  case (1 n)
  show ?case
  proof (cases "n = 0")
    case True
    then show ?thesis by (simp add: isqrt.simps [of 0])
  next
    case False
    let ?r = "isqrt (n div 4)"
    have IH: "0 \<le> ?r" "?r * ?r \<le> n div 4" "n div 4 < (?r + 1) * (?r + 1)" using 1 False by auto
    have d: "4 * (n div 4) \<le> n" "n < 4 * (n div 4) + 4" by linarith+
    have lo: "2 * ?r * (2 * ?r) \<le> n" using IH(2) d(1) by linarith
    have hi: "n < (2 * ?r + 1 + 1) * (2 * ?r + 1 + 1)" using IH(3) d(2) by (simp add: algebra_simps)
    show ?thesis using False 1 IH(1) lo hi by (auto simp: isqrt.simps [of n] Let_def)
  qed
qed

text \<open>
  The square root of a positive rational rounded once to 53 bits: the integer root of a scaling with at least
  56 significant bits, half a unit added when it is not exact (no 53-bit value or midpoint lies strictly
  between two integers of that size).
\<close>

definition sqrt_scale :: "rat \<Rightarrow> nat" where
  "sqrt_scale q = nat ((114 - mag 2 q) div 2)"

definition fl_sqrt :: "rat \<Rightarrow> rat" where
  "fl_sqrt q =
     (if q \<le> 0 then 0
      else
        let k = sqrt_scale q; a = q * 4 ^ k; r = isqrt \<lfloor>a\<rfloor>;
            x = (if of_int (r * r) = a then of_int r else of_int r + 1/2) in
        fl (x / 2 ^ k))"

section \<open>Mean and standard deviation\<close>

definition exact_mean :: "rat list \<Rightarrow> rat" where
  "exact_mean xs = sum_list xs / of_nat (length xs)"

definition fmean :: "rat list \<Rightarrow> rat" where
  "fmean xs = fl (exact_mean xs)"

definition square_dev :: "rat list \<Rightarrow> rat" where
  "square_dev xs = sum_list (map (\<lambda>x. (x - exact_mean xs) * (x - exact_mean xs)) xs)"

definition fstdev :: "rat list \<Rightarrow> rat" where
  "fstdev xs = fl_sqrt (square_dev xs / of_nat (length xs - 1))"

lemma fl_minus: "fl (- x) = - fl x"
  by (simp add: fl_def)

lemma fl_0 [simp]: "fl 0 = 0"
  by (simp add: fl_def)

lemma fl_relative: "\<bar>fl x - x\<bar> \<le> \<bar>x\<bar> / 2 ^ 53"
proof -
  have "bpow 2 (1 - int 53) = (1 / 2 ^ 52 :: rat)" by code_simp
  then show ?thesis using rnd_error [of 2 53 x] by (simp add: fl_def)
qed

lemma fl_abs: "\<bar>x\<bar> \<le> c \<Longrightarrow> \<bar>fl x - x\<bar> \<le> c / 2 ^ 53"
  using fl_relative [of x] by (meson divide_right_mono dual_order.trans zero_le_numeral zero_le_power)

lemma fl_mono: "x \<le> y \<Longrightarrow> fl x \<le> fl y"
  unfolding fl_def by (rule rnd_mono) simp_all

lemma abs_within: "\<bar>x - y :: rat\<bar> \<le> c \<Longrightarrow> y - c \<le> x" "\<bar>x - y :: rat\<bar> \<le> c \<Longrightarrow> x \<le> y + c"
  by linarith+

lemma fl_pos: "0 < x \<Longrightarrow> 0 < fl x"
  by (simp add: fl_def rnd_pos)

lemma fl_neg: "x < 0 \<Longrightarrow> fl x < 0"
  using fl_pos [of "- x"] by (simp add: fl_minus)

lemma fl_pos_iff [simp]: "0 < fl x \<longleftrightarrow> 0 < x"
  using fl_neg [of x] by (cases x "0 :: rat" rule: linorder_cases) (auto simp: fl_pos)

lemma fl_neg_iff [simp]: "fl x < 0 \<longleftrightarrow> x < 0"
  using fl_pos_iff [of "- x"] by (simp add: fl_minus)

lemma fl_eq_0_iff [simp]: "fl x = 0 \<longleftrightarrow> x = 0"
  by (metis fl_0 fl_neg fl_pos less_irrefl linorder_neqE)

lemma square_dev_nonneg: "0 \<le> square_dev xs"
  unfolding square_dev_def by (rule sum_list_nonneg) auto

lemma sqrt_scale_big: "0 < q \<Longrightarrow> 1 \<le> q * 4 ^ sqrt_scale q"
proof (cases "1 \<le> q")
  case True
  moreover have "(1 :: rat) \<le> 4 ^ sqrt_scale q" by simp
  ultimately show ?thesis using mult_mono [of 1 q 1 "4 ^ sqrt_scale q"] by simp
next
  case False
  assume q: "0 < q"
  have m: "bpow 2 (mag 2 q) \<le> q" using mag_bounds [of 2 q] q by simp
  have "mag 2 q \<le> 0" using False q m by (simp add: mag_def)
  then have "0 \<le> mag 2 q + 2 * int (sqrt_scale q)" by (simp add: sqrt_scale_def)
  then have "1 \<le> bpow 2 (mag 2 q + 2 * int (sqrt_scale q))" using bpow_mono [of 2 0] by force
  also have "\<dots> = bpow 2 (mag 2 q) * 4 ^ sqrt_scale q"
    by (simp add: power_int_add power_int_mult)
  also have "\<dots> \<le> q * 4 ^ sqrt_scale q" using m by (intro mult_right_mono) auto
  finally show ?thesis .
qed

lemma fl_sqrt_pos: "0 < q \<Longrightarrow> 0 < fl_sqrt q"
proof -
  assume q: "0 < q"
  let ?a = "\<lfloor>q * 4 ^ sqrt_scale q\<rfloor>"
  have "1 \<le> ?a" using sqrt_scale_big [OF q] by simp
  then have "0 < isqrt ?a" using isqrt_bounds [of ?a] by (cases "isqrt ?a = 0") auto
  then show ?thesis using q by (simp add: fl_sqrt_def Let_def)
qed

lemma sum_list_0_iff: "\<forall>x \<in> set xs. 0 \<le> x \<Longrightarrow> sum_list xs = 0 \<longleftrightarrow> (\<forall>x \<in> set xs. x = (0 :: rat))"
  by (induction xs) (auto simp: add_nonneg_eq_0_iff sum_list_nonneg)

text \<open>The standard deviation is 0 exactly for a flat list.\<close>

lemma fstdev_0_iff: "2 \<le> length xs \<Longrightarrow> fstdev xs = 0 \<longleftrightarrow> (\<forall>x \<in> set xs. x = exact_mean xs)"
proof -
  assume l: "2 \<le> length xs"
  have "fstdev xs = 0 \<longleftrightarrow> square_dev xs = 0"
  proof (cases "square_dev xs = 0")
    case False
    then have "0 < square_dev xs / of_nat (length xs - 1)" using l square_dev_nonneg [of xs] by simp
    then show ?thesis using False fl_sqrt_pos by (fastforce simp: fstdev_def)
  qed (simp add: fstdev_def fl_sqrt_def)
  also have "\<dots> \<longleftrightarrow> (\<forall>x \<in> set xs. x = exact_mean xs)"
    unfolding square_dev_def by (subst sum_list_0_iff) auto
  finally show ?thesis .
qed

lemma fstdev_nonneg: "0 \<le> fstdev xs"
  using fl_sqrt_pos [of "square_dev xs / of_nat (length xs - 1)"]
  by (cases "0 < square_dev xs / of_nat (length xs - 1)") (auto simp: fstdev_def fl_sqrt_def)

end
