(* ===== verification/Strategies.thy ===== *)
theory Strategies
  imports Backtest Float_Stats
begin

text \<open>
  \<open>polyperps/strategies/\<close>: the six pre-registered strategies, their z-score, the grids and the factory. A
  strategy object is a state (\<open>_position\<close>, \<open>_held\<close>) and its parameters; its methods become the
  \<open>strat_ops\<close> the harness and the router run. The proxy closes of h2 and h4 are a map keyed by hour.
\<close>

section \<open>The z-score\<close>

definition zscore :: "dec list \<Rightarrow> dec option" where
  "zscore values =
     (if length values < 3 then None
      else
        let xs = map fl values; sd = fstdev xs in
        if sd = 0 then Some 0
        else Some (repr_dec (fl (fl (last xs - fmean xs) / sd))))"

section \<open>State and shared steps\<close>

record strat_state =
  sv_position :: dec
  sv_held :: int

definition strat_new :: strat_state where
  "strat_new = \<lparr>sv_position = 0, sv_held = 0\<rparr>"

type_synonym 'a sop = "(strat_state, 'a) eff"

text \<open>Store a position and return it.\<close>

definition take_side :: "dec \<Rightarrow> dec sop" where
  "take_side x = andthen (upd (\<lambda>s. s\<lparr>sv_position := x\<rparr>)) (ret x)"

definition stay :: "dec sop" where
  "stay = get sv_position"

definition start_side :: "dec \<Rightarrow> dec sop" where
  "start_side x = andthen (upd (\<lambda>s. s\<lparr>sv_position := x, sv_held := 0\<rparr>)) (ret x)"

text \<open>The fade of h1 and h2: against a stretched z, flat inside the exit band.\<close>

definition fade :: "dec \<Rightarrow> dec \<Rightarrow> dec option \<Rightarrow> dec sop" where
  "fade entry_z exit_z zo =
     (case zo of
        None \<Rightarrow> stay
      | Some z \<Rightarrow>
          if entry_z \<le> z then take_side (- 1)
          else if z \<le> dneg entry_z then take_side 1
          else if dabs z < exit_z then take_side 0
          else stay)"

text \<open>The holding rule of h3, h4 and h5 while a position is open.\<close>

definition hold_on :: "int \<Rightarrow> dec sop" where
  "hold_on hold_bars =
     andthen (upd (\<lambda>s. s\<lparr>sv_held := sv_held s + 1\<rparr>))
       (bind (get sv_held) (\<lambda>held. if hold_bars \<le> held then start_side 0 else stay))"

text \<open>
  The loop of h2 and h5: walk back collecting values until there are \<open>n\<close>; the result is in time order.
\<close>

definition newest_first :: "nat \<Rightarrow> 'a list \<Rightarrow> 'a list" where
  "newest_first n xs = (if n = 0 then xs else take n xs)"

definition nonzero :: "dec option \<Rightarrow> dec option" where
  "nonzero x = (case x of None \<Rightarrow> None | Some v \<Rightarrow> if v = 0 then None else Some v)"

section \<open>The targets\<close>

definition funding_reversion :: "nat \<Rightarrow> dec \<Rightarrow> dec \<Rightarrow> bar list \<Rightarrow> dec sop" where
  "funding_reversion lookback entry_z exit_z history =
     fade entry_z exit_z (zscore (List.map_filter br_funding (last_n lookback history)))"

definition EXIT_Z :: dec where "EXIT_Z = 1/2"

definition basis_pair :: "(time \<Rightarrow> dec option) \<Rightarrow> bar \<Rightarrow> dec option" where
  "basis_pair proxy b =
     (case (br_close b, nonzero (proxy (br_open_ts b))) of
        (Some c, Some hl) \<Rightarrow> Some (dsub (ctx (c / hl)) 1)
      | _ \<Rightarrow> None)"

definition basis :: "nat \<Rightarrow> dec \<Rightarrow> (time \<Rightarrow> dec option) \<Rightarrow> bar list \<Rightarrow> dec sop" where
  "basis lookback entry_z proxy history =
     (if history = [] \<or> basis_pair proxy (last history) = None then take_side 0
      else
        let window = newest_first lookback (List.map_filter (basis_pair proxy) (rev history)) in
        if length window < lookback then take_side 0
        else fade entry_z EXIT_Z (zscore (rev window)))"

definition index_lag :: "dec \<Rightarrow> int \<Rightarrow> bar list \<Rightarrow> dec sop" where
  "index_lag entry_bps hold_bars history =
     (if history = [] then raise (Exn IndexError [S ''list index out of range''])
      else
        case (nonzero (br_index_close (last history)), br_close (last history)) of
          (Some ix, Some c) \<Rightarrow>
            bind (get sv_position) (\<lambda>pos.
              if pos \<noteq> 0 then hold_on hold_bars
              else
                let premium_bps = dmul (dsub (ctx (c / ix)) 1) BPS in
                if premium_bps \<le> dneg entry_bps then start_side 1
                else if entry_bps \<le> premium_bps then start_side (- 1)
                else start_side pos)
        | _ \<Rightarrow> start_side 0)"

text \<open>The close-to-close return of two bars exactly an hour apart.\<close>

definition hour_return :: "bar \<Rightarrow> bar \<Rightarrow> dec option" where
  "hour_return prev cur =
     (if br_open_ts cur - br_open_ts prev \<noteq> HOUR then None
      else
        case (nonzero (br_close prev), nonzero (br_close cur)) of
          (Some p, Some c) \<Rightarrow> Some (dsub (ctx (c / p)) 1)
        | _ \<Rightarrow> None)"

definition lead_lag :: "dec \<Rightarrow> int \<Rightarrow> (time \<Rightarrow> dec option) \<Rightarrow> bar list \<Rightarrow> dec sop" where
  "lead_lag gap_bps hold_bars proxy history =
     bind (get sv_position) (\<lambda>pos.
       if pos \<noteq> 0 then hold_on hold_bars
       else if length history < 2 then stay
       else
         let p = history ! (length history - 2); c = last history in
         case (hour_return p c, nonzero (proxy (br_open_ts p)), nonzero (proxy (br_open_ts c))) of
           (Some r_pm, Some hl_p, Some hl_c) \<Rightarrow>
             let r_hl = dsub (ctx (hl_c / hl_p)) 1; lag = dsub r_hl r_pm; gap = ctx (gap_bps / BPS) in
             if gap \<le> dabs r_hl \<and> 0 < dmul lag r_hl \<and> gap \<le> dabs lag
             then start_side (if 0 < r_hl then 1 else - 1) else stay
         | _ \<Rightarrow> stay)"

definition LOOKBACK :: nat where "LOOKBACK = 168"
definition MIN_MOVE_BPS :: dec where "MIN_MOVE_BPS = 30"

definition overshoot :: "dec \<Rightarrow> int \<Rightarrow> bar list \<Rightarrow> dec sop" where
  "overshoot entry_z hold_bars history =
     bind (get sv_position) (\<lambda>pos.
       if pos \<noteq> 0 then hold_on hold_bars
       else if length history < 2 then stay
       else
         case hour_return (history ! (length history - 2)) (last history) of
           None \<Rightarrow> stay
         | Some r_t \<Rightarrow>
             let window = newest_first LOOKBACK (List.map_filter (\<lambda>(p, c). hour_return p c)
                    (rev (zip history (tl history)))) in
             if length window < LOOKBACK then stay
             else
               case zscore (rev window) of
                 None \<Rightarrow> stay
               | Some z \<Rightarrow>
                   if entry_z \<le> dabs z \<and> MIN_MOVE_BPS \<le> dmul (dabs r_t) BPS
                   then start_side (if 0 < r_t then - 1 else 1) else stay)"

definition funding_carry :: "dec \<Rightarrow> nat \<Rightarrow> bar list \<Rightarrow> dec sop" where
  "funding_carry entry_bps_h smooth_hours history =
     (let rates = take smooth_hours (List.map_filter br_funding (rev history)) in
      if length rates < smooth_hours then stay
      else if rates = [] then raise (Exn (OtherException ''ZeroDivisionError'') [])
      else
        let f = dmul (ctx (dsum rates / of_nat (length rates))) BPS; half = ctx (entry_bps_h / 2) in
        if entry_bps_h \<le> f then take_side (- 1)
        else if f \<le> dneg entry_bps_h then take_side 1
        else
          bind (get sv_position) (\<lambda>pos.
            if (pos < 0 \<and> f < half) \<or> (0 < pos \<and> dneg half < f) then take_side 0 else stay))"

section \<open>The strategies as operations\<close>

datatype hypothesis =
    H1 nat dec dec
  | H2 nat dec "time \<Rightarrow> dec option"
  | H3 dec int
  | H4 dec int "time \<Rightarrow> dec option"
  | H5 dec int
  | H6 dec nat

fun target_of :: "hypothesis \<Rightarrow> bar list \<Rightarrow> dec sop" where
  "target_of (H1 lb ez xz) = funding_reversion lb ez xz"
| "target_of (H2 lb ez proxy) = basis lb ez proxy"
| "target_of (H3 eb hb) = index_lag eb hb"
| "target_of (H4 gb hb proxy) = lead_lag gb hb proxy"
| "target_of (H5 ez hb) = overshoot ez hb"
| "target_of (H6 eb sh) = funding_carry eb sh"

fun hypothesis_name :: "hypothesis \<Rightarrow> string" where
  "hypothesis_name (H1 _ _ _) = ''h1_funding_reversion''"
| "hypothesis_name (H2 _ _ _) = ''h2_basis''"
| "hypothesis_name (H3 _ _) = ''h3_index_lag''"
| "hypothesis_name (H4 _ _ _) = ''h4_lead_lag''"
| "hypothesis_name (H5 _ _) = ''h5_overshoot''"
| "hypothesis_name (H6 _ _) = ''h6_funding_carry''"

fun hypothesis_warmup :: "hypothesis \<Rightarrow> nat" where
  "hypothesis_warmup (H1 lb _ _) = lb"
| "hypothesis_warmup (H2 lb _ _) = lb"
| "hypothesis_warmup (H3 _ _) = 1"
| "hypothesis_warmup (H4 _ _ _) = 2"
| "hypothesis_warmup (H5 _ _) = LOOKBACK + 1"
| "hypothesis_warmup (H6 _ sh) = sh"

text \<open>The \<open>params\<close> each strategy shows of itself.\<close>

fun hypothesis_params :: "hypothesis \<Rightarrow> (string \<times> text_t) list" where
  "hypothesis_params (H1 lb ez xz) = [(''lookback'', [I (int lb)]), (''entry_z'', [D ez]), (''exit_z'', [D xz])]"
| "hypothesis_params (H2 lb ez _) = [(''lookback'', [I (int lb)]), (''entry_z'', [D ez])]"
| "hypothesis_params (H3 eb hb) = [(''entry_bps'', [D eb]), (''hold_bars'', [I hb])]"
| "hypothesis_params (H4 gb hb _) = [(''gap_bps'', [D gb]), (''hold_bars'', [I hb])]"
| "hypothesis_params (H5 ez hb) = [(''entry_z'', [D ez]), (''hold_bars'', [I hb])]"
| "hypothesis_params (H6 eb sh) = [(''entry_bps_h'', [D eb]), (''smooth_hours'', [I (int sh)])]"

text \<open>h3, h4 and h5 keep a holding count and reset it on a flatten.\<close>

fun holds_bars :: "hypothesis \<Rightarrow> bool" where
  "holds_bars (H3 _ _) = True"
| "holds_bars (H4 _ _ _) = True"
| "holds_bars (H5 _ _) = True"
| "holds_bars _ = False"

definition flatten_of :: "hypothesis \<Rightarrow> unit sop" where
  "flatten_of h = upd (\<lambda>s. if holds_bars h then s\<lparr>sv_position := 0, sv_held := 0\<rparr> else s\<lparr>sv_position := 0\<rparr>)"

definition recover_of :: "int \<Rightarrow> unit sop" where
  "recover_of position_sign = upd (\<lambda>s. s\<lparr>sv_position := of_int position_sign\<rparr>)"

definition strategy_of :: "hypothesis \<Rightarrow> strat_state strat_ops" where
  "strategy_of h = \<lparr>st_name = hypothesis_name h, st_params = hypothesis_params h, st_warmup = hypothesis_warmup h,
     st_target = target_of h,
     st_on_flatten = Some (flatten_of h), st_on_recover = Some recover_of\<rparr>"

section \<open>Grids and the factory\<close>

datatype param = PInt int | PDec dec

type_synonym params = "(string \<times> param) list"

definition int_param :: "params \<Rightarrow> string \<Rightarrow> int res" where
  "int_param ps k = (case map_of ps k of Some (PInt n) \<Rightarrow> Inr n | _ \<Rightarrow> Inl (Exn TypeError [S k]))"

text \<open>A \<open>Decimal\<close> parameter given as an int works in every comparison and product.\<close>

definition dec_param :: "params \<Rightarrow> string \<Rightarrow> dec res" where
  "dec_param ps k = (case map_of ps k of Some (PDec x) \<Rightarrow> Inr x | Some (PInt n) \<Rightarrow> Inr (of_int n)
     | None \<Rightarrow> Inl (Exn TypeError [S k]))"

text \<open>\<open>Cls(**params)\<close>: a missing or an unexpected keyword raises.\<close>

definition exact_keys :: "string list \<Rightarrow> params \<Rightarrow> unit res" where
  "exact_keys ks ps =
     (if set (map fst ps) = set ks then Inr () else Inl (Exn TypeError [S ''unexpected or missing argument'']))"

definition build_strategy :: "string \<Rightarrow> params \<Rightarrow> (time \<Rightarrow> dec option) option \<Rightarrow> hypothesis res" where
  "build_strategy h ps proxy =
     (if h = ''h1'' then
        rbind (exact_keys [''lookback'', ''entry_z'', ''exit_z''] ps) (\<lambda>_. rbind (int_param ps ''lookback'') (\<lambda>lb.
        rbind (dec_param ps ''entry_z'') (\<lambda>ez. rmap (\<lambda>xz. H1 (nat lb) ez xz) (dec_param ps ''exit_z''))))
      else if h = ''h2'' then
        (case proxy of
           None \<Rightarrow> Inl (Exn ValueError [S ''h2 needs proxy_close_by_hour''])
         | Some px \<Rightarrow>
             rbind (exact_keys [''lookback'', ''entry_z''] ps) (\<lambda>_. rbind (int_param ps ''lookback'') (\<lambda>lb.
             rmap (\<lambda>ez. H2 (nat lb) ez px) (dec_param ps ''entry_z''))))
      else if h = ''h3'' then
        rbind (exact_keys [''entry_bps'', ''hold_bars''] ps) (\<lambda>_. rbind (dec_param ps ''entry_bps'') (\<lambda>eb.
        rmap (\<lambda>hb. H3 eb hb) (int_param ps ''hold_bars'')))
      else if h = ''h4'' then
        (case proxy of
           None \<Rightarrow> Inl (Exn ValueError [S ''h4 needs proxy_close_by_hour''])
         | Some px \<Rightarrow>
             rbind (exact_keys [''gap_bps'', ''hold_bars''] ps) (\<lambda>_. rbind (dec_param ps ''gap_bps'') (\<lambda>gb.
             rmap (\<lambda>hb. H4 gb hb px) (int_param ps ''hold_bars''))))
      else if h = ''h5'' then
        rbind (exact_keys [''entry_z'', ''hold_bars''] ps) (\<lambda>_. rbind (dec_param ps ''entry_z'') (\<lambda>ez.
        rmap (\<lambda>hb. H5 ez hb) (int_param ps ''hold_bars'')))
      else if h = ''h6'' then
        rbind (exact_keys [''entry_bps_h'', ''smooth_hours''] ps) (\<lambda>_. rbind (dec_param ps ''entry_bps_h'') (\<lambda>eb.
        rmap (\<lambda>sh. H6 eb (nat sh)) (int_param ps ''smooth_hours'')))
      else Inl (Exn ValueError [S ''unknown hypothesis '', S h]))"

definition grid :: "('a \<Rightarrow> 'b \<Rightarrow> params) \<Rightarrow> 'a list \<Rightarrow> 'b list \<Rightarrow> params list" where
  "grid f as bs = concat (map (\<lambda>a. map (f a) bs) as)"

definition GRIDS :: "(string \<times> params list) list" where
  "GRIDS =
     [(''h1'', grid (\<lambda>lb ez. [(''lookback'', PInt lb), (''entry_z'', PDec ez), (''exit_z'', PDec (1/2))])
        [48, 168] [3/2, 2]),
      (''h2'', grid (\<lambda>lb ez. [(''lookback'', PInt lb), (''entry_z'', PDec ez)]) [24, 72] [2, 3]),
      (''h3'', grid (\<lambda>eb hb. [(''entry_bps'', PDec eb), (''hold_bars'', PInt hb)]) [10, 25] [1, 3]),
      (''h4'', grid (\<lambda>gb hb. [(''gap_bps'', PDec gb), (''hold_bars'', PInt hb)]) [25, 50] [1, 3]),
      (''h5'', grid (\<lambda>ez hb. [(''entry_z'', PDec ez), (''hold_bars'', PInt hb)]) [5/2, 7/2] [3, 6]),
      (''h6'', grid (\<lambda>eb sh. [(''entry_bps_h'', PDec eb), (''smooth_hours'', PInt sh)]) [1/2, 1] [1, 6])]"

end
