(* ===== verification/Backtest_Laws.thy ===== *)
theory Backtest_Laws
  imports Backtest Router_Step "HOL-Library.Sublist"
begin

text \<open>
  Laws of the backtest: what a run can do with the position (bounded, never flipped in one trade, never
  carried over a hole in the data) and what it can see of the bars (only those up to the current one).
\<close>

lemma forM_append: "forM (xs @ ys) f = andthen (forM xs f) (forM ys f)"
  by (induction xs) (auto simp: andthen_def bind_def ret_def fun_eq_iff split: prod.splits sum.splits)

lemma forM_snoc: "forM (xs @ [x]) f = andthen (forM xs f) (f x)"
  unfolding forM_append by (auto simp: andthen_def bind_def ret_def fun_eq_iff split: prod.splits sum.splits)

section \<open>The track of positions\<close>

text \<open>
  The book abstracted to its position and the positions of its ledger rows. Every trade and every log entry
  appends the position it leaves.
\<close>

definition track :: "'s bt \<Rightarrow> dec list" where
  "track b = map lg_position (br_ledger (bk_res b))"

definition same_side :: "dec \<Rightarrow> dec \<Rightarrow> bool" where
  "same_side x y \<longleftrightarrow> x = 0 \<or> y = 0 \<or> (0 < x \<longleftrightarrow> 0 < y)"

definition on_track :: "'s bt \<Rightarrow> bool" where
  "on_track b \<longleftrightarrow> \<bar>bk_position b\<bar> \<le> 1 \<and> list_all (\<lambda>x. \<bar>x\<bar> \<le> 1) (track b)
     \<and> successively same_side (track b)
     \<and> (track b = [] \<longrightarrow> bk_position b = 0) \<and> (track b \<noteq> [] \<longrightarrow> last (track b) = bk_position b)"

lemma same_side_refl [simp]: "same_side x x" "same_side x 0" "same_side 0 x"
  by (simp_all add: same_side_def)

lemma on_track_append:
  assumes "on_track b" "same_side (bk_position b) x" "\<bar>x\<bar> \<le> 1" "bk_position b' = x" "track b' = track b @ [x]"
  shows "on_track b'"
  using assms by (cases "track b = []") (auto simp: on_track_def successively_append_iff)

lemma on_track_same: "on_track b \<Longrightarrow> bk_position b' = bk_position b \<Longrightarrow> track b' = track b \<Longrightarrow> on_track b'"
  by (simp add: on_track_def)

lemma track_simps [simp]:
  "track (b\<lparr>bk_cash := c\<rparr>) = track b" "track (b\<lparr>bk_position := p\<rparr>) = track b"
  "track (b\<lparr>bk_entry := e\<rparr>) = track b" "track (b\<lparr>bk_funding := f\<rparr>) = track b"
  "track (b\<lparr>bk_strat := s\<rparr>) = track b" "track (b\<lparr>bk_last_equity := q\<rparr>) = track b"
  by (simp_all add: track_def)

text \<open>What an effect does to position and track when it returns; \<open>still\<close> effects leave both alone.\<close>

definition goes :: "(dec \<Rightarrow> dec \<Rightarrow> dec list \<Rightarrow> bool) \<Rightarrow> ('s, 'a) bop \<Rightarrow> bool" where
  "goes R m \<longleftrightarrow> (\<forall>b a b'. m b = (Inr a, b') \<longrightarrow>
     (\<exists>l. track b' = track b @ l \<and> R (bk_position b) (bk_position b') l))"

definition still :: "('s, 'a) bop \<Rightarrow> bool" where
  "still m \<longleftrightarrow> (\<forall>b a b'. m b = (Inr a, b') \<longrightarrow> track b' = track b \<and> bk_position b' = bk_position b)"

named_theorems still_intros

lemma still_bind [still_intros]: "still m \<Longrightarrow> (\<And>a. still (f a)) \<Longrightarrow> still (bind m f)"
  by (auto simp: still_def bind_def split: prod.splits sum.splits)

lemma still_andthen [still_intros]: "still m \<Longrightarrow> still n \<Longrightarrow> still (andthen m n)"
  unfolding andthen_def by (rule still_bind)

lemma still_prims [still_intros]:
  "still (get g)" "still (getr h)" "still (lift r)" "still (ret a)" "still (bstrat e)"
  by (auto simp: still_def get_def getr_def lift_def ret_def bstrat_def focus_def split: prod.splits)

lemma still_upd: "(\<And>b. bk_position (f b) = bk_position b \<and> bk_res (f b) = bk_res b) \<Longrightarrow> still (upd f)"
  by (simp add: still_def upd_def track_def)

lemma still_bres: "(\<And>r. br_ledger (f r) = br_ledger r) \<Longrightarrow> still (bres f)"
  by (simp add: still_def bres_def upd_def track_def)

lemma still_if [still_intros]: "still m \<Longrightarrow> still n \<Longrightarrow> still (if c then m else n)" by simp

lemma still_case_option [still_intros]:
  "still m \<Longrightarrow> (\<And>a. still (f a)) \<Longrightarrow> still (case x of None \<Rightarrow> m | Some a \<Rightarrow> f a)" by (simp split: option.split)

lemma goes_bind: "still m \<Longrightarrow> (\<And>a. goes R (f a)) \<Longrightarrow> goes R (bind m f)"
  by (simp add: goes_def still_def bind_def split: prod.splits sum.splits) metis

lemma goes_andthen: "still m \<Longrightarrow> goes R n \<Longrightarrow> goes R (andthen m n)"
  unfolding andthen_def by (rule goes_bind)

lemma goes_after: "goes R m \<Longrightarrow> still n \<Longrightarrow> goes R (andthen m n)"
  by (simp add: goes_def still_def andthen_def bind_def split: prod.splits sum.splits)

lemma goes_seq: "goes R m \<Longrightarrow> goes T n \<Longrightarrow>
    goes (\<lambda>p q l. \<exists>p' l1 l2. R p p' l1 \<and> T p' q l2 \<and> l = l1 @ l2) (andthen m n)"
  unfolding goes_def andthen_def bind_def by (auto split: prod.splits sum.splits) (metis append_assoc)

lemma goes_get: "(\<And>p. goes (\<lambda>p' q l. p' = p \<longrightarrow> R p' q l) (f p)) \<Longrightarrow> goes R (bind (get bk_position) f)"
  unfolding goes_def bind_def get_def by simp blast

lemma goes_setpos: "(\<And>b. bk_position (f b) = x \<and> bk_res (f b) = bk_res b) \<Longrightarrow>
    goes (\<lambda>p q l. p = x \<longrightarrow> R q l) n \<Longrightarrow> goes (\<lambda>p. R) (andthen (upd f) n)"
  by (simp add: goes_def andthen_def bind_def upd_def track_def) metis

lemma goes_mono: "goes R m \<Longrightarrow> (\<And>p q l. R p q l \<Longrightarrow> R' p q l) \<Longrightarrow> goes R' m"
  unfolding goes_def by blast

lemma goes_still: "still m \<Longrightarrow> (\<And>p. R p p []) \<Longrightarrow> goes R m"
  by (simp add: goes_def still_def)

lemma blog_goes: "goes (\<lambda>p q l. q = p \<and> l = [p]) (blog bp ts k pr d n)"
  by (auto simp: goes_def blog_def bind_def getr_def get_def bres_def upd_def track_def split: sum.splits)

lemma bmark_goes: "goes (\<lambda>p q l. q = p \<and> l = [p]) (bmark bp ts pr)"
  unfolding bmark_def
  by (intro goes_bind goes_andthen still_intros still_bres still_upd blog_goes) simp_all

lemma settle_entry_still: "still (settle_entry bp target delta old price)"
  unfolding settle_entry_def realise_def by (intro still_intros still_upd still_bres) simp_all

lemma bt_flattened_still: "still (bt_flattened st)"
  unfolding bt_flattened_def by (intro still_intros still_upd) simp_all

lemma dsub_eq_0: "dsub x y = 0 \<longleftrightarrow> x = y"
  by (simp add: dsub_def)

lemma write_trade_goes: "goes (\<lambda>p q l. q = target \<and> l = [target]) (write_trade bp st target delta e leg cost price ts k n)"
  unfolding write_trade_def
  by (rule goes_setpos, simp, rule goes_mono, rule goes_andthen [OF _ goes_after [OF blog_goes]])
    (auto intro: still_bres still_intros bt_flattened_still)

lemma trade_to_goes:
  "goes (\<lambda>p q l. q = target \<and> l = (if target = p then [] else [target])) (trade_to bp st target price sp ts k n)"
  unfolding trade_to_def Let_def
proof (rule goes_get)
  fix p
  show "goes (\<lambda>p' q l. p' = p \<longrightarrow> q = target \<and> l = (if target = p' then [] else [target]))
     (if dsub target p = 0 then ret () else
         bind (get bk_entry) (\<lambda>old_entry. bind (settle_entry bp target (dsub target p) p price) (\<lambda>new_entry.
         bind (lift (leg_value bp target (dsub target p) p old_entry price)) (\<lambda>leg.
         bind (lift (fill_cost (fst leg) (bp_notional bp) sp (bp_fee bp) (bp_impact bp))) (\<lambda>cost.
         write_trade bp st target (dsub target p) new_entry leg cost price ts k n)))))"
  proof (cases "target = p")
    case True
    then show ?thesis by (simp add: dsub_eq_0) (rule goes_still, simp_all add: still_intros)
  next
    case False
    then show ?thesis
      by (simp add: dsub_eq_0)
        (intro goes_bind still_intros settle_entry_still goes_mono [OF write_trade_goes], auto)
  qed
qed

section \<open>The steps of a bar\<close>

text \<open>Every step moves the position, if at all, to 0 or, on the decision, to a clamped target on the same side.\<close>

definition steady :: "dec \<Rightarrow> dec \<Rightarrow> dec list \<Rightarrow> bool" where
  "steady p q l \<longleftrightarrow> (\<bar>p\<bar> \<le> 1 \<longrightarrow> \<bar>q\<bar> \<le> 1 \<and> list_all (\<lambda>x. \<bar>x\<bar> \<le> 1) l)
     \<and> successively same_side (p # l) \<and> last (p # l) = q"

lemma steady_refl: "steady p p []" "steady p p [p]" "steady p 0 [0]"
  by (simp_all add: steady_def)

lemma steady_trans: "steady p q l \<Longrightarrow> steady q r l' \<Longrightarrow> steady p r (l @ l')"
proof -
  assume a: "steady p q l" "steady q r l'"
  then have "successively same_side ((p # l) @ l')"
    unfolding steady_def successively_append_iff by (cases l') auto
  then show ?thesis using a by (cases "l' = []") (auto simp: steady_def)
qed

lemma goes_steady_trans: "goes steady m \<Longrightarrow> goes steady n \<Longrightarrow> goes steady (andthen m n)"
  by (rule goes_mono [OF goes_seq]) (auto intro: steady_trans)

lemma trade_flat: "goes steady (trade_to bp st 0 price sp ts k n)"
  by (rule goes_mono [OF trade_to_goes]) (auto simp: steady_def)

lemma clamp_target_bounds: "\<bar>clamp_target x\<bar> \<le> 1"
  by (auto simp: clamp_target_def max_def min_def)

lemma unflip_side: "same_side p (unflip p t)"
  by (auto simp: unflip_def same_side_def dsign_def)

lemma unflip_bounds: "\<bar>t\<bar> \<le> 1 \<Longrightarrow> \<bar>unflip p t\<bar> \<le> 1"
  by (simp add: unflip_def)

lemma goes_ret: "goes steady (ret a)" "goes (\<lambda>p' q l. p' = p \<longrightarrow> steady p q l) (ret a)"
  by (simp_all add: goes_still still_intros steady_refl)

lemma stop_step_goes: "goes steady (stop_step bp st b)"
  unfolding stop_step_def
  by (auto intro!: goes_bind trade_flat goes_ret still_intros split: option.split)

lemma funding_step_goes: "goes steady (funding_step bp b)"
  unfolding funding_step_def Let_def
  by (auto intro!: goes_bind goes_andthen goes_mono [OF blog_goes] goes_ret(1) steady_refl still_intros still_upd
      split: option.split)

lemma bmark_steady: "goes steady (bmark bp ts pr)"
  by (rule goes_mono [OF bmark_goes]) (auto intro: steady_refl)

lemma guard_step_goes: "goes steady (guard_step bp st b c ts)"
  unfolding guard_step_def
  by (auto intro!: goes_bind trade_flat goes_ret still_intros)

lemma guard_unpriced_goes: "goes steady guard_unpriced"
  by (auto simp: goes_def guard_unpriced_def bind_def get_def ret_def raise_def steady_refl intro: exI [of _ "[]"] split: if_splits)

lemma gap_step_goes: "goes steady (gap_step bp st b nxt)"
  unfolding gap_step_def
  by (intro goes_steady_trans bmark_steady)
    (auto intro!: goes_bind trade_flat goes_ret still_intros split: option.split)

lemma fill_step_goes:
  assumes "same_side p target" "\<bar>target\<bar> \<le> 1"
  shows "goes (\<lambda>p' q l. p' = p \<longrightarrow> steady p q l) (fill_step bp st b nxt target)"
proof -
  have t: "goes (\<lambda>p' q l. p' = p \<longrightarrow> steady p q l) (trade_to bp st target price sp ts k n)" for price sp ts k n
    by (rule goes_mono [OF trade_to_goes]) (use assms in \<open>auto simp: steady_def\<close>)
  show ?thesis
    unfolding fill_step_def Let_def
    by (auto intro!: goes_andthen t still_bres goes_mono [OF blog_goes] steady_refl split: fill_source.split)
qed

lemma decide_step_goes: "goes steady (decide_step bp st h b nxt)"
  unfolding decide_step_def Let_def
  by (intro goes_bind still_intros goes_get)
    (auto intro!: goes_mono [OF fill_step_goes] unflip_side unflip_bounds clamp_target_bounds goes_mono [OF goes_ret(2)])

lemma bar_step_goes: "goes steady (bar_step bp st h b nxt)"
  unfolding bar_step_def
  by (intro goes_steady_trans stop_step_goes funding_step_goes)
    (auto intro!: goes_steady_trans gap_step_goes guard_step_goes guard_unpriced_goes decide_step_goes bmark_steady
      split: option.split)

lemma forM_steady: "(\<And>x. x \<in> set xs \<Longrightarrow> goes steady (f x)) \<Longrightarrow> goes steady (forM xs f)"
  by (induction xs) (auto intro: goes_steady_trans goes_ret)

lemma run_loop_steady: "goes steady (forM ts (bt_step bp st bars))"
  unfolding bt_step_def by (intro forM_steady bar_step_goes)

text \<open>Three complete hours at a close of 100, traded by a strategy that is always long.\<close>

definition sample_hour :: "int \<Rightarrow> bar" where
  "sample_hour n = \<lparr>br_instrument = 6, br_source = POLYMARKET_WS, br_open_ts = n * 3600000000, br_open = Some 100,
     br_high = Some 100, br_low = Some 100, br_close = Some 100, br_index_close = None, br_funding = Some 0,
     br_spread_bps = 5, br_spread_source = FromConstant, br_complete = True\<rparr>"

definition sample_bt :: bt_params where
  "sample_bt = \<lparr>bp_minutes = [], bp_fee = 0, bp_warmup = 0, bp_latency_s = 2, bp_impact = 5, bp_notional = 100,
     bp_fallback = HourlyOpen, bp_max_age_min = 60\<rparr>"

definition sample_hours :: "bar list" where
  "sample_hours = [sample_hour 0, sample_hour 1, sample_hour 2]"

text \<open>
  C21. Every position a backtest ever records is at most one notional in size, and no trade flips it: between
  two ledger rows the position keeps its side or is 0.
\<close>

theorem backtest_positions_bounded_never_flipped:
  assumes "run_backtest bp st bars s = (Inr r, s')"
  shows "list_all (\<lambda>row. \<bar>lg_position row\<bar> \<le> 1) (br_ledger r)
    \<and> successively (\<lambda>x y. same_side (lg_position x) (lg_position y)) (br_ledger r)"
proof -
  obtain b where b: "forM [bp_warmup bp ..< length bars - 1] (bt_step bp st bars)
      (bt_init bars (bt_header bp st) s) = (Inr (), b)" "r = bk_res b"
    using assms by (auto simp: run_backtest_def split: prod.splits sum.splits)
  have "track (bt_init bars (bt_header bp st) s) = []" "bk_position (bt_init bars (bt_header bp st) s) = 0"
    by (simp_all add: bt_init_def track_def)
  then have "steady 0 (bk_position b) (track b)"
    using run_loop_steady [of "[bp_warmup bp ..< length bars - 1]" bp st bars] b(1) by (fastforce simp: goes_def)
  then have "list_all (\<lambda>x. \<bar>x\<bar> \<le> 1) (track b)" "successively same_side (track b)"
    by (auto simp: steady_def successively_Cons)
  then show ?thesis
    by (simp add: b(2) track_def list_all_iff successively_map)
qed

lemma sample_run: "case run_backtest sample_bt sample_strategy sample_hours () of (Inr r, _) \<Rightarrow> br_ledger r \<noteq> [] | _ \<Rightarrow> False"
  by code_simp

lemma backtest_positions_bounded_never_flipped_witness:
  "case run_backtest sample_bt sample_strategy sample_hours () of
     (Inr r, _) \<Rightarrow> br_ledger r \<noteq> [] \<and> list_all (\<lambda>row. \<bar>lg_position row\<bar> \<le> 1) (br_ledger r) | _ \<Rightarrow> False"
  using sample_run backtest_positions_bounded_never_flipped [of sample_bt sample_strategy sample_hours "()"]
  by (auto split: prod.splits sum.splits)

section \<open>Holes in the data\<close>

text \<open>What a step can make of the position alone.\<close>

definition moves :: "(dec \<Rightarrow> dec \<Rightarrow> bool) \<Rightarrow> ('s, 'a) bop \<Rightarrow> bool" where
  "moves R m \<longleftrightarrow> goes (\<lambda>p q l. R p q) m"

lemma movesD: "moves R m \<Longrightarrow> m b = (Inr a, b') \<Longrightarrow> R (bk_position b) (bk_position b')"
  by (force simp: moves_def goes_def)

lemma trade_moves: "moves (\<lambda>p q. q = target) (trade_to bp st target price sp ts k n)"
  unfolding moves_def by (rule goes_mono [OF trade_to_goes]) simp

lemma may_close: "moves (\<lambda>p q. q = p \<or> q = 0) (stop_step bp st b)" "moves (\<lambda>p q. q = p \<or> q = 0) (funding_step bp b)"
proof -
  have r: "goes (\<lambda>p q l. q = p \<or> q = 0) (ret a)" for a by (rule goes_still) (simp_all add: still_intros)
  have t: "goes (\<lambda>p q l. q = p \<or> q = 0) (trade_to bp st 0 price sp ts k n)" for price sp ts k n
    by (rule goes_mono [OF trade_to_goes]) simp
  show "moves (\<lambda>p q. q = p \<or> q = 0) (stop_step bp st b)"
    unfolding moves_def stop_step_def by (auto intro!: goes_bind t r still_intros split: option.split)
  show "moves (\<lambda>p q. q = p \<or> q = 0) (funding_step bp b)"
    unfolding moves_def funding_step_def Let_def
    by (auto intro!: goes_bind goes_andthen goes_mono [OF blog_goes] r still_intros still_upd split: option.split)
qed

lemma gap_moves: "moves (\<lambda>p q. q = (if br_close b = None then p else 0)) (gap_step bp st b nxt)"
proof -
  have r: "goes (\<lambda>p' q l. p' = p \<longrightarrow> q = (if br_close b = None then p' else 0)) (ret ())" if "br_close b = None \<or> p = 0" for p
    by (rule goes_still) (use that in \<open>auto simp: still_intros\<close>)
  have t: "goes (\<lambda>p' q l. p' = p \<longrightarrow> q = 0) (trade_to bp st 0 price sp ts k n)" for p price sp ts k n
    by (rule goes_mono [OF trade_to_goes]) simp
  have "goes (\<lambda>p q l. q = (if br_close b = None then p else 0)) (bind (get bk_position) (\<lambda>pos.
          case br_close b of None \<Rightarrow> ret ()
          | Some close \<Rightarrow> if pos = 0 then ret ()
              else trade_to bp st 0 close (br_spread_bps b) (br_open_ts nxt) LGapFlatten []))"
    using r t by (intro goes_get) (auto split: option.split)
  from goes_mono [OF goes_seq [OF this bmark_goes]] show ?thesis
    unfolding moves_def gap_step_def by (auto split: if_splits)
qed

lemma moves_seq: "moves R m \<Longrightarrow> moves T n \<Longrightarrow> moves (\<lambda>p q. \<exists>x. R p x \<and> T x q) (andthen m n)"
  unfolding moves_def by (rule goes_mono [OF goes_seq]) auto

lemma bar_step_gap:
  assumes "bar_step bp st h b nxt s = (Inr (), s')" "bk_position s \<noteq> 0 \<Longrightarrow> br_close b \<noteq> None" "bk_position s' \<noteq> 0"
  shows "br_complete b \<and> br_close nxt \<noteq> None"
proof (rule ccontr)
  assume n: "\<not> ?thesis"
  then have "bar_step bp st h b nxt = andthen (stop_step bp st b) (andthen (funding_step bp b) (gap_step bp st b nxt))"
    by (auto simp: bar_step_def)
  then have "\<exists>x. (x = bk_position s \<or> x = 0) \<and> (\<exists>y. (y = x \<or> y = 0) \<and> bk_position s' = (if br_close b = None then y else 0))"
    using movesD [OF moves_seq [OF may_close(1) moves_seq [OF may_close(2) gap_moves]]] assms(1) by metis
  then show False using assms(2,3) by (auto split: if_splits)
qed

text \<open>
  C22. The loop never carries a position over a hole: after any number of steps, an open position means that
  the bar just processed was complete and the next one has a close to value it at.
\<close>

theorem no_position_over_a_gap:
  assumes "forM [w ..< m] (bt_step bp st bars) (bt_init bars hdr s) = (Inr (), b)" "bk_position b \<noteq> 0"
  shows "w < m \<and> br_complete (bars ! (m - 1)) \<and> br_close (bars ! m) \<noteq> None"
  using assms
proof (induction m arbitrary: b)
  case (Suc m)
  show ?case
  proof (cases "m < w")
    case False
    then have "[w ..< Suc m] = [w ..< m] @ [m]" by simp
    then obtain c where c: "forM [w ..< m] (bt_step bp st bars) (bt_init bars hdr s) = (Inr (), c)"
        "bt_step bp st bars m c = (Inr (), b)"
      using Suc.prems(1) by (auto simp: forM_snoc andthen_def bind_def split: prod.splits sum.splits)
    have "br_complete (bars ! m) \<and> br_close (bars ! (m + 1)) \<noteq> None"
      by (rule bar_step_gap [OF c(2) [unfolded bt_step_def] _ Suc.prems(2)]) (use Suc.IH [OF c(1)] in blast)
    then show ?thesis using False by simp
  qed (use Suc.prems in \<open>auto simp: ret_def bt_init_def\<close>)
qed (simp add: ret_def bt_init_def)

lemma no_position_over_a_gap_witness:
  "br_complete (sample_hours ! 1) \<and> br_close (sample_hours ! 2) \<noteq> None"
proof -
  have "case forM [0 ..< 2] (bt_step sample_bt sample_strategy sample_hours) (bt_init sample_hours [] ()) of
      (Inr _, b) \<Rightarrow> bk_position b \<noteq> 0 | _ \<Rightarrow> False" by code_simp
  then obtain b where "forM [0 ..< 2] (bt_step sample_bt sample_strategy sample_hours) (bt_init sample_hours [] ()) = (Inr (), b)"
      "bk_position b \<noteq> 0" by (auto split: prod.splits sum.splits)
  from no_position_over_a_gap [OF this] show ?thesis by simp
qed

section \<open>Point in time\<close>

text \<open>The three counters of the header are written once and never read: every step commutes with changing them.\<close>

definition recount :: "nat \<times> nat \<times> nat \<Rightarrow> 's bt \<Rightarrow> 's bt" where
  "recount n b = bk_res_update (\<lambda>r. r\<lparr>br_bars_total := fst n, br_bars_complete := fst (snd n),
     br_bars_constant_spread := snd (snd n)\<rparr>) b"

lemma recount_simps [simp]:
  "bk_cash (recount n b) = bk_cash b" "bk_position (recount n b) = bk_position b"
  "bk_entry (recount n b) = bk_entry b" "bk_funding (recount n b) = bk_funding b"
  "bk_last_equity (recount n b) = bk_last_equity b" "bk_strat (recount n b) = bk_strat b"
  "br_ledger (bk_res (recount n b)) = br_ledger (bk_res b)" "br_returns (bk_res (recount n b)) = br_returns (bk_res b)"
  "br_trades (bk_res (recount n b)) = br_trades (bk_res b)" "br_equity (bk_res (recount n b)) = br_equity (bk_res b)"
  "br_trade_pnls (bk_res (recount n b)) = br_trade_pnls (bk_res b)"
  by (simp_all add: recount_def)

definition blind :: "('s, 'a) bop \<Rightarrow> bool" where
  "blind m \<longleftrightarrow> (\<forall>n b. m (recount n b) = map_prod id (recount n) (m b))"

lemma blindD: "blind m \<Longrightarrow> m (recount n b) = map_prod id (recount n) (m b)"
  unfolding blind_def by blast

named_theorems blind_intros

lemma blind_bind [blind_intros]: "blind m \<Longrightarrow> (\<And>a. blind (f a)) \<Longrightarrow> blind (bind m f)"
  by (auto simp: blind_def bind_def split: prod.splits sum.splits)

lemma blind_andthen [blind_intros]: "blind m \<Longrightarrow> blind n \<Longrightarrow> blind (andthen m n)"
  unfolding andthen_def by (rule blind_bind)

lemma blind_prims [blind_intros]:
  "blind (ret a)" "blind (raise e)" "blind (lift r)" "blind (get bk_position)" "blind (get bk_entry)" "blind (get bk_last_equity)"
  "blind (getr (book_equity bp pr))" "blind (getr (\<lambda>s. ddiv x (bk_entry s)))" "blind (getr (book_view bp i y))"
  by (simp_all add: blind_def ret_def raise_def lift_def get_def getr_def book_equity_def unrealised_def book_view_def
      split: option.split)

lemma blind_bstrat [blind_intros]: "blind (bstrat m)"
  by (auto simp: blind_def bstrat_def focus_def recount_def split: prod.split)

lemma blind_if [blind_intros]: "blind m \<Longrightarrow> blind n \<Longrightarrow> blind (if c then m else n)" by simp

lemma blind_case_option [blind_intros]:
  "blind m \<Longrightarrow> (\<And>a. blind (f a)) \<Longrightarrow> blind (case x of None \<Rightarrow> m | Some a \<Rightarrow> f a)" by (simp split: option.split)

lemma blind_forM [blind_intros]: "(\<And>x. blind (f x)) \<Longrightarrow> blind (forM xs f)"
  by (induction xs) (auto intro: blind_intros)

lemma blind_upd: "(\<And>n b. f (recount n b) = recount n (f b)) \<Longrightarrow> blind (upd f)"
  by (simp add: blind_def upd_def)

lemma blind_bres: "(\<And>r n1 n2 n3. f (r\<lparr>br_bars_total := n1, br_bars_complete := n2, br_bars_constant_spread := n3\<rparr>) =
    (f r)\<lparr>br_bars_total := n1, br_bars_complete := n2, br_bars_constant_spread := n3\<rparr>) \<Longrightarrow> blind (bres f)"
  unfolding bres_def by (rule blind_upd) (simp add: recount_def)

lemma blind_log [blind_intros]: "blind (blog bp ts k pr d n)"
  unfolding blog_def by (intro blind_intros blind_bres) simp

lemma blind_trade [blind_intros]: "blind (trade_to bp st target price sp ts k n)"
  unfolding trade_to_def settle_entry_def realise_def write_trade_def bt_flattened_def Let_def
  by (intro blind_intros blind_bres blind_upd) (simp_all add: recount_def)

lemma blind_bar_step: "blind (bar_step bp st h b nxt)"
proof -
  have m: "blind (bmark bp ts pr)" for ts pr
    unfolding bmark_def by (intro blind_intros blind_bres blind_upd) (simp_all add: recount_def)
  have f: "blind (fill_step bp st b nxt t)" for t
    unfolding fill_step_def Let_def by (auto intro!: blind_intros blind_bres split: fill_source.split)
  have u: "blind (funding_step bp b)"
    unfolding funding_step_def Let_def
    by (auto intro!: blind_intros blind_upd split: option.split simp: recount_def)
  have s: "blind (stop_step bp st b)"
    unfolding stop_step_def by (auto intro!: blind_intros split: option.split)
  show ?thesis
    unfolding bar_step_def gap_step_def guard_step_def guard_unpriced_def decide_step_def Let_def
    by (intro blind_intros m f u s)
qed

text \<open>Every step only appends to the lists of the result.\<close>

definition appended :: "bt_result \<Rightarrow> 's bt \<Rightarrow> bool" where
  "appended r b \<longleftrightarrow> prefix (br_ledger r) (br_ledger (bk_res b)) \<and> prefix (br_equity r) (br_equity (bk_res b))
     \<and> prefix (br_returns r) (br_returns (bk_res b)) \<and> prefix (br_trades r) (br_trades (bk_res b))
     \<and> prefix (br_trade_pnls r) (br_trade_pnls (bk_res b))"

lemma appended_upd: "(\<And>b. bk_res (f b) = bk_res b) \<Longrightarrow> keeps (appended r) (upd f)"
  by (rule keeps_upd) (simp add: appended_def)

lemma appended_bres:
  "(\<And>b :: 's bt. appended r b \<Longrightarrow> appended r (bk_res_update f b)) \<Longrightarrow> keeps (appended r) (bres f :: ('s, unit) bop)"
  unfolding bres_def by (rule keeps_upd)

lemma appended_bstrat: "keeps (appended r) (bstrat m)"
  by (auto simp: keeps_def bstrat_def focus_def appended_def split: prod.split)

lemma appended_log: "keeps (appended r) (blog bp ts k pr d n)"
  unfolding blog_def by (intro keeps_intros appended_bres) (auto simp: appended_def)

lemma appended_trade: "keeps (appended r) (trade_to bp st target price sp ts k n)"
  unfolding trade_to_def settle_entry_def realise_def write_trade_def bt_flattened_def Let_def
  by (intro keeps_intros appended_log appended_bres appended_upd appended_bstrat) (auto simp: appended_def)

lemma appended_bar_step: "keeps (appended r) (bar_step bp st h b nxt)"
proof -
  have m: "keeps (appended r) (bmark bp ts pr)" for ts pr
    unfolding bmark_def
    by (intro keeps_intros appended_log appended_bres appended_upd) (auto simp: appended_def)
  have f: "keeps (appended r) (fill_step bp st b nxt t)" for t
    unfolding fill_step_def Let_def
    by (auto intro!: keeps_intros appended_trade appended_log appended_bres split: fill_source.split simp: appended_def)
  have u: "keeps (appended r) (funding_step bp b)"
    unfolding funding_step_def Let_def
    by (auto intro!: keeps_intros appended_log appended_upd split: option.split)
  have s: "keeps (appended r) (stop_step bp st b)"
    unfolding stop_step_def by (auto intro!: keeps_intros appended_trade split: option.split)
  show ?thesis
    unfolding bar_step_def gap_step_def guard_step_def guard_unpriced_def decide_step_def Let_def
    by (intro keeps_intros appended_trade appended_bstrat m f u s)
qed

lemma bt_step_take: "t + 1 < k \<Longrightarrow> bt_step bp st (take k bars) t = bt_step bp st bars t"
  by (simp add: bt_step_def min_def)

lemma forM_cong: "(\<And>x. x \<in> set xs \<Longrightarrow> f x = g x) \<Longrightarrow> forM xs f = forM xs g"
  by (induction xs) auto

lemma bt_init_recount: "\<exists>n. bt_init bars' hdr s = recount n (bt_init bars hdr s)"
  by (rule exI [of _ "(length bars', length (filter br_complete bars'),
      length (filter (\<lambda>b. br_spread_source b = FromConstant) bars'))"]) (simp add: bt_init_def recount_def)

lemma upt_split_before: "j \<le> m \<Longrightarrow> \<exists>ys. [w ..< m] = [w ..< j] @ (ys :: nat list)"
  by (cases "w \<le> j") (metis upt_add_eq_append le_add_diff_inverse, simp)

text \<open>A backtest over the first \<open>k\<close> bars is a prefix of the one over all bars.\<close>

lemma backtest_prefix:
  assumes "run_backtest bp st bars s = (Inr r, s1)" "k \<le> length bars"
  shows "\<exists>r' s2. run_backtest bp st (take k bars) s = (Inr r', s2) \<and> prefix (br_ledger r') (br_ledger r)
    \<and> prefix (br_equity r') (br_equity r) \<and> prefix (br_returns r') (br_returns r)
    \<and> prefix (br_trades r') (br_trades r) \<and> prefix (br_trade_pnls r') (br_trade_pnls r)"
proof -
  let ?i = "bt_init bars (bt_header bp st) s" and ?w = "bp_warmup bp"
  let ?f = "bt_step bp st bars"
  obtain b where b: "forM [?w ..< length bars - 1] ?f ?i = (Inr (), b)" "r = bk_res b"
    using assms(1) by (auto simp: run_backtest_def split: prod.splits sum.splits)
  have "k - 1 \<le> length bars - 1" using assms(2) by simp
  from upt_split_before [OF this, of ?w] obtain ys where "[?w ..< length bars - 1] = [?w ..< k - 1] @ ys" by blast
  then obtain c where c: "forM [?w ..< k - 1] ?f ?i = (Inr (), c)" "forM ys ?f c = (Inr (), b)"
    using b(1) by (auto simp: forM_append andthen_def bind_def split: prod.splits sum.splits)
  obtain n where n: "bt_init (take k bars) (bt_header bp st) s = recount n ?i"
    using bt_init_recount [of "take k bars" "bt_header bp st" s bars] by blast
  have "forM [?w ..< k - 1] (bt_step bp st (take k bars)) = forM [?w ..< k - 1] ?f"
    by (rule forM_cong) (auto simp: bt_step_take)
  moreover have "blind (forM [?w ..< k - 1] ?f)"
    unfolding bt_step_def by (intro blind_intros blind_bar_step)
  ultimately have "forM [?w ..< k - 1] (bt_step bp st (take k bars)) (recount n ?i) = (Inr (), recount n c)"
    using c(1) by (simp add: blindD)
  moreover have "min (length bars) k = k" using assms(2) by simp
  ultimately have "run_backtest bp st (take k bars) s = (Inr (bk_res (recount n c)), bk_strat c)"
    by (simp add: run_backtest_def n)
  moreover have "keeps (appended (bk_res (recount n c))) (forM ys ?f)"
    unfolding bt_step_def by (intro keeps_intros appended_bar_step)
  from keepsD [OF this, of c] have "appended (bk_res (recount n c)) b" using c(2) by (simp add: appended_def)
  ultimately show ?thesis by (auto simp: appended_def b(2))
qed

text \<open>What a step does before it marks: of the next bar it uses the opening time, the open and whether there is a close.\<close>

definition before_mark :: "bt_params \<Rightarrow> 's strat_ops \<Rightarrow> bar list \<Rightarrow> bar \<Rightarrow> bar \<Rightarrow> ('s, unit) bop" where
  "before_mark bp st h b nxt =
     andthen (stop_step bp st b)
     (andthen (funding_step bp b)
     (if \<not> br_complete b \<or> br_close nxt = None then
        bind (get bk_position) (\<lambda>pos.
          case br_close b of
            None \<Rightarrow> ret ()
          | Some close \<Rightarrow>
              if pos = 0 then ret ()
              else trade_to bp st 0 close (br_spread_bps b) (br_open_ts nxt) LGapFlatten [])
      else
        andthen (case br_close b of None \<Rightarrow> guard_unpriced | Some c \<Rightarrow> guard_step bp st b c (br_open_ts nxt))
          (decide_step bp st h b nxt)))"

lemma andthen_assoc: "andthen (andthen a b) c = andthen a (andthen b c)"
  by (auto simp: andthen_def bind_def fun_eq_iff split: prod.split sum.split)

lemma bar_step_split: "bar_step bp st h b nxt = andthen (before_mark bp st h b nxt) (bmark bp (br_open_ts nxt) (br_close nxt))"
  by (simp add: bar_step_def before_mark_def gap_step_def andthen_assoc)

lemma blind_bmark: "blind (bmark bp ts pr)"
  unfolding bmark_def by (intro blind_intros blind_bres blind_upd) (simp_all add: recount_def)

lemma blind_before_mark: "blind (before_mark bp st h b nxt)"
proof -
  have f: "blind (fill_step bp st b nxt t)" for t
    unfolding fill_step_def Let_def by (auto intro!: blind_intros blind_bres split: fill_source.split)
  have u: "blind (funding_step bp b)"
    unfolding funding_step_def Let_def
    by (auto intro!: blind_intros blind_upd split: option.split simp: recount_def)
  have s: "blind (stop_step bp st b)"
    unfolding stop_step_def by (auto intro!: blind_intros split: option.split)
  show ?thesis
    unfolding before_mark_def guard_step_def guard_unpriced_def decide_step_def Let_def by (intro blind_intros f u s)
qed

definition same_open :: "bar \<Rightarrow> bar \<Rightarrow> bool" where
  "same_open x y \<longleftrightarrow> br_open_ts x = br_open_ts y \<and> br_open x = br_open y \<and> (br_close x = None \<longleftrightarrow> br_close y = None)"

lemma before_mark_cong:
  assumes "same_open x y"
  shows "before_mark bp st h b x = before_mark bp st h b y"
proof -
  have eqs: "br_open_ts x = br_open_ts y" "br_open x = br_open y" "(br_close x = None) = (br_close y = None)"
    using assms by (simp_all add: same_open_def)
  show ?thesis unfolding before_mark_def decide_step_def fill_step_def fill_source_of_def eqs by (rule refl)
qed

definition trades_of :: "'s bt \<Rightarrow> (time \<times> side \<times> dec) list \<times> dec list" where
  "trades_of b = (br_trades (bk_res b), br_trade_pnls (bk_res b))"

lemma book_equity_returns:
  assumes "book_equity bp p b = Inr x" "p = None \<longleftrightarrow> q = None" "bk_position c = bk_position b" "bk_entry c = bk_entry b"
  shows "\<exists>y. book_equity bp q c = Inr y"
  using assms by (cases p; cases q) (auto simp: book_equity_def unrealised_def gain_def ddiv_eq_Inr split: if_splits)

lemma book_equity_upd:
  "book_equity bp q (bk_last_equity_update g (bk_res_update f b)) = book_equity bp q b"
  "book_equity bp q (bk_res_update f b) = book_equity bp q b"
  by (simp_all add: book_equity_def unrealised_def split: option.split)

text \<open>A mark trades nothing, and whether it returns does not depend on the price.\<close>

lemma bmark_any_price:
  assumes "bmark bp ts p b = (Inr (), c)" "p = None \<longleftrightarrow> q = None"
  shows "trades_of c = trades_of b" "\<exists>d. bmark bp ts q b = (Inr (), d) \<and> trades_of d = trades_of b"
proof -
  obtain eq r where eq: "book_equity bp p b = Inr eq" and r: "ddiv (dsub eq (bk_last_equity b)) (bp_notional bp) = Inr r"
    using assms(1) by (auto simp: bmark_def bind_def getr_def get_def andthen_def bres_def upd_def lift_def split: sum.splits)
  have run: "\<exists>d. bmark bp ts q b = (Inr (), d) \<and> trades_of d = trades_of b" if pq: "p = None \<longleftrightarrow> q = None" for q
  proof -
    obtain eq' where eq': "book_equity bp q b = Inr eq'" using book_equity_returns [OF eq pq] by blast
    obtain r' where r': "ddiv (dsub eq' (bk_last_equity b)) (bp_notional bp) = Inr r'" using r by (auto simp: ddiv_eq_Inr)
    from eq' r' show ?thesis
      by (simp add: bmark_def blog_def bind_def getr_def get_def andthen_def bres_def upd_def lift_def trades_of_def book_equity_upd)
  qed
  from run [OF assms(2)] show "\<exists>d. bmark bp ts q b = (Inr (), d) \<and> trades_of d = trades_of b" .
  from run [of p] assms(1) show "trades_of c = trades_of b" by simp
qed

lemma trades_recount: "trades_of (recount n b) = trades_of b"
  by (simp add: trades_of_def)

lemma backtest_blind_to_next:
  assumes run: "run_backtest bp st bars s = (Inr r, s1)" and k: "k < length bars" and n: "same_open n (bars ! k)"
  shows "\<exists>r' s2. run_backtest bp st (take k bars @ [n]) s = (Inr r', s2)
    \<and> prefix (br_trades r') (br_trades r) \<and> prefix (br_trade_pnls r') (br_trade_pnls r)"
proof -
  let ?bars = "take k bars @ [n]" and ?i = "bt_init bars (bt_header bp st) s" and ?w = "bp_warmup bp"
  obtain m where m: "bt_init ?bars (bt_header bp st) s = recount m ?i"
    using bt_init_recount [of ?bars "bt_header bp st" s bars] by blast
  have len: "length ?bars - 1 = k" using k by simp
  obtain b where b: "forM [?w ..< length bars - 1] (bt_step bp st bars) ?i = (Inr (), b)" "r = bk_res b"
    using run by (auto simp: run_backtest_def split: prod.splits sum.splits)
  show ?thesis
  proof (cases "?w < k")
    case False
    then show ?thesis unfolding run_backtest_def len m by (simp add: ret_def recount_def bt_init_def)
  next
    case True
    then have ks: "[?w ..< k] = [?w ..< k - 1] @ [k - 1]" using upt_Suc_append [of ?w "k - 1"] by simp
    obtain ys where ys: "[?w ..< length bars - 1] = [?w ..< k] @ ys" using upt_split_before [of k "length bars - 1" ?w] k by force
    have all: "[?w ..< length bars - 1] = [?w ..< k - 1] @ (k - 1) # ys" using ys ks by simp
    obtain c0 c2 where c0: "forM [?w ..< k - 1] (bt_step bp st bars) ?i = (Inr (), c0)"
      and c2: "bt_step bp st bars (k - 1) c0 = (Inr (), c2)" and rest: "forM ys (bt_step bp st bars) c2 = (Inr (), b)"
      using b(1) unfolding all by (auto simp: forM_append andthen_def bind_def split: prod.splits sum.splits)
    have step: "bt_step bp st bars (k - 1) = andthen (before_mark bp st (take k bars) (bars ! (k - 1)) n)
        (bmark bp (br_open_ts n) (br_close (bars ! k)))"
      using True n before_mark_cong [OF n, of bp st "take k bars" "bars ! (k - 1)"] by (simp add: bt_step_def bar_step_split same_open_def)
    then obtain c1 where c1: "before_mark bp st (take k bars) (bars ! (k - 1)) n c0 = (Inr (), c1)"
      and mark: "bmark bp (br_open_ts n) (br_close (bars ! k)) c1 = (Inr (), c2)"
      using c2 by (auto simp: andthen_def bind_def split: prod.splits sum.splits)
    have step': "bt_step bp st ?bars (k - 1) = andthen (before_mark bp st (take k bars) (bars ! (k - 1)) n)
        (bmark bp (br_open_ts n) (br_close n))"
      using True k by (simp add: bt_step_def bar_step_split nth_append)
    obtain d where d: "bmark bp (br_open_ts n) (br_close n) c1 = (Inr (), d)" "trades_of d = trades_of c1"
      using bmark_any_price(2) [OF mark, of "br_close n"] n unfolding same_open_def by blast
    have "bt_step bp st ?bars (k - 1) (recount m c0) = (Inr (), recount m d)"
      unfolding step' using c1 d(1)
      by (simp add: andthen_def bind_def blindD [OF blind_before_mark] blindD [OF blind_bmark])
    moreover have "forM [?w ..< k - 1] (bt_step bp st ?bars) = forM [?w ..< k - 1] (bt_step bp st bars)"
      using k by (intro forM_cong) (auto simp: bt_step_def nth_append)
    moreover have "blind (forM [?w ..< k - 1] (bt_step bp st bars))"
      unfolding bt_step_def by (intro blind_intros blind_bar_step)
    ultimately have "forM [?w ..< k] (bt_step bp st ?bars) (recount m ?i) = (Inr (), recount m d)"
      using c0 by (simp add: ks forM_append andthen_def bind_def ret_def blindD)
    then have "run_backtest bp st ?bars s = (Inr (bk_res (recount m d)), bk_strat d)"
      unfolding run_backtest_def len m by simp
    moreover have "keeps (appended (bk_res c2)) (forM ys (bt_step bp st bars))"
      unfolding bt_step_def by (intro keeps_intros appended_bar_step)
    from keepsD [OF this, of c2] have "appended (bk_res c2) b" using rest by (simp add: appended_def)
    moreover have "trades_of d = trades_of c2" using d(2) bmark_any_price(1) [OF mark] by simp
    ultimately show ?thesis by (auto simp: appended_def b(2) trades_of_def)
  qed
qed

text \<open>
  C23. No look-ahead. A backtest over the first \<open>k\<close> bars and one bar more returns whenever the one over all bars does, and
  its trades and trade results are prefixes of the longer run's, even when that last bar is replaced by any other with the
  same opening time and open, priced or unpriced alike: nothing else of the next bar, and nothing of a later one, reaches
  a decision. With the bar itself, ledger, equity curve and returns are prefixes too.
\<close>

theorem backtest_sees_no_later_bar:
  assumes "run_backtest bp st bars s = (Inr r, s1)" "k < length bars"
    and "br_open_ts n = br_open_ts (bars ! k)" "br_open n = br_open (bars ! k)" "br_close n = None \<longleftrightarrow> br_close (bars ! k) = None"
  shows "\<exists>r' s2. run_backtest bp st (take k bars @ [n]) s = (Inr r', s2)
    \<and> prefix (br_trades r') (br_trades r) \<and> prefix (br_trade_pnls r') (br_trade_pnls r)
    \<and> (n = bars ! k \<longrightarrow> prefix (br_ledger r') (br_ledger r) \<and> prefix (br_equity r') (br_equity r)
         \<and> prefix (br_returns r') (br_returns r))"
proof (cases "n = bars ! k")
  case True
  with backtest_prefix [OF assms(1), of "Suc k"] assms(2) show ?thesis by (auto simp: take_Suc_conv_app_nth)
next
  case False
  with backtest_blind_to_next [OF assms(1,2), of n] assms(3-5) show ?thesis by (auto simp: same_open_def)
qed

lemma backtest_sees_no_later_bar_witness:
  "\<exists>r' s2. run_backtest sample_bt sample_strategy (take 2 sample_hours @ [(sample_hour 2)\<lparr>br_close := Some 7, br_high := None\<rparr>]) ()
     = (Inr r', s2)"
proof -
  obtain r s1 where "run_backtest sample_bt sample_strategy sample_hours () = (Inr r, s1)"
    using sample_run by (auto split: prod.splits sum.splits)
  from backtest_sees_no_later_bar [OF this, of 2 "(sample_hour 2)\<lparr>br_close := Some 7, br_high := None\<rparr>"]
  show ?thesis by (auto simp: sample_hours_def sample_hour_def numeral_2_eq_2)
qed

end
