(* ===== verification/Strategy_Laws.thy ===== *)
theory Strategy_Laws
  imports Strategies Backtest_Laws
begin

text \<open>
  Laws of the strategies: they only ever ask for a side, they let go after their holding time, they read no
  proxy hour they have not reached, and they fade in the right direction.
\<close>

section \<open>Targets are sides\<close>

definition one_side :: "dec \<Rightarrow> bool" where
  "one_side x \<longleftrightarrow> x \<in> {- 1, 0, 1}"

lemma one_side_simps [simp]: "one_side 0" "one_side 1" "one_side (- 1)"
  by (simp_all add: one_side_def)

text \<open>\<open>answers A m\<close>: from a state with a side, a returning \<open>m\<close> gives and stores the same side, satisfying \<open>A\<close>.\<close>

definition sided :: "strat_state \<Rightarrow> bool" where
  "sided s \<longleftrightarrow> one_side (sv_position s) \<and> 0 \<le> sv_held s"

definition asks_side :: "dec sop \<Rightarrow> bool" where
  "asks_side m \<longleftrightarrow> (\<forall>s. sided s \<longrightarrow> wp m (\<lambda>x s'. sided s' \<and> x = sv_position s') (\<lambda>_. sided) s)"

named_theorems asks_intros

lemma asks_take [asks_intros]: "one_side x \<Longrightarrow> asks_side (take_side x)" "one_side x \<Longrightarrow> asks_side (start_side x)"
  "asks_side stay"
  by (simp_all add: asks_side_def take_side_def start_side_def stay_def wp_simps sided_def)

lemma asks_hold [asks_intros]: "asks_side (hold_on hb)"
  by (auto simp: asks_side_def hold_on_def start_side_def stay_def wp_simps sided_def)

lemma asks_if [asks_intros]: "asks_side m \<Longrightarrow> asks_side n \<Longrightarrow> asks_side (if c then m else n)" by simp

lemma asks_raise [asks_intros]: "asks_side (raise e)"
  by (simp add: asks_side_def wp_simps)

lemma asks_option [asks_intros]:
  "asks_side m \<Longrightarrow> (\<And>a. asks_side (f a)) \<Longrightarrow> asks_side (case x of None \<Rightarrow> m | Some a \<Rightarrow> f a)" by (simp split: option.split)

lemma asks_get: "(\<And>pos. one_side pos \<Longrightarrow> asks_side (f pos)) \<Longrightarrow> asks_side (bind (get sv_position) f)"
  by (auto simp: asks_side_def wp_simps) (simp add: sided_def)

lemma asks_fade [asks_intros]: "asks_side (fade ez xz zo)"
  unfolding fade_def by (intro asks_intros) simp_all

lemma target_asks: "asks_side (target_of h history)"
proof (cases h)
  case (H1 lb ez xz)
  then show ?thesis by (simp add: funding_reversion_def asks_intros)
next
  case (H2 lb ez px)
  then show ?thesis by (simp add: basis_def Let_def asks_intros)
next
  case (H3 eb hb)
  then show ?thesis
    by (auto simp: index_lag_def Let_def intro!: asks_intros asks_get split: option.split)
next
  case (H4 gb hb px)
  then show ?thesis
    by (auto simp: lead_lag_def Let_def intro!: asks_intros asks_get split: option.split)
next
  case (H5 ez hb)
  then show ?thesis
    by (auto simp: overshoot_def Let_def intro!: asks_intros asks_get)
next
  case (H6 eb sh)
  then show ?thesis
    by (auto simp: funding_carry_def Let_def intro!: asks_intros asks_get)
qed

text \<open>What can happen to a strategy object: targets, flattens, and recoveries with a sign.\<close>

inductive strat_reaches :: "hypothesis \<Rightarrow> strat_state \<Rightarrow> bool" for h where
  fresh: "strat_reaches h strat_new"
| target: "strat_reaches h s \<Longrightarrow> target_of h history s = (r, s') \<Longrightarrow> strat_reaches h s'"
| flatten: "strat_reaches h s \<Longrightarrow> flatten_of h s = (r, s') \<Longrightarrow> strat_reaches h s'"
| recovered: "strat_reaches h s \<Longrightarrow> sg \<in> {- 1, 0, 1} \<Longrightarrow> recover_of sg s = (r, s') \<Longrightarrow> strat_reaches h s'"

lemma target_outcome:
  assumes "sided s" "target_of h history s = (r, s')"
  shows "sided s'" "r = Inr x \<Longrightarrow> x = sv_position s'"
proof -
  have "wp (target_of h history) (\<lambda>x s'. sided s' \<and> x = sv_position s') (\<lambda>_. sided) s"
    using target_asks [of h history] assms(1) unfolding asks_side_def by blast
  then show "sided s'" "r = Inr x \<Longrightarrow> x = sv_position s'"
    unfolding wp_def assms(2) by (cases r; simp)+
qed

lemma reaches_sided: "strat_reaches h s \<Longrightarrow> sided s"
proof (induction rule: strat_reaches.induct)
  case (target s history r s')
  then show ?case using target_outcome(1) by blast
qed (auto simp: strat_new_def sided_def flatten_of_def recover_of_def upd_def split: if_splits)

text \<open>
  Whatever bars, flattens and restarts a strategy has seen, its next target is -1, 0 or 1, and is the
  side the object remembers.
\<close>

theorem strategy_targets_are_sides:
  assumes "strat_reaches h s" "target_of h history s = (Inr x, s')"
  shows "x \<in> {- 1, 0, 1} \<and> sv_position s' = x"
  using target_outcome [OF reaches_sided [OF assms(1)] assms(2)] by (simp add: sided_def one_side_def)

definition funded_hour :: "int \<Rightarrow> dec \<Rightarrow> bar" where
  "funded_hour n f = (sample_hour n)\<lparr>br_funding := Some f\<rparr>"

lemma strategy_targets_are_sides_witness:
  "fst (target_of (H6 (1/2) 1) [funded_hour 0 (1/1000)] strat_new) = Inr (- 1)
   \<and> sv_position (snd (target_of (H6 (1/2) 1) [funded_hour 0 (1/1000)] strat_new)) = - 1"
proof -
  have "fst (target_of (H6 (1/2) 1) [funded_hour 0 (1/1000)] strat_new) = Inr (- 1)" by code_simp
  then obtain s' where e: "target_of (H6 (1/2) 1) [funded_hour 0 (1/1000)] strat_new = (Inr (- 1), s')"
    by (metis prod.collapse)
  show ?thesis using strategy_targets_are_sides [OF strat_reaches.fresh e] e by simp
qed

section \<open>Holding times\<close>

fun hold_limit :: "hypothesis \<Rightarrow> int" where
  "hold_limit (H3 _ hb) = hb"
| "hold_limit (H4 _ hb _) = hb"
| "hold_limit (H5 _ hb) = hb"
| "hold_limit _ = 0"

fun answers :: "hypothesis \<Rightarrow> bar list list \<Rightarrow> strat_state \<Rightarrow> dec res list" where
  "answers h [] s = []"
| "answers h (x # xs) s = (case target_of h x s of (r, s') \<Rightarrow> r # answers h xs s')"

lemma hold_on_run:
  "hold_on hb s = (if hb \<le> sv_held s + 1 then (Inr 0, s\<lparr>sv_position := 0, sv_held := 0\<rparr>)
     else (Inr (sv_position s), s\<lparr>sv_held := sv_held s + 1\<rparr>))"
  by (simp add: hold_on_def start_side_def stay_def andthen_def bind_def upd_def get_def ret_def)

lemma open_target:
  assumes "holds_bars h" "history \<noteq> []" "sv_position s \<noteq> 0"
  shows "target_of h history s = hold_on (hold_limit h) s \<or> target_of h history s = start_side 0 s"
  using assms
  by (cases h) (auto simp: index_lag_def lead_lag_def overshoot_def Let_def bind_def get_def split: option.split)

lemma start_side_run: "start_side x s = (Inr x, s\<lparr>sv_position := x, sv_held := 0\<rparr>)"
  by (simp add: start_side_def andthen_def bind_def upd_def ret_def)

lemma answers_let_go:
  assumes "holds_bars h" "\<forall>history \<in> set hs. history \<noteq> []" "sv_position s \<noteq> 0" "hs \<noteq> []"
    "hold_limit h \<le> sv_held s + int (length hs)"
  shows "Inr 0 \<in> set (answers h hs s)"
  using assms(2-)
proof (induction hs arbitrary: s)
  case (Cons x xs)
  consider "target_of h x s = start_side 0 s" | "target_of h x s = hold_on (hold_limit h) s"
    using open_target [OF assms(1), of x s] Cons.prems by auto
  then show ?case
  proof cases
    case 2
    show ?thesis
    proof (cases "hold_limit h \<le> sv_held s + 1")
      case False
      then have "xs \<noteq> []" using Cons.prems by auto
      then show ?thesis using 2 False Cons.prems Cons.IH [of "s\<lparr>sv_held := sv_held s + 1\<rparr>"]
        by (simp add: hold_on_run)
    qed (simp add: 2 hold_on_run)
  qed (simp add: start_side_run)
qed simp

text \<open>
  C25. A strategy with a holding time lets go: from any reachable state with an open side, \<open>hold_bars\<close>
  further targets (at least one) contain a flat one.
\<close>

theorem holding_strategies_let_go:
  assumes "strat_reaches h s" "holds_bars h" "sv_position s \<noteq> 0"
    and "hs \<noteq> []" "hold_limit h \<le> int (length hs)" "\<forall>history \<in> set hs. history \<noteq> []"
  shows "Inr 0 \<in> set (answers h hs s)"
  by (rule answers_let_go) (use assms reaches_sided [OF assms(1)] in \<open>auto simp: sided_def\<close>)

lemma holding_strategies_let_go_witness:
  "Inr 0 \<in> set (answers (H5 (5/2) 3) (replicate 3 [sample_hour 0]) (strat_new\<lparr>sv_position := 1\<rparr>))"
proof -
  have "strat_reaches (H5 (5/2) 3) (strat_new\<lparr>sv_position := 1\<rparr>)"
    by (rule strat_reaches.recovered [OF strat_reaches.fresh, of 1]) (simp_all add: recover_of_def upd_def)
  from holding_strategies_let_go [OF this, of "replicate 3 [sample_hour 0]"] show ?thesis
    by (simp add: strat_new_def)
qed

section \<open>No look-ahead into the proxy\<close>

lemma map_filter_cong: "(\<And>x. x \<in> set xs \<Longrightarrow> f x = g x) \<Longrightarrow> List.map_filter f xs = List.map_filter g xs"
  by (induction xs) (auto simp: map_filter_simps split: option.split)

text \<open>
  The strategies that trade against proxy closes read them only at the hours of the bars they were given:
  proxies that agree there give the same target, and the same remembered state.
\<close>

theorem proxy_read_only_at_history:
  assumes "\<forall>b \<in> set history. px (br_open_ts b) = px' (br_open_ts b)"
  shows "target_of (H2 lb ez px) history = target_of (H2 lb ez px') history
    \<and> target_of (H4 gb hb px) history = target_of (H4 gb hb px') history"
proof
  have p: "b \<in> set history \<Longrightarrow> basis_pair px b = basis_pair px' b" for b
    using assms by (simp add: basis_pair_def)
  have "List.map_filter (basis_pair px) (rev history) = List.map_filter (basis_pair px') (rev history)"
    by (rule map_filter_cong) (simp add: p)
  then show "target_of (H2 lb ez px) history = target_of (H2 lb ez px') history"
    using p by (cases "history = []") (simp_all add: basis_def)
  show "target_of (H4 gb hb px) history = target_of (H4 gb hb px') history"
  proof (cases "length history < 2")
    case False
    then have "history \<noteq> []" by auto
    then have "history ! (length history - 2) \<in> set history" "last history \<in> set history"
      using False by (auto intro: nth_mem)
    then have e: "px (br_open_ts (history ! (length history - 2))) = px' (br_open_ts (history ! (length history - 2)))"
      "px (br_open_ts (last history)) = px' (br_open_ts (last history))" using assms by blast+
    show ?thesis unfolding target_of.simps lead_lag_def Let_def e ..
  qed (simp add: lead_lag_def)
qed

lemma proxy_read_only_at_history_witness:
  "target_of (H4 25 3 (\<lambda>_. Some 100)) [sample_hour 0, sample_hour 1] =
   target_of (H4 25 3 (\<lambda>t. if t \<le> 3600000000 then Some 100 else None)) [sample_hour 0, sample_hour 1]"
  using proxy_read_only_at_history [of "[sample_hour 0, sample_hour 1]" "\<lambda>_. Some 100"
      "\<lambda>t. if t \<le> 3600000000 then Some 100 else None" 0 0 25 3]
  by (simp add: sample_hour_def del: target_of.simps)

section \<open>The direction of a fade\<close>

lemma repr_digits_reads_back: "repr_digits f p = Some d \<Longrightarrow> fl d = f"
  by (auto simp: repr_digits_def Let_def split: if_splits)

lemma first_some_Some: "first_some g xs = Some y \<Longrightarrow> \<exists>x \<in> set xs. g x = Some y"
  by (induction xs) (auto split: option.splits)

lemma repr_dec_sign: "0 < repr_dec f \<longleftrightarrow> 0 < f" "repr_dec f < 0 \<longleftrightarrow> f < 0"
proof -
  have r: "0 < rnd 10 17 f \<longleftrightarrow> 0 < f" "rnd 10 17 f < 0 \<longleftrightarrow> f < 0"
    using rnd_pos [of 10 17 f] rnd_pos [of 10 17 "- f"] by (cases f "0 :: rat" rule: linorder_cases; simp)+
  show "0 < repr_dec f \<longleftrightarrow> 0 < f" "repr_dec f < 0 \<longleftrightarrow> f < 0"
    using r fl_pos_iff fl_neg_iff
    by (auto simp: repr_dec_def split: option.split dest!: first_some_Some repr_digits_reads_back)
qed

lemma zscore_sign:
  assumes "zscore vs = Some z"
  shows "0 < z \<longrightarrow> fmean (map fl vs) < last (map fl vs)" "z < 0 \<longrightarrow> last (map fl vs) < fmean (map fl vs)"
proof -
  let ?xs = "map fl vs"
  have n: "3 \<le> length vs" using assms by (auto simp: zscore_def split: if_splits)
  have "z = 0 \<or> (0 < fstdev ?xs \<and> z = repr_dec (fl (fl (last ?xs - fmean ?xs) / fstdev ?xs)))"
    using assms fstdev_nonneg [of ?xs] by (auto simp: zscore_def Let_def split: if_splits)
  then show "0 < z \<longrightarrow> fmean ?xs < last ?xs" "z < 0 \<longrightarrow> last ?xs < fmean ?xs"
    by (auto simp: repr_dec_sign zero_less_divide_iff divide_less_0_iff)
qed

lemma zscore_flat: "3 \<le> length vs \<Longrightarrow> \<forall>v \<in> set vs. v = c \<Longrightarrow> zscore vs = Some 0"
proof -
  assume a: "3 \<le> length vs" "\<forall>v \<in> set vs. v = c"
  have s: "map fl vs = replicate (length vs) (fl c)"
    using a(2) by (intro nth_equalityI) auto
  have "vs \<noteq> []" using a(1) by auto
  then have "exact_mean (map fl vs) = fl c"
    using a(1) unfolding s by (auto simp: exact_mean_def sum_list_replicate)
  then have "fstdev (map fl vs) = 0" using a by (simp add: fstdev_0_iff)
  then show ?thesis using a(1) by (simp add: zscore_def)
qed

definition h1_window :: "nat \<Rightarrow> bar list \<Rightarrow> dec list" where
  "h1_window lb history = map fl (List.map_filter br_funding (last_n lb history))"

text \<open>
  Funding reversion opens against the stretch: from flat, with a positive entry threshold, it goes short
  only when the last funding rate is above the mean of its window and long only when it is below.
\<close>

theorem funding_reversion_fades:
  assumes "target_of (H1 lb ez xz) history s = (Inr x, s')" "sv_position s = 0" "0 < ez" "x \<noteq> 0"
  shows "if x < 0 then fmean (h1_window lb history) < last (h1_window lb history)
    else last (h1_window lb history) < fmean (h1_window lb history)"
proof -
  obtain z where z: "zscore (List.map_filter br_funding (last_n lb history)) = Some z"
    using assms by (cases "zscore (List.map_filter br_funding (last_n lb history))")
      (auto simp: funding_reversion_def fade_def stay_def get_def)
  have "(x = - 1 \<and> ez \<le> z) \<or> (x = 1 \<and> z \<le> dneg ez)"
    using assms z by (auto simp: funding_reversion_def fade_def stay_def take_side_def get_def upd_def ret_def
        andthen_def bind_def split: if_splits)
  moreover have "dneg ez < 0" using assms(3) by (simp add: dneg_def)
  ultimately show ?thesis using zscore_sign [OF z] assms(3) by (auto simp: h1_window_def)
qed

lemma funding_reversion_fades_witness:
  "fmean (h1_window 3 [funded_hour 0 (- 1), funded_hour 1 0, funded_hour 2 1])
     < last (h1_window 3 [funded_hour 0 (- 1), funded_hour 1 0, funded_hour 2 1])"
proof -
  have "fst (target_of (H1 3 (1/2) (1/4)) [funded_hour 0 (- 1), funded_hour 1 0, funded_hour 2 1] strat_new) = Inr (- 1)"
    by code_simp
  then obtain s' where "target_of (H1 3 (1/2) (1/4)) [funded_hour 0 (- 1), funded_hour 1 0, funded_hour 2 1] strat_new
      = (Inr (- 1), s')" by (metis prod.collapse)
  from funding_reversion_fades [OF this] show ?thesis by (simp add: strat_new_def)
qed

end
