(* ===== verification/Strategy_Frame.thy ===== *)
theory Strategy_Frame
  imports Strategy_Laws Router_Laws
begin

text \<open>
  The interface between a strategy and what runs it. Whatever the operations of a strategy keep of its state, every
  call of a router and every backtest keep: both reach the object through the protocol of
  \<open>backtest/strategy.py\<close> alone. The instance is the six hypotheses and the states they reach.
\<close>

section \<open>The interface\<close>

definition steered :: "'s strat_ops \<Rightarrow> ('s \<Rightarrow> bool) \<Rightarrow> 's router \<Rightarrow> bool" where
  "steered st Inv r \<longleftrightarrow> rt_strategy r = st \<and> Inv (rt_strat r)"

lemma steered_rupd:
  "(\<And>r. rt_strategy (f r) = rt_strategy r \<and> rt_strat (f r) = rt_strat r) \<Longrightarrow> keeps (\<lambda>w. steered st Inv (re_rt w)) (rupd f)"
  by (rule keeps_rupd) (simp add: steered_def)

lemma steered_set_state: "keeps (\<lambda>w. steered st Inv (re_rt w)) (set_state s)"
  unfolding set_state_def by (intro keeps_intros steered_rupd) simp

lemma steered_record: "keeps (\<lambda>w. steered st Inv (re_rt w)) (record_decision t v i c n)"
  unfolding record_decision_def by (intro keeps_intros steered_rupd) simp

lemma steered_rstrat:
  "keeps Inv (m st) \<Longrightarrow> keeps (\<lambda>w. steered st Inv (re_rt w)) (rstrat m)"
  using keepsD [of Inv "m st"]
  by (fastforce simp: keeps_def rstrat_def rget_def bind_def get_def focus_def steered_def split: prod.split)

lemma steered_adopt: "keeps (\<lambda>w. steered st Inv (re_rt w)) (adopt X sn)"
  unfolding adopt_def by (intro keeps_intros steered_rupd) simp_all

lemma steered_halt: "keeps (\<lambda>w. steered st Inv (re_rt w)) (halt reason)"
  unfolding halt_def by (intro keeps_intros steered_rupd steered_set_state) simp

lemma steered_submit: "keeps (\<lambda>w. steered st Inv (re_rt w)) (submit_attempts X rq sz ns)"
  by (induction ns) (auto intro!: keeps_intros)

lemma steered_send: "keeps (\<lambda>w. steered st Inv (re_rt w)) (send X i t v)"
  unfolding send_def place_order_def attempt_send_def submit_with_recovery_def submit_failed_def submit_returned_def Let_def
  by (auto intro!: keeps_intros steered_rupd steered_record steered_set_state steered_submit steered_adopt steered_halt
      split: sum.split option.split)

lemma steered_exit: "keeps (\<lambda>w. steered st Inv (re_rt w)) (exit_position X mark reason t sz)"
  unfolding exit_position_def by (intro keeps_intros steered_send)

lemma steered_shutdown: "keeps (\<lambda>w. steered st Inv (re_rt w)) (shutdown X mark sz)"
  unfolding shutdown_def Let_def by (intro keeps_intros steered_exit steered_set_state)

lemma steered_replace_stop: "keeps (\<lambda>w. steered st Inv (re_rt w)) (replace_stop X)"
  unfolding replace_stop_def by (auto intro!: keeps_intros steered_rupd split: option.split)

lemma steered_on_fast: "keeps (\<lambda>w. steered st Inv (re_rt w)) (router_on_fast X mark sn)"
  unfolding router_on_fast_def margin_check_def Let_def
  by (auto intro!: keeps_intros steered_rupd steered_set_state steered_exit split: option.split)

lemma steered_apply_fill: "keeps (\<lambda>w. steered st Inv (re_rt w)) (apply_fill ev)"
  unfolding apply_fill_def by (auto intro!: keeps_intros steered_rupd split: prod.split)

lemmas steered_intros = keeps_intros steered_rupd steered_set_state steered_record steered_adopt steered_halt steered_send
  steered_exit steered_shutdown steered_replace_stop steered_on_fast steered_apply_fill

locale strategy_frame =
  fixes st :: "'s strat_ops" and Inv :: "'s \<Rightarrow> bool"
  assumes target_keeps: "keeps Inv (st_target st history)"
    and flatten_keeps: "st_on_flatten st = Some h \<Longrightarrow> keeps Inv h"
    and recover_keeps: "st_on_recover st = Some g \<Longrightarrow> sg = 1 \<or> sg = - 1 \<Longrightarrow> keeps Inv (g sg)"
begin

lemma hooks:
  "keeps (\<lambda>w. steered st Inv (re_rt w)) flatten_hook"
  "sg = 1 \<or> sg = - 1 \<Longrightarrow> keeps (\<lambda>w. steered st Inv (re_rt w)) (recover_hook sg)"
  unfolding flatten_hook_def recover_hook_def
  by (rule steered_rstrat, rule keeps_case_option, rule keeps_intros, erule flatten_keeps)
    (rule steered_rstrat, rule keeps_case_option, rule keeps_intros, erule recover_keeps, assumption)

lemma adopt_and_settle: "keeps (\<lambda>w. steered st Inv (re_rt w)) (adopt_and_settle X sn)"
  unfolding adopt_and_settle_def by (intro steered_intros hooks) auto

lemma on_bar: "keeps (\<lambda>w. steered st Inv (re_rt w)) (router_on_bar X h sn kill pending)"
  unfolding router_on_bar_def on_target_def enter_def skip_def Let_def
  by (auto intro!: steered_intros steered_rstrat target_keeps split: prod.split option.split)

lemma check_pending: "keeps (\<lambda>w. steered st Inv (re_rt w)) (check_pending X sn)"
  unfolding check_pending_def by (auto intro!: steered_intros adopt_and_settle split: option.split)

lemma handle_event: "keeps (\<lambda>w. steered st Inv (re_rt w)) (handle_event X ev)"
  unfolding handle_event_def fill_event_def after_fill_def flattened_by_fill_def late_fill_def order_update_event_def Let_def
  by (auto intro!: steered_intros adopt_and_settle hooks split: event.split option.split)

lemma run_call_keeps: "keeps (\<lambda>w. steered st Inv (re_rt w)) (run_call X c)"
  by (cases c) (auto intro!: steered_intros on_bar check_pending handle_event)

lemma router_run: "reaches X w w' \<Longrightarrow> steered st Inv (re_rt w) \<Longrightarrow> steered st Inv (re_rt w')"
proof (induction rule: reaches.induct)
  case (call w v c r v')
  then show ?case using keepsD [OF run_call_keeps, of v X c] by simp
qed simp_all

text \<open>The harness: the book's other fields do not matter.\<close>

lemma bstrat_keeps: "keeps Inv m \<Longrightarrow> keeps (\<lambda>b. Inv (bk_strat b)) (bstrat m)"
  using keepsD [of Inv m] by (fastforce simp: keeps_def bstrat_def focus_def split: prod.split)

lemma book_upd: "(\<And>b. bk_strat (f b) = bk_strat b) \<Longrightarrow> keeps (\<lambda>b. Inv (bk_strat b)) (upd f)"
  by (rule keeps_upd) simp

lemma book_rows: "keeps (\<lambda>b. Inv (bk_strat b)) (blog bp ts kind price x note)" "keeps (\<lambda>b. Inv (bk_strat b)) (bres g)"
    "keeps (\<lambda>b. Inv (bk_strat b)) (bmark bp ts close)"
  unfolding blog_def bmark_def bres_def Let_def by (intro keeps_intros book_upd; simp)+

lemma trade_keeps: "keeps (\<lambda>b. Inv (bk_strat b)) (trade_to bp st target price spread ts kind note)"
  unfolding trade_to_def settle_entry_def realise_def write_trade_def bt_flattened_def Let_def
  by (auto intro!: keeps_intros book_upd book_rows bstrat_keeps flatten_keeps split: option.split)

lemma bar_keeps: "keeps (\<lambda>b. Inv (bk_strat b)) (bar_step bp st history b nxt)"
  unfolding bar_step_def stop_step_def funding_step_def gap_step_def guard_step_def guard_unpriced_def decide_step_def fill_step_def Let_def
  by (auto intro!: keeps_intros book_upd book_rows trade_keeps bstrat_keeps target_keeps
      split: option.split fill_source.split)

lemma backtest_run: "run_backtest bp st bars s = (r, s') \<Longrightarrow> Inv s \<Longrightarrow> Inv s'"
proof -
  let ?steps = "forM [bp_warmup bp ..< length bars - 1] (bt_step bp st bars)"
  assume "run_backtest bp st bars s = (r, s')" "Inv s"
  moreover have "keeps (\<lambda>b. Inv (bk_strat b)) ?steps" by (intro keeps_intros) (simp add: bt_step_def bar_keeps)
  ultimately show ?thesis
    using keepsD [of "\<lambda>b. Inv (bk_strat b)" ?steps "bt_init bars (bt_header bp st) s"]
    by (auto simp: run_backtest_def bt_init_def split: prod.splits sum.splits)
qed

end

section \<open>The hypotheses\<close>

interpretation hypothesis_run: strategy_frame "strategy_of h" "strat_reaches h" for h
proof
  show "keeps (strat_reaches h) (st_target (strategy_of h) history)" for history
    unfolding keeps_def strategy_of_def by (auto intro: strat_reaches.target prod.collapse [symmetric])
  show "keeps (strat_reaches h) m" if "st_on_flatten (strategy_of h) = Some m" for m
    using that unfolding keeps_def strategy_of_def by (auto intro: strat_reaches.flatten prod.collapse [symmetric])
  show "keeps (strat_reaches h) (g sg)" if "st_on_recover (strategy_of h) = Some g" "sg = 1 \<or> sg = - 1" for g sg
    using that unfolding keeps_def strategy_of_def by (auto intro: strat_reaches.recovered prod.collapse [symmetric])
qed

text \<open>
  C24. A strategy only ever asks for a side, whoever runs it. Whatever bars, marks, events, timeouts, halts and
  shutdowns a router goes through with any executor, its strategy stays in a state that its own operations reach, the
  next target it returns is -1, 0 or 1, and that is the side the object remembers.
\<close>

theorem running_strategy_asks_for_sides:
  assumes "reaches X w w'" "rt_strategy (re_rt w) = strategy_of h" "strat_reaches h (rt_strat (re_rt w))"
  shows "strat_reaches h (rt_strat (re_rt w')) \<and> rt_strategy (re_rt w') = strategy_of h \<and>
    (\<forall>history x s'. target_of h history (rt_strat (re_rt w')) = (Inr x, s') \<longrightarrow> x \<in> {- 1, 0, 1} \<and> sv_position s' = x)"
proof -
  have r: "strat_reaches h (rt_strat (re_rt w'))" "rt_strategy (re_rt w') = strategy_of h"
    using hypothesis_run.router_run [OF assms(1)] assms(2,3) by (simp_all add: steered_def)
  then show ?thesis using target_outcome [OF reaches_sided [OF r(1)]] by (fastforce simp: sided_def one_side_def)
qed

definition carry_env :: "(sim, strat_state) renv" where
  "carry_env = \<lparr>re_rt = router_init ''r'' 6 ''crypto'' (strategy_of (H6 (1/2) 1)) strat_new (\<lambda>_. None) LIMITS EXPOSURE,
     re_io = sample_io\<rparr>"

lemma running_strategy_asks_for_sides_witness:
  "strat_reaches (H6 (1/2) 1)
     (rt_strat (re_rt (snd (run_call sim_ops (OnBar [funded_hour 0 (1/1000)] (sample_snapshot 50 []) Run []) carry_env))))"
proof -
  have "reaches sim_ops carry_env
      (snd (run_call sim_ops (OnBar [funded_hour 0 (1/1000)] (sample_snapshot 50 []) Run []) carry_env))"
    by (rule reaches.call [OF reaches.start]) (rule prod.collapse [symmetric])
  from running_strategy_asks_for_sides [OF this, of "H6 (1/2) 1"] show ?thesis
    by (simp add: carry_env_def router_init_def strat_reaches.fresh)
qed

text \<open>The same for a backtest: whatever its bars and wherever it stops, the strategy is in a state it reaches.\<close>

lemma backtest_reaches: "run_backtest bp (strategy_of h) bars strat_new = (r, s') \<Longrightarrow> strat_reaches h s'"
  by (rule hypothesis_run.backtest_run) (auto intro: strat_reaches.fresh)

end
