(* ===== verification/Retention.thy ===== *)
theory Retention
  imports Bars
begin

text \<open>
  \<open>scripts/prune.py\<close>: the daily retention run, which rolls the closed hours up and then deletes the raw ticks and
  books older than the cutoff, a batch at a time. Which of the matching rows a \<open>LIMIT\<close> without an order takes is the
  engine's choice, a parameter. The process around it and the rewrite of the file are in \<open>Prune_Run\<close>.
\<close>

section \<open>Deleting\<close>

text \<open>The rowids of the matching rows are their indices; a negative limit is none.\<close>

definition doomed :: "('r \<Rightarrow> bool) \<Rightarrow> 'r list \<Rightarrow> nat list" where
  "doomed cond rows = filter (\<lambda>i. cond (rows ! i)) [0..<length rows]"

definition sql_limit :: "int \<Rightarrow> 'a list \<Rightarrow> 'a list" where
  "sql_limit n xs = (if n < 0 then xs else take (nat n) xs)"

definition delete_batch :: "(nat list \<Rightarrow> nat list) \<Rightarrow> int \<Rightarrow> ('r \<Rightarrow> bool) \<Rightarrow> 'r list \<Rightarrow> nat \<times> 'r list" where
  "delete_batch pick batch cond rows =
     (let ids = sql_limit batch (pick (doomed cond rows));
          rest = map fst (filter (\<lambda>(r, i). i \<notin> set ids) (zip rows [0..<length rows])) in
      (length rows - length rest, rest))"

text \<open>\<open>while n := DELETE \<dots>\<close>: \<open>None\<close> would be a loop that never ends.\<close>

partial_function (option) delete_all ::
  "(nat list \<Rightarrow> nat list) \<Rightarrow> int \<Rightarrow> ('r \<Rightarrow> bool) \<Rightarrow> nat \<Rightarrow> 'r list \<Rightarrow> (nat \<times> 'r list) option" where
  "delete_all pick batch cond n rows =
     (case delete_batch pick batch cond rows of (k, rest) \<Rightarrow>
        if k = 0 then Some (n, rest) else delete_all pick batch cond (n + k) rest)"

fun prune_ids ::
  "(nat list \<Rightarrow> nat list) \<Rightarrow> int \<Rightarrow> ('r \<Rightarrow> int) \<Rightarrow> ('r \<Rightarrow> time) \<Rightarrow> time \<Rightarrow> int list \<Rightarrow> nat \<Rightarrow> 'r list
   \<Rightarrow> (nat \<times> 'r list) option" where
  "prune_ids pick batch inst ts cutoff [] n rows = Some (n, rows)"
| "prune_ids pick batch inst ts cutoff (iid # iids) n rows =
     (case delete_all pick batch (\<lambda>r. inst r = iid \<and> ts r < cutoff) n rows of
        None \<Rightarrow> None
      | Some (n', rows') \<Rightarrow> prune_ids pick batch inst ts cutoff iids n' rows')"

definition prune_table ::
  "(nat list \<Rightarrow> nat list) \<Rightarrow> int \<Rightarrow> ('r \<Rightarrow> int) \<Rightarrow> ('r \<Rightarrow> time) \<Rightarrow> time \<Rightarrow> 'r list \<Rightarrow> (nat \<times> 'r list) option" where
  "prune_table pick batch inst ts cutoff rows =
     prune_ids pick batch inst ts cutoff (remdups (map inst rows)) 0 rows"

definition TABLES :: "string list" where "TABLES = [''ticks'', ''book_snapshots'']"

definition prune :: "(nat list \<Rightarrow> nat list) \<Rightarrow> time \<Rightarrow> int \<Rightarrow> db \<Rightarrow> ((string \<times> nat) list \<times> db) option" where
  "prune pick cutoff batch d =
     (case prune_table pick batch tk_instrument tk_exchange_ts cutoff (db_ticks d) of
        None \<Rightarrow> None
      | Some (n, ticks) \<Rightarrow>
          (case prune_table pick batch bs_instrument bs_exchange_ts cutoff (db_books d) of
             None \<Rightarrow> None
           | Some (m, books) \<Rightarrow> Some (zip TABLES [n, m], d\<lparr>db_ticks := ticks, db_books := books\<rparr>)))"

text \<open>A rollup that raises deletes nothing.\<close>

definition retention_run ::
  "(nat list \<Rightarrow> nat list) \<Rightarrow> time \<Rightarrow> int \<Rightarrow> db \<Rightarrow> ((nat \<times> (string \<times> nat) list) res \<times> db) option" where
  "retention_run pick now n d =
     (case rollup_hours now d of
        (Inl e, d') \<Rightarrow> Some (Inl e, d')
      | (Inr rolled, d') \<Rightarrow>
          map_option (\<lambda>(deleted, d''). (Inr (rolled, deleted), d'')) (prune pick (now - days n) 5000 d'))"

section \<open>The loop ends\<close>

lemma filter_nths: "(\<And>i. i < length xs \<Longrightarrow> i \<notin> A \<Longrightarrow> \<not> Q (xs ! i)) \<Longrightarrow> filter Q (nths xs A) = filter Q xs"
proof (induction xs arbitrary: A)
  case (Cons x xs)
  have "filter Q (nths xs {j. Suc j \<in> A}) = filter Q xs"
    by (rule Cons.IH) (use Cons.prems in force)
  moreover have "0 \<notin> A \<Longrightarrow> \<not> Q x" using Cons.prems [of 0] by simp
  ultimately show ?case by (simp add: nths_Cons)
qed simp

lemma set_sql_limit: "set (sql_limit n xs) \<subseteq> set xs"
  by (simp add: sql_limit_def set_take_subset)

lemma sql_limit_Nil: "n \<noteq> 0 \<Longrightarrow> sql_limit n xs = [] \<longleftrightarrow> xs = []"
  by (auto simp: sql_limit_def)

definition lists_rows :: "(nat list \<Rightarrow> nat list) \<Rightarrow> bool" where
  "lists_rows pick \<longleftrightarrow> (\<forall>ids. set (pick ids) = set ids \<and> length (pick ids) = length ids)"

lemma lists_rowsD: "lists_rows pick \<Longrightarrow> set (pick ids) = set ids"
  by (simp add: lists_rows_def)

lemma delete_batch_spec:
  assumes "lists_rows pick" "delete_batch pick batch cond rows = (k, rest)"
  shows "filter (\<lambda>r. \<not> cond r) rest = filter (\<lambda>r. \<not> cond r) rows" "length rest + k = length rows"
    "batch \<noteq> 0 \<Longrightarrow> k = 0 \<Longrightarrow> \<forall>r \<in> set rest. \<not> cond r"
proof -
  define ids where "ids = set (sql_limit batch (pick (doomed cond rows)))"
  have rest: "rest = nths rows (- ids)" and k: "k = length rows - length rest"
    using assms(2) by (auto simp: delete_batch_def Let_def ids_def nths_def split_def)
  have ids: "ids \<subseteq> {i. i < length rows \<and> cond (rows ! i)}"
    using set_sql_limit [of batch "pick (doomed cond rows)"] lists_rowsD [OF assms(1), of "doomed cond rows"]
    by (auto simp: ids_def doomed_def)
  show "filter (\<lambda>r. \<not> cond r) rest = filter (\<lambda>r. \<not> cond r) rows"
    unfolding rest by (rule filter_nths) (use ids in auto)
  have "{i. i < length rows \<and> i \<in> - ids} = {..<length rows} - ids" by auto
  then have len: "length rest = length rows - card ids"
    unfolding rest length_nths using ids by (simp add: card_Diff_subset [OF finite_subset [of _ "{..<length rows}"]] subset_iff lessThan_def)
  have le: "card ids \<le> length rows" using ids card_mono [of "{..<length rows}" ids] by auto
  then show "length rest + k = length rows" unfolding k len by simp
  assume "batch \<noteq> 0" "k = 0"
  then have "card ids = 0" using len le k by simp
  moreover have "finite ids" by (simp add: ids_def)
  ultimately have "sql_limit batch (pick (doomed cond rows)) = []" by (simp add: ids_def)
  then have "set (doomed cond rows) = {}"
    using \<open>batch \<noteq> 0\<close> lists_rowsD [OF assms(1), of "doomed cond rows"] by (simp add: sql_limit_Nil)
  then have "\<not> cond r" if "r \<in> set rows" for r
    using that by (auto simp: doomed_def in_set_conv_nth)
  then show "\<forall>r \<in> set rest. \<not> cond r" unfolding rest by (auto dest: in_set_nthsD)
qed

lemma delete_all_spec:
  assumes "lists_rows pick" "batch \<noteq> 0"
  shows "delete_all pick batch cond n rows =
    Some (n + length (filter cond rows), filter (\<lambda>r. \<not> cond r) rows)"
proof (induction "length rows" arbitrary: n rows rule: less_induct)
  case less
  obtain k rest where b: "delete_batch pick batch cond rows = (k, rest)" by fastforce
  note spec = delete_batch_spec [OF assms(1) b]
  have count: "length (filter cond xs) + length (filter (\<lambda>r. \<not> cond r) xs) = length xs" for xs
    by (rule sum_length_filter_compl)
  show ?case
  proof (cases "k = 0")
    case True
    with spec(3) assms(2) have "filter cond rest = []" "filter (\<lambda>r. \<not> cond r) rest = rest"
      by (auto simp: filter_empty_conv filter_id_conv)
    with spec(1,2) True count [of rows] show ?thesis
      by (subst delete_all.simps) (simp add: b)
  next
    case False
    with spec(2) have "length rest < length rows" by simp
    from less [OF this] spec(1,2) count [of rows] count [of rest] False show ?thesis
      by (subst delete_all.simps) (simp add: b)
  qed
qed

lemma prune_ids_spec:
  assumes "lists_rows pick" "batch \<noteq> 0"
  shows "prune_ids pick batch inst ts cutoff iids n rows =
    Some (n + length (filter (\<lambda>r. inst r \<in> set iids \<and> ts r < cutoff) rows),
      filter (\<lambda>r. \<not> (inst r \<in> set iids \<and> ts r < cutoff)) rows)"
proof (induction iids arbitrary: n rows)
  case (Cons iid iids)
  let ?one = "\<lambda>r. inst r = iid \<and> ts r < cutoff" and ?rest = "\<lambda>r. inst r \<in> set iids \<and> ts r < cutoff"
  have "length (filter ?one rows) + length (filter ?rest (filter (\<lambda>r. \<not> ?one r) rows)) =
      length (filter (\<lambda>r. inst r \<in> set (iid # iids) \<and> ts r < cutoff) rows)"
    by (induction rows) auto
  moreover have "filter (\<lambda>r. \<not> ?rest r) (filter (\<lambda>r. \<not> ?one r) rows) =
      filter (\<lambda>r. \<not> (inst r \<in> set (iid # iids) \<and> ts r < cutoff)) rows"
    by (induction rows) auto
  ultimately show ?case by (simp only: prune_ids.simps delete_all_spec [OF assms] Cons.IH option.case prod.case) simp
qed simp

lemma prune_table_spec:
  assumes "lists_rows pick" "batch \<noteq> 0"
  shows "prune_table pick batch inst ts cutoff rows =
    Some (length (filter (\<lambda>r. ts r < cutoff) rows), filter (\<lambda>r. cutoff \<le> ts r) rows)"
  by (auto simp: prune_table_def prune_ids_spec [OF assms] not_less intro!: arg_cong [where f = length] filter_cong)

lemma prune_spec:
  assumes "lists_rows pick" "batch \<noteq> 0"
  shows "prune pick cutoff batch d =
    Some ([(''ticks'', length (filter (\<lambda>t. tk_exchange_ts t < cutoff) (db_ticks d))),
           (''book_snapshots'', length (filter (\<lambda>b. bs_exchange_ts b < cutoff) (db_books d)))],
      d\<lparr>db_ticks := filter (\<lambda>t. cutoff \<le> tk_exchange_ts t) (db_ticks d),
        db_books := filter (\<lambda>b. cutoff \<le> bs_exchange_ts b) (db_books d)\<rparr>)"
  by (simp add: prune_def prune_table_spec [OF assms] TABLES_def)

section \<open>What an hour reads\<close>

text \<open>The rollup's value of a whole hour.\<close>

fun rollup_at :: "(rollup_row \<Rightarrow> dec option) \<Rightarrow> int \<Rightarrow> time \<Rightarrow> rollup_row list \<Rightarrow> dec option" where
  "rollup_at column iid h [] = None"
| "rollup_at column iid h (r # rs) =
     (if hr_instrument r = iid \<and> hr_hour r = h \<and> column r \<noteq> None then column r else rollup_at column iid h rs)"

lemma rollup_at_append:
  "rollup_at column iid h (rs @ qs) = (case rollup_at column iid h rs of None \<Rightarrow> rollup_at column iid h qs | Some v \<Rightarrow> Some v)"
  by (induction rs) auto

lemma rollup_at_None:
  "rollup_at column iid h rs = None \<longleftrightarrow> (\<forall>r \<in> set rs. hr_instrument r = iid \<and> hr_hour r = h \<longrightarrow> column r = None)"
  by (induction rs) auto

lemma rollup_at_Some: "rollup_at column iid h rs = Some v \<Longrightarrow> \<exists>r \<in> set rs. hr_instrument r = iid \<and> hr_hour r = h \<and> column r = Some v"
  by (induction rs) (auto split: if_splits)

lemma map_of_rollup_values:
  assumes "start \<le> h" "h + HOUR - MICRO \<le> e"
  shows "map_of (rollup_values column d iid start e) h = rollup_at column iid h (db_rollup d)"
proof -
  have "h \<le> e" using assms HOUR_pos by (simp add: MICRO_def)
  then have "map_of (List.map_filter (\<lambda>r. case column r of None \<Rightarrow> None | Some v \<Rightarrow>
      if hr_instrument r = iid \<and> between start e (hr_hour r) \<and> start \<le> hr_hour r \<and> hr_hour r + HOUR - MICRO \<le> e
      then Some (hr_hour r, v) else None) rs) h = rollup_at column iid h rs" for rs
    using assms by (induction rs) (auto simp: between_def map_filter_simps split: option.split)
  then show ?thesis by (simp add: rollup_values_def)
qed

lemma map_of_index_step:
  "map_of (index_step d iid start e out x) h =
     (if h = x \<and> map_of out x = None
      then map_option tk_index (newest_native d iid (max x start) (min (x + HOUR - MICRO) e)) else map_of out h)"
  by (auto simp: index_step_def update_conv' split: option.split)

lemma map_of_index_steps:
  "map_of (foldl (index_step d iid start e) out hs) h =
     (case map_of out h of Some v \<Rightarrow> Some v
      | None \<Rightarrow> if h \<in> set hs then map_option tk_index (newest_native d iid (max h start) (min (h + HOUR - MICRO) e)) else None)"
proof (induction hs arbitrary: out)
  case (Cons x hs)
  show ?case by (simp add: Cons.IH map_of_index_step split: option.split)
qed (simp split: option.split)

text \<open>A whole hour inside the window: the rollup's value, else the newest native tick of the hour.\<close>

lemma index_of_hour:
  assumes "HOUR dvd h" "start \<le> h" "h + HOUR - MICRO \<le> e"
  shows "map_of (query_last_index_by_hour d iid start e) h =
    (case rollup_at hr_index iid h (db_rollup d) of Some v \<Rightarrow> Some v
     | None \<Rightarrow> map_option tk_index (newest_native d iid h (h + HOUR - MICRO)))"
proof -
  have "HOUR dvd floor_hour start" using floor_hour_dvd [of start] by (simp add: HOUR_def)
  moreover have "floor_hour start \<le> h" using floor_hour_le [of start] assms by linarith
  ultimately have "h \<in> set (hours_upto (floor_hour start) e)"
    using assms HOUR_pos by (simp add: mem_hours_upto MICRO_def)
  then show ?thesis
    using assms by (simp add: query_last_index_by_hour_def map_of_index_steps map_of_rollup_values max_def min_def split: option.split)
qed

lemma sort_key_Nil: "sort_key f xs = [] \<longleftrightarrow> xs = []"
  by (metis length_0_conv length_sort)

lemma newest_native_None:
  "newest_native d iid lo hi = None \<longleftrightarrow>
     (\<forall>t \<in> set (db_ticks d). tk_instrument t = iid \<and> native_source (tk_source t) \<longrightarrow> \<not> between lo hi (tk_exchange_ts t))"
  by (auto simp: newest_native_def Let_def sort_key_Nil filter_empty_conv)

lemma newest_native_cong:
  assumes "\<And>t. between lo hi (tk_exchange_ts t) \<Longrightarrow> Q t"
  shows "newest_native (d\<lparr>db_ticks := filter Q (db_ticks d)\<rparr>) iid lo hi = newest_native d iid lo hi"
proof -
  have "filter (\<lambda>t. Q t \<and> tk_instrument t = iid \<and> between lo hi (tk_exchange_ts t) \<and> native_source (tk_source t)) (db_ticks d)
      = filter (\<lambda>t. tk_instrument t = iid \<and> between lo hi (tk_exchange_ts t) \<and> native_source (tk_source t)) (db_ticks d)"
    using assms by (intro filter_cong) auto
  then show ?thesis by (simp add: newest_native_def)
qed

lemma newest_native_db: "db_ticks d' = db_ticks d \<Longrightarrow> newest_native d' = newest_native d"
  by (simp add: newest_native_def fun_eq_iff)

section \<open>What the rollup writes\<close>

lemma rmapM_mem:
  assumes "rmapM f xs = Inr ys"
  shows "x \<in> set xs \<Longrightarrow> \<exists>y \<in> set ys. f x = Inr y" "y \<in> set ys \<Longrightarrow> \<exists>x \<in> set xs. f x = Inr y"
proof -
  have "list_all2 (\<lambda>x y. f x = Inr y) xs ys" using assms by (simp add: rmapM_all2)
  then show "x \<in> set xs \<Longrightarrow> \<exists>y \<in> set ys. f x = Inr y" "y \<in> set ys \<Longrightarrow> \<exists>x \<in> set xs. f x = Inr y"
    by (induction rule: list_all2_induct) auto
qed

lemma inserted_rows:
  "\<exists>new. foldl (\<lambda>acc r. snd (insert_or_ignore key r acc)) rows rs = rows @ new \<and> set new \<subseteq> set rs \<and>
     key ` set rs \<subseteq> key ` set (rows @ new)"
proof (induction rs arbitrary: rows)
  case (Cons r rs)
  obtain new where n: "foldl (\<lambda>acc r. snd (insert_or_ignore key r acc)) (snd (insert_or_ignore key r rows)) rs
      = snd (insert_or_ignore key r rows) @ new" "set new \<subseteq> set rs"
      "key ` set rs \<subseteq> key ` set (snd (insert_or_ignore key r rows) @ new)"
    using Cons.IH by blast
  show ?case
  proof (cases "key r \<in> key ` set rows")
    case True
    with n show ?thesis by (intro exI [of _ new]) (auto simp: insert_or_ignore_def)
  next
    case False
    with n show ?thesis by (intro exI [of _ "r # new"]) (auto simp: insert_or_ignore_def)
  qed
qed simp

text \<open>The hours a run rolls up.\<close>

definition due :: "db \<Rightarrow> time \<Rightarrow> int \<Rightarrow> time \<Rightarrow> bool" where
  "due d now iid h \<longleftrightarrow> rollup_start d iid \<le> h \<and> h \<le> now - HOUR - ROLLUP_GRACE \<and> HOUR dvd h"

definition aligned :: "db \<Rightarrow> int \<Rightarrow> bool" where
  "aligned d iid \<longleftrightarrow> (\<forall>r \<in> set (db_rollup d). hr_instrument r = iid \<longrightarrow> HOUR dvd hr_hour r)"

lemma max_of_in: "max_of xs = Some m \<Longrightarrow> m \<in> set xs \<and> (\<forall>x \<in> set xs. x \<le> m)"
  by (auto simp: max_of_def split: if_splits)

lemma min_of_in: "min_of xs = Some m \<Longrightarrow> m \<in> set xs \<and> (\<forall>x \<in> set xs. m \<le> x)"
  by (auto simp: min_of_def split: if_splits)

lemma floor_hour_HOUR: "HOUR dvd floor_hour t"
  using floor_hour_dvd [of t] by (simp add: HOUR_def)

lemma rollup_start_dvd: "aligned d iid \<Longrightarrow> HOUR dvd rollup_start d iid"
  by (auto simp: rollup_start_def Let_def max_def floor_hour_HOUR aligned_def dest!: max_of_in split: option.split)

lemma rollup_start_after:
  assumes "r \<in> set (db_rollup d)" "hr_instrument r = iid"
  shows "hr_hour r + HOUR \<le> rollup_start d iid"
proof -
  let ?hs = "map hr_hour (filter (\<lambda>r. hr_instrument r = iid) (db_rollup d))"
  have r: "hr_hour r \<in> set ?hs" using assms by auto
  then obtain m where m: "max_of ?hs = Some m" by (cases ?hs) (auto simp: max_of_def)
  with r max_of_in [OF m] have "hr_hour r \<le> m" by blast
  with m show ?thesis by (simp add: rollup_start_def Let_def)
qed

text \<open>Where the rollup starts is the oldest raw hour, or follows the newest rolled-up hour.\<close>

lemma before_rollup_start:
  assumes "t \<in> set (db_ticks d)" "tk_instrument t = iid" "floor_hour (tk_exchange_ts t) < rollup_start d iid"
  shows "\<exists>r \<in> set (db_rollup d). hr_instrument r = iid \<and> rollup_start d iid = hr_hour r + HOUR"
proof -
  define ts where "ts = map tk_exchange_ts (filter (\<lambda>t. tk_instrument t = iid) (db_ticks d))
    @ map bs_exchange_ts (filter (\<lambda>b. bs_instrument b = iid) (db_books d))"
  have t: "tk_exchange_ts t \<in> set ts" using assms by (auto simp: ts_def)
  then obtain m where m: "min_of ts = Some m" by (cases ts) (auto simp: min_of_def)
  then have "floor_hour m \<le> floor_hour (tk_exchange_ts t)" using min_of_in [OF m] t by (intro floor_hour_mono) blast
  then show ?thesis
    using assms(3) m by (auto simp: rollup_start_def Let_def ts_def [symmetric] max_def split: option.splits if_splits dest!: max_of_in)
qed

lemma rollup_one_key: "rollup_one d iid h = Inr (Some r) \<Longrightarrow> hr_instrument r = iid \<and> hr_hour r = h"
  by (auto simp: rollup_one_def Let_def split: if_splits)

lemma rollup_one_index:
  "rollup_one d iid h = Inr (Some r) \<Longrightarrow> hr_index r = map_of (query_last_index_by_hour d iid h (h + HOUR - MICRO)) h"
  "rollup_one d iid h = Inr None \<Longrightarrow> map_of (query_last_index_by_hour d iid h (h + HOUR - MICRO)) h = None"
  by (auto simp: rollup_one_def Let_def split: if_splits)

lemma rollup_rows_mem:
  assumes "rollup_rows d now iid = Inr rs" "aligned d iid"
  shows "r \<in> set rs \<longleftrightarrow> (\<exists>h. due d now iid h \<and> rollup_one d iid h = Inr (Some r))"
    "due d now iid h \<Longrightarrow> \<exists>o'. rollup_one d iid h = Inr o'"
proof -
  have due: "h \<in> set (hours_upto (rollup_start d iid) (now - HOUR - ROLLUP_GRACE)) \<longleftrightarrow> due d now iid h" for h
    using mem_hours_upto [OF rollup_start_dvd [OF assms(2)]] by (auto simp: due_def)
  obtain os where os: "rmapM (rollup_one d iid) (hours_upto (rollup_start d iid) (now - HOUR - ROLLUP_GRACE)) = Inr os"
    and rs: "rs = List.map_filter id os" using assms by (auto simp: rollup_rows_def)
  have "r \<in> set rs \<longleftrightarrow> Some r \<in> set os" by (force simp: rs List.map_filter_def)
  also have "\<dots> \<longleftrightarrow> (\<exists>h. due d now iid h \<and> rollup_one d iid h = Inr (Some r))"
    using rmapM_mem [OF os] due by (metis Inr_inject)
  finally show "r \<in> set rs \<longleftrightarrow> (\<exists>h. due d now iid h \<and> rollup_one d iid h = Inr (Some r))" .
  show "due d now iid h \<Longrightarrow> \<exists>o'. rollup_one d iid h = Inr o'" using rmapM_mem(1) [OF os] due by blast
qed

text \<open>The rows a run adds: those of the hours due, none twice.\<close>

lemma rollup_hours_rows:
  assumes "rollup_hours now d = (Inr n, d')" "\<And>iid. aligned d iid"
  obtains new where "d' = d\<lparr>db_rollup := db_rollup d @ new\<rparr>"
    and "\<And>r. r \<in> set new \<Longrightarrow> due d now (hr_instrument r) (hr_hour r) \<and> rollup_one d (hr_instrument r) (hr_hour r) = Inr (Some r)"
    and "\<And>iid h. iid \<in> set (rollup_ids d) \<Longrightarrow> due d now iid h \<Longrightarrow> rollup_one d iid h = Inr None \<or>
      (\<exists>r. rollup_one d iid h = Inr (Some r) \<and> (iid, h) \<in> rollup_key ` set (db_rollup d @ new))"
proof -
  obtain rss where rss: "rmapM (rollup_rows d now) (rollup_ids d) = Inr rss"
    and d': "d' = d\<lparr>db_rollup := foldl (\<lambda>acc r. snd (insert_or_ignore rollup_key r acc)) (db_rollup d) (concat rss)\<rparr>"
    using assms by (auto simp: rollup_hours_def Let_def split: sum.splits)
  obtain new where new: "foldl (\<lambda>acc r. snd (insert_or_ignore rollup_key r acc)) (db_rollup d) (concat rss) = db_rollup d @ new"
    "set new \<subseteq> set (concat rss)" "rollup_key ` set (concat rss) \<subseteq> rollup_key ` set (db_rollup d @ new)"
    using inserted_rows [of rollup_key "db_rollup d" "concat rss"] by (elim exE conjE) (rule that)
  have "due d now (hr_instrument r) (hr_hour r) \<and> rollup_one d (hr_instrument r) (hr_hour r) = Inr (Some r)"
    if r: "r \<in> set new" for r
  proof -
    obtain rs iid where "r \<in> set rs" "rollup_rows d now iid = Inr rs" using r new(2) rmapM_mem(2) [OF rss] by fastforce
    then obtain h where "due d now iid h" "rollup_one d iid h = Inr (Some r)" using rollup_rows_mem(1) assms(2) by blast
    then show ?thesis using rollup_one_key by metis
  qed
  moreover have "rollup_one d iid h = Inr None \<or>
      (\<exists>r. rollup_one d iid h = Inr (Some r) \<and> (iid, h) \<in> rollup_key ` set (db_rollup d @ new))"
    if iid: "iid \<in> set (rollup_ids d)" and h: "due d now iid h" for iid h
  proof -
    obtain rs where rs: "rs \<in> set rss" "rollup_rows d now iid = Inr rs" using rmapM_mem(1) [OF rss iid] by blast
    obtain o' where o': "rollup_one d iid h = Inr o'" using rollup_rows_mem(2) [OF rs(2) assms(2) h] by blast
    show ?thesis
    proof (cases o')
      case (Some r)
      then have "r \<in> set (concat rss)" using rs o' h rollup_rows_mem(1) [OF rs(2) assms(2)] by auto
      then show ?thesis using new(3) o' Some rollup_one_key [of d iid h r] by (auto simp: rollup_key_def)
    qed (simp add: o')
  qed
  ultimately show thesis using that [of new] d' new(1) by simp
qed

lemma rollup_at_after:
  assumes "rollup_hours now d = (Inr n, d')" "\<And>iid. aligned d iid"
  shows "rollup_at hr_index iid h (db_rollup d') =
    (case rollup_at hr_index iid h (db_rollup d) of Some v \<Rightarrow> Some v
     | None \<Rightarrow> if due d now iid h then map_option tk_index (newest_native d iid h (h + HOUR - MICRO)) else None)"
proof (rule rollup_hours_rows [OF assms])
  fix new assume d': "d' = d\<lparr>db_rollup := db_rollup d @ new\<rparr>"
    and new: "\<And>r. r \<in> set new \<Longrightarrow> due d now (hr_instrument r) (hr_hour r) \<and> rollup_one d (hr_instrument r) (hr_hour r) = Inr (Some r)"
    and all: "\<And>iid h. iid \<in> set (rollup_ids d) \<Longrightarrow> due d now iid h \<Longrightarrow> rollup_one d iid h = Inr None \<or>
      (\<exists>r. rollup_one d iid h = Inr (Some r) \<and> (iid, h) \<in> rollup_key ` set (db_rollup d @ new))"
  let ?raw = "map_option tk_index (newest_native d iid h (h + HOUR - MICRO))"
  have "rollup_at hr_index iid h new = (if due d now iid h then ?raw else None)" if none: "rollup_at hr_index iid h (db_rollup d) = None"
  proof (cases "due d now iid h")
    case True
    have raw: "map_of (query_last_index_by_hour d iid h (h + HOUR - MICRO)) h = ?raw"
      using True none by (subst index_of_hour) (simp_all add: due_def)
    have same: "hr_index r = ?raw" if "r \<in> set new" "hr_instrument r = iid" "hr_hour r = h" for r
      using new [OF that(1)] that rollup_one_index(1) raw by metis
    have old: "hr_instrument r = iid \<Longrightarrow> hr_hour r \<noteq> h" if "r \<in> set (db_rollup d)" for r
      using rollup_start_after [OF that] True HOUR_pos by (force simp: due_def)
    show ?thesis
    proof (cases ?raw)
      case None
      then show ?thesis using same True by (auto simp: rollup_at_None)
    next
      case (Some v)
      then obtain t where "newest_native d iid h (h + HOUR - MICRO) = Some t" by auto
      then have "iid \<in> set (rollup_ids d)" using newest_native_None [of d iid h "h + HOUR - MICRO"]
        by (auto simp: rollup_ids_def)
      then have "(iid, h) \<in> rollup_key ` set (db_rollup d @ new)" using all [OF _ True] rollup_one_index(2) raw Some by fastforce
      then obtain r where "r \<in> set new" "hr_instrument r = iid" "hr_hour r = h" using old by (auto simp: rollup_key_def)
      then have "rollup_at hr_index iid h new \<noteq> None" using same Some by (auto simp: rollup_at_None)
      then obtain w where w: "rollup_at hr_index iid h new = Some w" by blast
      from rollup_at_Some [OF this] same have "Some w = ?raw" by metis
      then show ?thesis using w True by simp
    qed
  next
    case False
    then show ?thesis using new by (auto simp: rollup_at_None)
  qed
  then show ?thesis using d' by (simp add: rollup_at_append split: option.split)
qed

section \<open>Nothing an hour says is lost\<close>

text \<open>Every native tick lies in an hour that is rolled up already or that the next run will roll up.\<close>

definition rolled_up :: "db \<Rightarrow> bool" where
  "rolled_up d \<longleftrightarrow> (\<forall>r \<in> set (db_rollup d). HOUR dvd hr_hour r) \<and>
     (\<forall>t \<in> set (db_ticks d). native_source (tk_source t) \<longrightarrow>
        rollup_start d (tk_instrument t) \<le> floor_hour (tk_exchange_ts t) \<or>
        rollup_at hr_index (tk_instrument t) (floor_hour (tk_exchange_ts t)) (db_rollup d) \<noteq> None)"

lemma rolled_up_aligned: "rolled_up d \<Longrightarrow> aligned d iid"
  by (simp add: rolled_up_def aligned_def)

text \<open>A database without a rollup, and a new tick of an hour not rolled up yet.\<close>

lemma rolled_up_fresh: "db_rollup d = [] \<Longrightarrow> rolled_up d"
  using before_rollup_start [of _ d] by (force simp: rolled_up_def)

lemma in_hour: "between h (h + HOUR - MICRO) ts \<Longrightarrow> HOUR dvd h \<Longrightarrow> floor_hour ts = h"
  by (rule floor_hour_unique) (auto simp: between_def MICRO_def)

lemma in_own_hour: "between (floor_hour ts) (floor_hour ts + HOUR - MICRO) ts"
  using floor_hour_le [of ts] floor_hour_gt [of ts] by (simp add: between_def MICRO_def)

definition pruned :: "time \<Rightarrow> db \<Rightarrow> db" where
  "pruned cutoff d = d\<lparr>db_ticks := filter (\<lambda>t. cutoff \<le> tk_exchange_ts t) (db_ticks d),
     db_books := filter (\<lambda>b. cutoff \<le> bs_exchange_ts b) (db_books d)\<rparr>"

lemma pruned_newest:
  "newest_native d iid lo hi = None \<Longrightarrow> newest_native (pruned cutoff d) iid lo hi = None"
  "cutoff \<le> lo \<Longrightarrow> newest_native (pruned cutoff d) iid lo hi = newest_native d iid lo hi"
proof -
  show "newest_native d iid lo hi = None \<Longrightarrow> newest_native (pruned cutoff d) iid lo hi = None"
    by (auto simp: newest_native_None pruned_def)
  assume "cutoff \<le> lo"
  then have "newest_native (d\<lparr>db_ticks := filter (\<lambda>t. cutoff \<le> tk_exchange_ts t) (db_ticks d)\<rparr>) iid lo hi = newest_native d iid lo hi"
    by (intro newest_native_cong) (simp add: between_def)
  then show "newest_native (pruned cutoff d) iid lo hi = newest_native d iid lo hi"
    by (simp add: pruned_def newest_native_def)
qed

lemma reading_kept:
  assumes "rollup_hours now d = (Inr k, d')" "rolled_up d" "cutoff \<le> now - HOUR - ROLLUP_GRACE"
    and "HOUR dvd h" "start \<le> h" "h + HOUR - MICRO \<le> e"
  shows "map_of (query_last_index_by_hour (pruned cutoff d') iid start e) h = map_of (query_last_index_by_hour d iid start e) h"
proof -
  note after = rollup_at_after [OF assms(1) rolled_up_aligned [OF assms(2)], of iid h]
  have ticks: "db_ticks d' = db_ticks d" using assms(1) by (auto simp: rollup_hours_def Let_def split: sum.splits)
  have newest: "newest_native d' = newest_native d" by (rule newest_native_db [OF ticks])
  have rollup: "db_rollup (pruned cutoff d') = db_rollup d'" by (simp add: pruned_def)
  show ?thesis
  proof (cases "rollup_at hr_index iid h (db_rollup d)")
    case None
    consider "due d now iid h" | "now - HOUR - ROLLUP_GRACE < h" | "h < rollup_start d iid"
      using assms(4) by (force simp: due_def)
    then show ?thesis
    proof cases
      case 1
      then show ?thesis using None after pruned_newest(1) [of d' iid h "h + HOUR - MICRO" cutoff]
        by (simp add: index_of_hour [OF assms(4-6)] rollup newest split: option.split)
    next
      case 2
      then have "\<not> due d now iid h" "cutoff \<le> h" using assms(3) by (auto simp: due_def)
      then show ?thesis using None after pruned_newest(2) [of cutoff h d' iid "h + HOUR - MICRO"]
        by (simp add: index_of_hour [OF assms(4-6)] rollup newest)
    next
      case 3
      then have "newest_native d iid h (h + HOUR - MICRO) = None"
        using assms(2) None in_hour [OF _ assms(4)] by (fastforce simp: newest_native_None rolled_up_def)
      then show ?thesis using 3 None after pruned_newest(1) [of d' iid h "h + HOUR - MICRO" cutoff]
        by (simp add: index_of_hour [OF assms(4-6)] rollup newest due_def)
    qed
  qed (simp add: after index_of_hour [OF assms(4-6)] rollup)
qed

lemma rolled_up_kept:
  assumes "rollup_hours now d = (Inr k, d')" "rolled_up d"
  shows "rolled_up (pruned cutoff d')"
proof (rule rollup_hours_rows [OF assms(1) rolled_up_aligned [OF assms(2)]])
  fix new assume d': "d' = d\<lparr>db_rollup := db_rollup d @ new\<rparr>"
    and new: "\<And>r. r \<in> set new \<Longrightarrow> due d now (hr_instrument r) (hr_hour r) \<and> rollup_one d (hr_instrument r) (hr_hour r) = Inr (Some r)"
  let ?d = "pruned cutoff d'"
  have rollup: "db_rollup ?d = db_rollup d @ new" by (simp add: pruned_def d')
  have "rollup_start ?d iid \<le> h"
    if t: "t \<in> set (db_ticks ?d)" "native_source (tk_source t)" "iid = tk_instrument t" "h = floor_hour (tk_exchange_ts t)"
      and none: "rollup_at hr_index iid h (db_rollup ?d) = None" for t iid h
  proof (rule ccontr)
    have h: "HOUR dvd h" using t floor_hour_HOUR by simp
    assume "\<not> rollup_start ?d iid \<le> h"
    then obtain r where r: "r \<in> set (db_rollup d @ new)" "hr_instrument r = iid" "h < hr_hour r + HOUR"
      using before_rollup_start [OF t(1)] t rollup by force
    have old: "rollup_at hr_index iid h (db_rollup d) = None" using none rollup by (simp add: rollup_at_append split: option.splits)
    then have start: "rollup_start d iid \<le> h" using assms(2) t by (auto simp: rolled_up_def pruned_def d')
    have "newest_native d iid h (h + HOUR - MICRO) \<noteq> None"
      using t in_own_hour [of "tk_exchange_ts t"] by (auto simp: newest_native_None pruned_def d')
    then have "\<not> due d now iid h" using rollup_at_after [OF assms(1) rolled_up_aligned [OF assms(2)], of iid h] old none
      by (auto simp: pruned_def)
    then have late: "now - HOUR - ROLLUP_GRACE < h" using start h by (simp add: due_def)
    show False
    proof (cases "r \<in> set new")
      case True
      then have "HOUR dvd hr_hour r" "hr_hour r < h" using new [OF True] late by (auto simp: due_def)
      then have "HOUR \<le> h - hr_hour r" using h by (intro zdvd_imp_le) auto
      with r show False by simp
    next
      case False
      then show False using r rollup_start_after [of r d iid] start by simp
    qed
  qed
  moreover have "HOUR dvd hr_hour r" if "r \<in> set (db_rollup ?d)" for r
    using that assms(2) new by (auto simp: rollup rolled_up_def due_def)
  ultimately show ?thesis by (auto simp: rolled_up_def)
qed

lemma deleted_count: "length (filter (\<lambda>r. ts r < c) xs) = length xs - length (filter (\<lambda>r. c \<le> (ts r :: time)) xs)"
  using sum_length_filter_compl [of "\<lambda>r. ts r < c" xs] by (simp add: not_less)

text \<open>
  C40. The retention run ends and loses no hourly reading. Whatever rows each batch of the delete loop takes, the run returns.
  A rollup that raises leaves the database as it was. Otherwise, keeping a day or more, exactly the ticks and books
  before the cutoff are gone, every whole hour of every instrument still reads the same last index price, and every
  native tick left is again in an hour rolled up or to be rolled up by the next run.
\<close>

theorem retention_ends_and_keeps_hourly_readings:
  assumes "lists_rows pick" "1 \<le> n" "rolled_up d"
  shows "\<exists>r d'. retention_run pick now n d = Some (r, d') \<and>
    (case r of
       Inl _ \<Rightarrow> d' = d
     | Inr (rolled, deleted) \<Rightarrow>
         db_ticks d' = filter (\<lambda>t. now - days n \<le> tk_exchange_ts t) (db_ticks d) \<and>
         db_books d' = filter (\<lambda>b. now - days n \<le> bs_exchange_ts b) (db_books d) \<and>
         map snd deleted = [length (db_ticks d) - length (db_ticks d'), length (db_books d) - length (db_books d')] \<and>
         rolled_up d' \<and>
         (\<forall>iid h start e. HOUR dvd h \<and> start \<le> h \<and> h + HOUR - MICRO \<le> e \<longrightarrow>
            map_of (query_last_index_by_hour d' iid start e) h = map_of (query_last_index_by_hour d iid start e) h))"
proof (cases "rollup_hours now d")
  case (Pair r d1)
  show ?thesis
  proof (cases r)
    case (Inl e)
    with Pair show ?thesis by (auto simp: retention_run_def rollup_hours_def Let_def split: sum.splits)
  next
    case (Inr k)
    let ?cut = "now - days n"
    have same: "db_ticks d1 = db_ticks d" "db_books d1 = db_books d"
      using Pair Inr by (auto simp: rollup_hours_def Let_def split: sum.splits)
    have cut: "?cut \<le> now - HOUR - ROLLUP_GRACE"
      using assms(2) by (simp add: days_def HOUR_def hours_def ROLLUP_GRACE_def minutes_def)
    have "retention_run pick now n d = Some (Inr (k,
        [(''ticks'', length (filter (\<lambda>t. tk_exchange_ts t < ?cut) (db_ticks d))),
         (''book_snapshots'', length (filter (\<lambda>b. bs_exchange_ts b < ?cut) (db_books d)))]), pruned ?cut d1)"
      using Pair Inr by (simp add: retention_run_def prune_spec [OF assms(1)] pruned_def same)
    moreover have "rolled_up (pruned ?cut d1)" using Pair Inr rolled_up_kept assms(3) by blast
    moreover have "map_of (query_last_index_by_hour (pruned ?cut d1) iid start e) h = map_of (query_last_index_by_hour d iid start e) h"
      if "HOUR dvd h" "start \<le> h" "h + HOUR - MICRO \<le> e" for iid h start e
      using Pair Inr reading_kept [OF _ assms(3) cut that] by simp
    ultimately show ?thesis
      using deleted_count [of tk_exchange_ts ?cut "db_ticks d"] deleted_count [of bs_exchange_ts ?cut "db_books d"]
      by (intro exI conjI) (auto simp: pruned_def same)
  qed
qed

text \<open>Two ticks a day apart, one of them before the cutoff, and an engine that lists the newest row first.\<close>

definition retained_tick :: "time \<Rightarrow> dec \<Rightarrow> tick" where
  "retained_tick ts x = \<lparr>tk_instrument = 6, tk_mark = x, tk_index = x, tk_last = x, tk_funding = 0, tk_next_funding = ts + HOUR,
     tk_exchange_ts = ts, tk_received_ts = ts, tk_source = POLYMARKET_WS, tk_sequence = None\<rparr>"

definition retention_db :: db where
  "retention_db = \<lparr>db_ticks = [retained_tick 5 100, retained_tick (hours 26) 110], db_funding = [], db_books = [],
     db_candles = [], db_rejections = [], db_fees = [], db_decisions = [], db_orders = [], db_positions = [], db_sim = [],
     db_rollup = [], db_accounts = [], db_alerts = [], db_recovery = []\<rparr>"

lemma retention_ends_and_keeps_hourly_readings_witness:
  "\<exists>r d'. retention_run rev (hours 28) 1 retention_db = Some (r, d') \<and>
     (case r of Inl _ \<Rightarrow> False | Inr _ \<Rightarrow> db_ticks d' = [retained_tick (hours 26) 110] \<and>
        map_of (query_last_index_by_hour d' 6 0 (HOUR - MICRO)) 0 = Some 100)"
proof -
  have "lists_rows rev" "rolled_up retention_db" by (simp_all add: lists_rows_def rolled_up_fresh retention_db_def)
  note run = retention_ends_and_keeps_hourly_readings [OF this(1) _ this(2), of 1 "hours 28"]
  have "filter (\<lambda>t. hours 28 - days 1 \<le> tk_exchange_ts t) (db_ticks retention_db) = [retained_tick (hours 26) 110]"
    "map_of (query_last_index_by_hour retention_db 6 0 (HOUR - MICRO)) 0 = Some 100"
    by code_simp+
  moreover have "case rollup_hours (hours 28) retention_db of (Inl _, _) \<Rightarrow> False | (Inr k, _) \<Rightarrow> k = 3" by code_simp
  moreover have "HOUR dvd 0 \<and> 0 \<le> (0 :: int) \<and> 0 + HOUR - MICRO \<le> HOUR - MICRO" by simp
  ultimately show ?thesis using run by (fastforce simp: retention_run_def split: sum.splits prod.splits)
qed

end
