(* ===== verification/Feed.thy ===== *)
theory Feed
  imports Bars
begin

text \<open>
  \<open>polyperps/data_ingest/filters.py\<close>, \<open>market_feed.py\<close> and \<open>execution/live_bars.py\<close>: the tick checks, the
  feed that applies them to a stream, and the builder that turns accepted ticks into hourly bars.
\<close>

section \<open>Tick checks\<close>

record sanity_bounds =
  sb_max_staleness :: time
  sb_max_abs_funding :: dec
  sb_max_divergence :: dec
  sb_max_jump :: dec
  sb_max_baseline_age :: time

definition DEFAULT_BOUNDS :: sanity_bounds where
  "DEFAULT_BOUNDS = \<lparr>sb_max_staleness = seconds 5, sb_max_abs_funding = 1/100, sb_max_divergence = 5/100,
     sb_max_jump = 10/100, sb_max_baseline_age = seconds 60\<rparr>"

datatype reject_reason =
  Stale | NonPositivePrice | MarkIndexDivergence | FundingOutOfBounds | OutOfOrder | PriceJump

record rejection =
  rj_why :: reject_reason
  rj_text :: text_t

text \<open>The first price, in the order of the loop, that is not positive.\<close>

definition bad_price :: "tick \<Rightarrow> (string \<times> dec) option" where
  "bad_price t = find (\<lambda>(_, p). p \<le> 0)
     [(''mark_price'', tk_mark t), (''index_price'', tk_index t), (''last_price'', tk_last t)]"

definition sequence_back :: "tick \<Rightarrow> tick \<Rightarrow> bool" where
  "sequence_back t prev =
     (tk_source prev = tk_source t \<and>
      (case (tk_sequence t, tk_sequence prev) of (Some n, Some m) \<Rightarrow> n \<le> m | _ \<Rightarrow> False))"

definition check_baseline :: "sanity_bounds \<Rightarrow> tick \<Rightarrow> tick \<Rightarrow> rejection option res" where
  "check_baseline b t prev =
     (if sequence_back t prev then
        Inr (Some \<lparr>rj_why = OutOfOrder, rj_text =
          [S ''sequence '', I (the (tk_sequence t)), S '' <= previous '', I (the (tk_sequence prev))]\<rparr>)
      else if tk_exchange_ts t - tk_exchange_ts prev \<le> sb_max_baseline_age b then
        rmap (\<lambda>jump. if sb_max_jump b < jump then
            Some \<lparr>rj_why = PriceJump, rj_text =
              [D jump, S '' > '', D (sb_max_jump b), S '' vs previous mark '', D (tk_mark prev)]\<rparr>
          else None)
          (ddiv (dabs (dsub (tk_mark t) (tk_mark prev))) (tk_mark prev))
      else Inr None)"

definition check_tick :: "sanity_bounds \<Rightarrow> tick \<Rightarrow> tick option \<Rightarrow> rejection option res" where
  "check_tick b t previous =
     (let age = tk_received_ts t - tk_exchange_ts t in
      if sb_max_staleness b < age then
        Inr (Some \<lparr>rj_why = Stale, rj_text = [S ''age='', I age, S '' > '', I (sb_max_staleness b)]\<rparr>)
      else
        case bad_price t of
          Some (name, p) \<Rightarrow> Inr (Some \<lparr>rj_why = NonPositivePrice, rj_text = [S name, S ''='', D p]\<rparr>)
        | None \<Rightarrow>
            rbind (ddiv (dabs (dsub (tk_mark t) (tk_index t))) (tk_index t)) (\<lambda>divergence.
              if sb_max_divergence b < divergence then
                Inr (Some \<lparr>rj_why = MarkIndexDivergence, rj_text = [D divergence, S '' > '', D (sb_max_divergence b)]\<rparr>)
              else if sb_max_abs_funding b < dabs (tk_funding t) then
                Inr (Some \<lparr>rj_why = FundingOutOfBounds, rj_text = [D (tk_funding t), S '' > '', D (sb_max_abs_funding b)]\<rparr>)
              else (case previous of None \<Rightarrow> Inr None | Some prev \<Rightarrow> check_baseline b t prev)))"

section \<open>The feed\<close>

record feed_health =
  fh_received :: nat
  fh_accepted :: nat
  fh_rejected :: "(reject_reason \<times> nat) list"
  fh_last_accepted :: "(int \<times> time) list"
  fh_last_event :: "time option"

text \<open>\<open>'w\<close> is what the callbacks act on; the clock is theirs too, since it is passed in with them.\<close>

record 'w feed =
  fd_previous :: "(int \<times> tick) list"
  fd_health :: feed_health
  fd_world :: 'w

definition feed_init :: "'w \<Rightarrow> 'w feed" where
  "feed_init w = \<lparr>fd_previous = [], fd_health = \<lparr>fh_received = 0, fh_accepted = 0, fh_rejected = [],
     fh_last_accepted = [], fh_last_event = None\<rparr>, fd_world = w\<rparr>"

record 'w feed_hooks =
  hk_accept :: "tick \<Rightarrow> ('w, unit) eff"
  hk_reject :: "(tick \<Rightarrow> rejection \<Rightarrow> ('w, unit) eff) option"
  hk_clock :: "('w, time) eff"

type_synonym ('w, 'a) fop = "('w feed, 'a) eff"

definition fworld :: "('w, 'a) eff \<Rightarrow> ('w, 'a) fop" where
  "fworld m = focus fd_world (\<lambda>x f. f\<lparr>fd_world := x\<rparr>) m"

definition fhealth :: "(feed_health \<Rightarrow> feed_health) \<Rightarrow> ('w, unit) fop" where
  "fhealth g = upd (\<lambda>f. f\<lparr>fd_health := g (fd_health f)\<rparr>)"

definition count_up :: "'k \<Rightarrow> ('k \<times> nat) list \<Rightarrow> ('k \<times> nat) list" where
  "count_up k m = AList.update k (Suc (case map_of m k of None \<Rightarrow> 0 | Some n \<Rightarrow> n)) m"

definition accept_tick :: "'w feed_hooks \<Rightarrow> tick \<Rightarrow> ('w, unit) fop" where
  "accept_tick hk t =
     andthen (upd (\<lambda>f. f\<lparr>fd_previous := AList.update (tk_instrument t) t (fd_previous f)\<rparr>))
     (andthen (fhealth (\<lambda>h. h\<lparr>fh_accepted := fh_accepted h + 1,
        fh_last_accepted := AList.update (tk_instrument t) (tk_exchange_ts t) (fh_last_accepted h)\<rparr>))
     (fworld (hk_accept hk t)))"

definition reject_tick :: "'w feed_hooks \<Rightarrow> tick \<Rightarrow> rejection \<Rightarrow> ('w, unit) fop" where
  "reject_tick hk t r =
     andthen (fhealth (\<lambda>h. h\<lparr>fh_rejected := count_up (rj_why r) (fh_rejected h)\<rparr>))
       (case hk_reject hk of None \<Rightarrow> ret () | Some cb \<Rightarrow> fworld (cb t r))"

definition feed_tick :: "'w feed_hooks \<Rightarrow> sanity_bounds \<Rightarrow> tick \<Rightarrow> ('w, unit) fop" where
  "feed_tick hk b t =
     andthen (fhealth (\<lambda>h. h\<lparr>fh_received := fh_received h + 1\<rparr>))
     (bind (fworld (hk_clock hk)) (\<lambda>now.
      andthen (fhealth (\<lambda>h. h\<lparr>fh_last_event := Some now\<rparr>))
      (bind (getr (\<lambda>f. check_tick b t (map_of (fd_previous f) (tk_instrument t)))) (\<lambda>r.
        case r of None \<Rightarrow> accept_tick hk t | Some rej \<Rightarrow> reject_tick hk t rej))))"

text \<open>\<open>run\<close> over the ticks the stream yields; it stops at its end or after \<open>max_events\<close>.\<close>

fun feed_run :: "'w feed_hooks \<Rightarrow> sanity_bounds \<Rightarrow> nat option \<Rightarrow> tick list \<Rightarrow> ('w, feed_health) fop" where
  "feed_run hk b limit [] = get fd_health"
| "feed_run hk b limit (t # ts) =
     andthen (feed_tick hk b t)
       (bind (get (\<lambda>f. fh_received (fd_health f))) (\<lambda>n.
         if (case limit of None \<Rightarrow> False | Some m \<Rightarrow> m \<le> n) then get fd_health else feed_run hk b limit ts))"

section \<open>Live bars\<close>

record live_acc =
  la_open_ts :: time
  la_open :: dec
  la_high :: dec
  la_low :: dec
  la_close :: dec
  la_index :: dec
  la_funding :: dec
  la_source :: source_type
  la_complete :: bool

record builder =
  lb_spread :: dec
  lb_max :: nat
  lb_acc :: "(int \<times> live_acc) list"
  lb_hist :: "(int \<times> bar list) list"

definition builder_init :: "dec \<Rightarrow> nat \<Rightarrow> builder" where
  "builder_init spread max_history = \<lparr>lb_spread = spread, lb_max = max_history, lb_acc = [], lb_hist = []\<rparr>"

definition acc_new :: "tick \<Rightarrow> bool \<Rightarrow> live_acc" where
  "acc_new t whole = \<lparr>la_open_ts = floor_hour (tk_exchange_ts t), la_open = tk_mark t, la_high = tk_mark t,
     la_low = tk_mark t, la_close = tk_mark t, la_index = tk_index t, la_funding = tk_funding t,
     la_source = tk_source t, la_complete = whole\<rparr>"

definition acc_add :: "tick \<Rightarrow> live_acc \<Rightarrow> live_acc" where
  "acc_add t a = a\<lparr>la_high := max (la_high a) (tk_mark t), la_low := min (la_low a) (tk_mark t),
     la_close := tk_mark t, la_index := tk_index t, la_funding := tk_funding t\<rparr>"

definition acc_bar :: "dec \<Rightarrow> int \<Rightarrow> live_acc \<Rightarrow> bar" where
  "acc_bar spread iid a = \<lparr>br_instrument = iid, br_source = la_source a, br_open_ts = la_open_ts a,
     br_open = Some (la_open a), br_high = Some (la_high a), br_low = Some (la_low a), br_close = Some (la_close a),
     br_index_close = Some (la_index a), br_funding = Some (la_funding a), br_spread_bps = spread,
     br_spread_source = FromConstant, br_complete = la_complete a\<rparr>"

definition hist_of :: "builder \<Rightarrow> int \<Rightarrow> bar list" where
  "hist_of b iid = (case map_of (lb_hist b) iid of None \<Rightarrow> [] | Some h \<Rightarrow> h)"

text \<open>\<open>h.extend(bars); del h[:-max]\<close>: a maximum of 0 deletes nothing.\<close>

definition extend_hist :: "int \<Rightarrow> bar list \<Rightarrow> builder \<Rightarrow> builder" where
  "extend_hist iid bars b = b\<lparr>lb_hist := AList.update iid (last_n (lb_max b) (hist_of b iid @ bars)) (lb_hist b)\<rparr>"

definition close_acc :: "int \<Rightarrow> live_acc \<Rightarrow> builder \<Rightarrow> bar \<times> builder" where
  "close_acc iid a b =
     (let fin = acc_bar (lb_spread b) iid a in
      (fin, extend_hist iid [fin] (b\<lparr>lb_acc := AList.delete iid (lb_acc b)\<rparr>)))"

definition builder_tick :: "tick \<Rightarrow> builder \<Rightarrow> bar option \<times> builder" where
  "builder_tick t b =
     (let iid = tk_instrument t; hour = floor_hour (tk_exchange_ts t) in
      case map_of (lb_acc b) iid of
        None \<Rightarrow> (None, b\<lparr>lb_acc := AList.update iid (acc_new t True) (lb_acc b)\<rparr>)
      | Some a \<Rightarrow>
          if la_open_ts a < hour then
            (case close_acc iid a b of (fin, b') \<Rightarrow>
               (Some fin,
                b'\<lparr>lb_acc := AList.update iid (acc_new t (hour = la_open_ts a + HOUR)) (lb_acc b')\<rparr>))
          else (None, b\<lparr>lb_acc := AList.update iid (acc_add t a) (lb_acc b)\<rparr>))"

definition builder_seed :: "int \<Rightarrow> bar list \<Rightarrow> builder \<Rightarrow> builder" where
  "builder_seed iid bars b = extend_hist iid bars b"

text \<open>\<open>close_all\<close> closes every open hour in the order of the dict; \<open>now\<close> is not used.\<close>

fun close_each :: "(int \<times> live_acc) list \<Rightarrow> builder \<Rightarrow> bar list \<times> builder" where
  "close_each [] b = ([], b)"
| "close_each ((iid, a) # rest) b =
     (case close_acc iid a b of (fin, b') \<Rightarrow>
        (case close_each rest b' of (bars, b'') \<Rightarrow> (fin # bars, b'')))"

definition close_all :: "builder \<Rightarrow> bar list \<times> builder" where
  "close_all b = close_each (lb_acc b) b"

end
