(* ===== verification/Settings.thy ===== *)
theory Settings
  imports Numerals Feed
begin

text \<open>
  \<open>polyperps/config.py\<close> and \<open>security/key_management.py\<close>: the settings of a process from its environment, and where a
  secret is looked for. An environment is a map; a path is its text.
\<close>

section \<open>Settings\<close>

type_synonym env = "string \<rightharpoonup> string"

definition env_or :: "env \<Rightarrow> string \<Rightarrow> string \<Rightarrow> string" where
  "env_or env key fallback = (case env key of None \<Rightarrow> fallback | Some v \<Rightarrow> v)"

record settings =
  sg_db_path :: string
  sg_instruments :: "int list"
  sg_bounds :: sanity_bounds
  sg_book_interval :: rat
  sg_health_interval :: rat
  sg_rest_rate :: rat
  sg_rest_burst :: int

definition read_ids :: "string \<Rightarrow> int list res" where
  "read_ids raw = rmapM (\<lambda>x. py_int (strip x)) (filter (\<lambda>x. strip x \<noteq> []) (split_on (CHR '','') raw))"

text \<open>A decimal bound: the default is a decimal already, whose text is read back as itself.\<close>

definition read_bound :: "env \<Rightarrow> string \<Rightarrow> dec \<Rightarrow> dec res" where
  "read_bound env key fallback = (case env key of None \<Rightarrow> Inr fallback | Some v \<Rightarrow> the_finite (py_decimal v))"

definition read_span :: "env \<Rightarrow> string \<Rightarrow> string \<Rightarrow> time res" where
  "read_span env key fallback = rbind (py_float (env_or env key fallback)) td_seconds"

definition load_bounds :: "env \<Rightarrow> sanity_bounds res" where
  "load_bounds env =
     rbind (read_span env ''POLYPERPS_MAX_STALENESS_S'' ''5'') (\<lambda>stale.
     rbind (read_bound env ''POLYPERPS_MAX_ABS_FUNDING'' (sb_max_abs_funding DEFAULT_BOUNDS)) (\<lambda>fund.
     rbind (read_bound env ''POLYPERPS_MAX_MARK_INDEX_DIV'' (sb_max_divergence DEFAULT_BOUNDS)) (\<lambda>dv.
     rbind (read_bound env ''POLYPERPS_MAX_JUMP'' (sb_max_jump DEFAULT_BOUNDS)) (\<lambda>jump.
     rmap (\<lambda>age. \<lparr>sb_max_staleness = stale, sb_max_abs_funding = fund, sb_max_divergence = dv, sb_max_jump = jump,
         sb_max_baseline_age = age\<rparr>)
       (read_span env ''POLYPERPS_MAX_BASELINE_AGE_S'' ''60'')))))"

definition load_settings :: "env \<Rightarrow> settings res" where
  "load_settings env =
     (let raw = strip (env_or env ''POLYPERPS_INSTRUMENT_IDS'' '''') in
      if raw = [] then Inl (Exn ValueError [S ''POLYPERPS_INSTRUMENT_IDS is required (comma-separated instrument ids)''])
      else
        rbind (read_ids raw) (\<lambda>ids.
        rbind (load_bounds env) (\<lambda>bounds.
        rbind (the_finite (py_float (env_or env ''POLYPERPS_BOOK_INTERVAL_S'' ''5''))) (\<lambda>book.
        rbind (the_finite (py_float (env_or env ''POLYPERPS_HEALTH_LOG_S'' ''60''))) (\<lambda>health.
        rbind (the_finite (py_float (env_or env ''POLYPERPS_REST_RATE'' ''2''))) (\<lambda>rate.
        rmap (\<lambda>burst. \<lparr>sg_db_path = env_or env ''POLYPERPS_DB_PATH'' ''data/polyperps.sqlite3'', sg_instruments = ids,
            sg_bounds = bounds, sg_book_interval = book, sg_health_interval = health, sg_rest_rate = rate,
            sg_rest_burst = burst\<rparr>)
          (py_int (env_or env ''POLYPERPS_REST_BURST'' ''4''))))))))"

section \<open>Secrets\<close>

definition SERVICE :: string where "SERVICE = ''polyperps''"
definition ALLOW_ENV_VAR :: string where "ALLOW_ENV_VAR = ''POLYPERPS_ALLOW_ENV_SECRETS''"
definition CREDENTIALS_DIR_VAR :: string where "CREDENTIALS_DIR_VAR = ''CREDENTIALS_DIRECTORY''"

definition redact :: "string \<Rightarrow> text_t" where
  "redact v = [S ''<redacted:len='', I (int (length v)), S ''>'']"

text \<open>
  The file system as what reading a path gives: no file, or what \<open>read_text\<close> does. The keyring is a service of the
  machine: looking up a name gives a value, nothing, or raises.
\<close>

record secret_sources =
  sc_file :: "string \<Rightarrow> string res option"
  sc_keyring :: "string \<Rightarrow> string \<Rightarrow> string option res"

text \<open>\<open>Path(directory) / name\<close> for a plain name.\<close>

definition path_join :: "string \<Rightarrow> string \<Rightarrow> string" where
  "path_join dir name = (if dir \<noteq> [] \<and> last dir = CHR ''/'' then dir @ name else dir @ CHR ''/'' # name)"

definition truthy :: "string option \<Rightarrow> string option" where
  "truthy v = (case v of Some (c # cs) \<Rightarrow> Some (c # cs) | _ \<Rightarrow> None)"

definition from_credentials_dir :: "secret_sources \<Rightarrow> string \<Rightarrow> env \<Rightarrow> string option res" where
  "from_credentials_dir src name env =
     (case truthy (env CREDENTIALS_DIR_VAR) of
        None \<Rightarrow> Inr None
      | Some dir \<Rightarrow>
          (case sc_file src (path_join dir name) of
             None \<Rightarrow> Inr None
           | Some content \<Rightarrow> rbind content (\<lambda>txt.
               if strip txt = [] then
                 Inl (Exn SecretUnavailable [S ''credentials file for '', S name, S '' in '', S CREDENTIALS_DIR_VAR, S '' exists but is empty''])
               else Inr (Some (strip txt)))))"

definition load_secret :: "secret_sources \<Rightarrow> string \<Rightarrow> env \<Rightarrow> string res" where
  "load_secret src name env =
     rbind (from_credentials_dir src name env) (\<lambda>filed.
       case filed of
         Some v \<Rightarrow> Inr v
       | None \<Rightarrow>
           (case truthy (case sc_keyring src SERVICE name of Inl _ \<Rightarrow> None | Inr v \<Rightarrow> v) of
              Some v \<Rightarrow> Inr v
            | None \<Rightarrow>
                (case (if env ALLOW_ENV_VAR = Some ''1'' then truthy (env name) else None) of
                   Some v \<Rightarrow> Inr v
                 | None \<Rightarrow>
                     Inl (Exn SecretUnavailable [S ''secret '', S name, S '' not found in '', S CREDENTIALS_DIR_VAR, S '', keyring service '',
                       S SERVICE, S '', or env (env requires '', S ALLOW_ENV_VAR, S ''=1)'']))))"

text \<open>The keyring after storing: the backend's own call, which may raise.\<close>

definition store_secret :: "(string \<Rightarrow> string \<Rightarrow> string \<Rightarrow> ('k, unit) eff) \<Rightarrow> string \<Rightarrow> string \<Rightarrow> ('k, unit) eff" where
  "store_secret set_password name v = set_password SERVICE name v"

section \<open>What is read\<close>

text \<open>A list of ids written with commas is read back; it is the only setting without a default.\<close>

lemma rmapM_Inr: "(\<And>x. x \<in> set xs \<Longrightarrow> f x = Inr (g x)) \<Longrightarrow> rmapM f xs = Inr (map g xs)"
  by (induction xs) auto

theorem read_ids_written:
  assumes "ids \<noteq> []" "\<forall>n \<in> set ids. length (show_digits \<bar>n\<bar>) \<le> 4300"
  shows "read_ids (join_with (CHR '','') (map show_int ids)) = Inr ids"
proof -
  let ?ss = "map show_int ids"
  have split: "split_on (CHR '','') (join_with (CHR '','') ?ss) = ?ss"
    using assms(1) show_int_plain by (intro split_join) auto
  have strip: "strip (show_int n) = show_int n" for n using show_int_plain by (intro strip_id) blast
  have "show_int n \<noteq> []" for n
    using show_digits_digits [of n] show_digits_digits [of "- n"] by (auto simp: show_int_def isdigit_def)
  then have "filter (\<lambda>x. strip x \<noteq> []) ?ss = ?ss" by (auto simp: strip filter_id_conv)
  moreover have "rmapM (\<lambda>x. py_int (strip x)) ?ss = Inr ids"
    using assms(2) by (induction ids) (auto simp: strip py_int_show_int)
  ultimately show ?thesis by (simp add: read_ids_def split)
qed

lemma default_numbers:
  "py_float ''5'' = Inr (Finite 5)" "py_float ''60'' = Inr (Finite 60)" "py_float ''2'' = Inr (Finite 2)" "py_int ''4'' = Inr 4"
  "td_seconds (Finite 5) = Inr (seconds 5)" "td_seconds (Finite 60) = Inr (seconds 60)"
  by code_simp+

theorem defaults_suffice:
  assumes "env = [''POLYPERPS_INSTRUMENT_IDS'' \<mapsto> raw]" "strip raw \<noteq> []" "read_ids (strip raw) = Inr ids"
  shows "load_settings env = Inr \<lparr>sg_db_path = ''data/polyperps.sqlite3'', sg_instruments = ids, sg_bounds = DEFAULT_BOUNDS,
    sg_book_interval = 5, sg_health_interval = 60, sg_rest_rate = 2, sg_rest_burst = 4\<rparr>"
  using assms(2,3)
  by (simp add: assms(1) load_settings_def env_or_def load_bounds_def read_span_def read_bound_def default_numbers
      the_finite_def DEFAULT_BOUNDS_def)

theorem no_ids_no_settings:
  "strip (env_or env ''POLYPERPS_INSTRUMENT_IDS'' '''') = [] \<Longrightarrow> \<exists>msg. load_settings env = Inl (Exn ValueError msg)"
  by (simp add: load_settings_def)

section \<open>Where a secret comes from\<close>

text \<open>Unless it is allowed to give secrets, the environment says no more than where the credentials files are.\<close>

theorem environment_gives_no_secret:
  assumes "env ALLOW_ENV_VAR \<noteq> Some ''1''" "env' ALLOW_ENV_VAR \<noteq> Some ''1''" "env' CREDENTIALS_DIR_VAR = env CREDENTIALS_DIR_VAR"
  shows "load_secret src name env' = load_secret src name env"
proof -
  have "from_credentials_dir src name env' = from_credentials_dir src name env" by (simp add: from_credentials_dir_def assms(3))
  then show ?thesis using assms(1,2) by (simp add: load_secret_def truthy_def cong: option.case_cong)
qed

text \<open>A credentials file wins over everything else, and an empty one is an error rather than a reason to look on.\<close>

theorem credentials_file_decides:
  assumes "truthy (env CREDENTIALS_DIR_VAR) = Some dir" "sc_file src (path_join dir name) = Some (Inr txt)"
  shows "if strip txt = [] then \<exists>msg. load_secret src name env = Inl (Exn SecretUnavailable msg)
    else load_secret src name env = Inr (strip txt)"
  using assms by (simp add: load_secret_def from_credentials_dir_def)

text \<open>A secret that is found is never empty, and no error says anything of a value that was read.\<close>

lemma truthy_Some: "truthy v = Some x \<Longrightarrow> v = Some x \<and> x \<noteq> []"
  by (auto simp: truthy_def split: option.splits list.splits)

theorem secrets_are_not_empty: "load_secret src name env = Inr v \<Longrightarrow> v \<noteq> []"
  by (auto simp: load_secret_def from_credentials_dir_def dest!: truthy_Some split: option.splits if_splits sum.splits)

theorem secrets_never_leak:
  assumes "load_secret src name env = Inl e" "\<And>p c. sc_file src p = Some c \<Longrightarrow> \<exists>txt. c = Inr txt"
  shows "exc_class e = SecretUnavailable \<and>
    set (exc_msg e) \<subseteq> S ` {name, SERVICE, ALLOW_ENV_VAR, CREDENTIALS_DIR_VAR, ''credentials file for '', '' in '',
      '' exists but is empty'', ''secret '', '' not found in '', '', keyring service '', '', or env (env requires '', ''=1)''}"
proof (cases "from_credentials_dir src name env")
  case (Inl e')
  then have "load_secret src name env = Inl e'" by (simp add: load_secret_def)
  with assms(1) have "e' = e" by simp
  with Inl assms(2) show ?thesis by (fastforce simp: from_credentials_dir_def split: option.splits if_splits)
next
  case (Inr filed)
  with assms(1) show ?thesis by (auto simp: load_secret_def split: option.splits)
qed

end
