(* ===== verification/Prune_Run.thy ===== *)
theory Prune_Run
  imports Retention Settings
begin

text \<open>
  \<open>scripts/prune.py\<close>, the process: the days to keep, the retention run on the database file, and the rewrite of the
  file that \<open>--vacuum\<close> asks for. A database file is its committed rows; each call of the file system and of the
  engine's \<open>VACUUM\<close> may raise.
\<close>

section \<open>The process\<close>

record prune_fs =
  pf_files :: "string \<rightharpoonup> db"
  pf_open :: bool
  pf_out :: "text_t list"

text \<open>
  The outcome of \<open>os.remove\<close>, \<open>VACUUM INTO\<close> (with the file it leaves behind, also when it fails half way) and
  \<open>os.replace\<close>, and the size of a file.
\<close>

record vacuum_os =
  vo_remove :: "exn option"
  vo_vacuum :: "db \<Rightarrow> exn option \<times> db option"
  vo_replace :: "exn option"
  vo_size :: "db \<Rightarrow> int"

text \<open>What SQLite documents: a \<open>VACUUM INTO\<close> that succeeds has written every row.\<close>

definition copies_rows :: "vacuum_os \<Rightarrow> bool" where
  "copies_rows os \<longleftrightarrow> (\<forall>d left. vo_vacuum os d = (None, left) \<longrightarrow> left = Some d)"

definition file_call :: "exn option \<Rightarrow> (prune_fs \<Rightarrow> prune_fs) \<Rightarrow> (prune_fs, unit) eff" where
  "file_call failure g = (case failure of Some e \<Rightarrow> raise e | None \<Rightarrow> upd g)"

text \<open>Connecting to a file that is not there creates an empty database.\<close>

definition database :: "string \<Rightarrow> prune_fs \<Rightarrow> db" where
  "database path w = (case pf_files w path of None \<Rightarrow> empty_db | Some d \<Rightarrow> d)"

definition pconnect :: "string \<Rightarrow> (prune_fs, unit) eff" where
  "pconnect path = upd (\<lambda>w. w\<lparr>pf_files := (pf_files w)(path \<mapsto> database path w), pf_open := True\<rparr>)"

definition pclose :: "(prune_fs, unit) eff" where
  "pclose = upd (\<lambda>w. w\<lparr>pf_open := False\<rparr>)"

definition vacuum_copy :: "vacuum_os \<Rightarrow> string \<Rightarrow> string \<Rightarrow> (prune_fs, unit) eff" where
  "vacuum_copy os path tmp = (\<lambda>w. case vo_vacuum os (database path w) of (failure, left) \<Rightarrow>
     (case failure of None \<Rightarrow> Inr () | Some e \<Rightarrow> Inl e, w\<lparr>pf_files := (pf_files w)(tmp := left)\<rparr>))"

definition vacuum_into :: "vacuum_os \<Rightarrow> string \<Rightarrow> (prune_fs, unit) eff" where
  "vacuum_into os path =
     (let tmp = path @ ''.vacuum'' in block
       [bind (get (\<lambda>w. pf_files w tmp \<noteq> None)) (\<lambda>exists.
          if exists then file_call (vo_remove os) (\<lambda>w. w\<lparr>pf_files := (pf_files w)(tmp := None)\<rparr>) else ret ()),
        vacuum_copy os path tmp,
        pclose,
        file_call (vo_replace os) (\<lambda>w. w\<lparr>pf_files := (pf_files w)(path := pf_files w tmp, tmp := None)\<rparr>)])"

text \<open>\<open>RETAIN_DAYS\<close>: unset and empty both mean three; any other text must be a number, even when \<open>--days\<close> is given.\<close>

definition retain_days :: "env \<Rightarrow> int res" where
  "retain_days env = (case truthy (env ''RETAIN_DAYS'') of None \<Rightarrow> Inr 3 | Some v \<Rightarrow> py_int v)"

record prune_args =
  pg_days :: "int option"
  pg_vacuum :: bool

definition mb :: "vacuum_os \<Rightarrow> string \<Rightarrow> prune_fs \<Rightarrow> int" where
  "mb os path w = vo_size os (database path w) div 1048576"

definition pprint :: "text_t \<Rightarrow> (prune_fs, unit) eff" where
  "pprint line = upd (\<lambda>w. w\<lparr>pf_out := pf_out w @ [line]\<rparr>)"

definition after_run :: "vacuum_os \<Rightarrow> bool \<Rightarrow> string \<Rightarrow> time \<Rightarrow> nat \<times> (string \<times> nat) list \<Rightarrow> (prune_fs, unit) eff" where
  "after_run os vacuum path cutoff counts =
     andthen
       (pprint ([S ''cutoff '', I cutoff, S '': rollup +'', I (int (fst counts)), S '' hours, ''] @
          concat (map (\<lambda>(t, n). [S t, S '' -'', I (int n)]) (snd counts))))
       (if vacuum then
          bind (get (mb os path)) (\<lambda>before.
          andthen (vacuum_into os path)
            (bind (get (mb os path)) (\<lambda>after.
             pprint [S ''vacuum: '', I before, S '' MB -> '', I after, S '' MB''])))
        else ret ())"

text \<open>\<open>finally\<close>: the connection is closed whatever happened; a second close is ignored.\<close>

definition closing_after :: "(prune_fs, unit) eff \<Rightarrow> (prune_fs, unit) eff" where
  "closing_after m = (\<lambda>w. case m w of (r, w') \<Rightarrow> (r, snd (pclose w')))"

definition prune_process ::
  "(nat list \<Rightarrow> nat list) \<Rightarrow> vacuum_os \<Rightarrow> time \<Rightarrow> prune_args \<Rightarrow> int \<Rightarrow> string \<Rightarrow> prune_fs \<Rightarrow> (unit res \<times> prune_fs) option" where
  "prune_process pick os now args n path w =
     (let w1 = snd (pconnect path w) in
      map_option (\<lambda>(r, d).
          closing_after (bind (lift r) (after_run os (pg_vacuum args) path (now - days n)))
            (w1\<lparr>pf_files := (pf_files w1)(path \<mapsto> d)\<rparr>))
        (retention_run pick now n (database path w1)))"

definition prune_main ::
  "(nat list \<Rightarrow> nat list) \<Rightarrow> vacuum_os \<Rightarrow> time \<Rightarrow> env \<Rightarrow> prune_args \<Rightarrow> prune_fs \<Rightarrow> (unit res \<times> prune_fs) option" where
  "prune_main pick os now env args w =
     (case rbind (retain_days env) (\<lambda>n. rmap (\<lambda>sg. (n, sg_db_path sg)) (load_settings env)) of
        Inl e \<Rightarrow> Some (Inl e, w)
      | Inr (n, path) \<Rightarrow> prune_process pick os now args (case pg_days args of None \<Rightarrow> n | Some m \<Rightarrow> m) path w)"

section \<open>The rows survive the rewrite\<close>

lemma database_simps [simp]:
  "database path (w\<lparr>pf_open := b\<rparr>) = database path w" "database path (w\<lparr>pf_out := l\<rparr>) = database path w"
  "database path (w\<lparr>pf_files := fs\<rparr>) = (case fs path of None \<Rightarrow> empty_db | Some d \<Rightarrow> d)"
  by (simp_all add: database_def)

text \<open>
  Wherever the rewrite stops, the database file holds the rows it held, and no file but the copy has been touched; a
  rewrite that returns leaves no copy behind.
\<close>

lemma vacuum_keeps_rows:
  assumes "copies_rows os" "pf_files w path = Some d" "vacuum_into os path w = (r, w')"
  shows "pf_files w' path = Some d" "p \<noteq> path \<Longrightarrow> p \<noteq> path @ ''.vacuum'' \<Longrightarrow> pf_files w' p = pf_files w p"
    "r = Inr () \<Longrightarrow> pf_files w' (path @ ''.vacuum'') = None"
proof -
  have tmp: "path @ ''.vacuum'' \<noteq> path" by simp
  have copied: "left = Some d" if "vo_vacuum os d = (None, left)" for left
    using assms(1) that by (simp add: copies_rows_def)
  have "pf_files w' path = Some d \<and> (p \<noteq> path \<longrightarrow> p \<noteq> path @ ''.vacuum'' \<longrightarrow> pf_files w' p = pf_files w p) \<and>
      (r = Inr () \<longrightarrow> pf_files w' (path @ ''.vacuum'') = None)" for p
    using assms(2,3) tmp copied
    by (auto simp: vacuum_into_def Let_def andthen_def bind_def get_def ret_def raise_def upd_def file_call_def
        vacuum_copy_def pclose_def database_def split: prod.splits option.splits if_splits)
  then show "pf_files w' path = Some d" "p \<noteq> path \<Longrightarrow> p \<noteq> path @ ''.vacuum'' \<Longrightarrow> pf_files w' p = pf_files w p"
    "r = Inr () \<Longrightarrow> pf_files w' (path @ ''.vacuum'') = None"
    by blast+
qed

lemma after_run_keeps_rows:
  assumes "copies_rows os" "pf_files w path = Some d" "after_run os vacuum path cutoff counts w = (r, w')"
  shows "pf_files w' path = Some d"
proof -
  have frame: "pf_files (snd (pprint line v)) = pf_files v" "fst (pprint line v) = Inr ()" for line v
    by (simp_all add: pprint_def upd_def)
  obtain w1 where w1: "pprint ([S ''cutoff '', I cutoff, S '': rollup +'', I (int (fst counts)), S '' hours, ''] @
      concat (map (\<lambda>(t, n). [S t, S '' -'', I (int n)]) (snd counts))) w = (Inr (), w1)" "pf_files w1 = pf_files w"
    using frame by (metis prod.collapse)
  obtain r2 w2 where w2: "vacuum_into os path w1 = (r2, w2)" by fastforce
  have "pf_files w2 path = Some d" using vacuum_keeps_rows(1) [OF assms(1) _ w2] w1 assms(2) by simp
  then show ?thesis
    using assms(2,3) w1 w2
    by (auto simp: after_run_def andthen_def bind_def get_def ret_def pprint_def upd_def split: sum.splits if_splits)
qed

text \<open>
  A run of the process returns, and closes its connection. Whatever the file system does to the rewrite, the file holds
  in the end what the retention run made of it: the rows before the cutoff are gone and every other row is there.
\<close>

theorem prune_process_keeps_the_database:
  assumes "lists_rows pick" "copies_rows os" "pf_files w path = Some d"
  shows "\<exists>r w'. prune_process pick os now args n path w = Some (r, w') \<and> \<not> pf_open w' \<and>
    (case rollup_hours now d of
       (Inl e, _) \<Rightarrow> r = Inl e \<and> pf_files w' path = Some d
     | (Inr _, d') \<Rightarrow> pf_files w' path = Some (pruned (now - days n) d'))"
proof (cases "rollup_hours now d")
  case (Pair r0 d')
  have db: "database path (snd (pconnect path w)) = d" using assms(3) by (simp add: pconnect_def upd_def database_def)
  show ?thesis
  proof (cases r0)
    case (Inl e)
    with Pair have "d' = d" by (auto simp: rollup_hours_def Let_def split: sum.splits)
    with Inl Pair db show ?thesis
      by (simp add: Let_def prune_process_def retention_run_def closing_after_def bind_def lift_def pclose_def upd_def)
  next
    case (Inr k)
    let ?d = "pruned (now - days n) d'"
    obtain counts where run: "retention_run pick now n d = Some (Inr counts, ?d)"
      using Pair Inr by (auto simp: retention_run_def prune_spec [OF assms(1)] pruned_def)
    let ?w = "(snd (pconnect path w))\<lparr>pf_files := (pf_files (snd (pconnect path w)))(path \<mapsto> ?d)\<rparr>"
    obtain r w' where w': "after_run os (pg_vacuum args) path (now - days n) counts ?w = (r, w')" by fastforce
    have "pf_files w' path = Some ?d" by (rule after_run_keeps_rows [OF assms(2) _ w']) simp
    with w' Pair Inr db run show ?thesis
      by (simp add: Let_def prune_process_def closing_after_def bind_def lift_def pclose_def upd_def)
  qed
qed

lemma retain_days_default [simp]:
  "env ''RETAIN_DAYS'' = None \<Longrightarrow> retain_days env = Inr 3" "env ''RETAIN_DAYS'' = Some [] \<Longrightarrow> retain_days env = Inr 3"
  by (simp_all add: retain_days_def truthy_def)

end
