(* ===== verification/Recovery.thy ===== *)
theory Recovery
  imports Portfolio
begin

text \<open>
  \<open>polyperps/execution/state_recovery.py\<close>: rebuild the routers from the executor's snapshot before
  any strategy runs. The report is built step by step and written on both exits, so it is part of
  the state of the run; \<open>rv_cur\<close> is the instrument the failure alert would name.
\<close>

record ('x, 's) rcv =
  rv_pf :: "('x, 's) pf"
  rv_rep :: recovery_report
  rv_cur :: "int option"

type_synonym ('x, 's, 'a) cop = "(('x, 's) rcv, 'a) eff"

definition empty_report :: recovery_report where
  "empty_report = \<lparr>rp_adopted = [], rp_abandoned = [], rp_cancelled = [], rp_stops_replaced = [],
     rp_unknown_positions = [], rp_adopted_untracked = [], rp_states = [], rp_failed = None\<rparr>"

definition cpf :: "('x, 's, 'a) pop \<Rightarrow> ('x, 's, 'a) cop" where
  "cpf m = focus rv_pf (\<lambda>p c. c\<lparr>rv_pf := p\<rparr>) m"

definition crep :: "(recovery_report \<Rightarrow> recovery_report) \<Rightarrow> ('x, 's, unit) cop" where
  "crep f = upd (\<lambda>c. c\<lparr>rv_rep := f (rv_rep c)\<rparr>)"

definition ccur :: "int option \<Rightarrow> ('x, 's, unit) cop" where
  "ccur k = upd (\<lambda>c. c\<lparr>rv_cur := k\<rparr>)"

definition calert :: "level \<Rightarrow> string \<Rightarrow> int option \<Rightarrow> (string \<times> text_t) list \<Rightarrow> ('x, 's, unit) cop" where
  "calert lv kind iid detail =
     bind (cpf (pio io_now)) (\<lambda>now. cpf (pemit (mm_alert lv kind iid detail now)))"

section \<open>One router\<close>

definition set_router :: "int \<Rightarrow> ('s router \<Rightarrow> 's router) \<Rightarrow> ('x, 's, unit) cop" where
  "set_router k f = cpf (in_router k (rupd f))"

definition frozen_row :: "position_row option \<Rightarrow> bool" where
  "frozen_row row = (case row of None \<Rightarrow> False | Some r \<Rightarrow> frozen (pr_state r))"

definition untracked :: "position_row option \<Rightarrow> bool" where
  "untracked row = (case row of None \<Rightarrow> True | Some r \<Rightarrow> pr_state r = FLAT)"

text \<open>A venue position without a stop gets one; \<open>k\<close> is the router that records it.\<close>

definition recover_stop :: "'x exec_ops \<Rightarrow> int \<Rightarrow> position_view \<Rightarrow> ('x, 's, unit) cop" where
  "recover_stop X k pos =
     bind (cpf (get (\<lambda>p. router_limits k (pf_routers p)))) (\<lambda>limits.
     bind (cpf (pexec (place_exchange_stop X pos limits))) (\<lambda>trigger.
     andthen (set_router k (rt_stop_update (\<lambda>_. Some trigger)))
     (andthen (crep (\<lambda>r. r\<lparr>rp_stops_replaced := rp_stops_replaced r @ [k]\<rparr>))
     (calert INFO ''stop_placed'' (Some k) [(''trigger'', [D trigger])]))))"

definition recover_open ::
  "'x exec_ops \<Rightarrow> account_snapshot \<Rightarrow> int \<Rightarrow> position_row option \<Rightarrow> position_view \<Rightarrow> ('x, 's, unit) cop" where
  "recover_open X sn k row pos =
     andthen
       (if \<not> frozen_row row \<and> untracked row then
          andthen (crep (\<lambda>r. r\<lparr>rp_adopted_untracked := rp_adopted_untracked r @ [k]\<rparr>))
            (calert WARN ''adopted_untracked'' (Some k)
              [(''instrument_id'', [I k]), (''size'', [D (pv_size pos)]), (''entry'', [D (pv_entry pos)])])
        else ret ())
     (andthen (set_router k (\<lambda>r. r\<lparr>rt_size := pv_size pos, rt_entry := Some (pv_entry pos),
        rt_funding := pv_funding pos\<rparr>))
     (andthen (if frozen_row row then ret () else set_router k (rt_state_update (\<lambda>_. OPEN)))
     (case map_of (sn_stops sn) k of
        Some t \<Rightarrow> set_router k (rt_stop_update (\<lambda>_. Some t))
      | None \<Rightarrow> recover_stop X k pos)))"

definition recover_flat :: "int \<Rightarrow> position_row option \<Rightarrow> ('x, 's, unit) cop" where
  "recover_flat k row =
     andthen (set_router k (\<lambda>r. r\<lparr>rt_size := 0, rt_entry := None, rt_stop := None\<rparr>))
       (if frozen_row row then ret () else set_router k (rt_state_update (\<lambda>_. FLAT)))"

definition recover_router ::
  "'x exec_ops \<Rightarrow> account_snapshot \<Rightarrow> (int \<times> position_row) list \<Rightarrow> int \<Rightarrow> ('x, 's, unit) cop" where
  "recover_router X sn locals k =
     (let row = map_of locals k in
      andthen (ccur (Some k))
      (andthen (case row of None \<Rightarrow> ret () | Some lr \<Rightarrow> cpf (in_router k (load_local lr)))
      (andthen
        (case position_of sn k of
           None \<Rightarrow> recover_flat k row
         | Some pos \<Rightarrow>
             if pv_size pos \<noteq> 0 then recover_open X sn k row pos else recover_flat k row)
      (andthen (cpf (in_router k persist))
      (bind (cpf (in_router k (rget rt_state))) (\<lambda>st.
        crep (\<lambda>r. r\<lparr>rp_states := AList.update k (state_value st) (rp_states r)\<rparr>)))))))"

section \<open>Unknown positions, orders, strangers\<close>

definition recover_unknown ::
  "'x exec_ops \<Rightarrow> account_snapshot \<Rightarrow> int list \<Rightarrow> position_view \<Rightarrow> ('x, 's, unit) cop" where
  "recover_unknown X sn known pos =
     (if pv_size pos = 0 \<or> pv_instrument pos \<in> set known then ret ()
      else
        andthen (ccur (Some (pv_instrument pos)))
        (andthen (crep (\<lambda>r. r\<lparr>rp_unknown_positions := rp_unknown_positions r @ [pv_instrument pos]\<rparr>))
        (andthen (calert CRITICAL ''unknown_position'' (Some (pv_instrument pos)) [(''size'', [D (pv_size pos)])])
        (if map_of (sn_stops sn) (pv_instrument pos) \<noteq> None then ret ()
         else
           bind (cpf (pexec (place_exchange_stop X pos LIMITS))) (\<lambda>trigger.
           andthen (crep (\<lambda>r. r\<lparr>rp_stops_replaced := rp_stops_replaced r @ [pv_instrument pos]\<rparr>))
           (calert INFO ''stop_placed'' (Some (pv_instrument pos)) [(''trigger'', [D trigger])]))))))"

definition recover_order ::
  "account_snapshot \<Rightarrow> (int \<times> position_row) list \<Rightarrow> order_row \<Rightarrow> ('x, 's, unit) cop" where
  "recover_order sn locals o' =
     (if or_status o' \<noteq> Submitting \<and> or_status o' \<noteq> Accepted then ret ()
      else
        let resting = (or_cid o' \<in> set (sn_open_orders sn));
            k = or_instrument o'; st = (if resting then Adopted else Abandoned) in
        andthen (ccur (Some k))
        (andthen
          (case map_of locals k of
             Some lr \<Rightarrow>
               if resting \<and> pending_state (pr_state lr) then
                 cpf (on_known k (adopt_pending (or_cid o') (pr_state lr)))
               else ret ()
           | None \<Rightarrow> ret ())
        (bind (cpf (pio io_now)) (\<lambda>now.
         andthen (cpf (pio (io_store (upd (upsert_order (o'\<lparr>or_status := st, or_updated_at := now\<rparr>))))))
         (crep (\<lambda>r. if resting then r\<lparr>rp_adopted := rp_adopted r @ [or_cid o']\<rparr>
                    else r\<lparr>rp_abandoned := rp_abandoned r @ [or_cid o']\<rparr>))))))"

definition recover_stranger :: "'x exec_ops \<Rightarrow> string \<Rightarrow> string \<Rightarrow> ('x, 's, unit) cop" where
  "recover_stranger X run oid =
     (if startswith oid (run @ ''-'') then ret ()
      else andthen (cpf (pexec (xo_cancel X oid)))
             (crep (\<lambda>r. r\<lparr>rp_cancelled := rp_cancelled r @ [oid]\<rparr>)))"

section \<open>The whole recovery\<close>

definition router_states :: "(int \<times> 's router) list \<Rightarrow> (int \<times> string) list" where
  "router_states routers = map (\<lambda>(k, r). (k, state_value (rt_state r))) routers"

definition recover_all :: "'x exec_ops \<Rightarrow> account_snapshot \<Rightarrow> ('x, 's, unit) cop" where
  "recover_all X sn =
     bind (cpf (get id)) (\<lambda>p.
       let run = pf_run p; locals = get_positions_local (io_db (pf_io p)) run; ks = map fst (pf_routers p) in
       andthen (forM ks (recover_router X sn locals))
       (andthen (ccur None)
       (andthen (forM (sn_positions sn) (recover_unknown X sn ks))
       (andthen (ccur None)
       (bind (cpf (get (\<lambda>p. list_orders (io_db (pf_io p)) run))) (\<lambda>os.
        andthen (forM os (recover_order sn locals))
        (andthen (ccur None)
        (andthen (forM (sn_open_orders sn) (recover_stranger X run))
        (bind (cpf (get pf_routers)) (\<lambda>rs. crep (rp_states_update (\<lambda>_. router_states rs)))))))))))) "

definition write_report :: "('x, 's, unit) cop" where
  "write_report =
     bind (cpf (pio io_now)) (\<lambda>now. bind (get id) (\<lambda>c.
       cpf (pio (io_store (upd (insert_recovery (pf_run (rv_pf c)) now (rv_rep c)))))))"

definition recover_failed :: "exn \<Rightarrow> ('x, 's, recovery_report) cop" where
  "recover_failed e =
     (let name = exn_name (exc_class e) in
      andthen (crep (rp_failed_update (\<lambda>_. Some (S name # S '': '' # exc_msg e))))
      (andthen write_report
      (andthen (bind (get rv_cur) (\<lambda>cur. calert CRITICAL ''recovery_failed'' cur [(''error'', [S name])]))
      (raise (Exn RecoveryHalt (S ''recovery failed: '' # S name # S '': '' # exc_msg e))))))"

text \<open>The dict of states and the count in the last alert, as text.\<close>

definition report_detail :: "recovery_report \<Rightarrow> (string \<times> text_t) list" where
  "report_detail rep =
     [(''states'', concat (map (\<lambda>(k, s). [I k, S s]) (rp_states rep))),
      (''abandoned'', [I (int (length (rp_abandoned rep)))])]"

definition recover_run :: "'x exec_ops \<Rightarrow> ('x, 's, recovery_report) cop" where
  "recover_run X =
     bind (attempt (bind (cpf (pexec (xo_snapshot X))) ret)
        (\<lambda>e. raise (Exn RecoveryHalt [S ''executor snapshot unavailable: '', S (exn_name (exc_class e))])))
       (\<lambda>sn.
     bind (attempt (bind (recover_all X sn) (\<lambda>_. ret None)) (\<lambda>e. bind (recover_failed e) (\<lambda>r. ret (Some r))))
       (\<lambda>_.
     andthen write_report
     (bind (get rv_rep) (\<lambda>rep.
       andthen (calert INFO ''recovery'' None (report_detail rep)) (ret rep)))))"

definition recover :: "'x exec_ops \<Rightarrow> ('x, 's, recovery_report) pop" where
  "recover X = (\<lambda>p.
     case recover_run X \<lparr>rv_pf = p, rv_rep = empty_report, rv_cur = None\<rparr> of
       (res, c) \<Rightarrow> (res, rv_pf c))"

end
