(* ===== verification/Venue_Laws.thy ===== *)
theory Venue_Laws
  imports Portfolio_Laws Recovery
begin

text \<open>
  What the portfolio and the recovery guarantee about the venue, over the laws of an executor: a
  reconciliation or a recovery that returns leaves every venue position under a venue stop. The laws are
  the locale \<open>executor_laws\<close>; the theorems are instances for the paper executor.
\<close>

section \<open>Steps that do not reach the executor\<close>

definition venue :: "('x, 's) renv \<Rightarrow> 'x" where "venue w = io_ex (re_io w)"

definition offline :: "('x, 's, 'a) rop \<Rightarrow> bool" where
  "offline m \<longleftrightarrow> (\<forall>w. venue (snd (m w)) = venue w)"

lemma offline_bind: "offline m \<Longrightarrow> (\<And>a. offline (f a)) \<Longrightarrow> offline (bind m f)"
  by (auto simp: offline_def bind_def split: prod.splits sum.splits) (metis snd_conv)+

lemma offline_prims:
  "offline (ret a)" "offline (raise e)" "offline (rget f)" "offline (lift r)" "offline rclock"
  "offline (rread g)" "offline (rupd u)" "offline (rdb d)" "offline (rio (io_emit al))"
  by (simp_all add: offline_def eff_defs venue_def split: prod.split)

lemma offline_andthen: "offline m \<Longrightarrow> offline n \<Longrightarrow> offline (andthen m n)"
  unfolding andthen_def by (rule offline_bind)

lemma offline_if: "offline m \<Longrightarrow> offline n \<Longrightarrow> offline (if c then m else n)" by simp

lemma offline_case_option: "offline m \<Longrightarrow> (\<And>a. offline (f a)) \<Longrightarrow>
    offline (case x of None \<Rightarrow> m | Some a \<Rightarrow> f a)" by (simp split: option.split)

lemmas offline_intros = offline_bind offline_andthen offline_if offline_case_option offline_prims

lemma offline_ops: "offline (ralert lv kind d)" "offline persist" "offline (set_state s)" "offline (halt reason)"
    "offline (load_local row)" "offline (adopt_pending cid st)"
  unfolding ralert_def persist_def set_state_def halt_def load_local_def adopt_pending_def Let_def
  by (intro offline_intros | simp)+

text \<open>A predicate on the venue alone, seen from the portfolio and from the recovery.\<close>

definition at_venue :: "('x \<Rightarrow> bool) \<Rightarrow> ('x, 's) pf \<Rightarrow> bool" where
  "at_venue P p \<longleftrightarrow> P (io_ex (pf_io p))"

lemma at_venue_router: "offline m \<Longrightarrow> keeps (at_venue P) (in_router k m)"
  by (auto simp: keeps_def at_venue_def in_router_def offline_def venue_def split: option.split prod.split)
    (metis renv.select_convs(2) snd_conv)

lemma at_venue_known: "offline m \<Longrightarrow> keeps (at_venue P) (on_known k m)"
  unfolding on_known_def by (intro keeps_intros at_venue_router)

lemma at_venue_prims [keeps_intros]:
  "keeps (at_venue P) (pemit al)" "keeps (at_venue P) (pio io_now)" "keeps (at_venue P) (pio (io_store m))"
  by (simp_all add: keeps_def at_venue_def pemit_def pio_def eff_defs split: prod.split)

lemma at_venue_upd: "(\<And>p. pf_io (f p) = pf_io p) \<Longrightarrow> keeps (at_venue P) (upd f)"
  by (rule keeps_upd) (simp add: at_venue_def)

lemma at_venue_exec: "keeps P m \<Longrightarrow> keeps (at_venue P) (pexec m)"
  by (auto simp: keeps_def at_venue_def pexec_def pio_def io_exec_def focus_def split: prod.split)

lemma at_venue_exec_ends: "nends P m \<Longrightarrow> nends (at_venue P) (pexec m)"
  by (auto simp: nends_def wp_iff at_venue_def pexec_def pio_def io_exec_def focus_def split: prod.splits)

lemma forM_reaches:
  assumes "x \<in> set xs" "nends P (f x)" "\<And>y. y \<in> set xs \<Longrightarrow> nkeeps P (f y)"
  shows "nends P (forM xs f)"
  using assms
proof (induction xs)
  case (Cons y ys)
  show ?case
  proof (cases "x \<in> set ys")
    case True
    then show ?thesis using Cons by (auto intro: nends_andthen)
  next
    case False
    then show ?thesis using Cons.prems by (auto intro!: nends_andthen_keeps nkeeps_forM)
  qed
qed simp

section \<open>Reconciliation\<close>

definition stop_at :: "('x \<Rightarrow> (int \<rightharpoonup> dec)) \<Rightarrow> int \<Rightarrow> 'x \<Rightarrow> bool" where
  "stop_at stops k x \<longleftrightarrow> stops x k \<noteq> None"

text \<open>What every write of the executor keeps, every response of the portfolio keeps.\<close>

lemma reconcile_one_venue:
  assumes "\<And>cid. keeps P (xo_cancel X cid)" "\<And>j. keeps P (xo_cancel_stop X j)" "\<And>j t. keeps P (xo_place_stop X j t)"
  shows "keeps (at_venue P) (reconcile_one X sn m)"
proof -
  have "keeps P (place_exchange_stop X pos l)" for pos l
    unfolding place_exchange_stop_def by (intro keeps_intros assms)
  then show ?thesis
    unfolding reconcile_one_def respond_def restore_stop_def refused_def
    by (auto intro!: keeps_intros at_venue_exec at_venue_upd at_venue_router at_venue_known assms offline_intros
        offline_ops split: prod.split option.split mismatch_kind.split)
qed

context executor_laws
begin

lemma place_keeps: "keeps (stop_at venue_stops k) (xo_place_stop ops j t)"
  unfolding keeps_def stop_at_def
proof (intro allI impI)
  fix x assume s: "venue_stops x k \<noteq> None"
  obtain r x' where r: "xo_place_stop ops j t x = (r, x')" by fastforce
  show "venue_stops (snd (xo_place_stop ops j t x)) k \<noteq> None"
  proof (cases r)
    case (Inl e) then show ?thesis using place_stop_raises [of j t x e x'] r s by auto
  next
    case (Inr a) then show ?thesis using place_stop_sets [of j t x a x'] r s by simp
  qed
qed

lemma place_ends: "nends (stop_at venue_stops j) (xo_place_stop ops j t)"
  by (auto simp: nends_def wp_iff stop_at_def dest: place_stop_sets)

lemma exchange_stop_keeps: "keeps (stop_at venue_stops k) (place_exchange_stop ops p limits)"
  unfolding place_exchange_stop_def by (intro keeps_intros place_keeps)

lemma exchange_stop_ends: "nends (stop_at venue_stops (pv_instrument p)) (place_exchange_stop ops p limits)"
  unfolding place_exchange_stop_def
  by (intro nends_if nends_raise nends_bind nends_andthen_keeps nends_bind_keeps place_ends nkeeps_intros)

lemma snapshot_stopped: "keeps (stop_at venue_stops k) (xo_snapshot ops)"
  unfolding keeps_def stop_at_def by (metis prod.collapse snapshot_keeps)

lemma cancel_stopped: "keeps (stop_at venue_stops k) (xo_cancel ops cid)"
  unfolding keeps_def stop_at_def by (metis prod.collapse cancel_keeps)

lemma cancel_stop_stopped: "k \<noteq> j \<Longrightarrow> keeps (stop_at venue_stops k) (xo_cancel_stop ops j)"
  unfolding keeps_def stop_at_def by (metis prod.collapse cancel_stop_sets)

lemma restore_stop_keeps: "keeps (at_venue (stop_at venue_stops k)) (restore_stop ops sn iid d now)"
  unfolding restore_stop_def
  by (auto intro!: keeps_intros at_venue_exec exchange_stop_keeps at_venue_known offline_intros offline_ops
      split: option.split)

lemma respond_stopped:
  assumes "mm_kind m = KStopWithoutPosition \<Longrightarrow> mm_instrument m \<noteq> Some k"
  shows "keeps (at_venue (stop_at venue_stops k)) (respond ops sn m now)"
  unfolding respond_def using assms
  by (auto intro!: keeps_intros at_venue_exec cancel_stopped cancel_stop_stopped restore_stop_keeps
      at_venue_router offline_ops split: prod.split option.split mismatch_kind.split)

lemma reconcile_one_stopped:
  assumes "mm_kind m = KStopWithoutPosition \<Longrightarrow> mm_instrument m \<noteq> Some k"
  shows "keeps (at_venue (stop_at venue_stops k)) (reconcile_one ops sn m)"
  unfolding reconcile_one_def refused_def
  by (intro keeps_intros respond_stopped at_venue_upd assms) simp_all

end

text \<open>The signed size the venue reports for an instrument.\<close>

definition book_size :: "position_view list \<Rightarrow> int \<Rightarrow> dec" where
  "book_size ps k = (case map_of (rev (map (\<lambda>p. (pv_instrument p, p)) ps)) k of None \<Rightarrow> 0 | Some p \<Rightarrow> pv_size p)"

lemma remote_book: "remote_size sn k = book_size (sn_positions sn) k"
  by (simp add: remote_size_def book_size_def remote_pos_def)

lemma stop_price_class: "stop_price d e l = Inl ex \<Longrightarrow> exc_class ex = InvalidOperation"
  by (auto simp: stop_price_def quantize_def Let_def split: if_splits)

lemma wp_pexec: "wp m (\<lambda>_. P) E (io_ex (pf_io p)) \<Longrightarrow> (\<And>e x. E e x \<Longrightarrow> F e) \<Longrightarrow>
    wp (pexec m) (\<lambda>_. at_venue P) (\<lambda>e _. F e) p"
  by (auto simp: wp_def pexec_def pio_def io_exec_def focus_def at_venue_def split: prod.splits sum.splits)

lemma total_pf: "total (pemit al)" "total (pio io_now)"
  by (simp_all add: total_def pemit_def pio_def eff_defs)

lemma total_on_known:
  fixes m :: "('x, 's, unit) rop"
  assumes "total m"
  shows "total (on_known k m)"
  unfolding total_def
proof
  fix p :: "('x, 's) pf"
  show "\<exists>a p'. on_known k m p = (Inr a, p')"
  proof (cases "map_of (pf_routers p) k")
    case (Some r)
    obtain a v where "m \<lparr>re_rt = r, re_io = pf_io p\<rparr> = (Inr a, v)" using assms unfolding total_def by blast
    then show ?thesis using Some by (simp add: on_known_def bind_def get_def in_router_def)
  qed (simp add: on_known_def bind_def get_def ret_def)
qed

lemma wp_total_keeps: "total m \<Longrightarrow> keeps P m \<Longrightarrow> P w \<Longrightarrow> wp m (\<lambda>_. P) E w"
proof -
  assume a: "total m" "keeps P m" "P w"
  obtain x w' where x: "m w = (Inr x, w')" using a(1) unfolding total_def by blast
  then show ?thesis using keepsD [OF a(2,3)] by (simp add: wp_def)
qed

context writing_executor
begin

lemma exchange_stop_wp:
  "wp (place_exchange_stop ops p limits) (\<lambda>_. stop_at venue_stops (pv_instrument p))
     (\<lambda>e _. exc_class e \<noteq> ShadowRefused) x"
proof -
  have place: "wp (xo_place_stop ops j t) (\<lambda>_. stop_at venue_stops j) (\<lambda>e _. exc_class e \<noteq> ShadowRefused) x" for j t
    by (auto simp: wp_iff stop_at_def dest: place_stop_sets place_stop_not_refused)
  show ?thesis
    unfolding place_exchange_stop_def wp_if wp_raise wp_bind wp_andthen wp_lift
    by (auto intro!: wp_mono [OF place] simp: wp_ret split: sum.split dest: stop_price_class)
qed

lemma missing_stop_restored:
  assumes "mm_kind m = KMissingStop" "mm_instrument m = Some k"
  shows "nends (at_venue (stop_at venue_stops k) :: ('x, 's) pf \<Rightarrow> bool) (reconcile_one ops sn m)"
proof -
  let ?P = "at_venue (stop_at venue_stops k) :: ('x, 's) pf \<Rightarrow> bool"
  have tail: "wp (andthen (on_known k (andthen (rupd f) persist)) (andthen (pemit a) (pemit b))) (\<lambda>_. ?P) E p"
    if "?P p" for f a b E and p :: "('x, 's) pf"
    by (rule wp_total_keeps [where P = ?P, OF _ _ that])
      (intro total_andthen total_pf total_on_known total_ops total_prims keeps_intros at_venue_known offline_intros offline_ops)+
  have rest: "wp (restore_stop ops sn k d now) (\<lambda>_. ?P) (\<lambda>e _. exc_class e \<noteq> ShadowRefused) p"
    for d now and p :: "('x, 's) pf"
  proof (cases "position_of sn k")
    case None
    then show ?thesis by (simp add: restore_stop_def wp_raise)
  next
    case (Some pos)
    then have i: "pv_instrument pos = k" using position_of_Some by blast
    have "wp (bind (pexec (place_exchange_stop ops pos l)) (\<lambda>trigger.
          andthen (on_known k (andthen (rupd (rt_stop_update (\<lambda>_. Some trigger))) persist))
          (andthen (pemit (mm_alert WARN ''stop_missing'' (Some k) (d @ [(''trigger'', [D trigger])]) now))
          (pemit (mm_alert INFO ''stop_placed'' (Some k) [(''trigger'', [D trigger])] now)))))
        (\<lambda>_. ?P) (\<lambda>e _. exc_class e \<noteq> ShadowRefused) p" for l
      unfolding wp_bind
      by (rule wp_mono [OF wp_pexec [OF exchange_stop_wp]]) (auto simp: i intro: tail)
    then show ?thesis by (simp add: restore_stop_def Some wp_bind wp_get)
  qed
  have "wp (attempt (respond ops sn m now) (\<lambda>e. if exc_class e = ShadowRefused then refused m now else raise e))
      (\<lambda>_. ?P) (\<lambda>_ _. True) p" for now and p :: "('x, 's) pf"
    unfolding wp_attempt respond_def assms prod.case mismatch_kind.case option.case
    by (rule wp_mono [OF rest]) (simp_all add: wp_raise)
  then show ?thesis
    unfolding reconcile_one_def by (intro nends_bind) (simp add: nends_def)
qed

lemma orphan_not_held:
  assumes "m \<in> set (diff locals sn run known tol)" "mm_kind m = KStopWithoutPosition" "remote_size sn k \<noteq> 0"
  shows "mm_instrument m \<noteq> Some k"
proof -
  have "m \<notin> set (diff_one tol sn iid lrow)" for iid lrow
  proof -
    have "list_all (\<lambda>m. mm_kind m \<noteq> KStopWithoutPosition) (diff_one tol sn iid lrow)"
      by (simp add: diff_one_def diff_missing_def diff_size_def Let_def split: option.split)
    then show ?thesis using assms(2) by (auto simp: list_all_iff)
  qed
  then have "m \<in> set (orphan_stops sn)" using assms by (auto simp: mem_diff unknown_orders_def)
  then show ?thesis using assms(3) by (auto simp: orphan_stops_def)
qed

lemma wp_snapshot:
  fixes p :: "('x, 's) pf"
  shows "wp (pexec (xo_snapshot ops)) (\<lambda>sn q. sn_positions sn = venue_positions (io_ex (pf_io p))
      \<and> map_of (sn_stops sn) = venue_stops (io_ex (pf_io p))
      \<and> venue_positions (io_ex (pf_io q)) = venue_positions (io_ex (pf_io p))
      \<and> venue_stops (io_ex (pf_io q)) = venue_stops (io_ex (pf_io p))) (\<lambda>_ _. True) p"
proof -
  obtain r x where r: "xo_snapshot ops (io_ex (pf_io p)) = (r, x)" by fastforce
  then show ?thesis
    using snapshot_keeps [OF r] snapshot_reports [of "io_ex (pf_io p)" _ x]
    by (cases r) (simp_all add: wp_def pexec_def pio_def io_exec_def focus_def)
qed

lemma position_keeps:
  "keeps (\<lambda>x. venue_positions x = ps) (xo_cancel ops cid)"
  "keeps (\<lambda>x. venue_positions x = ps) (xo_cancel_stop ops j)"
  "keeps (\<lambda>x. venue_positions x = ps) (xo_place_stop ops j t)"
  unfolding keeps_def
  by (metis cancel_keeps prod.collapse, metis cancel_stop_positions prod.collapse,
      metis place_stop_positions prod.collapse)

lemma wp_reconcile:
  fixes p :: "('x, 's) pf"
  shows "wp (reconcile_now ops) (\<lambda>_ q. book_size (venue_positions (io_ex (pf_io q))) k \<noteq> 0 \<longrightarrow>
    at_venue (stop_at venue_stops k) q) (\<lambda>_ _. True) p"
  unfolding reconcile_now_def wp_bind wp_get Let_def
proof (rule wp_mono [OF wp_snapshot], goal_cases)
  case (1 sn q)
  let ?ps = "venue_positions (io_ex (pf_io p))"
  let ?at = "at_venue (\<lambda>x. venue_positions x = ?ps) :: ('x, 's) pf \<Rightarrow> bool"
  let ?st = "at_venue (stop_at venue_stops k) :: ('x, 's) pf \<Rightarrow> bool"
  define mms where "mms = diff (get_positions_local (io_db (pf_io (id q))) (pf_run (id q))) sn (pf_run (id q))
             (known_orders (io_db (pf_io (id q))) (pf_run (id q))) STOP_DRIFT_TOLERANCE"
  have pos: "wp (forM mms (reconcile_one ops sn)) (\<lambda>_. ?at) (\<lambda>_ _. True) q"
  proof -
    have "keeps ?at (forM mms (reconcile_one ops sn))"
      by (intro keeps_intros reconcile_one_venue position_keeps)
    then show ?thesis using 1 by (auto simp: keeps_wp at_venue_def elim!: wp_mono)
  qed
  have stp: "wp (forM mms (reconcile_one ops sn)) (\<lambda>_ q'. book_size ?ps k \<noteq> 0 \<longrightarrow> ?st q') (\<lambda>_ _. True) q"
  proof (cases "book_size ?ps k = 0")
    case False
    then have size: "remote_size sn k \<noteq> 0" using 1 by (simp add: remote_book)
    have each: "nkeeps ?st (reconcile_one ops sn m)" if "m \<in> set mms" for m
      using orphan_not_held [OF that [unfolded mms_def] _ size]
      by (intro keeps_nkeeps reconcile_one_stopped) auto
    show ?thesis
    proof (cases "remote_stop sn k = None")
      case True
      then obtain m where m: "m \<in> set mms" "mm_kind m = KMissingStop" "mm_instrument m = Some k"
        using diff_missing_stop [of _ sn] size unfolding mms_def by blast
      have "nends ?st (forM mms (reconcile_one ops sn))"
        by (rule forM_reaches [where x = m and P = ?st and f = "reconcile_one ops sn"])
          (use m missing_stop_restored [of m k sn] each in blast)+
      then show ?thesis by (auto simp: nends_def elim!: wp_mono)
    next
      case False
      then have "?st q" using 1 by (simp add: at_venue_def stop_at_def remote_stop_def)
      then have "wp (forM mms (reconcile_one ops sn)) (\<lambda>_. ?st) (\<lambda>_ _. True) q"
        using nkeeps_forM [of mms ?st "reconcile_one ops sn"] each by (simp add: nkeeps_def)
      then show ?thesis by (rule wp_mono) simp_all
    qed
  qed (simp add: wp_iff)
  show ?case
    unfolding mms_def [symmetric] wp_andthen wp_upd wp_ret
    by (rule wp_mono [OF wp_conj [OF pos stp]]) (simp_all add: at_venue_def)
qed simp_all

end

section \<open>Recovery\<close>

definition rv_venue :: "('x \<Rightarrow> bool) \<Rightarrow> ('x, 's) rcv \<Rightarrow> bool" where
  "rv_venue P c \<longleftrightarrow> at_venue P (rv_pf c)"

lemma rv_cpf: "keeps (at_venue P) m \<Longrightarrow> keeps (rv_venue P) (cpf m)"
  by (auto simp: keeps_def rv_venue_def cpf_def focus_def split: prod.split)

lemma rv_cpf_ends: "nends (at_venue P) m \<Longrightarrow> nends (rv_venue P) (cpf m)"
  by (auto simp: nends_def wp_iff rv_venue_def cpf_def focus_def split: prod.splits)

lemma rv_prims [keeps_intros]: "keeps (rv_venue P) (crep f)" "keeps (rv_venue P) (ccur k)"
  "keeps (rv_venue P) (calert lv kind iid d)" "keeps (rv_venue P) (set_router kr g)"
  "keeps (rv_venue P) write_report"
proof -
  show "keeps (rv_venue P) (crep f)" "keeps (rv_venue P) (ccur k)"
    unfolding crep_def ccur_def by (rule keeps_upd, simp add: rv_venue_def)+
  show "keeps (rv_venue P) (calert lv kind iid d)" "keeps (rv_venue P) (set_router kr g)"
    "keeps (rv_venue P) write_report"
    unfolding calert_def set_router_def write_report_def
    by (intro keeps_intros rv_cpf at_venue_router offline_prims)+
qed

lemma rv_get [keeps_intros]: "keeps (rv_venue P) (cpf (get f))"
  by (intro rv_cpf keeps_intros)

lemma rv_pick: "keeps (rv_venue P) (cpf (in_router k persist))" "keeps (rv_venue P) (cpf (in_router k (rget g)))"
  "keeps (rv_venue P) (cpf (in_router k (load_local row)))" "keeps (rv_venue P) (cpf (on_known k (adopt_pending cid st)))"
  "keeps (rv_venue P) (cpf (pio (io_store st')))" "keeps (rv_venue P) (cpf (pio io_now))"
  by (intro rv_cpf at_venue_router at_venue_known offline_ops offline_prims keeps_intros)+

lemma recover_order_venue: "keeps (rv_venue P) (recover_order sn locals ord)"
  unfolding recover_order_def Let_def by (intro keeps_intros rv_pick)

lemma recover_flat_venue: "keeps (rv_venue P) (recover_flat k row)"
  unfolding recover_flat_def by (intro keeps_intros)

lemma recover_stranger_venue: "keeps P (xo_cancel X oid) \<Longrightarrow> keeps (rv_venue P) (recover_stranger X run oid)"
  unfolding recover_stranger_def by (intro keeps_intros rv_cpf at_venue_exec)

lemma recover_stop_venue: "(\<And>p l. keeps P (place_exchange_stop X p l)) \<Longrightarrow> keeps (rv_venue P) (recover_stop X k pos)"
  unfolding recover_stop_def by (intro keeps_intros rv_cpf at_venue_exec)

lemma recover_router_venue:
  "(\<And>p l. keeps P (place_exchange_stop X p l)) \<Longrightarrow> keeps (rv_venue P) (recover_router X sn locals k)"
  unfolding recover_router_def recover_open_def Let_def
  by (intro keeps_intros rv_pick recover_flat_venue recover_stop_venue)

lemma recover_unknown_venue:
  "(\<And>p l. keeps P (place_exchange_stop X p l)) \<Longrightarrow> keeps (rv_venue P) (recover_unknown X sn ks pos)"
  unfolding recover_unknown_def by (intro keeps_intros rv_cpf at_venue_exec)

lemma recover_failed_ends: "nends P (recover_failed e)"
  unfolding recover_failed_def Let_def by (intro nends_andthen nends_raise)

lemma recover_all_venue:
  assumes "\<And>p l. keeps P (place_exchange_stop X p l)" "\<And>oid. keeps P (xo_cancel X oid)"
  shows "keeps (rv_venue P) (recover_all X sn)"
  unfolding recover_all_def Let_def
  by (intro keeps_intros rv_get recover_router_venue recover_unknown_venue recover_order_venue
      recover_stranger_venue assms)

text \<open>After the snapshot: the rebuild, its failure branch, the report.\<close>

definition recover_rest :: "'x exec_ops \<Rightarrow> account_snapshot \<Rightarrow> ('x, 's, recovery_report) cop" where
  "recover_rest X sn =
     bind (attempt (bind (recover_all X sn) (\<lambda>_. ret None)) (\<lambda>e. bind (recover_failed e) (\<lambda>r. ret (Some r))))
       (\<lambda>_. andthen write_report (bind (get rv_rep) (\<lambda>rep.
         andthen (calert INFO ''recovery'' None (report_detail rep)) (ret rep))))"

lemma nends_attempt: "nends P m \<Longrightarrow> (\<And>e. nends P (h e)) \<Longrightarrow> nends P (attempt m h)"
  by (auto simp: nends_def wp_attempt intro: wp_mono)

lemma recover_tail: "nkeeps (rv_venue P) (andthen write_report (bind (get rv_rep) (\<lambda>rep.
      andthen (calert INFO ''recovery'' None (report_detail rep)) (ret rep))))"
  by (intro keeps_nkeeps keeps_intros)

lemma recover_failure: "nends P (bind (recover_failed e) (\<lambda>r. ret (Some r)))"
  by (rule nends_bind_keeps [OF recover_failed_ends nkeeps_ret])

lemma recover_rest_ends: "nends (rv_venue P) (recover_all X sn :: ('x, 's, unit) cop) \<Longrightarrow>
    nends (rv_venue P) (recover_rest X sn :: ('x, 's, recovery_report) cop)"
  unfolding recover_rest_def
  by (rule nends_bind_keeps [OF nends_attempt [OF nends_bind_keeps [OF _ nkeeps_ret] recover_failure] recover_tail])

lemma recover_rest_keeps: "nkeeps (rv_venue P) (recover_all X sn :: ('x, 's, unit) cop) \<Longrightarrow>
    nkeeps (rv_venue P) (recover_rest X sn :: ('x, 's, recovery_report) cop)"
  unfolding recover_rest_def
  by (intro nkeeps_bind recover_tail nkeeps_attempt recover_failure nkeeps_ret)

context executor_laws
begin

lemma recover_router_ends:
  assumes "position_of sn k = Some pos" "pv_size pos \<noteq> 0" "map_of (sn_stops sn) k = None"
  shows "nends (rv_venue (stop_at venue_stops k)) (recover_router ops sn locals k)"
proof -
  have i: "pv_instrument pos = k" using assms(1) position_of_Some by blast
  have place: "nends (rv_venue (stop_at venue_stops k)) (cpf (pexec (place_exchange_stop ops pos l)))" for l
    using rv_cpf_ends [OF at_venue_exec_ends [OF exchange_stop_ends [of pos l]]] by (simp add: i)
  have stop: "nends (rv_venue (stop_at venue_stops k)) (recover_stop ops k pos)"
    unfolding recover_stop_def
    by (rule nends_bind, rule nends_bind_keeps [OF place]) (intro keeps_nkeeps keeps_intros)
  have "nends (rv_venue (stop_at venue_stops k)) (recover_open ops sn k row pos)" for row
    unfolding recover_open_def assms(3) option.case
    by (rule nends_andthen, rule nends_andthen, rule nends_andthen, rule stop)
  note this [of "map_of locals k"]
  then show ?thesis
    unfolding recover_router_def Let_def assms(1) option.case if_P [OF assms(2)]
    by (rule nends_andthen [OF nends_andthen [OF nends_andthen_keeps]])
      (intro keeps_nkeeps keeps_intros rv_pick)
qed

lemma recover_unknown_ends:
  assumes "pv_instrument pos = k" "pv_size pos \<noteq> 0" "map_of (sn_stops sn) k = None" "k \<notin> set ks"
  shows "nends (rv_venue (stop_at venue_stops k)) (recover_unknown ops sn ks pos)"
proof -
  have place: "nends (rv_venue (stop_at venue_stops k)) (cpf (pexec (place_exchange_stop ops pos LIMITS)))"
    using rv_cpf_ends [OF at_venue_exec_ends [OF exchange_stop_ends [of pos LIMITS]]] by (simp add: assms(1))
  have "\<not> (pv_size pos = 0 \<or> pv_instrument pos \<in> set ks)" using assms by blast
  note n = if_not_P [OF this]
  have "\<not> map_of (sn_stops sn) (pv_instrument pos) \<noteq> None" using assms by simp
  note n2 = if_not_P [OF this]
  show ?thesis
    unfolding recover_unknown_def n n2
    by (rule nends_andthen, rule nends_andthen, rule nends_andthen, rule nends_bind_keeps [OF place])
      (intro keeps_nkeeps keeps_intros)
qed

lemma recover_all_guards:
  assumes "pos \<in> set (sn_positions sn)" "pv_size pos \<noteq> 0" "distinct (map pv_instrument (sn_positions sn))"
    "map_of (sn_stops sn) (pv_instrument pos) = None"
  shows "nends (rv_venue (stop_at venue_stops (pv_instrument pos))) (recover_all ops sn)"
proof -
  let ?P = "stop_at venue_stops (pv_instrument pos)"
  note k = exchange_stop_keeps cancel_stopped
  have po: "position_of sn (pv_instrument pos) = Some pos"
    using assms(1,3) by (auto simp: position_of_def find_Some_iff distinct_conv_nth in_set_conv_nth)
  have "nends (rv_venue ?P) (andthen (forM ks (recover_router ops sn locals)) (andthen (ccur None)
      (andthen (forM (sn_positions sn) (recover_unknown ops sn ks)) rest)))"
    if "nkeeps (rv_venue ?P) rest" for ks locals and rest :: "('x, 's, unit) cop"
  proof (cases "pv_instrument pos \<in> set ks")
    case True
    show ?thesis
      by (rule nends_andthen_keeps
            [OF forM_reaches [where f = "recover_router ops sn locals", OF True recover_router_ends [OF po assms(2,4)]]])
        (intro nkeeps_andthen nkeeps_forM that keeps_nkeeps keeps_intros recover_router_venue
          recover_unknown_venue k)+
  next
    case False
    show ?thesis
      by (rule nends_andthen, rule nends_andthen,
          rule nends_andthen_keeps [OF forM_reaches [where f = "recover_unknown ops sn ks",
            OF assms(1) recover_unknown_ends [OF refl assms(2,4) False]]])
        (intro that keeps_nkeeps recover_unknown_venue k)+
  qed
  then show ?thesis
    unfolding recover_all_def Let_def
    by (rule nends_bind) (intro keeps_nkeeps keeps_intros rv_get recover_order_venue recover_stranger_venue k)
qed

end

lemma recover_run_eq: "recover_run X =
    bind (attempt (bind (cpf (pexec (xo_snapshot X))) ret)
        (\<lambda>e. raise (Exn RecoveryHalt [S ''executor snapshot unavailable: '', S (exn_name (exc_class e))])))
      (recover_rest X)"
  by (simp add: recover_run_def recover_rest_def [abs_def])

context writing_executor
begin

lemma recover_positions: "keeps (rv_venue (\<lambda>x. venue_positions x = ps)) (recover_all ops sn)"
proof (rule recover_all_venue)
  show "keeps (\<lambda>x. venue_positions x = ps) (place_exchange_stop ops p l)" for p l
    unfolding place_exchange_stop_def by (intro keeps_intros position_keeps)
qed (rule position_keeps)

lemma recover_rest_positions:
  "nkeeps (rv_venue (\<lambda>x. venue_positions x = ps)) (recover_rest ops sn :: ('x, 's, recovery_report) cop)"
  by (rule recover_rest_keeps [OF keeps_nkeeps [OF recover_positions]])

lemma recover_rest_stop:
  fixes q :: "('x, 's) rcv"
  assumes "distinct (map pv_instrument (sn_positions sn))" "pos \<in> set (sn_positions sn)" "pv_size pos \<noteq> 0"
    and stops: "rv_venue (\<lambda>x. venue_stops x = map_of (sn_stops sn)) q"
  shows "wp (recover_rest ops sn) (\<lambda>_. rv_venue (stop_at venue_stops (pv_instrument pos))) (\<lambda>_ _. True) q"
proof (cases "map_of (sn_stops sn) (pv_instrument pos) = None")
  case True
  have "nends (rv_venue (stop_at venue_stops (pv_instrument pos))) (recover_rest ops sn :: ('x, 's, recovery_report) cop)"
    by (rule recover_rest_ends [OF recover_all_guards]) (simp_all add: assms True)
  then show ?thesis by (simp add: nends_def)
next
  case False
  then have "rv_venue (stop_at venue_stops (pv_instrument pos)) q"
    using stops by (simp add: rv_venue_def at_venue_def stop_at_def)
  moreover have "nkeeps (rv_venue (stop_at venue_stops (pv_instrument pos))) (recover_rest ops sn :: ('x, 's, recovery_report) cop)"
    by (rule recover_rest_keeps [OF keeps_nkeeps [OF recover_all_venue [OF exchange_stop_keeps cancel_stopped]]])
  ultimately show ?thesis by (simp add: nkeeps_def)
qed

lemma recover_run_guards:
  fixes p :: "('x, 's) pf"
  assumes "distinct (map pv_instrument (venue_positions (io_ex (pf_io p))))"
  shows "wp (recover_run ops) (\<lambda>_ q. rv_venue (\<lambda>x. venue_positions x = venue_positions (io_ex (pf_io p))) q
      \<and> (\<forall>pos\<in>set (venue_positions (io_ex (pf_io p))). pv_size pos \<noteq> 0 \<longrightarrow>
           rv_venue (stop_at venue_stops (pv_instrument pos)) q))
      (\<lambda>_ _. True) \<lparr>rv_pf = p, rv_rep = r, rv_cur = c\<rparr>"
proof -
  let ?ps = "venue_positions (io_ex (pf_io p))"
  have snap: "wp (cpf (pexec (xo_snapshot ops))) (\<lambda>sn q. sn_positions sn = ?ps
      \<and> rv_venue (\<lambda>x. venue_positions x = ?ps) q \<and> rv_venue (\<lambda>x. venue_stops x = map_of (sn_stops sn)) q)
      (\<lambda>_ _. True) \<lparr>rv_pf = p, rv_rep = r, rv_cur = c\<rparr>"
    using wp_snapshot [of p] by (auto simp: wp_def cpf_def focus_def rv_venue_def at_venue_def split: prod.splits sum.splits)
  have all: "wp m (\<lambda>_ q. \<forall>x\<in>set xs. c x \<longrightarrow> Q x q) (\<lambda>_ _. True) w"
    if "\<And>x. x \<in> set xs \<Longrightarrow> c x \<Longrightarrow> wp m (\<lambda>_. Q x) (\<lambda>_ _. True) w"
    for m :: "('w, 'b) eff" and xs :: "'c list" and c and Q w
    using that by (cases "m w") (auto simp: wp_iff)
  have rest: "wp (recover_rest ops sn) (\<lambda>_ q. rv_venue (\<lambda>x. venue_positions x = ?ps) q
      \<and> (\<forall>pos\<in>set ?ps. pv_size pos \<noteq> 0 \<longrightarrow> rv_venue (stop_at venue_stops (pv_instrument pos)) q)) (\<lambda>_ _. True) q"
    if sn: "sn_positions sn = ?ps" "rv_venue (\<lambda>x. venue_positions x = ?ps) q"
      "rv_venue (\<lambda>x. venue_stops x = map_of (sn_stops sn)) q" for sn and q :: "('x, 's) rcv"
  proof -
    have "wp (recover_rest ops sn) (\<lambda>_. rv_venue (\<lambda>x. venue_positions x = ?ps)) (\<lambda>_ _. True) q"
      using recover_rest_positions [of ?ps sn] sn(2) unfolding nkeeps_def by blast
    moreover have "wp (recover_rest ops sn) (\<lambda>_ q. \<forall>pos\<in>set ?ps. pv_size pos \<noteq> 0 \<longrightarrow>
        rv_venue (stop_at venue_stops (pv_instrument pos)) q) (\<lambda>_ _. True) q"
      by (rule all) (rule recover_rest_stop, simp_all add: sn assms)
    ultimately show ?thesis by (rule wp_mono [OF wp_conj]) simp_all
  qed
  show ?thesis
    unfolding recover_run_eq wp_bind wp_attempt
    by (rule wp_mono [OF snap]) (auto simp: wp_ret wp_raise intro: rest)
qed

lemma recover_guards:
  assumes "recover ops p = (Inr rep, q)" "distinct (map pv_instrument (venue_positions (io_ex (pf_io p))))"
    "pos \<in> set (venue_positions (io_ex (pf_io q)))" "pv_size pos \<noteq> 0"
  shows "venue_stops (io_ex (pf_io q)) (pv_instrument pos) \<noteq> None"
proof -
  obtain c where c: "recover_run ops \<lparr>rv_pf = p, rv_rep = empty_report, rv_cur = None\<rparr> = (Inr rep, c)" "rv_pf c = q"
    using assms(1) by (auto simp: recover_def split: prod.splits)
  then show ?thesis
    using recover_run_guards [OF assms(2), of empty_report None] assms(3,4)
    by (simp add: wp_def rv_venue_def at_venue_def stop_at_def)
qed

end

end
