(* ===== verification/Recovery_Laws.thy ===== *)
theory Recovery_Laws
  imports Venue_Laws
begin

text \<open>
  What a recovery that returns leaves in the routers: the size of the venue, and, for a router whose
  persisted row was frozen, that frozen state.
\<close>

section \<open>Facts about one router, seen from the recovery\<close>

definition rshows :: "int \<Rightarrow> ('s router \<Rightarrow> bool) \<Rightarrow> ('x, 's) rcv \<Rightarrow> bool" where
  "rshows k Q c \<longleftrightarrow> (\<forall>r. map_of (pf_routers (rv_pf c)) k = Some r \<longrightarrow> Q r)"

definition rfact :: "('s router \<Rightarrow> bool) \<Rightarrow> ('x, 's) renv \<Rightarrow> bool" where
  "rfact Q w \<longleftrightarrow> Q (re_rt w)"

lemma rshows_router:
  fixes m :: "('x, 's, 'a) rop"
  shows "(j = k \<Longrightarrow> keeps (rfact Q) m) \<Longrightarrow> keeps (rshows k Q) (cpf (in_router j m))"
  unfolding keeps_def
proof (intro allI impI)
  fix c :: "('x, 's) rcv"
  assume m: "j = k \<Longrightarrow> \<forall>w. rfact Q w \<longrightarrow> rfact Q (snd (m w))" and h: "rshows k Q c"
  show "rshows k Q (snd (cpf (in_router j m) c))"
  proof (cases "map_of (pf_routers (rv_pf c)) j")
    case None
    then show ?thesis using h by (simp add: cpf_def focus_def in_router_def)
  next
    case (Some r)
    have "map_of (pf_routers (snd (in_router j m (rv_pf c)))) k =
      (if k = j then Some (re_rt (snd (m \<lparr>re_rt = r, re_io = pf_io (rv_pf c)\<rparr>))) else map_of (pf_routers (rv_pf c)) k)"
      by (rule in_router_result [OF Some])
    then show ?thesis using h m Some
      by (cases "j = k") (auto simp: rshows_def cpf_def focus_def rfact_def split: prod.split)
  qed
qed

lemma rshows_router_ends: "nends (rfact Q) m \<Longrightarrow> nends (rshows k Q) (cpf (in_router k m))"
  by (auto simp: nends_def wp_iff rshows_def rfact_def cpf_def focus_def in_router_def update_conv'
      split: prod.splits option.splits)

lemma rshows_known: "(j = k \<Longrightarrow> keeps (rfact Q) m) \<Longrightarrow> keeps (rshows k Q) (cpf (on_known j m))"
proof -
  assume m: "j = k \<Longrightarrow> keeps (rfact Q) m"
  show ?thesis
    using rshows_router [OF m]
    by (auto simp: keeps_def on_known_def cpf_def focus_def bind_def get_def ret_def rshows_def split: option.split)
qed

lemma rshows_set: "(j = k \<Longrightarrow> (\<And>r. Q r \<Longrightarrow> Q (f r))) \<Longrightarrow> keeps (rshows k Q) (set_router j f)"
  unfolding set_router_def by (rule rshows_router) (auto simp: keeps_def rfact_def eff_defs)

lemma rshows_set_ends: "(\<And>r. Q (f r)) \<Longrightarrow> nends (rshows k Q) (set_router k f)"
  unfolding set_router_def by (rule rshows_router_ends) (auto simp: nends_def wp_iff rfact_def eff_defs)

lemma rshows_prims [keeps_intros]:
  "keeps (rshows k Q) (crep f)" "keeps (rshows k Q) (ccur j)" "keeps (rshows k Q) (cpf (pio m))"
  "keeps (rshows k Q) (cpf (pexec n))" "keeps (rshows k Q) (cpf (pemit a))" "keeps (rshows k Q) (cpf (get g))"
  by (auto simp: keeps_def rshows_def crep_def ccur_def cpf_def pexec_def pemit_def pio_def focus_def eff_defs
      split: prod.split)

lemma rshows_report [keeps_intros]: "keeps (rshows k Q) (calert lv kind iid d)" "keeps (rshows k Q) write_report"
  unfolding calert_def write_report_def by (intro keeps_intros)+

lemma rfact_prims [keeps_intros]:
  "keeps (rfact Q) (rdb d)" "keeps (rfact Q) rclock" "keeps (rfact Q) (rget g)" "keeps (rfact Q) (rread h)"
  by (auto simp: keeps_def rfact_def eff_defs split: prod.split)

lemma rfact_rupd: "(\<And>r. Q r \<Longrightarrow> Q (f r)) \<Longrightarrow> keeps (rfact Q) (rupd f)"
  by (auto simp: keeps_def rfact_def eff_defs)

lemma rfact_persist [keeps_intros]: "keeps (rfact Q) persist"
  unfolding persist_def by (intro keeps_intros)

lemma rshows_read [keeps_intros]:
  "keeps (rshows k Q) (cpf (in_router j persist))" "keeps (rshows k Q) (cpf (in_router j (rget g)))"
  by (intro rshows_router keeps_intros)+

section \<open>The rebuild\<close>

definition venue_size :: "account_snapshot \<Rightarrow> int \<Rightarrow> dec" where
  "venue_size sn k = (case position_of sn k of None \<Rightarrow> 0 | Some pos \<Rightarrow> pv_size pos)"

definition kept_frozen :: "position_row option \<Rightarrow> 's router \<Rightarrow> bool" where
  "kept_frozen row r \<longleftrightarrow> frozen_row row \<longrightarrow> map_option pr_state row = Some (rt_state r)"

lemma load_local_state: "nends (rfact (kept_frozen (Some row))) (load_local row)"
proof -
  have a: "nends (rfact (kept_frozen (Some row))) (rupd (\<lambda>r. r\<lparr>rt_state := pr_state row, rt_size := pr_size row,
      rt_entry := pr_entry row, rt_stop := pr_stop row, rt_funding := pr_funding row\<rparr>))"
    by (auto simp: nends_def wp_iff rfact_def eff_defs kept_frozen_def)
  show ?thesis
    unfolding load_local_def Let_def
    by (rule nends_andthen_keeps [OF a]) (intro keeps_nkeeps keeps_intros rfact_rupd, auto simp: kept_frozen_def)
qed

lemma recover_stop_rshows: "(\<And>r t. Q r \<Longrightarrow> Q (r\<lparr>rt_stop := t\<rparr>)) \<Longrightarrow> keeps (rshows k Q) (recover_stop X j pos)"
  unfolding recover_stop_def by (intro keeps_intros rshows_set) simp

lemma recover_other: "j \<noteq> k \<Longrightarrow> keeps (rshows k Q) (recover_router X sn locals j)"
  unfolding recover_router_def recover_open_def recover_flat_def recover_stop_def Let_def
  by (intro keeps_intros rshows_set rshows_router) simp_all

lemma recover_size:
  "nends (rshows k (\<lambda>r. rt_size r = venue_size sn k)) (recover_router X sn locals k)"
proof -
  let ?Q = "\<lambda>r. rt_size r = venue_size sn k"
  have o: "nends (rshows k ?Q) (recover_open X sn k row pos)" if "venue_size sn k = pv_size pos" for row pos
    unfolding recover_open_def
    by (rule nends_andthen, rule nends_andthen_keeps [OF rshows_set_ends])
      (simp add: that, intro keeps_nkeeps keeps_intros rshows_set recover_stop_rshows, simp_all)
  have f: "nends (rshows k ?Q) (recover_flat k row)" if "venue_size sn k = 0" for row
    unfolding recover_flat_def
    by (rule nends_andthen_keeps [OF rshows_set_ends])
      (simp add: that, intro keeps_nkeeps keeps_intros rshows_set, simp_all)
  have c: "nends (rshows k ?Q) (case position_of sn k of None \<Rightarrow> recover_flat k row
      | Some pos \<Rightarrow> if pv_size pos \<noteq> 0 then recover_open X sn k row pos else recover_flat k row)" for row
    using o [of _ row] f [of row]
    by (cases "position_of sn k") (auto simp del: fun_upd_apply intro!: o f simp: venue_size_def)
  show ?thesis
    unfolding recover_router_def Let_def
    by (rule nends_andthen, rule nends_andthen, rule nends_andthen_keeps [OF c])
      (intro keeps_nkeeps keeps_intros)
qed

lemma recover_frozen:
  "nends (rshows k (kept_frozen (map_of locals k))) (recover_router X sn locals k)"
proof (cases "frozen_row (map_of locals k)")
  case False
  then show ?thesis by (simp add: nends_def rshows_def kept_frozen_def wp_iff)
next
  case True
  then obtain row where row: "map_of locals k = Some row" by (cases "map_of locals k") (auto simp: frozen_row_def)
  let ?Q = "kept_frozen (Some row)"
  have st: "?Q r \<Longrightarrow> ?Q (r\<lparr>rt_stop := t\<rparr>)" for r :: "'a router" and t by (simp add: kept_frozen_def)
  note f = if_P [OF True [unfolded row]]
  have o: "keeps (rshows k ?Q) (recover_open X sn k (Some row) pos)" for pos
    unfolding recover_open_def f
    by (intro keeps_intros rshows_set recover_stop_rshows st) (simp_all add: kept_frozen_def)
  have fl: "keeps (rshows k ?Q) (recover_flat k (Some row))"
    unfolding recover_flat_def f by (intro keeps_intros rshows_set) (simp add: kept_frozen_def)
  show ?thesis
    unfolding recover_router_def Let_def row option.case
    by (rule nends_andthen, rule nends_andthen_keeps [OF rshows_router_ends [OF load_local_state]])
      (intro keeps_nkeeps keeps_intros o fl)
qed

lemma recover_unknown_rshows: "keeps (rshows k Q) (recover_unknown X sn ks pos)"
  unfolding recover_unknown_def by (intro keeps_intros)

lemma recover_stranger_rshows: "keeps (rshows k Q) (recover_stranger X run oid)"
  unfolding recover_stranger_def by (intro keeps_intros)

lemma recover_order_rshows:
  assumes "\<And>lr cid. map_of locals k = Some lr \<Longrightarrow> pending_state (pr_state lr) \<Longrightarrow>
    keeps (rfact Q) (adopt_pending cid (pr_state lr) :: ('x, 's, unit) rop)"
  shows "keeps (rshows k Q) (recover_order sn locals ord :: ('x, 's, unit) cop)"
  unfolding recover_order_def Let_def
  by (intro keeps_intros rshows_known) (simp add: assms)

lemma adopt_pending_fact: "(\<And>r. Q r \<Longrightarrow> Q (r\<lparr>rt_state := st\<rparr>)) \<Longrightarrow>
    (\<And>r f. Q r \<Longrightarrow> Q (rt_pending_cid_update f r)) \<Longrightarrow> (\<And>r f. Q r \<Longrightarrow> Q (rt_pending_since_update f r)) \<Longrightarrow>
    keeps (rfact Q) (adopt_pending cid st)"
  unfolding adopt_pending_def set_state_def by (intro keeps_intros rfact_rupd) simp_all

lemma wp_cpf_get: "wp (cpf (get g)) Q E c = Q (g (rv_pf c)) c"
  by (simp add: wp_def cpf_def focus_def get_def)

lemma recover_all_rshows:
  assumes "k \<in> set (map fst (pf_routers (rv_pf c)))"
    and r: "nends (rshows k Q) (recover_router X sn locals k :: ('x, 's, unit) cop)"
    and o: "\<And>ord. keeps (rshows k Q) (recover_order sn locals ord :: ('x, 's, unit) cop)"
    and l: "locals = get_positions_local (io_db (pf_io (rv_pf c))) (pf_run (rv_pf c))"
  shows "wp (recover_all X sn) (\<lambda>_. rshows k Q) (\<lambda>_ _. True) (c :: ('x, 's) rcv)"
proof -
  have e: "nends (rshows k Q) (forM (map fst (pf_routers (rv_pf c))) (recover_router X sn locals))"
  proof (rule forM_reaches [where f = "recover_router X sn locals", OF assms(1) r])
    fix j
    show "nkeeps (rshows k Q) (recover_router X sn locals j)"
      using nends_nkeeps [OF r] keeps_nkeeps [OF recover_other [of j k Q X sn locals]] by (cases "j = k") blast+
  qed
  have "nkeeps (rshows k Q) (andthen (ccur None) (andthen (forM (sn_positions sn) (recover_unknown X sn ks))
      (andthen (ccur None) (bind (cpf (get g)) (\<lambda>os. andthen (forM os (recover_order sn locals))
      (andthen (ccur None) (andthen (forM (sn_open_orders sn) (recover_stranger X run))
      (bind (cpf (get pf_routers)) (\<lambda>rs. crep (rp_states_update (\<lambda>_. router_states rs)))))))))))"
    for ks g and run :: string
    by (intro keeps_nkeeps keeps_intros recover_unknown_rshows recover_stranger_rshows o)
  from nends_andthen_keeps [OF e this] show ?thesis
    unfolding recover_all_def Let_def wp_bind [of "cpf (get id)"] wp_cpf_get id_apply l [symmetric] nends_def
    by blast
qed

lemma recover_rest_rshows:
  assumes "wp (recover_all X sn) (\<lambda>_. rshows k Q) (\<lambda>_ _. True) c"
  shows "wp (recover_rest X sn) (\<lambda>_. rshows k Q) (\<lambda>_ _. True) c"
proof -
  have t: "nkeeps (rshows k Q) (andthen write_report (bind (get rv_rep) (\<lambda>rep.
      andthen (calert INFO ''recovery'' None (report_detail rep)) (ret rep))))"
    by (intro keeps_nkeeps keeps_intros)
  have "nends (\<lambda>_. False) (recover_failed e :: ('a, 'b, recovery_report) cop)" for e
    by (rule recover_failed_ends)
  then have f: "wp (recover_failed e) (\<lambda>_ _. False) (\<lambda>_ _. True) w" for e and w :: "('a, 'b) rcv"
    by (simp add: nends_def)
  show ?thesis
    unfolding recover_rest_def wp_bind wp_attempt
    by (rule wp_mono [OF assms])
      (use t in \<open>auto simp: wp_ret nkeeps_def intro: wp_mono [OF f]\<close>)
qed

section \<open>The recovery as a whole\<close>

text \<open>The size of the first listed position of an instrument, 0 without one.\<close>

definition position_size :: "position_view list \<Rightarrow> int \<Rightarrow> dec" where
  "position_size ps k = (case find (\<lambda>p. pv_instrument p = k) ps of None \<Rightarrow> 0 | Some p \<Rightarrow> pv_size p)"

lemma venue_size_positions: "venue_size sn k = position_size (sn_positions sn) k"
  by (simp add: venue_size_def position_size_def position_of_def)

context writing_executor
begin

lemma recover_rest_shows:
  fixes c :: "('x, 's) rcv"
  assumes "k \<in> set (map fst (pf_routers (rv_pf c)))"
  shows "wp (recover_rest ops sn) (\<lambda>_. rshows k (\<lambda>r. rt_size r = venue_size sn k)) (\<lambda>_ _. True) c"
    and "wp (recover_rest ops sn) (\<lambda>_. rshows k (kept_frozen
      (map_of (get_positions_local (io_db (pf_io (rv_pf c))) (pf_run (rv_pf c))) k))) (\<lambda>_ _. True) c"
proof -
  let ?l = "get_positions_local (io_db (pf_io (rv_pf c))) (pf_run (rv_pf c))"
  have o1: "keeps (rshows k (\<lambda>r. rt_size r = venue_size sn k)) (recover_order sn ?l ord :: ('x, 's, unit) cop)" for ord
    by (intro recover_order_rshows adopt_pending_fact) simp_all
  have o2: "keeps (rshows k (kept_frozen (map_of ?l k))) (recover_order sn ?l ord :: ('x, 's, unit) cop)" for ord
    by (intro recover_order_rshows adopt_pending_fact)
      (auto simp: kept_frozen_def frozen_row_def frozen_def pending_state_def)
  show "wp (recover_rest ops sn) (\<lambda>_. rshows k (\<lambda>r. rt_size r = venue_size sn k)) (\<lambda>_ _. True) c"
    by (rule recover_rest_rshows [OF recover_all_rshows [OF assms recover_size o1 refl]])
  show "wp (recover_rest ops sn) (\<lambda>_. rshows k (kept_frozen (map_of ?l k))) (\<lambda>_ _. True) c"
    by (rule recover_rest_rshows [OF recover_all_rshows [OF assms recover_frozen o2 refl]])
qed

lemma recover_rebuilds:
  fixes p :: "('x, 's) pf"
  assumes r: "recover ops p = (Inr rep, q)" and k: "k \<in> fst ` set (pf_routers p)"
    and q: "map_of (pf_routers q) k = Some r"
  shows "rt_size r = position_size (venue_positions (io_ex (pf_io q))) k \<and>
    kept_frozen (map_of (get_positions_local (io_db (pf_io p)) (pf_run p)) k) r"
proof -
  let ?c = "\<lparr>rv_pf = p, rv_rep = empty_report, rv_cur = None\<rparr>"
  let ?ps = "venue_positions (io_ex (pf_io p))" and ?row = "map_of (get_positions_local (io_db (pf_io p)) (pf_run p)) k"
  let ?S = "\<lambda>x. venue_positions x = ?ps"
  have snap: "wp (cpf (pexec (xo_snapshot ops))) (\<lambda>sn c. sn_positions sn = ?ps \<and> rv_venue ?S c
      \<and> pf_routers (rv_pf c) = pf_routers p \<and> io_db (pf_io (rv_pf c)) = io_db (pf_io p) \<and> pf_run (rv_pf c) = pf_run p)
      (\<lambda>_ _. True) ?c"
    using wp_snapshot [of p]
    by (auto simp: wp_def cpf_def pexec_def pio_def io_exec_def focus_def rv_venue_def at_venue_def split: prod.splits sum.splits)
  have rest: "wp (recover_rest ops sn) (\<lambda>_ c. rv_venue ?S c \<and> rshows k (\<lambda>r. rt_size r = position_size ?ps k) c
      \<and> rshows k (kept_frozen ?row) c) (\<lambda>_ _. True) c"
    if sn: "sn_positions sn = ?ps" "rv_venue ?S c" "pf_routers (rv_pf c) = pf_routers p"
      "io_db (pf_io (rv_pf c)) = io_db (pf_io p)" "pf_run (rv_pf c) = pf_run p"
    for sn and c :: "('x, 's) rcv"
  proof -
    have "wp (recover_rest ops sn) (\<lambda>_. rv_venue ?S) (\<lambda>_ _. True) c"
      using recover_rest_positions [of ?ps sn] sn(2) unfolding nkeeps_def by blast
    moreover note recover_rest_shows [of k c sn]
    ultimately show ?thesis
      using sn k by (auto simp: wp_iff venue_size_positions)
  qed
  have "wp (recover_run ops) (\<lambda>_ c. rv_venue ?S c \<and> rshows k (\<lambda>r. rt_size r = position_size ?ps k) c
      \<and> rshows k (kept_frozen ?row) c) (\<lambda>_ _. True) ?c"
    unfolding recover_run_eq wp_bind wp_attempt
    by (rule wp_mono [OF snap]) (auto simp: wp_ret wp_raise intro: rest)
  then show ?thesis
    using r q by (auto simp: recover_def wp_def rv_venue_def at_venue_def rshows_def split: prod.splits)
qed

end

end
