(* ===== verification/Venue_Props.thy ===== *)
theory Venue_Props
  imports Recovery_Laws
begin

text \<open>
  The guarantees of \<open>Venue_Laws\<close> and \<open>Recovery_Laws\<close> for the paper executor, which satisfies the laws
  (\<open>Sim_Exec\<close>, interpretation \<open>paper\<close>).
\<close>

text \<open>A portfolio whose paper account is long two units of instrument 6 at 100, with no stop resting.\<close>

definition unguarded_pf :: "rstate \<Rightarrow> (sim, unit) pf" where
  "unguarded_pf st = (sample_pf st)
     \<lparr>pf_io := sample_io\<lparr>io_ex := sample_sim\<lparr>sx_pos := [(6, \<lparr>sp_size = 2, sp_entry = 100, sp_funding = 0\<rparr>)]\<rparr>\<rparr>\<rparr>"

text \<open>The views of a position dict name each instrument once.\<close>

lemma view_instruments: "rmapM (sim_view x) ps = Inr vs \<Longrightarrow> map pv_instrument vs = map fst ps"
  by (induction ps arbitrary: vs) (auto simp: sim_view_def rbind_eq_Inr split: prod.splits)

lemma distinct_views:
  assumes "distinct (map fst (sx_pos x))"
  shows "distinct (map pv_instrument (sim_positions x))"
proof (cases "rmapM (sim_view x) (open_positions x)")
  case (Inr vs)
  then show ?thesis
    using view_instruments [OF Inr] distinct_map_filter [OF assms] by (simp add: sim_positions_def open_positions_def)
qed (simp add: sim_positions_def)

text \<open>
  C18. On the paper account, a reconciliation that returns leaves no position of the account without a resting stop,
  whatever the local rows claimed. The paper account only: over the real account the shadow's refusal to place a
  missing stop is caught and the reconciliation returns with the position as it was.
\<close>

theorem reconcile_guards_positions:
  assumes "reconcile_now sim_ops p = (Inr u, q)"
    and "book_size (sim_positions (io_ex (pf_io q))) k \<noteq> 0"
  shows "sim_stops (io_ex (pf_io q)) k \<noteq> None"
  using paper.wp_reconcile [of k p] assms by (simp add: wp_def at_venue_def stop_at_def)

lemma reconcile_guards_positions_witness:
  "sim_stops (io_ex (pf_io (snd (reconcile_now sim_ops (unguarded_pf OPEN))))) 6 \<noteq> None"
proof -
  have "(case reconcile_now sim_ops (unguarded_pf OPEN) of
      (Inr _, q) \<Rightarrow> book_size (sim_positions (io_ex (pf_io q))) 6 \<noteq> 0 | (Inl _, q) \<Rightarrow> False)" by code_simp
  then obtain u q where e: "reconcile_now sim_ops (unguarded_pf OPEN) = (Inr u, q)"
      "book_size (sim_positions (io_ex (pf_io q))) 6 \<noteq> 0"
    by (auto split: prod.splits sum.splits)
  from reconcile_guards_positions [OF e] show ?thesis by (simp add: e(1))
qed

text \<open>
  C19. On the paper account, whose positions are a dict and so have one entry per instrument, a recovery that returns
  leaves every open position of the account under a resting stop, including positions no router trades: paper
  strategies start only behind stops. The paper account only: a stop of the real account is placed by the venue, which
  may answer without an order id.
\<close>

theorem recovery_guards_positions:
  assumes "recover sim_ops p = (Inr rep, q)"
    and "distinct (map fst (sx_pos (io_ex (pf_io p))))"
    and "pos \<in> set (sim_positions (io_ex (pf_io q)))" "pv_size pos \<noteq> 0"
  shows "sim_stops (io_ex (pf_io q)) (pv_instrument pos) \<noteq> None"
  by (rule paper.recover_guards [OF assms(1) distinct_views [OF assms(2)] assms(3,4)])

lemma recovery_guards_positions_witness:
  "\<exists>q pos. snd (recover sim_ops (unguarded_pf FLAT)) = q \<and> pos \<in> set (sim_positions (io_ex (pf_io q)))
     \<and> sim_stops (io_ex (pf_io q)) (pv_instrument pos) \<noteq> None"
proof -
  have "(case recover sim_ops (unguarded_pf FLAT) of
      (Inr _, q) \<Rightarrow> list_ex (\<lambda>pos. pv_size pos \<noteq> 0) (sim_positions (io_ex (pf_io q))) | (Inl _, q) \<Rightarrow> False)" by code_simp
  then obtain u q pos where e: "recover sim_ops (unguarded_pf FLAT) = (Inr u, q)"
      "pos \<in> set (sim_positions (io_ex (pf_io q)))" "pv_size pos \<noteq> 0"
    by (auto split: prod.splits sum.splits simp: list_ex_iff)
  have "distinct (map fst (sx_pos (io_ex (pf_io (unguarded_pf FLAT)))))" by (simp add: unguarded_pf_def)
  from recovery_guards_positions [OF e(1) this e(2,3)] show ?thesis using e by auto
qed

text \<open>
  C20. A recovery that returns leaves every router with the size the account holds, and a router whose
  persisted row was frozen in that frozen state: a restart is not a way out of a halt.
\<close>

theorem recovery_rebuilds_routers:
  assumes "recover sim_ops p = (Inr rep, q)" and "k \<in> fst ` set (pf_routers p)"
    and "map_of (pf_routers q) k = Some r"
  shows "rt_size r = position_size (sim_positions (io_ex (pf_io q))) k
    \<and> kept_frozen (map_of (get_positions_local (io_db (pf_io p)) (pf_run p)) k) r"
  by (rule paper.recover_rebuilds [OF assms])

definition halted_row :: position_row where
  "halted_row = \<lparr>pr_run = ''r'', pr_instrument = 6, pr_state = HALTED, pr_size = 1, pr_entry = Some 100,
     pr_stop = None, pr_stop_order_id = None, pr_funding = 0, pr_updated_at = 0\<rparr>"

definition restarted_pf :: "(sim, unit) pf" where
  "restarted_pf = (let p = unguarded_pf FLAT; i = pf_io p in
     p\<lparr>pf_io := i\<lparr>io_db := upsert_position_local halted_row (io_db i)\<rparr>\<rparr>)"

lemma recovery_rebuilds_routers_witness:
  "\<exists>q r. snd (recover sim_ops restarted_pf) = q \<and> map_of (pf_routers q) 6 = Some r
     \<and> rt_size r = position_size (sim_positions (io_ex (pf_io q))) 6 \<and> rt_state r = HALTED"
proof -
  have "(case recover sim_ops restarted_pf of
      (Inr _, q) \<Rightarrow> map_of (pf_routers q) 6 \<noteq> None | (Inl _, q) \<Rightarrow> False)" by code_simp
  then obtain u q r where e: "recover sim_ops restarted_pf = (Inr u, q)" "map_of (pf_routers q) 6 = Some r"
    by (auto split: prod.splits sum.splits)
  have k: "6 \<in> fst ` set (pf_routers restarted_pf)"
    by (simp add: restarted_pf_def unguarded_pf_def sample_pf_def Let_def)
  have "map_option pr_state (map_of (get_positions_local (io_db (pf_io restarted_pf)) (pf_run restarted_pf)) 6)
      = Some HALTED" by code_simp
  then have "kept_frozen (map_of (get_positions_local (io_db (pf_io restarted_pf)) (pf_run restarted_pf)) 6) r
      \<Longrightarrow> rt_state r = HALTED"
    by (auto simp: kept_frozen_def frozen_row_def frozen_def split: option.splits)
  then show ?thesis using recovery_rebuilds_routers [OF e(1) k e(2)] e by auto
qed

end
