(* ===== verification/Feed_Laws.thy ===== *)
theory Feed_Laws
  imports Feed
begin

text \<open>
  What the tick feed lets through, and that the live bars are the hourly candles of what it let
  through.
\<close>

section \<open>The contract of the filter\<close>

text \<open>A tick that is acceptable on its own, and one that may follow an earlier tick of its instrument.\<close>

definition sane_tick :: "sanity_bounds \<Rightarrow> tick \<Rightarrow> bool" where
  "sane_tick b t \<longleftrightarrow>
     tk_received_ts t - tk_exchange_ts t \<le> sb_max_staleness b \<and>
     0 < tk_mark t \<and> 0 < tk_index t \<and> 0 < tk_last t \<and>
     ctx (dabs (dsub (tk_mark t) (tk_index t)) / tk_index t) \<le> sb_max_divergence b \<and>
     dabs (tk_funding t) \<le> sb_max_abs_funding b"

definition may_follow :: "sanity_bounds \<Rightarrow> tick \<Rightarrow> tick \<Rightarrow> bool" where
  "may_follow b p t \<longleftrightarrow>
     \<not> sequence_back t p \<and>
     (sb_max_baseline_age b < tk_exchange_ts t - tk_exchange_ts p \<or>
      ctx (dabs (dsub (tk_mark t) (tk_mark p)) / tk_mark p) \<le> sb_max_jump b)"

definition baselines_positive :: "tick option \<Rightarrow> bool" where
  "baselines_positive previous \<longleftrightarrow> (case previous of None \<Rightarrow> True | Some p \<Rightarrow> 0 < tk_mark p)"

lemma bad_price_None: "bad_price t = None \<longleftrightarrow> 0 < tk_mark t \<and> 0 < tk_index t \<and> 0 < tk_last t"
  by (auto simp: bad_price_def)

lemma check_baseline_returns:
  assumes "0 < tk_mark p"
  shows "\<exists>r. check_baseline b t p = Inr r \<and> (r = None \<longleftrightarrow> may_follow b p t)"
  using assms by (auto simp: check_baseline_def may_follow_def)

text \<open>\<open>check_tick\<close> never raises on a positive baseline, and passes exactly the ticks of the contract.\<close>

lemma check_tick_returns:
  assumes "baselines_positive previous"
  shows "\<exists>r. check_tick b t previous = Inr r \<and>
           (r = None \<longleftrightarrow> sane_tick b t \<and> (case previous of None \<Rightarrow> True | Some p \<Rightarrow> may_follow b p t))"
proof (cases "tk_received_ts t - tk_exchange_ts t \<le> sb_max_staleness b \<and> bad_price t = None")
  case True
  then have pos: "0 < tk_mark t" "0 < tk_index t" "0 < tk_last t" by (simp_all add: bad_price_None)
  show ?thesis
  proof (cases previous)
    case None
    then show ?thesis using True pos by (auto simp: check_tick_def sane_tick_def)
  next
    case (Some p)
    obtain r where "check_baseline b t p = Inr r" "r = None \<longleftrightarrow> may_follow b p t"
      using assms Some check_baseline_returns [of p b t] by (auto simp: baselines_positive_def)
    then show ?thesis using Some True pos by (auto simp: check_tick_def sane_tick_def)
  qed
next
  case False
  then show ?thesis
    by (auto simp: check_tick_def sane_tick_def bad_price_None Let_def split: option.split)
qed

section \<open>The stream behind the feed\<close>

definition of_instrument :: "int \<Rightarrow> tick list \<Rightarrow> tick list" where
  "of_instrument i ts = filter (\<lambda>t. tk_instrument t = i) ts"

definition last_opt :: "'a list \<Rightarrow> 'a option" where
  "last_opt xs = (if xs = [] then None else Some (last xs))"

text \<open>
  The specification of the filter: a tick joins the accepted stream when it is sane and may follow the
  last tick of its instrument that was accepted before it.
\<close>

definition admit :: "sanity_bounds \<Rightarrow> tick list \<Rightarrow> tick \<Rightarrow> tick list" where
  "admit b out t =
     (if sane_tick b t \<and>
         (case last_opt (of_instrument (tk_instrument t) out) of None \<Rightarrow> True | Some p \<Rightarrow> may_follow b p t)
      then out @ [t] else out)"

definition clean_stream :: "sanity_bounds \<Rightarrow> tick list \<Rightarrow> bool" where
  "clean_stream b out \<longleftrightarrow>
     list_all (sane_tick b) out \<and>
     list_all (\<lambda>i. successively (may_follow b) (of_instrument i out)) (map tk_instrument out)"

text \<open>Callbacks that write down what they are called with.\<close>

definition recorder :: "time \<Rightarrow> (tick list \<times> (tick \<times> rejection) list) feed_hooks" where
  "recorder now = \<lparr>hk_accept = \<lambda>t. upd (\<lambda>(a, r). (a @ [t], r)),
     hk_reject = Some (\<lambda>t why. upd (\<lambda>(a, r). (a, r @ [(t, why)]))), hk_clock = ret now\<rparr>"

lemma of_instrument_snoc:
  "of_instrument i (ts @ [t]) = (if tk_instrument t = i then of_instrument i ts @ [t] else of_instrument i ts)"
  by (simp add: of_instrument_def)

lemma last_opt_mem: "last_opt xs = Some x \<Longrightarrow> x \<in> set xs"
  by (auto simp: last_opt_def split: if_splits)

lemma successively_snoc:
  "successively P (xs @ [x]) \<longleftrightarrow> successively P xs \<and> (case last_opt xs of None \<Rightarrow> True | Some p \<Rightarrow> P p x)"
  by (auto simp: successively_append_iff last_opt_def)

lemma of_instrument_Nil: "i \<notin> set (map tk_instrument out) \<Longrightarrow> of_instrument i out = []"
  by (auto simp: of_instrument_def filter_empty_conv)

lemma clean_stream_iff:
  "clean_stream b out \<longleftrightarrow> list_all (sane_tick b) out \<and> (\<forall>i. successively (may_follow b) (of_instrument i out))"
  unfolding clean_stream_def list_all_iff by (metis of_instrument_Nil successively.simps(1))

lemma clean_stream_admit: "clean_stream b out \<Longrightarrow> clean_stream b (admit b out t)"
  by (auto simp: clean_stream_iff admit_def of_instrument_snoc successively_snoc split: if_splits)

lemma clean_stream_foldl: "clean_stream b out \<Longrightarrow> clean_stream b (foldl (admit b) out ts)"
  by (induction ts arbitrary: out) (simp_all add: clean_stream_admit)

lemma sum_count_up: "sum_list (map snd (count_up k m)) = Suc (sum_list (map snd m))"
proof (cases "map_of m k")
  case None
  then have "AList.update k (Suc 0) m = m @ [(k, Suc 0)]"
    by (induction m) (auto split: if_splits)
  with None show ?thesis by (simp add: count_up_def)
next
  case (Some n)
  then have "sum_list (map snd (AList.update k (Suc n) m)) = Suc (sum_list (map snd m))"
    by (induction m) (auto split: if_splits)
  with Some show ?thesis by (simp add: count_up_def)
qed

text \<open>What is true of the feed after some ticks.\<close>

definition feed_inv ::
  "sanity_bounds \<Rightarrow> (tick list \<times> (tick \<times> rejection) list) feed \<Rightarrow> bool" where
  "feed_inv b f \<longleftrightarrow>
     list_all (sane_tick b) (fst (fd_world f)) \<and>
     (\<forall>i. map_of (fd_previous f) i = last_opt (of_instrument i (fst (fd_world f)))) \<and>
     fh_accepted (fd_health f) = length (fst (fd_world f)) \<and>
     sum_list (map snd (fh_rejected (fd_health f))) = length (snd (fd_world f)) \<and>
     fh_received (fd_health f) = length (fst (fd_world f)) + length (snd (fd_world f))"

lemma feed_inv_init: "feed_inv b (feed_init ([], []))"
  by (simp add: feed_inv_def feed_init_def of_instrument_def last_opt_def)

lemma feed_inv_positive:
  assumes "feed_inv b f"
  shows "baselines_positive (map_of (fd_previous f) i)"
proof -
  have "sane_tick b p" if "last_opt (of_instrument i (fst (fd_world f))) = Some p" for p
    using assms last_opt_mem [OF that] by (auto simp: feed_inv_def of_instrument_def list_all_iff)
  with assms show ?thesis
    by (auto simp: feed_inv_def baselines_positive_def sane_tick_def split: option.split)
qed

lemma feed_tick_step:
  assumes "feed_inv b f"
  shows "\<exists>f'. feed_tick (recorder now) b t f = (Inr (), f') \<and> feed_inv b f' \<and>
           fst (fd_world f') = admit b (fst (fd_world f)) t \<and>
           fh_received (fd_health f') = Suc (fh_received (fd_health f))"
proof -
  obtain a r where w: "fd_world f = (a, r)" by (cases "fd_world f")
  obtain why where why: "check_tick b t (map_of (fd_previous f) (tk_instrument t)) = Inr why"
    "why = None \<longleftrightarrow> admit b a t = a @ [t] \<and> sane_tick b t"
    "why \<noteq> None \<longleftrightarrow> admit b a t = a"
    using check_tick_returns [OF feed_inv_positive [OF assms], of b t "tk_instrument t"] assms w
    by (fastforce simp: feed_inv_def admit_def split: option.splits if_splits)
  show ?thesis
  proof (cases why)
    case None
    then show ?thesis using assms w why
      by (auto simp: feed_tick_def accept_tick_def fworld_def fhealth_def recorder_def andthen_def bind_def
          upd_def ret_def getr_def focus_def feed_inv_def of_instrument_snoc last_opt_def update_conv)
  next
    case (Some rej)
    then show ?thesis using assms w why
      by (auto simp: feed_tick_def reject_tick_def fworld_def fhealth_def recorder_def andthen_def bind_def
          upd_def ret_def getr_def focus_def feed_inv_def sum_count_up)
  qed
qed

text \<open>\<open>max_events\<close> is tested after an event is processed, so a run of a stream that is not empty handles one.\<close>

definition handled :: "nat option \<Rightarrow> tick list \<Rightarrow> tick list" where
  "handled limit ts = (case limit of None \<Rightarrow> ts | Some m \<Rightarrow> take (max 1 m) ts)"

lemma feed_run_from:
  assumes "feed_inv b f" "case limit of None \<Rightarrow> True | Some m \<Rightarrow> fh_received (fd_health f) < max 1 m"
  shows "\<exists>f'. feed_run (recorder now) b limit ts f = (Inr (fd_health f'), f') \<and> feed_inv b f' \<and>
           fst (fd_world f') = foldl (admit b) (fst (fd_world f))
             (case limit of None \<Rightarrow> ts | Some m \<Rightarrow> take (max 1 m - fh_received (fd_health f)) ts) \<and>
           fh_received (fd_health f') = fh_received (fd_health f) +
             length (case limit of None \<Rightarrow> ts | Some m \<Rightarrow> take (max 1 m - fh_received (fd_health f)) ts)"
  using assms
proof (induction ts arbitrary: f)
  case Nil
  then show ?case by (auto simp: get_def split: option.split)
next
  case (Cons t ts)
  obtain g where g: "feed_tick (recorder now) b t f = (Inr (), g)" "feed_inv b g"
    "fst (fd_world g) = admit b (fst (fd_world f)) t" "fh_received (fd_health g) = Suc (fh_received (fd_health f))"
    using feed_tick_step [OF Cons.prems(1)] by blast
  show ?case
  proof (cases "case limit of None \<Rightarrow> False | Some m \<Rightarrow> m \<le> fh_received (fd_health g)")
    case True
    then obtain m where m: "limit = Some m" "max 1 m - fh_received (fd_health f) = 1"
      using Cons.prems(2) g(4) by (auto split: option.splits)
    show ?thesis using True g m by (auto simp: andthen_def bind_def get_def)
  next
    case False
    then have "case limit of None \<Rightarrow> True | Some m \<Rightarrow> fh_received (fd_health g) < max 1 m"
      using g(4) by (auto split: option.splits)
    from Cons.IH [OF g(2) this] obtain h where h:
      "feed_run (recorder now) b limit ts g = (Inr (fd_health h), h)" "feed_inv b h"
      "fst (fd_world h) = foldl (admit b) (fst (fd_world g))
         (case limit of None \<Rightarrow> ts | Some m \<Rightarrow> take (max 1 m - fh_received (fd_health g)) ts)"
      "fh_received (fd_health h) = fh_received (fd_health g) +
         length (case limit of None \<Rightarrow> ts | Some m \<Rightarrow> take (max 1 m - fh_received (fd_health g)) ts)"
      by blast
    have "feed_run (recorder now) b limit (t # ts) f = (Inr (fd_health h), h)"
      using False g(1) h(1) by (simp add: andthen_def bind_def get_def)
    moreover have "(case limit of None \<Rightarrow> t # ts | Some m \<Rightarrow> take (max 1 m - fh_received (fd_health f)) (t # ts)) =
        t # (case limit of None \<Rightarrow> ts | Some m \<Rightarrow> take (max 1 m - fh_received (fd_health g)) ts)"
      using Cons.prems(2) g(4) by (auto simp: take_Cons' split: option.splits)
    ultimately show ?thesis using h g by auto
  qed
qed

text \<open>
  C28. The feed implements its filter: whatever ticks arrive, a run with callbacks that do not fail does
  not raise, and the ticks handed on are exactly those the specification \<open>admit\<close> selects from the events it handled.
  In that stream every tick is sane and, instrument by instrument, may follow the one before it (no
  sequence number going back within a source, no jump beyond the bound within the baseline age): a rejected
  tick is never the baseline. Every event handled is counted once, as accepted or under one reason.
\<close>

theorem feed_passes_a_clean_stream:
  "case feed_run (recorder now) b limit ts (feed_init ([], [])) of (outcome, f) \<Rightarrow>
     outcome = Inr (fd_health f) \<and>
     fst (fd_world f) = foldl (admit b) [] (handled limit ts) \<and>
     clean_stream b (fst (fd_world f)) \<and>
     fh_accepted (fd_health f) = length (fst (fd_world f)) \<and>
     sum_list (map snd (fh_rejected (fd_health f))) = length (snd (fd_world f)) \<and>
     fh_accepted (fd_health f) + length (snd (fd_world f)) = length (handled limit ts)"
proof -
  have init: "fh_received (fd_health (feed_init ([], []))) = 0" "fd_world (feed_init ([], [])) = ([], [])"
    by (simp_all add: feed_init_def)
  have "case limit of None \<Rightarrow> True
    | Some m \<Rightarrow> fh_received (fd_health (feed_init ([], []) :: (tick list \<times> (tick \<times> rejection) list) feed)) < max 1 m"
    by (simp add: init less_max_iff_disj split: option.split)
  from feed_run_from [OF feed_inv_init this, where b = b and now = now and ts = ts] obtain f where f:
    "feed_run (recorder now) b limit ts (feed_init ([], [])) = (Inr (fd_health f), f)" "feed_inv b f"
    "fst (fd_world f) = foldl (admit b) [] (handled limit ts)" "fh_received (fd_health f) = length (handled limit ts)"
    by (auto simp: init handled_def split: option.splits)
  moreover have "clean_stream b (foldl (admit b) [] (handled limit ts))"
    by (rule clean_stream_foldl) (simp add: clean_stream_def)
  ultimately show ?thesis by (auto simp: feed_inv_def)
qed

section \<open>The bars behind the builder\<close>

text \<open>
  The specification of the builder: the ticks of one instrument cut into groups, a new group where the hour of
  a tick is later than that of the group, and one bar per group.
\<close>

definition group_hour :: "tick list \<Rightarrow> time" where
  "group_hour g = floor_hour (tk_exchange_ts (hd g))"

fun split_hours :: "tick list \<Rightarrow> tick list \<Rightarrow> tick list list" where
  "split_hours g [] = [g]"
| "split_hours g (t # ts) =
     (if group_hour g < floor_hour (tk_exchange_ts t) then g # split_hours [t] ts else split_hours (g @ [t]) ts)"

fun hour_groups :: "tick list \<Rightarrow> tick list list" where
  "hour_groups [] = []"
| "hour_groups (t # ts) = split_hours [t] ts"

definition candle_of :: "dec \<Rightarrow> int \<Rightarrow> bool \<Rightarrow> tick list \<Rightarrow> bar" where
  "candle_of spread iid whole g = \<lparr>br_instrument = iid, br_source = tk_source (hd g), br_open_ts = group_hour g,
     br_open = Some (tk_mark (hd g)), br_high = Some (Max (set (map tk_mark g))),
     br_low = Some (Min (set (map tk_mark g))), br_close = Some (tk_mark (last g)),
     br_index_close = Some (tk_index (last g)), br_funding = Some (tk_funding (last g)),
     br_spread_bps = spread, br_spread_source = FromConstant, br_complete = whole\<rparr>"

fun candles_of :: "dec \<Rightarrow> int \<Rightarrow> bool \<Rightarrow> tick list list \<Rightarrow> bar list" where
  "candles_of spread iid whole [] = []"
| "candles_of spread iid whole [g] = [candle_of spread iid whole g]"
| "candles_of spread iid whole (g # h # gs) =
     candle_of spread iid whole g # candles_of spread iid (group_hour h = group_hour g + HOUR) (h # gs)"

text \<open>The builder over a stream of ticks of any instruments, with the bars it returns on the way.\<close>

fun builder_run :: "tick list \<Rightarrow> builder \<Rightarrow> bar list \<times> builder" where
  "builder_run [] b = ([], b)"
| "builder_run (t # ts) b =
     (case builder_tick t b of (fin, b') \<Rightarrow>
        (case builder_run ts b' of (bars, b'') \<Rightarrow> (case fin of None \<Rightarrow> bars | Some br \<Rightarrow> br # bars, b'')))"

definition bars_for :: "int \<Rightarrow> bar list \<Rightarrow> bar list" where
  "bars_for iid bars = filter (\<lambda>br. br_instrument br = iid) bars"

text \<open>The accumulator of a group of ticks.\<close>

definition acc_of :: "bool \<Rightarrow> tick list \<Rightarrow> live_acc" where
  "acc_of whole g = foldl (\<lambda>a t. acc_add t a) (acc_new (hd g) whole) (tl g)"

lemma acc_of_single: "acc_of whole [t] = acc_new t whole"
  by (simp add: acc_of_def)

lemma acc_of_snoc: "g \<noteq> [] \<Longrightarrow> acc_of whole (g @ [t]) = acc_add t (acc_of whole g)"
  by (simp add: acc_of_def)

lemma acc_of_open_ts: "la_open_ts (acc_of whole g) = group_hour g"
proof -
  have "la_open_ts (foldl (\<lambda>a t. acc_add t a) a ts) = la_open_ts a" for a ts
    by (induction ts arbitrary: a) (simp_all add: acc_add_def)
  then show ?thesis by (simp add: acc_of_def acc_new_def group_hour_def)
qed

lemma acc_bar_of: "g \<noteq> [] \<Longrightarrow> acc_bar spread iid (acc_of whole g) = candle_of spread iid whole g"
proof (induction g rule: rev_induct)
  case (snoc t g)
  show ?case
  proof (cases "g = []")
    case True
    then show ?thesis
      by (simp add: acc_of_single acc_new_def acc_bar_def candle_of_def group_hour_def)
  next
    case False
    then have "Max (set (map tk_mark (g @ [t]))) = max (Max (set (map tk_mark g))) (tk_mark t)"
      "Min (set (map tk_mark (g @ [t]))) = min (Min (set (map tk_mark g))) (tk_mark t)"
      by (simp_all add: max.commute min.commute)
    with False snoc.IH show ?thesis
      by (simp add: acc_of_snoc acc_add_def acc_bar_def candle_of_def group_hour_def)
  qed
qed simp

text \<open>One tick, for the instrument followed and for the others.\<close>

lemma last_n_extend: "last_n n (last_n n xs @ ys) = last_n n (xs @ ys)"
  by (cases "n \<le> length xs") (auto simp: last_n_def add.commute)

lemma builder_tick_frame:
  assumes "builder_tick t b = (fin, b')" "tk_instrument t \<noteq> i"
  shows "map_of (lb_acc b') i = map_of (lb_acc b) i" "hist_of b' i = hist_of b i"
    "lb_spread b' = lb_spread b" "lb_max b' = lb_max b" "case fin of None \<Rightarrow> True | Some br \<Rightarrow> br_instrument br \<noteq> i"
  using assms by (auto simp: builder_tick_def Let_def close_acc_def extend_hist_def hist_of_def update_conv'
      delete_conv' acc_bar_def split: option.splits if_splits)

lemma builder_tick_first:
  assumes "map_of (lb_acc b) (tk_instrument t) = None" "builder_tick t b = (fin, b')"
  shows "fin = None" "map_of (lb_acc b') (tk_instrument t) = Some (acc_of True [t])"
    "hist_of b' (tk_instrument t) = hist_of b (tk_instrument t)" "lb_spread b' = lb_spread b" "lb_max b' = lb_max b"
  using assms by (auto simp: builder_tick_def Let_def update_conv' acc_of_single hist_of_def)

lemma builder_tick_same:
  assumes "map_of (lb_acc b) (tk_instrument t) = Some (acc_of whole g)" "g \<noteq> []" "builder_tick t b = (fin, b')"
    "\<not> group_hour g < floor_hour (tk_exchange_ts t)"
  shows "fin = None" "map_of (lb_acc b') (tk_instrument t) = Some (acc_of whole (g @ [t]))"
    "hist_of b' (tk_instrument t) = hist_of b (tk_instrument t)" "lb_spread b' = lb_spread b" "lb_max b' = lb_max b"
  using assms by (auto simp: builder_tick_def Let_def update_conv' acc_of_open_ts acc_of_snoc hist_of_def)

lemma builder_tick_next:
  assumes "map_of (lb_acc b) (tk_instrument t) = Some (acc_of whole g)" "g \<noteq> []" "builder_tick t b = (fin, b')"
    "group_hour g < floor_hour (tk_exchange_ts t)"
  shows "fin = Some (candle_of (lb_spread b) (tk_instrument t) whole g)"
    "map_of (lb_acc b') (tk_instrument t) = Some (acc_of (group_hour [t] = group_hour g + HOUR) [t])"
    "hist_of b' (tk_instrument t) =
       last_n (lb_max b) (hist_of b (tk_instrument t) @ [candle_of (lb_spread b) (tk_instrument t) whole g])"
    "lb_spread b' = lb_spread b" "lb_max b' = lb_max b"
  using assms by (auto simp: builder_tick_def Let_def close_acc_def extend_hist_def hist_of_def update_conv'
      acc_of_open_ts acc_of_single acc_bar_of group_hour_def)

text \<open>Streams: what the builder holds of an instrument is its last group, what it returned are the others.\<close>

lemma candles_of_snoc_ne: "gs \<noteq> [] \<Longrightarrow> candles_of spread i whole gs \<noteq> []"
  by (cases gs rule: list.exhaust; cases "tl gs") auto

lemma split_hours_ne: "split_hours g ts \<noteq> []"
  by (induction g ts rule: split_hours.induct) auto

lemma split_hours_hd: "\<exists>h. split_hours g ts = (g @ h) # tl (split_hours g ts)"
  by (induction g ts rule: split_hours.induct) auto

lemma group_hour_append: "g \<noteq> [] \<Longrightarrow> group_hour (g @ h) = group_hour g"
  by (simp add: group_hour_def)

lemma candles_of_split:
  "candles_of spread i whole (g # split_hours [t] ts) =
     candle_of spread i whole g # candles_of spread i (group_hour [t] = group_hour g + HOUR) (split_hours [t] ts)"
proof -
  obtain h rest where "split_hours [t] ts = ([t] @ h) # rest" using split_hours_hd by blast
  then show ?thesis using group_hour_append [of "[t]" h] by simp
qed

lemma builder_run_from:
  assumes "map_of (lb_acc b) i = Some (acc_of whole g)" "g \<noteq> []" "builder_run ts b = (bars, b')"
  shows "bars_for i bars = butlast (candles_of (lb_spread b) i whole (split_hours g (of_instrument i ts))) \<and>
     hist_of b' i = (if bars_for i bars = [] then hist_of b i else last_n (lb_max b) (hist_of b i @ bars_for i bars))"
  using assms
proof (induction ts arbitrary: b g whole bars b')
  case Nil
  then show ?case by (simp add: bars_for_def of_instrument_def)
next
  case (Cons t ts)
  obtain fin c where step: "builder_tick t b = (fin, c)" by (cases "builder_tick t b")
  obtain rest where run: "builder_run ts c = (rest, b')" "bars = (case fin of None \<Rightarrow> rest | Some br \<Rightarrow> br # rest)"
    using Cons.prems(3) step by (auto split: prod.splits)
  consider (other) "tk_instrument t \<noteq> i"
    | (same) "tk_instrument t = i" "\<not> group_hour g < floor_hour (tk_exchange_ts t)"
    | (later) "tk_instrument t = i" "group_hour g < floor_hour (tk_exchange_ts t)" by blast
  then show ?case
  proof cases
    case other
    note f = builder_tick_frame [OF step other]
    have "bars_for i bars = bars_for i rest" using run(2) f(5) by (auto simp: bars_for_def split: option.splits)
    then show ?thesis using Cons.IH [OF _ Cons.prems(2) run(1)] Cons.prems(1) f other
      by (simp add: of_instrument_def)
  next
    case same
    note f = builder_tick_same [OF _ Cons.prems(2) step same(2), unfolded same(1), OF Cons.prems(1)]
    show ?thesis using Cons.IH [OF f(2) _ run(1)] f same run(2) by (simp add: of_instrument_def)
  next
    case later
    note f = builder_tick_next [OF _ Cons.prems(2) step later(2), unfolded later(1), OF Cons.prems(1)]
    have "bars_for i bars = candle_of (lb_spread b) i whole g # bars_for i rest"
      using run(2) f(1) by (simp add: bars_for_def candle_of_def)
    moreover have "candles_of (lb_spread b) i k (split_hours [t] us) \<noteq> []" for k us
      by (rule candles_of_snoc_ne) (rule split_hours_ne)
    ultimately show ?thesis using Cons.IH [OF f(2) _ run(1)] f later
      by (auto simp: of_instrument_def candles_of_split last_n_extend)
  qed
qed

lemma builder_run_fresh:
  assumes "map_of (lb_acc b) i = None" "hist_of b i = []" "builder_run ts b = (bars, b')"
  shows "bars_for i bars = butlast (candles_of (lb_spread b) i True (hour_groups (of_instrument i ts))) \<and>
     hist_of b' i = last_n (lb_max b) (bars_for i bars)"
  using assms
proof (induction ts arbitrary: b bars b')
  case Nil
  then show ?case by (simp add: bars_for_def of_instrument_def last_n_def)
next
  case (Cons t ts)
  obtain fin c where step: "builder_tick t b = (fin, c)" by (cases "builder_tick t b")
  obtain rest where run: "builder_run ts c = (rest, b')" "bars = (case fin of None \<Rightarrow> rest | Some br \<Rightarrow> br # rest)"
    using Cons.prems(3) step by (auto split: prod.splits)
  show ?case
  proof (cases "tk_instrument t = i")
    case True
    note f = builder_tick_first [OF _ step, unfolded True, OF Cons.prems(1)]
    have "bars = rest" using run(2) f(1) by simp
    with builder_run_from [OF f(2) _ run(1)] f Cons.prems(2) True show ?thesis
      by (auto simp: of_instrument_def last_n_def split: if_splits)
  next
    case False
    note f = builder_tick_frame [OF step False]
    have "bars_for i bars = bars_for i rest" using run(2) f(5) by (auto simp: bars_for_def split: option.splits)
    then show ?thesis using Cons.IH [OF _ _ run(1)] Cons.prems f False by (simp add: of_instrument_def)
  qed
qed

lemma live_bars_are_candles:
  "case builder_run ts (builder_init spread n) of (bars, b) \<Rightarrow>
     bars_for i bars = butlast (candles_of spread i True (hour_groups (of_instrument i ts))) \<and>
     hist_of b i = last_n n (bars_for i bars)"
proof -
  obtain bars b where run: "builder_run ts (builder_init spread n) = (bars, b)"
    by (cases "builder_run ts (builder_init spread n)")
  have init: "map_of (lb_acc (builder_init spread n)) i = None" "hist_of (builder_init spread n) i = []"
    "lb_spread (builder_init spread n) = spread" "lb_max (builder_init spread n) = n"
    by (simp_all add: builder_init_def hist_of_def)
  from builder_run_fresh [OF init(1,2) run] show ?thesis by (simp add: run init(3,4))
qed

text \<open>
  C29. The live bars are the hourly candles of the accepted ticks: whatever ticks of whatever instruments
  a fresh builder is given, the bars it returns for an instrument are, in order, the candles (open of the first
  tick, highest and lowest mark, close, index and funding of the last tick) of the consecutive hour groups of that
  instrument's ticks, the group still open excluded; ticks of other instruments change nothing. The
  history it keeps for the strategies is the last \<open>max_history\<close> of these bars.
\<close>

theorem live_bars_are_hourly_candles:
  "case builder_run ts (builder_init spread n) of (bars, b) \<Rightarrow>
     bars_for i bars = butlast (candles_of spread i True (hour_groups (of_instrument i ts))) \<and>
     hist_of b i = last_n n (bars_for i bars)"
  by (rule live_bars_are_candles)

text \<open>Consecutive hour groups have later and later hours.\<close>

definition next_bar :: "bar \<Rightarrow> bar \<Rightarrow> bool" where
  "next_bar a c \<longleftrightarrow> br_open_ts a < br_open_ts c \<and> br_complete c = (br_open_ts c = br_open_ts a + HOUR)"

lemma hd_candles_of: "hd (candles_of spread i whole (g # gs)) = candle_of spread i whole g"
  by (cases gs) simp_all

lemma successively_candles:
  assumes "successively (\<lambda>g h. group_hour g < group_hour h) gs"
  shows "successively next_bar (candles_of spread i whole gs)"
  using assms
  by (induction spread i whole gs rule: candles_of.induct)
    (auto simp: successively_Cons hd_candles_of next_bar_def candle_of_def)

lemma successively_split_hours: "g \<noteq> [] \<Longrightarrow> successively (\<lambda>g h. group_hour g < group_hour h) (split_hours g ts)"
proof (induction g ts rule: split_hours.induct)
  case (2 g t ts)
  show ?case
  proof (cases "group_hour g < floor_hour (tk_exchange_ts t)")
    case True
    obtain h rest where eq: "split_hours [t] ts = ([t] @ h) # rest" using split_hours_hd by blast
    then show ?thesis using 2 True group_hour_append [of "[t]" h] by (auto simp: group_hour_def)
  next
    case False
    then show ?thesis using 2 by simp
  qed
qed simp

lemma successively_butlast: "successively P xs \<Longrightarrow> successively P (butlast xs)"
  by (cases xs rule: rev_cases) (simp_all add: successively_append_iff)

text \<open>
  The bars of an instrument that a builder returns open at strictly later hours, and every bar after the
  first is complete exactly when it opens one hour after the bar before it: the first bar after
  missing hours reaches the router incomplete.
\<close>

theorem live_bars_mark_missing_hours:
  "successively next_bar (bars_for i (fst (builder_run ts (builder_init spread n))))"
proof -
  have "successively (\<lambda>g h. group_hour g < group_hour h) (hour_groups (of_instrument i ts))"
    by (cases "of_instrument i ts") (simp_all add: successively_split_hours)
  then have "successively next_bar (butlast (candles_of spread i True (hour_groups (of_instrument i ts))))"
    by (intro successively_butlast successively_candles)
  moreover have "bars_for i (fst (builder_run ts (builder_init spread n))) =
      butlast (candles_of spread i True (hour_groups (of_instrument i ts)))"
    using live_bars_are_candles [where ts = ts and spread = spread and n = n and i = i] by (simp split: prod.splits)
  ultimately show ?thesis by simp
qed

end
