(* ===== verification/Stats.thy ===== *)
theory Stats
  imports Float_Stats
begin

text \<open>
  \<open>polyperps/backtest/stats.py\<close>: the performance statistics of a run. Python floats are the rationals
  they denote, every operation rounded by \<open>fl\<close>; the random numbers of the bootstrap are a parameter.
\<close>

section \<open>Sequences\<close>

text \<open>\<open>xs[:i]\<close>, \<open>xs[i:]\<close> and \<open>xs[i]\<close>: a negative index counts from the end, an element out of range raises.\<close>

definition slice_index :: "int \<Rightarrow> 'a list \<Rightarrow> nat" where
  "slice_index i xs = nat (if i < 0 then int (length xs) + i else i)"

definition slice_to :: "int \<Rightarrow> 'a list \<Rightarrow> 'a list" where
  "slice_to i xs = take (slice_index i xs) xs"

definition slice_from :: "int \<Rightarrow> 'a list \<Rightarrow> 'a list" where
  "slice_from i xs = drop (slice_index i xs) xs"

definition item :: "int \<Rightarrow> 'a list \<Rightarrow> 'a res" where
  "item i xs =
     (let k = (if i < 0 then int (length xs) + i else i) in
      if 0 \<le> k \<and> k < int (length xs) then Inr (xs ! nat k)
      else Inl (Exn IndexError [S ''list index out of range'']))"

section \<open>Statistics\<close>

definition PERIODS_PER_YEAR :: rat where "PERIODS_PER_YEAR = 24 * 365"

definition sharpe :: "dec list \<Rightarrow> rat" where
  "sharpe returns =
     (if length returns < 2 then 0
      else
        let xs = map fl returns; sd = fstdev xs in
        if sd = 0 then 0 else fl (fl (fmean xs / sd) * fl_sqrt PERIODS_PER_YEAR))"

text \<open>One step of the loop: the peak so far and the worst drop from it.\<close>

definition drop_step :: "dec option \<times> dec \<Rightarrow> dec \<Rightarrow> dec option \<times> dec" where
  "drop_step pw e =
     (case pw of (peak, worst) \<Rightarrow>
        let top = (case peak of None \<Rightarrow> e | Some p \<Rightarrow> if p < e then e else p);
            dd = dsub top e in
        (Some top, if worst < dd then dd else worst))"

definition max_drawdown :: "dec list \<Rightarrow> dec" where
  "max_drawdown equity = snd (foldl drop_step (None, 0) equity)"

definition hit_rate :: "dec list \<Rightarrow> rat" where
  "hit_rate pnls =
     (if pnls = [] then 0 else fl (of_nat (length (filter (\<lambda>p. 0 < p) pnls)) / of_nat (length pnls)))"

definition turnover :: "dec list \<Rightarrow> dec \<Rightarrow> dec res" where
  "turnover fills notional = ddiv (dsum fills) notional"

definition chronological_split :: "'a list \<Rightarrow> dec \<Rightarrow> 'a list \<times> 'a list" where
  "chronological_split items holdout_fraction =
     (let n = int (length items); k = round_ceiling (dmul (of_int n) holdout_fraction) in
      (slice_to (n - k) items, slice_from (n - k) items))"

section \<open>Block bootstrap\<close>

text \<open>\<open>starts\<close> are the values of \<open>rng.randrange(n)\<close> in the order of the calls.\<close>

definition bootstrap_blocks :: "nat \<Rightarrow> nat \<Rightarrow> nat" where
  "bootstrap_blocks n block_len = nat \<lceil>fl (of_nat n / of_nat block_len)\<rceil>"

definition circular_block :: "rat list \<Rightarrow> nat \<Rightarrow> nat \<Rightarrow> rat list" where
  "circular_block xs block_len start = map (\<lambda>k. xs ! ((start + k) mod length xs)) [0..<block_len]"

definition resample :: "rat list \<Rightarrow> nat \<Rightarrow> (nat \<Rightarrow> nat) \<Rightarrow> nat \<Rightarrow> rat list" where
  "resample xs block_len starts r =
     (let blocks = bootstrap_blocks (length xs) block_len in
      take (length xs)
        (concat (map (\<lambda>j. circular_block xs block_len (starts (r * blocks + j))) [0..<blocks])))"

definition block_bootstrap_ci :: "dec list \<Rightarrow> nat \<Rightarrow> nat \<Rightarrow> rat \<Rightarrow> (nat \<Rightarrow> nat) \<Rightarrow> (rat \<times> rat) res" where
  "block_bootstrap_ci returns block_len resamples ci starts =
     (let n = length returns in
      if n < 2 * block_len then
        Inl (Exn ValueError [S ''insufficient for block bootstrap: '', I (int n),
          S '' returns < 2 x block_len '', I (int block_len)])
      else if block_len = 0 then Inl (Exn (OtherException ''ZeroDivisionError'') [S ''division by zero''])
      else
        let xs = map fl returns;
            means = sort (map (\<lambda>r. fmean (resample xs block_len starts r)) [0..<resamples]);
            alpha = fl (fl (1 - ci) / 2);
            top = of_int (int resamples - 1) in
        rbind (item (round_down (fl (alpha * top))) means) (\<lambda>lo.
        rmap (\<lambda>hi. (lo, hi)) (item (round_down (fl (fl (1 - alpha) * top))) means)))"

section \<open>Laws\<close>

lemma slice_partition: "slice_to i xs @ slice_from i xs = xs"
  by (simp add: slice_to_def slice_from_def)

lemma slice_split:
  assumes "0 \<le> k" "k \<le> int (length xs)"
  shows "slice_to (int (length xs) - k) xs = take (length xs - nat k) xs"
    "slice_from (int (length xs) - k) xs = drop (length xs - nat k) xs"
  using assms by (auto simp: slice_to_def slice_from_def slice_index_def nat_diff_distrib)

text \<open>Every drop from an earlier value to a later one (or to itself).\<close>

definition drops :: "dec list \<Rightarrow> dec list" where
  "drops xs = concat (map (\<lambda>j. map (\<lambda>i. dsub (xs ! i) (xs ! j)) [0..<Suc j]) [0..<length xs])"

lemma drops_snoc: "drops (xs @ [e]) = drops xs @ map (\<lambda>x. dsub x e) (xs @ [e])"
proof -
  define row where "row ys j = map (\<lambda>i. dsub (ys ! i) (ys ! j)) [0..<Suc j]" for ys :: "dec list" and j
  have last: "row (xs @ [e]) (length xs) = map (\<lambda>x. dsub x e) (xs @ [e])"
    by (rule nth_equalityI) (auto simp: row_def nth_append less_Suc_eq simp del: upt_Suc)
  have same: "map (row (xs @ [e])) [0..<length xs] = map (row xs) [0..<length xs]"
    by (auto simp: row_def nth_append)
  have "drops (xs @ [e]) = concat (map (row (xs @ [e])) ([0..<length xs] @ [length xs]))"
    unfolding drops_def row_def by simp
  also have "\<dots> = concat (map (row xs) [0..<length xs]) @ map (\<lambda>x. dsub x e) (xs @ [e])"
    unfolding map_append concat_append same by (simp add: last)
  finally show ?thesis by (simp add: drops_def row_def [abs_def])
qed

lemma dsub_mono: "x \<le> y \<Longrightarrow> dsub x z \<le> dsub y z"
  by (simp add: dsub_def ctx_mono)

lemma drop_step_Some: "drop_step (Some p, w) e = (Some (max p e), max w (dsub (max p e) e))"
  by (auto simp: drop_step_def Let_def max_def)

lemma foldl_drop_step:
  "foldl drop_step (None, 0) xs = (if xs = [] then None else Some (Max (set xs)), Max (set (0 # drops xs)))"
proof (induction xs rule: rev_induct)
  case Nil
  then show ?case by (simp add: drops_def)
next
  case (snoc e xs)
  let ?top = "Max (set (xs @ [e]))"
  have m: "dsub ?top e = Max ((\<lambda>x. dsub x e) ` set (xs @ [e]))"
    by (rule mono_Max_commute) (auto intro: monoI dsub_mono)
  have "set (0 # drops (xs @ [e])) = set (0 # drops xs) \<union> (\<lambda>x. dsub x e) ` set (xs @ [e])"
    unfolding drops_snoc by auto
  then have d: "Max (set (0 # drops (xs @ [e]))) = max (Max (set (0 # drops xs))) (dsub ?top e)"
    unfolding m by (simp only:) (rule Max_Un, auto)
  show ?case
  proof (cases "xs = []")
    case True
    then show ?thesis using d by (simp add: drop_step_def drops_def max_def dsub_def)
  next
    case False
    then have "?top = max (Max (set xs)) e" by (simp add: max.commute)
    then show ?thesis using snoc False unfolding d by (simp only: foldl_append foldl.simps if_False drop_step_Some) simp
  qed
qed


lemma max_drawdown_alt: "max_drawdown xs = Max (set (0 # drops xs))"
  unfolding max_drawdown_def foldl_drop_step by simp

lemma ctx_small_int: "n < 10 ^ 28 \<Longrightarrow> ctx (of_nat n) = of_nat n"
  using ctx_of_int [of "int n"] by simp

lemma ctx_unit_bounds: "0 \<le> x \<Longrightarrow> x \<le> of_nat n \<Longrightarrow> n < 10 ^ 28 \<Longrightarrow> 0 \<le> ctx x \<and> ctx x \<le> of_nat n"
  using ctx_mono [of x "of_nat n"] ctx_small_int [of n] by simp

text \<open>Every mean of the bootstrap is the mean of a resample, and the bounds are two of them in order.\<close>

lemma item_Inr: "item i xs = Inr x \<Longrightarrow> x \<in> set xs"
  by (auto simp: item_def Let_def split: if_splits)

lemma item_sorted:
  assumes "sorted xs" "0 \<le> i" "i \<le> j" "item i xs = Inr x" "item j xs = Inr y"
  shows "x \<le> (y :: rat)"
  using assms by (auto simp: item_def Let_def split: if_splits intro!: sorted_nth_mono)

end
