(* ===== verification/Experiment.thy ===== *)
theory Experiment
  imports Stats Strategies Evidence
begin

text \<open>
  \<open>scripts/run_backtest.py\<close>: one hypothesis on one instrument and source. The grid is run on the
  training bars, the best point once on the holdout, and one record is appended to the validation log.
\<close>

section \<open>Arguments and the library\<close>

text \<open>
  Rendering of dates and decimals, and the random numbers of a seed (\<open>randrange(n)\<close>, call by call).
\<close>

record run_lib =
  rl_iso :: "time \<Rightarrow> string"
  rl_stamp :: "time \<Rightarrow> string"
  rl_dec :: "dec \<Rightarrow> string"
  rl_text :: "text_t \<Rightarrow> string"
  rl_starts :: "int \<Rightarrow> nat \<Rightarrow> nat \<Rightarrow> nat"

record run_args =
  ra_hypothesis :: string
  ra_instrument :: int
  ra_source :: source_type
  ra_fee_category :: string
  ra_seed :: int
  ra_end :: "time option"

text \<open>The sources the command line offers.\<close>

definition SOURCES :: "(string \<times> source_type) list" where
  "SOURCES = [(''native'', POLYMARKET_REST), (''hyperliquid'', PROXY_HYPERLIQUID)]"

definition MIN_PROXY_COVERAGE :: rat where "MIN_PROXY_COVERAGE = fl (9/10)"

definition system_exit :: "text_t \<Rightarrow> 'a res" where
  "system_exit msg = Inl (Exn (OtherException ''SystemExit'') msg)"

section \<open>Statistics of a run\<close>

record run_stats =
  rs_sharpe :: rat
  rs_max_dd :: dec
  rs_hit_rate :: rat
  rs_turnover :: dec
  rs_n :: nat
  rs_fills :: nat
  rs_fills_unavailable :: nat
  rs_fills_at_hourly_open :: nat
  rs_fills_at_last_trade :: nat
  rs_max_age_min :: int
  rs_constant_spread :: nat
  rs_final_equity :: dec
  rs_ci :: "(rat option \<times> rat option \<times> text_t option) option"

definition run_ci :: "run_lib \<Rightarrow> int \<Rightarrow> dec list \<Rightarrow> (rat option \<times> rat option \<times> text_t option) res" where
  "run_ci lib seed returns =
     (case block_bootstrap_ci returns (sb_block_len BAR) (sb_resamples BAR) (two_sided_level BAR)
             (rl_starts lib seed (length returns)) of
        Inr (lo, hi) \<Rightarrow> Inr (Some lo, Some hi, None)
      | Inl e \<Rightarrow> if exc_class e = ValueError then Inr (None, None, Some (exc_msg e)) else Inl e)"

definition stats_of :: "run_lib \<Rightarrow> bool \<Rightarrow> int \<Rightarrow> bt_result \<Rightarrow> run_stats res" where
  "stats_of lib bootstrap seed r =
     rbind (turnover (br_fill_notionals r) (sb_notional_usd BAR)) (\<lambda>turn.
     rmap (\<lambda>ci. \<lparr>rs_sharpe = sharpe (br_returns r), rs_max_dd = max_drawdown (map snd (br_equity r)),
       rs_hit_rate = hit_rate (br_trade_pnls r), rs_turnover = turn, rs_n = length (br_returns r),
       rs_fills = br_fills r, rs_fills_unavailable = br_fills_unavailable r,
       rs_fills_at_hourly_open = br_fills_at_hourly_open r, rs_fills_at_last_trade = br_fills_at_last_trade r,
       rs_max_age_min = br_max_age_min r, rs_constant_spread = br_bars_constant_spread r,
       rs_final_equity = (if br_equity r = [] then 0 else snd (last (br_equity r))), rs_ci = ci\<rparr>)
       (if bootstrap then rmap Some (run_ci lib seed (br_returns r)) else Inr None))"

section \<open>Bars of the experiment\<close>

definition trim_incomplete_edges :: "bar list \<Rightarrow> bar list" where
  "trim_incomplete_edges bars =
     (let whole = filter (\<lambda>i. br_complete (bars ! i)) [0..<length bars] in
      if whole = [] then [] else drop (hd whole) (take (last whole + 1) bars))"

definition proxy_close_map :: "bar list \<Rightarrow> time \<Rightarrow> dec option" where
  "proxy_close_map bars = map_of (dict_of
     (List.map_filter (\<lambda>b. if br_complete b then map_option (Pair (br_open_ts b)) (br_close b) else None) bars))"

text \<open>The share of complete native hours that have a proxy close.\<close>

definition proxy_coverage :: "(time \<Rightarrow> dec option) \<Rightarrow> bar list \<Rightarrow> rat res" where
  "proxy_coverage closes bars =
     (let native_hours = map br_open_ts (filter br_complete bars) in
      if native_hours = [] then Inl (Exn (OtherException ''ZeroDivisionError'') [S ''division by zero''])
      else Inr (fl (of_nat (length (filter (\<lambda>t. closes t \<noteq> None) native_hours)) / of_nat (length native_hours))))"

definition load_proxy :: "run_args \<Rightarrow> time \<Rightarrow> db \<Rightarrow> bar list \<Rightarrow> (time \<Rightarrow> dec option) option res" where
  "load_proxy args end_ts d bars =
     (if ra_hypothesis args \<in> {''h2'', ''h4''} then
        if ra_source args \<noteq> POLYMARKET_REST then
          system_exit [S (ra_hypothesis args), S '' trades the native leg: use --source native'']
        else
          rbind (build_bars d (ra_instrument args) PROXY_HYPERLIQUID (br_open_ts (hd bars)) end_ts (sb_proxy_spread_bps BAR))
            (\<lambda>proxy_bars.
              let closes = proxy_close_map proxy_bars in
              rbind (proxy_coverage closes bars) (\<lambda>pct.
                if pct < MIN_PROXY_COVERAGE then
                  system_exit [S (ra_hypothesis args), S '': Hyperliquid proxy covers only '', D pct, S '' of native hours'']
                else Inr (Some closes)))
      else Inr None)"

section \<open>Runs\<close>

definition run_params :: "(time \<times> dec) list \<Rightarrow> dec \<Rightarrow> nat \<Rightarrow> fill_fallback \<Rightarrow> bt_params" where
  "run_params closes fee warmup fallback =
     \<lparr>bp_minutes = closes, bp_fee = fee, bp_warmup = warmup, bp_latency_s = sb_latency_s BAR,
      bp_impact = sb_impact_bps BAR, bp_notional = sb_notional_usd BAR, bp_fallback = fallback,
      bp_max_age_min = sb_last_trade_max_age_min BAR\<rparr>"

definition run_point ::
  "run_args \<Rightarrow> (time \<times> dec) list \<Rightarrow> dec \<Rightarrow> (time \<Rightarrow> dec option) option \<Rightarrow> params \<Rightarrow> (nat \<Rightarrow> bar list) \<Rightarrow> fill_fallback
     \<Rightarrow> bt_result res" where
  "run_point args closes fee proxy ps bars_for_warmup fallback =
     rbind (build_strategy (ra_hypothesis args) ps proxy) (\<lambda>h.
       let st = strategy_of h in
       fst (run_backtest (run_params closes fee (st_warmup st) fallback) st (bars_for_warmup (st_warmup st)) strat_new))"

definition run_trials ::
  "run_lib \<Rightarrow> run_args \<Rightarrow> (time \<times> dec) list \<Rightarrow> dec \<Rightarrow> (time \<Rightarrow> dec option) option \<Rightarrow> bar list \<Rightarrow> params list
     \<Rightarrow> (params \<times> run_stats) list res" where
  "run_trials lib args closes fee proxy train points =
     rmapM (\<lambda>ps. rbind (run_point args closes fee proxy ps (\<lambda>_. train) LastTrade) (\<lambda>res.
       rmap (Pair ps) (stats_of lib False (ra_seed args) res))) points"

text \<open>\<open>max(trials, key=...)\<close>: the first of the best.\<close>

fun best_trial :: "(params \<times> run_stats) list \<Rightarrow> (params \<times> run_stats) res" where
  "best_trial [] = Inl (Exn ValueError [S ''max() arg is an empty sequence''])"
| "best_trial (t # ts) = Inr (foldl (\<lambda>b u. if rs_sharpe (snd b) < rs_sharpe (snd u) then u else b) t ts)"

text \<open>The holdout is run behind the tail of the training bars, so that the warm-up does not eat it.\<close>

definition holdout_input :: "bar list \<Rightarrow> bar list \<Rightarrow> nat \<Rightarrow> bar list" where
  "holdout_input train holdout warmup = (if warmup = 0 then holdout else last_n warmup train @ holdout)"

section \<open>The record\<close>

record run_record =
  rr_args :: run_args
  rr_now :: time
  rr_end :: time
  rr_fee :: fee_schedule
  rr_points :: "params list"
  rr_chosen :: params
  rr_train :: run_stats
  rr_holdout :: run_stats
  rr_robust :: run_stats
  rr_robust_screened :: bool
  rr_sufficiency :: sufficiency_report
  rr_bars :: "bar list"
  rr_holdout_bars :: nat
  rr_tested_days :: dec
  rr_screened :: bool
  rr_passed :: bool

definition ci_lo_of :: "run_stats \<Rightarrow> rat option" where
  "ci_lo_of st = (case rs_ci st of None \<Rightarrow> None | Some (lo, hi, note) \<Rightarrow> lo)"

definition ci_hi_of :: "run_stats \<Rightarrow> rat option" where
  "ci_hi_of st = (case rs_ci st of None \<Rightarrow> None | Some (lo, hi, note) \<Rightarrow> hi)"

definition tested_start :: "bar list \<Rightarrow> time" where "tested_start bars = br_open_ts (hd bars)"
definition tested_end :: "bar list \<Rightarrow> time" where "tested_end bars = br_open_ts (last bars) + HOUR"

text \<open>From the statistics of the three runs to the verdicts.\<close>

definition conclude ::
  "run_args \<Rightarrow> time \<Rightarrow> time \<Rightarrow> fee_schedule \<Rightarrow> params list \<Rightarrow> params \<times> run_stats \<Rightarrow> run_stats \<Rightarrow> run_stats
     \<Rightarrow> sufficiency_report \<Rightarrow> bar list \<Rightarrow> nat \<Rightarrow> run_record res" where
  "conclude args now end_ts fee points best hstats rstats suff bars holdout_bars =
     (let robust = (case ci_lo_of rstats of None \<Rightarrow> False | Some lo \<Rightarrow> stats_clear_bar (rs_sharpe rstats) lo BAR) in
      rmap (\<lambda>tested_days.
        let v = evaluate_run (ra_source args) suff (rs_sharpe hstats) (ci_lo_of hstats) (ci_hi_of hstats)
                  (int (rs_fills_at_hourly_open hstats)) tested_days robust BAR in
        \<lparr>rr_args = args, rr_now = now, rr_end = end_ts, rr_fee = fee, rr_points = points, rr_chosen = fst best,
         rr_train = snd best, rr_holdout = hstats, rr_robust = rstats, rr_robust_screened = robust,
         rr_sufficiency = suff, rr_bars = bars, rr_holdout_bars = holdout_bars, rr_tested_days = tested_days,
         rr_screened = fst v, rr_passed = snd v\<rparr>)
        (days_of (tested_end bars - tested_start bars)))"

text \<open>A future end would make a later window impossible: it is cut at the time of the run.\<close>

definition window_end :: "run_args \<Rightarrow> time \<Rightarrow> time" where
  "window_end args now = (case ra_end args of None \<Rightarrow> now | Some e \<Rightarrow> min e now)"

definition run_experiment :: "run_lib \<Rightarrow> run_args \<Rightarrow> time \<Rightarrow> db \<Rightarrow> run_record res" where
  "run_experiment lib args now d =
     (let end_ts = window_end args now; iid = ra_instrument args; src = ra_source args in
      case latest_fee d (ra_fee_category args) of
        None \<Rightarrow> system_exit [S ''no fee row for category '', S (ra_fee_category args)]
      | Some fee \<Rightarrow>
          rbind (build_bars d iid src EPOCH_2000 end_ts (sb_proxy_spread_bps BAR)) (\<lambda>all_bars.
            if all_bars = [] then system_exit [S ''no bars for '', I iid, S ''/'', S (source_value src)]
            else
              let bars = trim_incomplete_edges all_bars in
              if length bars < 4 * sb_block_len BAR then
                system_exit [S ''only '', I (int (length bars)), S '' bars for '', I iid, S ''/'', S (source_value src),
                  S ''; nothing to test'']
              else
                let closes = load_minute_closes d iid src (br_open_ts (hd bars)) end_ts;
                    rate = fs_taker fee;
                    points = (case map_of GRIDS (ra_hypothesis args) of None \<Rightarrow> [] | Some ps \<Rightarrow> ps) in
                rbind (load_proxy args end_ts d bars) (\<lambda>proxy.
                  case chronological_split bars (sb_holdout_fraction BAR) of (train, holdout) \<Rightarrow>
                    rbind (run_trials lib args closes rate proxy train points) (\<lambda>trials.
                    rbind (best_trial trials) (\<lambda>best.
                    rbind (run_point args closes rate proxy (fst best) (holdout_input train holdout) LastTrade) (\<lambda>hres.
                    rbind (stats_of lib True (ra_seed args) hres) (\<lambda>hstats.
                    rbind (run_point args closes rate proxy (fst best) (holdout_input train holdout) HourlyOpen) (\<lambda>rres.
                    rbind (stats_of lib True (ra_seed args) rres) (\<lambda>rstats.
                    rbind (check_dataset d iid src end_ts BAR) (\<lambda>suff.
                      conclude args now end_ts fee (map fst trials) best hstats rstats suff bars (length holdout)))))))))))"

section \<open>The record as JSON\<close>

definition run_id_of :: "run_lib \<Rightarrow> run_record \<Rightarrow> string" where
  "run_id_of lib r = rl_stamp lib (rr_now r) @ ''-'' @ ra_hypothesis (rr_args r) @ ''-'' @
     show_int (ra_instrument (rr_args r)) @ ''-'' @ source_value (ra_source (rr_args r))"

definition jnat :: "nat \<Rightarrow> json" where "jnat n = JInt (int n)"

definition jopt :: "('a \<Rightarrow> json) \<Rightarrow> 'a option \<Rightarrow> json" where
  "jopt f x = (case x of None \<Rightarrow> JNull | Some a \<Rightarrow> f a)"

definition params_json :: "run_lib \<Rightarrow> params \<Rightarrow> json" where
  "params_json lib ps = JObj (map (\<lambda>(k, v). (k, case v of PInt n \<Rightarrow> JInt n | PDec x \<Rightarrow> JStr (rl_dec lib x))) ps)"

definition stats_json :: "run_lib \<Rightarrow> run_stats \<Rightarrow> json" where
  "stats_json lib st = JObj
     ([(''sharpe'', JNum (rs_sharpe st)), (''max_dd'', JStr (rl_dec lib (rs_max_dd st))),
       (''hit_rate'', JNum (rs_hit_rate st)), (''turnover'', JStr (rl_dec lib (rs_turnover st))), (''n'', jnat (rs_n st)),
       (''fills'', jnat (rs_fills st)), (''fills_unavailable'', jnat (rs_fills_unavailable st)),
       (''fills_at_hourly_open'', jnat (rs_fills_at_hourly_open st)),
       (''fills_at_last_trade'', jnat (rs_fills_at_last_trade st)), (''max_last_trade_age_min'', JInt (rs_max_age_min st)),
       (''bars_constant_spread'', jnat (rs_constant_spread st)), (''final_equity'', JStr (rl_dec lib (rs_final_equity st)))] @
      (case rs_ci st of None \<Rightarrow> []
       | Some (lo, hi, note) \<Rightarrow> [(''ci_lo'', jopt JNum lo), (''ci_hi'', jopt JNum hi)] @
           (case note of None \<Rightarrow> [] | Some msg \<Rightarrow> [(''ci_note'', JStr (rl_text lib msg))])))"

definition dataset_json :: "run_lib \<Rightarrow> run_record \<Rightarrow> json" where
  "dataset_json lib r = JObj
     [(''start'', JStr (rl_iso lib (br_open_ts (hd (rr_bars r))))), (''end'', JStr (rl_iso lib (br_open_ts (last (rr_bars r))))),
      (''bars'', jnat (length (rr_bars r))), (''complete_bars'', jnat (length (filter br_complete (rr_bars r)))),
      (''funding_periods'', JInt (sr_funding_periods (rr_sufficiency r))), (''days'', JStr (rl_dec lib (sr_days (rr_sufficiency r)))),
      (''tested_start'', JStr (rl_iso lib (tested_start (rr_bars r)))), (''tested_end'', JStr (rl_iso lib (tested_end (rr_bars r)))),
      (''tested_days'', JStr (rl_dec lib (rr_tested_days r))), (''holdout_bars'', jnat (rr_holdout_bars r))]"

definition record_json :: "run_lib \<Rightarrow> run_record \<Rightarrow> json" where
  "record_json lib r =
     (let a = rr_args r in JObj
      [(''run_id'', JStr (run_id_of lib r)), (''ts'', JStr (rl_iso lib (rr_now r))), (''end'', JStr (rl_iso lib (rr_end r))),
       (''hypothesis'', JStr (ra_hypothesis a)), (''harness_version'', JInt HARNESS_VERSION),
       (''instrument_id'', JInt (ra_instrument a)), (''source_type'', JStr (source_value (ra_source a))),
       (''params_chosen'', params_json lib (rr_chosen r)), (''grid_tried'', JArr (map (params_json lib) (rr_points r))),
       (''dataset'', dataset_json lib r), (''fee_used'', JStr (rl_dec lib (fs_taker (rr_fee r)))),
       (''fee_category_used'', JStr (ra_fee_category a)), (''fee_fetched_at'', JStr (rl_iso lib (fs_fetched_at (rr_fee r)))),
       (''latency_s'', JInt (sb_latency_s BAR)), (''impact_bps'', JStr (rl_dec lib (sb_impact_bps BAR))),
       (''seed'', JInt (ra_seed a)), (''train'', stats_json lib (rr_train r)), (''holdout'', stats_json lib (rr_holdout r)),
       (''holdout_robust'', stats_json lib (rr_robust r)), (''robust_screened'', JBool (rr_robust_screened r)),
       (''sufficiency'', JObj [(''met'', JBool (sr_met (rr_sufficiency r))),
          (''shortfall'', JObj (map (\<lambda>(k, t). (k, JStr (rl_text lib t))) (sr_shortfall (rr_sufficiency r))))]),
       (''screened'', JBool (rr_screened r)), (''passed'', JBool (rr_passed r))])"

text \<open>\<open>main\<close>: a run that gets to the end appends its record, pass or fail; one that exits appends nothing.\<close>

definition run_and_log :: "run_lib \<Rightarrow> run_args \<Rightarrow> time \<Rightarrow> db \<Rightarrow> (gate_files, run_record) eff" where
  "run_and_log lib args now d =
     bind (lift (run_experiment lib args now d)) (\<lambda>r.
       andthen (upd (\<lambda>f. f\<lparr>gf_log := Some ((case gf_log f of None \<Rightarrow> [] | Some ls \<Rightarrow> ls) @ [Inr (record_json lib r)])\<rparr>))
         (ret r))"

end
