(* ===== verification/Evidence_Laws.thy ===== *)
theory Evidence_Laws
  imports Evidence
begin

text \<open>
  What an open live-order gate says about the committed files, and that the log, which only grows, can
  close the gate of an approved run but not open it.
\<close>

section \<open>Records that count\<close>

definition good_record :: "pylib \<Rightarrow> string \<Rightarrow> (string \<times> json) list \<Rightarrow> bool" where
  "good_record lib run_id r \<longleftrightarrow>
     jget r ''run_id'' = JStr run_id \<and> jget r ''passed'' = JBool True \<and>
     jget r ''harness_version'' = JInt HARNESS_VERSION \<and>
     jget r ''source_type'' \<in> JStr ` set NATIVE_VALUES \<and>
     (case jget r ''sufficiency'' of JObj s \<Rightarrow> jget s ''met'' = JBool True | _ \<Rightarrow> False) \<and>
     jget r ''robust_screened'' = JBool True \<and> placed lib r \<and>
     (case jget r ''holdout'' of JObj h \<Rightarrow> jget h ''fills_at_hourly_open'' = JInt 0 | _ \<Rightarrow> False)"

text \<open>A native failure of the same hypothesis and instrument at this harness, on a later window or an unreadable one.\<close>

definition later_failure :: "pylib \<Rightarrow> (string \<times> json) list \<Rightarrow> (string \<times> json) list \<Rightarrow> bool" where
  "later_failure lib a r \<longleftrightarrow>
     jget r ''hypothesis'' \<noteq> JNull \<and>
     lower (jstr lib (jget r ''hypothesis'')) = lower (jstr lib (jget a ''hypothesis'')) \<and>
     jstr lib (jget r ''instrument_id'') = jstr lib (jget a ''instrument_id'') \<and>
     jstr lib (jget r ''harness_version'') = show_int HARNESS_VERSION \<and>
     lower (jstr lib (jget r ''source_type'')) \<in> set NATIVE_VALUES \<and> jget r ''passed'' \<noteq> JBool True \<and>
     (case (aware lib (jget r ''end''), aware lib (jget a ''end'')) of
        (Some later, Some approved) \<Rightarrow> approved < later | _ \<Rightarrow> True)"

lemma obj_of_Inr [simp]: "obj_of j = Inr r \<longleftrightarrow> j = JObj r"
  by (auto simp: obj_of_def split: json.split)

lemma in_native_Inr: "in_native j = Inr b \<Longrightarrow> b \<longleftrightarrow> j \<in> JStr ` set NATIVE_VALUES"
  by (auto simp: in_native_def split: json.splits)

lemma in_native_True: "j \<in> JStr ` set NATIVE_VALUES \<Longrightarrow> in_native j = Inr True"
  by (auto simp: in_native_def)

lemma record_passes_iff: "record_passes lib j run_id = Inr True \<longleftrightarrow> (\<exists>r. j = JObj r \<and> good_record lib run_id r)"
proof (cases "obj_of j")
  case (Inl e)
  then show ?thesis by (auto simp: record_passes_def obj_of_def split: json.splits)
next
  case (Inr r)
  then have j: "j = JObj r" by simp
  show ?thesis
  proof (cases "in_native (jget r ''source_type'')")
    case (Inl e)
    then show ?thesis using j by (auto simp: record_passes_def good_record_def in_native_def)
  next
    case (Inr native)
    with in_native_Inr [OF Inr] j show ?thesis
      by (auto simp: record_passes_def good_record_def split: json.split)
  qed
qed

lemma revokes_False:
  "revokes lib j a = Inr False \<longleftrightarrow> (\<exists>r. j = JObj r \<and> \<not> later_failure lib a r)"
proof (cases "obj_of j")
  case (Inl e)
  then show ?thesis by (auto simp: revokes_def obj_of_def split: json.splits)
next
  case (Inr r)
  then show ?thesis by (auto simp: revokes_def later_failure_def split: option.split)
qed

lemma first_passing_Cons:
  "first_passing lib run_id (r # rs) = Inr (Some a) \<longleftrightarrow>
     (r = JObj a \<and> good_record lib run_id a) \<or>
     (record_passes lib r run_id = Inr False \<and> first_passing lib run_id rs = Inr (Some a))"
proof (cases "record_passes lib r run_id")
  case (Inr ok)
  then show ?thesis using record_passes_iff [of lib r run_id] by (cases ok) auto
next
  case (Inl e)
  then show ?thesis using record_passes_iff [of lib r run_id] by auto
qed

lemma first_passing_Some:
  "first_passing lib run_id rs = Inr (Some a) \<Longrightarrow> JObj a \<in> set rs \<and> good_record lib run_id a"
  by (induction rs) (auto simp: first_passing_Cons simp del: first_passing.simps(2))

lemma first_passing_append:
  "first_passing lib run_id rs = Inr (Some a) \<Longrightarrow> first_passing lib run_id (rs @ ms) = Inr (Some a)"
  by (induction rs) (auto simp: first_passing_Cons simp del: first_passing.simps(2))

lemma any_revokes_False:
  "any_revokes lib a rs = Inr False \<longleftrightarrow> list_all (\<lambda>j. revokes lib j a = Inr False) rs"
  by (induction rs) (auto split: if_splits)

lemma rmapM_id: "rmapM (\<lambda>l. l) ls = Inr rs \<longleftrightarrow> ls = map Inr rs"
  by (induction ls arbitrary: rs) (auto simp: Cons_eq_map_conv)

lemma read_records_Inr:
  "read_records f = Inr rs \<longleftrightarrow> (case gf_log f of None \<Rightarrow> rs = [] | Some ls \<Rightarrow> ls = map Inr rs)"
  by (auto simp: read_records_def rmapM_id split: option.split)

text \<open>The run an approval names.\<close>

definition approved_run :: "(string \<times> json) list \<Rightarrow> string" where
  "approved_run approval = (case jget approval ''run_id'' of JStr s \<Rightarrow> strip s | _ \<Rightarrow> [])"

definition signed :: "(string \<times> json) list \<Rightarrow> bool" where
  "signed approval \<longleftrightarrow> list_all (\<lambda>k. filled_in (jget approval k)) [''run_id'', ''approved_by'', ''approved_at'']"

lemma check_approval_True:
  "check_approval lib f approval = Inr True \<longleftrightarrow>
     signed approval \<and> (\<exists>rs a. read_records f = Inr rs \<and>
       first_passing lib (approved_run approval) rs = Inr (Some a) \<and> any_revokes lib a rs = Inr False)"
  unfolding check_approval_def signed_def [symmetric] approved_run_def [symmetric] Let_def
  by (auto split: option.splits)

lemma load_validated_iff:
  "load_validated lib f \<longleftrightarrow> (\<exists>approval. gf_approval f = Some (Inr (JObj approval)) \<and> check_approval lib f approval = Inr True)"
proof (cases "\<exists>approval. gf_approval f = Some (Inr (JObj approval))")
  case True
  then obtain ap where "gf_approval f = Some (Inr (JObj ap))" by blast
  then show ?thesis by (cases "check_approval lib f ap") (auto simp: load_validated_def)
next
  case False
  then show ?thesis by (auto simp: load_validated_def split: option.splits sum.splits json.splits)
qed

section \<open>Claims\<close>

text \<open>
  The evidence behind an open signal gate: a signed approval, a log that parses, a record of the approved run
  that meets every pre-registered condition, and no later failure of the same hypothesis.
\<close>

definition gate_evidence ::
  "pylib \<Rightarrow> gate_files \<Rightarrow> (string \<times> json) list \<Rightarrow> json list \<Rightarrow> (string \<times> json) list \<Rightarrow> bool" where
  "gate_evidence lib f approval records a \<longleftrightarrow>
     gf_approval f = Some (Inr (JObj approval)) \<and> signed approval \<and> gf_log f = Some (map Inr records) \<and>
     JObj a \<in> set records \<and> good_record lib (approved_run approval) a \<and>
     list_all (\<lambda>j. case j of JObj r \<Rightarrow> \<not> later_failure lib a r | _ \<Rightarrow> False) records"

text \<open>A log with a passing native run of h1 on instrument 6 and a failing proxy run after it, and its approval.\<close>

definition sample_lib :: pylib where
  "sample_lib = \<lparr>pl_iso = (\<lambda>s. map_of
       [(''2026-10-01T00:00:00+00:00'', AwareStamp (seconds 1790812800)),
        (''2026-10-02T00:00:00+00:00'', AwareStamp (seconds 1790899200))] s), pl_str = (\<lambda>_. ''?'')\<rparr>"

definition sample_record :: "string \<Rightarrow> string \<Rightarrow> bool \<Rightarrow> json" where
  "sample_record run src passed = JObj
     [(''run_id'', JStr run), (''passed'', JBool passed), (''harness_version'', JInt 4), (''source_type'', JStr src),
      (''hypothesis'', JStr ''h1''), (''instrument_id'', JInt 6), (''robust_screened'', JBool True),
      (''end'', JStr ''2026-10-01T00:00:00+00:00''), (''ts'', JStr ''2026-10-02T00:00:00+00:00''),
      (''sufficiency'', JObj [(''met'', JBool True)]), (''holdout'', JObj [(''fills_at_hourly_open'', JInt 0)])]"

definition sample_files :: gate_files where
  "sample_files = \<lparr>gf_approval = Some (Inr (JObj [(''run_id'', JStr '' run1 ''), (''approved_by'', JStr ''op''),
       (''approved_at'', JStr ''2026-10-03'')])),
     gf_log = Some [Inr (sample_record ''run1'' ''polymarket_rest'' True),
       Inr (sample_record ''run2'' ''proxy_hyperliquid'' False)]\<rparr>"

text \<open>
  C31. A live order is allowed only if the instrument's mode is AUTO, the environment variable is exactly
  \<open>true\<close>, and the committed files carry the evidence: a signed approval of a run whose record
  in the log says that it passed at the current harness version, on native data that met the sufficiency bar, with no holdout fill
  at the hourly open and with the robustness run screened, and which no later native failure of the
  same hypothesis and instrument contradicts.
\<close>

theorem live_orders_need_evidence:
  assumes "gd_allowed (live_orders_allowed iid modes env None (load_validated lib f))"
  shows "modes iid = Some AUTO \<and> env LIVE_ENV_VAR = Some ''true'' \<and>
    (\<exists>approval records a. gate_evidence lib f approval records a)"
proof -
  have locks: "modes iid = Some AUTO" "env LIVE_ENV_VAR = Some ''true''" "load_validated lib f"
    using assms by (auto simp: live_orders_allowed_def Let_def split: option.splits if_splits)
  then obtain approval rs a where g: "gf_approval f = Some (Inr (JObj approval))" "signed approval"
    "read_records f = Inr rs" "first_passing lib (approved_run approval) rs = Inr (Some a)" "any_revokes lib a rs = Inr False"
    by (auto simp: load_validated_iff check_approval_True)
  have "JObj a \<in> set rs \<and> good_record lib (approved_run approval) a" by (rule first_passing_Some [OF g(4)])
  moreover from this g(3) have "gf_log f = Some (map Inr rs)" by (auto simp: read_records_Inr split: option.splits)
  moreover have "list_all (\<lambda>j. case j of JObj r \<Rightarrow> \<not> later_failure lib a r | _ \<Rightarrow> False) rs"
    using g(5) by (auto simp: any_revokes_False revokes_False list_all_iff)
  ultimately show ?thesis using locks g(1,2) by (auto simp: gate_evidence_def)
qed

lemma live_orders_need_evidence_witness:
  "\<exists>approval records a. gate_evidence sample_lib sample_files approval records a"
proof -
  have "gd_allowed (live_orders_allowed 6 [6 \<mapsto> AUTO] [LIVE_ENV_VAR \<mapsto> ''true''] None (load_validated sample_lib sample_files))"
    by code_simp
  from live_orders_need_evidence [OF this] show ?thesis by blast
qed

text \<open>The log only grows.\<close>

definition append_log :: "json res list \<Rightarrow> gate_files \<Rightarrow> gate_files" where
  "append_log ls f = f\<lparr>gf_log := Some ((case gf_log f of None \<Rightarrow> [] | Some old \<Rightarrow> old) @ ls)\<rparr>"

text \<open>The approval names a run that the log already holds a good record of.\<close>

definition run_recorded :: "pylib \<Rightarrow> gate_files \<Rightarrow> bool" where
  "run_recorded lib f =
     (case gf_approval f of
        Some (Inr (JObj approval)) \<Rightarrow>
          (case rbind (read_records f) (first_passing lib (approved_run approval)) of Inr (Some _) \<Rightarrow> True | _ \<Rightarrow> False)
      | _ \<Rightarrow> False)"

text \<open>
  C32. Appending to the log never opens a gate that is closed on a recorded run: a revocation is final for
  that run, whatever is logged later. A line that cannot be parsed closes the gate for good.
\<close>

theorem appended_evidence_never_opens_the_gate:
  assumes "run_recorded lib f" and "load_validated lib (append_log ls f)"
  shows "load_validated lib f \<and> \<not> load_validated lib (append_log (Inl e # ls') f)"
proof -
  have bad: "\<not> load_validated lib (append_log (Inl e # ls') f)"
  proof
    assume "load_validated lib (append_log (Inl e # ls') f)"
    then obtain pre rs where "pre @ Inl e # ls' = map Inr rs"
      by (auto simp: load_validated_iff check_approval_True read_records_Inr append_log_def)
    then have "Inl e \<in> set (map Inr rs)" by (metis in_set_conv_decomp)
    then show False by auto
  qed
  obtain approval a rs0 where f: "gf_approval f = Some (Inr (JObj approval))" "read_records f = Inr rs0"
    "first_passing lib (approved_run approval) rs0 = Inr (Some a)"
    using assms(1) by (auto simp: run_recorded_def rbind_def split: option.splits sum.splits json.splits)
      (metis option.exhaust sum.exhaust)
  obtain rs a' where g: "signed approval" "read_records (append_log ls f) = Inr rs"
    "first_passing lib (approved_run approval) rs = Inr (Some a')" "any_revokes lib a' rs = Inr False"
    using assms(2) f(1) by (auto simp: load_validated_iff check_approval_True append_log_def)
  obtain ms where ms: "rs = rs0 @ ms"
    using g(2) f(2) by (auto simp: read_records_Inr append_log_def append_eq_map_conv split: option.splits)
  then have "a' = a" using g(3) first_passing_append [OF f(3), of ms] by simp
  then have "any_revokes lib a rs0 = Inr False" using g(4) ms by (simp add: any_revokes_False)
  then show ?thesis using f g(1) bad by (auto simp: load_validated_iff check_approval_True)
qed

lemma appended_evidence_never_opens_the_gate_witness:
  "load_validated sample_lib sample_files"
proof -
  have "run_recorded sample_lib sample_files"
    "load_validated sample_lib (append_log [Inr (sample_record ''run3'' ''polymarket_rest'' True)] sample_files)"
    by code_simp+
  from appended_evidence_never_opens_the_gate [OF this] show ?thesis by blast
qed

end
