(* ===== verification/Experiment_Laws.thy ===== *)
theory Experiment_Laws
  imports Experiment Evidence_Laws
begin

text \<open>
  The statistics against their references, the split of a data set, and the agreement between the
  record a run appends and the gate that reads it.
\<close>

section \<open>Statistics\<close>

text \<open>
  C33. The maximum drawdown is the worst drop: the one pass over the curve returns the largest difference, in the
  decimal context, between a value and a later one (0 for a curve that never falls).
\<close>

theorem max_drawdown_is_the_worst_drop:
  "max_drawdown equity = Max (set (0 # drops equity))"
  by (rule max_drawdown_alt)

text \<open>
  The split is chronological and loses nothing: the training part followed by the holdout is the data set, and for
  a holdout fraction between 0 and 1 the holdout is the given share of it rounded up.
\<close>

theorem split_is_chronological:
  assumes "0 \<le> hf" "hf \<le> 1" "length items < 10 ^ 28" "chronological_split items hf = (train, holdout)"
  shows "train @ holdout = items \<and> int (length holdout) = \<lceil>ctx (of_nat (length items) * hf)\<rceil>"
proof -
  let ?k = "\<lceil>ctx (of_nat (length items) * hf)\<rceil>"
  have "of_nat (length items) * hf \<le> of_nat (length items) * 1" using assms(2) by (intro mult_left_mono) auto
  then have b: "0 \<le> ctx (of_nat (length items) * hf) \<and> ctx (of_nat (length items) * hf) \<le> of_nat (length items)"
    using assms(1,3) by (intro ctx_unit_bounds) auto
  have k: "0 \<le> ?k" using b by linarith
  have l: "?k \<le> int (length items)" using b by (simp add: ceiling_le_iff)
  have "train = slice_to (int (length items) - ?k) items" "holdout = slice_from (int (length items) - ?k) items"
    using assms(4) by (auto simp: chronological_split_def Let_def round_ceiling_def dmul_def)
  then show ?thesis using slice_split [OF k l] k l by auto
qed

lemma split_is_chronological_witness:
  "chronological_split [1, 2, 3, 4, 5 :: int] (3/10) = ([1, 2, 3], [4, 5]) \<and> [1, 2, 3] @ [4, 5] = [1, 2, 3, 4, 5 :: int]"
proof -
  have "chronological_split [1, 2, 3, 4, 5 :: int] (3/10) = ([1, 2, 3], [4, 5])" by code_simp
  from split_is_chronological [OF _ _ _ this] this show ?thesis by simp
qed

section \<open>The record and the gate\<close>

lemma native_value_iff: "source_value s \<in> set NATIVE_VALUES \<longleftrightarrow> s \<in> set NATIVE_SOURCES"
  by (cases s) (simp_all add: NATIVE_VALUES_def NATIVE_SOURCES_def)

lemma conclude_Inr:
  assumes "conclude args now e fee points best hstats rstats suff bars n = Inr r"
  shows "rr_args r = args" "rr_now r = now" "rr_end r = e" "rr_sufficiency r = suff" "rr_holdout r = hstats"
    "rr_passed r = snd (evaluate_run (ra_source args) suff (rs_sharpe hstats) (ci_lo_of hstats) (ci_hi_of hstats)
       (int (rs_fills_at_hourly_open hstats)) (rr_tested_days r) (rr_robust_screened r) BAR)"
    "days_of (tested_end bars - tested_start bars) = Inr (rr_tested_days r)"
    "rr_robust_screened r \<longleftrightarrow> (\<exists>lo. ci_lo_of rstats = Some lo \<and> stats_clear_bar (rs_sharpe rstats) lo BAR)"
  using assms by (auto simp: conclude_def Let_def split: option.splits)

lemma passed_iff:
  "snd (evaluate_run src suff sh lo hi fills days' robust bar) \<longleftrightarrow>
     hi \<noteq> None \<and> (\<exists>l. lo = Some l \<and> stats_clear_bar sh l bar) \<and> src \<in> set NATIVE_SOURCES \<and>
     sr_met suff \<and> fills = 0 \<and> of_int (sb_min_days bar) \<le> days' \<and> robust"
  by (auto simp: evaluate_run_def Let_def split: option.split)

lemma jget_Cons: "jget ((k, v) # kvs) k' = (if k' = k then v else jget kvs k')"
  by (simp add: jget_def)

text \<open>The keys of a record the gate reads.\<close>

lemma record_fields:
  assumes "record_json lib r = JObj kvs"
  shows "jget kvs ''run_id'' = JStr (run_id_of lib r)" "jget kvs ''passed'' = JBool (rr_passed r)"
    "jget kvs ''harness_version'' = JInt HARNESS_VERSION" "jget kvs ''source_type'' = JStr (source_value (ra_source (rr_args r)))"
    "jget kvs ''hypothesis'' = JStr (ra_hypothesis (rr_args r))" "jget kvs ''instrument_id'' = JInt (ra_instrument (rr_args r))"
    "jget kvs ''end'' = JStr (rl_iso lib (rr_end r))" "jget kvs ''ts'' = JStr (rl_iso lib (rr_now r))"
    "jget kvs ''robust_screened'' = JBool (rr_robust_screened r)"
    "jget kvs ''holdout'' = stats_json lib (rr_holdout r)"
    "\<exists>sf. jget kvs ''sufficiency'' = JObj sf \<and> jget sf ''met'' = JBool (sr_met (rr_sufficiency r))"
  using assms by (auto simp: record_json_def Let_def jget_Cons)

lemma stats_fields: "\<exists>h. stats_json lib st = JObj h \<and> jget h ''fills_at_hourly_open'' = jnat (rs_fills_at_hourly_open st)"
  by (simp add: stats_json_def jget_Cons)

text \<open>
  What the gate needs of the date renderings: reading back what \<open>isoformat\<close> wrote of an aware datetime.
\<close>

definition iso_reads_back :: "pylib \<Rightarrow> run_lib \<Rightarrow> time \<Rightarrow> bool" where
  "iso_reads_back plib lib t \<longleftrightarrow> pl_iso plib (rl_iso lib t) = Some (AwareStamp t)"

lemma placed_record:
  assumes "record_json lib r = JObj kvs" "iso_reads_back plib lib (rr_now r)" "iso_reads_back plib lib (rr_end r)"
  shows "placed plib kvs \<longleftrightarrow> rr_end r \<le> rr_now r"
  using assms by (simp add: placed_def record_fields [OF assms(1)] aware_def iso_reads_back_def)

text \<open>
  C35. The gate accepts exactly the runs that passed: for the record that a run appends to the log, the signal gate's own
  check of the pre-registered conditions agrees with the verdict \<open>evaluate_run\<close> gave, given that dates written by
  \<open>isoformat\<close> are read back. And a run passes exactly when its holdout clears the bar with both ends of a confidence
  interval, on a native source whose dataset is sufficient, over at least the required days between the open of the
  first and the end of the last bar (rounded to hundredths, as they are recorded), with no holdout fill at the hourly
  open, and the run repeated at the hourly opens clears the bar as well.
\<close>

theorem gate_accepts_exactly_passed_runs:
  assumes "iso_reads_back plib lib now" "iso_reads_back plib lib (window_end args now)"
    and "conclude args now (window_end args now) fee points best hstats rstats suff bars n = Inr r"
  shows "record_passes plib (record_json lib r) (run_id_of lib r) = Inr (rr_passed r)
    \<and> (rr_passed r \<longleftrightarrow>
         ci_hi_of hstats \<noteq> None \<and> (\<exists>lo. ci_lo_of hstats = Some lo \<and> stats_clear_bar (rs_sharpe hstats) lo BAR)
       \<and> ra_source args \<in> set NATIVE_SOURCES \<and> sr_met suff
       \<and> (\<exists>days. days_of (tested_end bars - tested_start bars) = Inr days \<and> of_int (sb_min_days BAR) \<le> days)
       \<and> rs_fills_at_hourly_open hstats = 0
       \<and> (\<exists>lo. ci_lo_of rstats = Some lo \<and> stats_clear_bar (rs_sharpe rstats) lo BAR))"
proof -
  note r = conclude_Inr [OF assms(3)]
  obtain kvs where kvs: "record_json lib r = JObj kvs" by (simp add: record_json_def Let_def)
  note f = record_fields [OF kvs]
  obtain sf where sf: "jget kvs ''sufficiency'' = JObj sf" "jget sf ''met'' = JBool (sr_met (rr_sufficiency r))"
    using f(11) by blast
  obtain h where h: "stats_json lib hstats = JObj h" "jget h ''fills_at_hourly_open'' = jnat (rs_fills_at_hourly_open hstats)"
    using stats_fields by blast
  have "window_end args now \<le> now" by (simp add: window_end_def split: option.split)
  then have "placed plib kvs" using placed_record [OF kvs] assms(1,2) by (simp add: r)
  then have "record_passes plib (record_json lib r) (run_id_of lib r) = Inr (rr_passed r)"
    by (auto simp: record_passes_def kvs f(1-10) sf h in_native_def native_value_iff jnat_def r(1-6) passed_iff)
  moreover have "rr_passed r \<longleftrightarrow>
         ci_hi_of hstats \<noteq> None \<and> (\<exists>lo. ci_lo_of hstats = Some lo \<and> stats_clear_bar (rs_sharpe hstats) lo BAR)
       \<and> ra_source args \<in> set NATIVE_SOURCES \<and> sr_met suff \<and> rs_fills_at_hourly_open hstats = 0
       \<and> of_int (sb_min_days BAR) \<le> rr_tested_days r \<and> rr_robust_screened r"
    by (auto simp: r(6) passed_iff)
  ultimately show ?thesis unfolding r(8) using r(7) by auto
qed

text \<open>A native run over sixty days that clears the bar.\<close>

definition sample_args :: run_args where
  "sample_args = \<lparr>ra_hypothesis = ''h1'', ra_instrument = 6, ra_source = POLYMARKET_REST, ra_fee_category = ''crypto'',
     ra_seed = 42, ra_end = Some (seconds 1790812800)\<rparr>"

definition sample_stats :: run_stats where
  "sample_stats = \<lparr>rs_sharpe = 2, rs_max_dd = 1, rs_hit_rate = 1/2, rs_turnover = 3, rs_n = 100, rs_fills = 3,
     rs_fills_unavailable = 0, rs_fills_at_hourly_open = 0, rs_fills_at_last_trade = 0, rs_max_age_min = 0,
     rs_constant_spread = 0, rs_final_equity = 1, rs_ci = Some (Some (1/8), Some (1/4), None)\<rparr>"

definition sample_open :: "time \<Rightarrow> bar" where
  "sample_open t = \<lparr>br_instrument = 6, br_source = POLYMARKET_REST, br_open_ts = t, br_open = Some 100,
     br_high = Some 100, br_low = Some 100, br_close = Some 100, br_index_close = None, br_funding = Some 0,
     br_spread_bps = 5, br_spread_source = FromConstant, br_complete = True\<rparr>"

definition sample_run_lib :: run_lib where
  "sample_run_lib = \<lparr>rl_iso = (\<lambda>t. if t = seconds 1790812800 then ''2026-10-01T00:00:00+00:00''
       else ''2026-10-02T00:00:00+00:00''),
     rl_stamp = (\<lambda>_. ''run''), rl_dec = (\<lambda>_. ''0''), rl_text = (\<lambda>_. []), rl_starts = (\<lambda>_ _ _. 0)\<rparr>"

definition sample_fee :: fee_schedule where
  "sample_fee = \<lparr>fs_category = ''crypto'', fs_taker = 4/10000, fs_maker = 0, fs_fetched_at = 0\<rparr>"

definition sample_conclusion :: "run_record res" where
  "sample_conclusion = conclude sample_args (seconds 1790899200) (window_end sample_args (seconds 1790899200)) sample_fee
     [] ([], sample_stats) sample_stats sample_stats (dataset_meets_bar 60 1440 POLYMARKET_REST BAR)
     [sample_open 0, sample_open (60 * 86400000000)] 40"

lemma gate_accepts_exactly_passed_runs_witness:
  "case sample_conclusion of Inl _ \<Rightarrow> False
   | Inr r \<Rightarrow> rr_passed r \<and> record_passes sample_lib (record_json sample_run_lib r) (run_id_of sample_run_lib r) = Inr True"
proof -
  have "case sample_conclusion of Inl _ \<Rightarrow> False | Inr r \<Rightarrow> rr_passed r" by code_simp
  then obtain r where r: "sample_conclusion = Inr r" "rr_passed r" by (auto split: sum.splits)
  have "iso_reads_back sample_lib sample_run_lib (seconds 1790899200)"
    "iso_reads_back sample_lib sample_run_lib (window_end sample_args (seconds 1790899200))" by code_simp+
  note c = gate_accepts_exactly_passed_runs [OF this r(1) [unfolded sample_conclusion_def]]
  show ?thesis unfolding r(1) using conjunct1 [OF c] by (simp add: r(2))
qed

end
