(* ===== verification/Live_Exec.thy ===== *)
theory Live_Exec
  imports Executor Evidence
begin

text \<open>
  \<open>polyperps/execution/live_executor.py\<close>: the live account behind the exchange SDK's session. The
  session is not code of the repository: it is a record of operations over a state of its own, every one of
  which may raise. \<open>LiveReader\<close> reads, \<open>LiveExecutor\<close> writes behind the three locks,
  \<open>ShadowExecutor\<close> refuses every write.
\<close>

section \<open>What the SDK returns\<close>

record sdk_position =
  xp_instrument :: int
  xp_size :: dec
  xp_entry :: dec
  xp_value :: dec
  xp_leverage :: int
  xp_liq_price :: "dec option"
  xp_unrealised :: dec
  xp_funding :: dec

record sdk_portfolio =
  xf_positions :: "sdk_position list"
  xf_account_value :: dec
  xf_in_liquidation :: bool

datatype tp_sl_kind = TakeProfit | StopLoss

record sdk_order =
  xo_id :: int
  xo_instrument :: int
  xo_cid :: string
  xo_tp_sl :: "(tp_sl_kind \<times> dec) option"

text \<open>A placement as \<open>getattr\<close> sees it: the order may be missing, and its id and status too.\<close>

record sdk_placement =
  xl_id :: "int option"
  xl_status :: "string option"

record 'x session =
  ss_portfolio :: "('x, sdk_portfolio) eff"
  ss_open_orders :: "('x, sdk_order list) eff"
  ss_place_order :: "int \<Rightarrow> string \<Rightarrow> dec \<Rightarrow> bool \<Rightarrow> string \<Rightarrow> ('x, sdk_placement) eff"
  ss_cancel_cid :: "string \<Rightarrow> ('x, unit) eff"
  ss_cancel_id :: "int \<Rightarrow> ('x, unit) eff"
  ss_place_stop :: "int \<Rightarrow> dec \<Rightarrow> ('x, int option) eff"
  ss_arm :: "time \<Rightarrow> ('x, unit) eff"
  ss_close :: "('x, unit) eff"

section \<open>Tables\<close>

datatype sdk_side = Sdk_Long | Sdk_Short | Sdk_Buy | Sdk_Sell

fun FILL_SIDE_MAP :: "sdk_side \<Rightarrow> side" where
  "FILL_SIDE_MAP Sdk_Long = Buy"
| "FILL_SIDE_MAP Sdk_Short = Sell"
| "FILL_SIDE_MAP Sdk_Buy = Buy"
| "FILL_SIDE_MAP Sdk_Sell = Sell"

fun ORDER_SIDE_MAP :: "side \<Rightarrow> string" where
  "ORDER_SIDE_MAP Buy = ''BUY''"
| "ORDER_SIDE_MAP Sell = ''SELL''"

definition SDK_ORDER_STATUS :: "(string \<times> ostatus option) list" where
  "SDK_ORDER_STATUS =
     [(''accepted'', Some Accepted), (''open'', Some Resting), (''partial'', Some Partial), (''filled'', Some Filled),
      (''cancelled'', Some Cancelled), (''auto_cancelled'', Some Auto_Cancelled),
      (''post_only_rejected'', Some Rejected), (''fok_unfilled'', Some Rejected), (''ioc_no_fill'', Some Rejected),
      (''ioc_expired'', Some Rejected), (''stp_cancelled'', Some Rejected), (''zero_quantity'', Some Rejected),
      (''duplicate_order'', None), (''order_not_found'', Some Rejected), (''reduce_only_invalid'', Some Rejected),
      (''reduce_only_expired'', Some Rejected), (''order_expired'', Some Rejected), (''expired'', Some Rejected),
      (''untriggered'', None), (''armed'', None), (''triggered'', None), (''parent_cancelled'', None),
      (''position_closed'', None), (''position_flipped'', None), (''reduce_only_invalid_at_trigger'', None)]"

section \<open>The reader\<close>

text \<open>
  \<open>LiveReader\<close> with what it reads of its surroundings, the clock. \<open>ShadowExecutor\<close> adds no state to it;
  \<open>LiveExecutor\<close> adds the three locks as they stand at the moment of a call (the gate given to the constructor, or
  \<open>live_orders_allowed\<close>) and the time of its dead man's switch.
\<close>

record 'x reader =
  lv_session :: 'x
  lv_stop_ids :: "(int \<times> int) list"
  lv_clock :: "nat \<Rightarrow> time"
  lv_reads :: nat

record 'x live = "'x reader" +
  lv_gate :: "int \<Rightarrow> gate_decision"
  lv_dead_man :: time

type_synonym ('x, 'e, 'a) rlop = "(('x, 'e) reader_scheme, 'a) eff"
type_synonym ('x, 'a) lop = "('x live, 'a) eff"

definition reader_init :: "'x \<Rightarrow> (nat \<Rightarrow> time) \<Rightarrow> 'x reader" where
  "reader_init x clock = \<lparr>lv_session = x, lv_stop_ids = [], lv_clock = clock, lv_reads = 0\<rparr>"

definition lses :: "('x, 'a) eff \<Rightarrow> ('x, 'e, 'a) rlop" where
  "lses m = focus lv_session (\<lambda>x l. l\<lparr>lv_session := x\<rparr>) m"

definition lclock :: "('x, 'e, time) rlop" where
  "lclock = (\<lambda>l. (Inr (lv_clock l (lv_reads l)), l\<lparr>lv_reads := Suc (lv_reads l)\<rparr>))"

definition view_of :: "sdk_position \<Rightarrow> position_view" where
  "view_of p = \<lparr>pv_instrument = xp_instrument p, pv_size = xp_size p, pv_entry = xp_entry p,
     pv_notional = dabs (xp_value p), pv_leverage = xp_leverage p, pv_liq_price = xp_liq_price p,
     pv_unrealised = xp_unrealised p, pv_funding = xp_funding p\<rparr>"

definition stop_orders :: "sdk_order list \<Rightarrow> (int \<times> dec \<times> int) list" where
  "stop_orders os = List.map_filter (\<lambda>o'. case xo_tp_sl o' of
       Some (StopLoss, trigger) \<Rightarrow> Some (xo_instrument o', trigger, xo_id o') | _ \<Rightarrow> None) os"

definition live_snapshot :: "'x session \<Rightarrow> ('x, 'e, account_snapshot) rlop" where
  "live_snapshot s =
     bind (lses (ss_portfolio s)) (\<lambda>pf.
     bind (lses (ss_open_orders s)) (\<lambda>os.
       let stops = stop_orders os in
       andthen (upd (\<lambda>l. l\<lparr>lv_stop_ids := foldl (\<lambda>m (iid, _, oid). AList.update iid oid m) (lv_stop_ids l) stops\<rparr>))
       (bind lclock (\<lambda>now. ret
         \<lparr>sn_equity = xf_account_value pf,
          sn_positions = map view_of (filter (\<lambda>p. xp_size p \<noteq> 0) (xf_positions pf)),
          sn_open_orders = map xo_cid (filter (\<lambda>o'. xo_cid o' \<noteq> [] \<and> xo_tp_sl o' = None) os),
          sn_stops = dict_of (map (\<lambda>(iid, trigger, _). (iid, trigger)) stops),
          sn_in_liquidation = xf_in_liquidation pf, sn_ts = now\<rparr>))))"

text \<open>The event stream, message by message; a status the table does not know is logged and dropped.\<close>

record sdk_fill =
  xv_cid :: string
  xv_order_id :: int
  xv_instrument :: int
  xv_side :: sdk_side
  xv_quantity :: dec
  xv_price :: dec
  xv_fee :: dec

datatype sdk_event =
    Resync
  | SdkOrder string string dec time
  | SdkFills "sdk_fill list" time
  | SdkOther

definition fill_of :: "time \<Rightarrow> sdk_fill \<Rightarrow> fill_update" where
  "fill_of ts f = \<lparr>fu_cid = (if xv_cid f = [] then ''venue-'' @ show_int (xv_order_id f) else xv_cid f),
     fu_instrument = xv_instrument f, fu_side = FILL_SIDE_MAP (xv_side f), fu_quantity = xv_quantity f,
     fu_price = xv_price f, fu_fee = xv_fee f, fu_ts = ts\<rparr>"

fun translate :: "sdk_event \<Rightarrow> event list" where
  "translate Resync = [EvReconcileNow ''resync'']"
| "translate (SdkOrder cid status filled ts) =
     (case map_of SDK_ORDER_STATUS status of
        Some (Some st) \<Rightarrow>
          if cid = [] then []
          else [EvOrder \<lparr>ou_cid = cid, ou_status = st, ou_filled = filled, ou_ts = ts\<rparr>]
      | _ \<Rightarrow> [])"
| "translate (SdkFills fs ts) = map (\<lambda>f. EvFill (fill_of ts f)) fs"
| "translate SdkOther = []"

definition live_events :: "sdk_event list \<Rightarrow> event list" where
  "live_events evs = concat (map translate evs)"

definition live_close :: "'x session \<Rightarrow> ('x, 'e, unit) rlop" where
  "live_close s = lses (ss_close s)"

section \<open>The executor\<close>

text \<open>The constructor: every instrument must pass the gate, and there must be one.\<close>

fun gate_all :: "(int \<Rightarrow> gate_decision) \<Rightarrow> int list \<Rightarrow> unit res" where
  "gate_all gate [] = Inr ()"
| "gate_all gate (iid # iids) =
     (if gd_allowed (gate iid) then gate_all gate iids
      else Inl (Exn GateClosed ([S ''instrument '', I iid, S '': ''] @ gd_reason (gate iid))))"

definition live_init ::
  "'x \<Rightarrow> int list \<Rightarrow> (int \<Rightarrow> gate_decision) \<Rightarrow> (nat \<Rightarrow> time) \<Rightarrow> int \<Rightarrow> 'x live res" where
  "live_init x iids gate clock dead_man_s =
     (if iids = [] then Inl (Exn GateClosed [S ''no instruments to gate''])
      else rmap (\<lambda>_. reader.extend (reader_init x clock) \<lparr>lv_gate = gate, lv_dead_man = seconds dead_man_s\<rparr>)
             (gate_all gate iids))"

definition live_ack :: "order_request \<Rightarrow> string option \<Rightarrow> ack_status \<Rightarrow> text_t \<Rightarrow> ('x, order_ack) lop" where
  "live_ack rq xid st reason =
     bind lclock (\<lambda>now. ret \<lparr>ak_cid = rq_cid rq, ak_exchange_id = xid, ak_status = st, ak_reason = reason, ak_ts = now\<rparr>)"

text \<open>How a placement's status is read.\<close>

definition ack_of :: "order_request \<Rightarrow> sdk_placement \<Rightarrow> ('x, order_ack) lop" where
  "ack_of rq pl =
     (let xid = map_option show_int (xl_id pl) in
      case (case xl_status pl of None \<Rightarrow> None | Some st \<Rightarrow> map_of SDK_ORDER_STATUS st) of
        None \<Rightarrow> live_ack rq xid AckRejected [S ''unknown status '', S (case xl_status pl of None \<Rightarrow> ''None'' | Some st \<Rightarrow> st)]
      | Some mapped \<Rightarrow>
          if mapped = Some Rejected \<or> mapped = Some Cancelled \<or> mapped = Some Auto_Cancelled then
            live_ack rq xid AckRejected [S (case xl_status pl of None \<Rightarrow> ''None'' | Some st \<Rightarrow> st)]
          else live_ack rq xid AckAccepted (if xl_status pl = Some ''duplicate_order'' then [S ''duplicate_order''] else []))"

definition live_submit :: "'x session \<Rightarrow> order_request \<Rightarrow> ('x, order_ack) lop" where
  "live_submit s rq =
     bind (get (\<lambda>l. lv_gate l (rq_instrument rq))) (\<lambda>d.
       if \<not> gd_allowed d then
         raise (Exn GateClosed ([S ''instrument '', I (rq_instrument rq), S '': ''] @ gd_reason d))
       else
         bind (attempt
                (bind (lses (ss_place_order s (rq_instrument rq) (ORDER_SIDE_MAP (rq_side rq)) (rq_quantity rq)
                    (rq_reduce_only rq) (rq_cid rq))) (\<lambda>pl. ret (Inr pl)))
                (\<lambda>e. if exc_class e = RequestRejectedError then ret (Inl e) else raise e)) (\<lambda>placed.
           case placed of
             Inl e \<Rightarrow> live_ack rq None AckRejected (exc_msg e)
           | Inr pl \<Rightarrow> ack_of rq pl))"

definition live_cancel :: "'x session \<Rightarrow> string \<Rightarrow> ('x, unit) lop" where
  "live_cancel s cid = lses (ss_cancel_cid s cid)"

definition live_place_stop :: "'x session \<Rightarrow> int \<Rightarrow> dec \<Rightarrow> ('x, stop_ack) lop" where
  "live_place_stop s iid trigger =
     bind (lses (ss_place_stop s iid trigger)) (\<lambda>oid.
     andthen (case oid of None \<Rightarrow> ret ()
        | Some n \<Rightarrow> upd (\<lambda>l. l\<lparr>lv_stop_ids := AList.update iid n (lv_stop_ids l)\<rparr>))
     (bind lclock (\<lambda>now. ret \<lparr>sa_instrument = iid, sa_trigger = trigger, sa_exchange_id = map_option show_int oid,
        sa_ts = now\<rparr>)))"

definition live_cancel_stop :: "'x session \<Rightarrow> int \<Rightarrow> ('x, unit) lop" where
  "live_cancel_stop s iid =
     bind (get (\<lambda>l. map_of (lv_stop_ids l) iid)) (\<lambda>oid.
     andthen (upd (\<lambda>l. l\<lparr>lv_stop_ids := AList.delete iid (lv_stop_ids l)\<rparr>))
     (case oid of None \<Rightarrow> ret () | Some n \<Rightarrow> lses (ss_cancel_id s n)))"

definition live_heartbeat :: "'x session \<Rightarrow> ('x, unit) lop" where
  "live_heartbeat s = bind lclock (\<lambda>now. bind (get lv_dead_man) (\<lambda>dm. lses (ss_arm s (now + dm))))"

definition live_ops :: "'x session \<Rightarrow> 'x live exec_ops" where
  "live_ops s = \<lparr>xo_name = ''live'', xo_submit = live_submit s, xo_cancel = live_cancel s,
     xo_place_stop = live_place_stop s, xo_cancel_stop = live_cancel_stop s, xo_heartbeat = live_heartbeat s,
     xo_snapshot = live_snapshot s, xo_on_tick = (\<lambda>_. ret ()), xo_on_bar = (\<lambda>_. ret ()), xo_poll_fills = ret []\<rparr>"

section \<open>The shadow\<close>

definition shadow_refuse :: "text_t \<Rightarrow> ('x reader, 'a) eff" where
  "shadow_refuse msg = raise (Exn ShadowRefused msg)"

definition shadow_ops :: "'x session \<Rightarrow> 'x reader exec_ops" where
  "shadow_ops s = \<lparr>xo_name = ''shadow'',
     xo_submit = (\<lambda>rq. shadow_refuse [S ''shadow: submit '', S (rq_cid rq), S '' refused'']),
     xo_cancel = (\<lambda>cid. shadow_refuse [S ''shadow: cancel '', S cid, S '' refused'']),
     xo_place_stop = (\<lambda>iid trigger. shadow_refuse [S ''shadow: stop for '', I iid, S '' at '', D trigger, S '' refused'']),
     xo_cancel_stop = (\<lambda>_. ret ()), xo_heartbeat = ret (),
     xo_snapshot = live_snapshot s, xo_on_tick = (\<lambda>_. ret ()), xo_on_bar = (\<lambda>_. ret ()), xo_poll_fills = ret []\<rparr>"

end
