(* ===== verification/Account_Frame.thy ===== *)
theory Account_Frame
  imports Venue_Laws Live_Exec Evidence_Laws
begin

text \<open>
  Whatever every operation of an executor keeps of its account, every call of the portfolio and the
  recovery keep: the portfolio reaches the account through the executor alone. Instances: the
  well-formedness of the paper account, the read-only shadow and the live executor behind a closed lock.
\<close>

section \<open>The account of a router\<close>

definition rv_account :: "('x \<Rightarrow> bool) \<Rightarrow> ('x, 's) renv \<Rightarrow> bool" where
  "rv_account P w \<longleftrightarrow> P (venue w)"

lemma offline_account: "offline m \<Longrightarrow> keeps (rv_account P) m"
  by (simp add: keeps_def rv_account_def offline_def)

lemma rexec_account: "keeps P m \<Longrightarrow> keeps (rv_account P) (rexec m)"
  by (auto simp: keeps_def rv_account_def venue_def rexec_def rio_def io_exec_def focus_def split: prod.split)

lemma in_router_account: "keeps (rv_account P) m \<Longrightarrow> keeps (at_venue P) (in_router k m)"
  by (auto simp: keeps_def at_venue_def in_router_def rv_account_def venue_def split: option.split prod.split)
    (metis renv.select_convs(2) snd_conv)

lemma on_known_account: "keeps (rv_account P) m \<Longrightarrow> keeps (at_venue P) (on_known k m)"
  unfolding on_known_def by (intro keeps_intros in_router_account)

lemma offline_rstrat: "offline (rstrat m)"
  by (auto simp: offline_def rstrat_def bind_def rget_def get_def focus_def venue_def split: prod.split)

lemma offline_rdb: "offline (rio (io_store m))"
  by (auto simp: offline_def rio_def io_store_def focus_def venue_def split: prod.split)

lemma offline_rows: "offline (update_order cid b f)" "offline (record_fill row ev)" "offline (record_decision t v i c n)"
    "offline (skip t n)" "offline flatten_hook" "offline (recover_hook sg)" "offline clear_halt"
  unfolding update_order_def record_fill_def record_decision_def skip_def flatten_hook_def recover_hook_def clear_halt_def
  by (auto intro!: offline_intros offline_rstrat offline_rdb offline_ops split: prod.split)

lemmas account_intros = keeps_intros offline_account [OF offline_prims(1)] offline_account [OF offline_prims(3)]
  offline_account [OF offline_prims(4)] offline_account [OF offline_prims(5)] offline_account [OF offline_prims(6)]
  offline_account [OF offline_prims(7)] offline_account [OF offline_prims(8)] offline_account [OF offline_prims(9)]
  offline_account [OF offline_rows(1)] offline_account [OF offline_rows(2)] offline_account [OF offline_rows(3)]
  offline_account [OF offline_rows(4)] offline_account [OF offline_rows(5)] offline_account [OF offline_rows(6)]
  offline_account [OF offline_ops(1)] offline_account [OF offline_ops(2)] offline_account [OF offline_ops(3)]
  offline_account [OF offline_ops(4)] offline_account [OF offline_rstrat]

section \<open>The interface\<close>

text \<open>A sequence of calls of the portfolio; a call that raises leaves the state it reached, and the next one runs.\<close>

definition run_calls :: "'x exec_ops \<Rightarrow> pf_call list \<Rightarrow> ('x, 's) pf \<Rightarrow> ('x, 's) pf" where
  "run_calls X cs p = foldl (\<lambda>q c. snd (run_pf X c q)) p cs"

locale account_frame =
  fixes ops :: "'x exec_ops" and I :: "'x \<Rightarrow> bool"
  assumes submit_keeps: "keeps I (xo_submit ops rq)"
    and cancel_keeps: "keeps I (xo_cancel ops cid)"
    and place_stop_keeps: "keeps I (xo_place_stop ops iid p)"
    and cancel_stop_keeps: "keeps I (xo_cancel_stop ops iid)"
    and snapshot_keeps: "keeps I (xo_snapshot ops)"
begin

lemma exchange_stop: "keeps I (place_exchange_stop ops pos l)"
  unfolding place_exchange_stop_def by (intro keeps_intros place_stop_keeps)

lemma adopt_account: "keeps (rv_account I) (adopt ops sn)"
  unfolding adopt_def by (intro account_intros rexec_account exchange_stop)

lemma adopt_and_settle_account: "keeps (rv_account I) (adopt_and_settle ops sn)"
  unfolding adopt_and_settle_def by (intro account_intros rexec_account adopt_account cancel_stop_keeps)

lemma submit_attempts_account: "keeps (rv_account I) (submit_attempts ops rq sz ns)"
  by (induction ns) (auto intro!: account_intros rexec_account submit_keeps snapshot_keeps)

lemma send_account: "keeps (rv_account I) (send ops i target verdicts)"
  unfolding send_def place_order_def attempt_send_def submit_with_recovery_def submit_failed_def submit_returned_def Let_def
  by (auto intro!: account_intros rexec_account submit_attempts_account adopt_account snapshot_keeps submit_keeps
      split: sum.split option.split)

lemma exit_account: "keeps (rv_account I) (exit_position ops mark reason target sz)"
  unfolding exit_position_def by (intro account_intros send_account)

lemma shutdown_account: "keeps (rv_account I) (shutdown ops mark sz)"
  unfolding shutdown_def Let_def by (intro account_intros exit_account)

lemma replace_stop_account: "keeps (rv_account I) (replace_stop ops)"
  unfolding replace_stop_def by (intro account_intros rexec_account place_stop_keeps)

lemma check_pending_account: "keeps (rv_account I) (check_pending ops sn)"
  unfolding check_pending_def by (intro account_intros adopt_and_settle_account)

lemma on_bar_account: "keeps (rv_account I) (router_on_bar ops h sn kill pending)"
  unfolding router_on_bar_def on_target_def enter_def Let_def
  by (auto intro!: account_intros send_account exit_account shutdown_account split: prod.split option.split)

lemma on_fast_account: "keeps (rv_account I) (router_on_fast ops mark sn)"
  unfolding router_on_fast_def margin_check_def Let_def by (intro account_intros exit_account)

lemma handle_event_account: "keeps (rv_account I) (handle_event ops ev)"
  unfolding handle_event_def fill_event_def after_fill_def flattened_by_fill_def late_fill_def order_update_event_def
    apply_fill_def Let_def
  by (auto intro!: account_intros rexec_account replace_stop_account adopt_and_settle_account snapshot_keeps
      cancel_stop_keeps split: event.split prod.split option.split)

lemma shutdown_one_account: "keeps (at_venue I) (shutdown_one ops hs sn k)"
  unfolding shutdown_one_def by (intro in_router_account account_intros shutdown_account)

lemma pf_on_bar_account: "keeps (at_venue I) (pf_on_bar ops hs kill)"
  unfolding pf_on_bar_def pf_shutdown_def check_funding_def check_funding_one_def bar_one_def each_router_def Let_def
  by (auto intro!: keeps_intros at_venue_exec at_venue_upd on_known_account on_bar_account shutdown_one_account
      snapshot_keeps split: prod.split option.split)

lemma pf_on_fast_account: "keeps (at_venue I) (pf_on_fast ops marks)"
  unfolding pf_on_fast_def pnl_check_def each_router_def Let_def
  by (auto intro!: keeps_intros at_venue_exec at_venue_upd on_known_account in_router_account on_fast_account
      check_pending_account snapshot_keeps split: prod.split option.split)

lemma reconcile_account: "keeps (at_venue I) (reconcile_now ops)"
  unfolding reconcile_now_def Let_def
  by (intro keeps_intros at_venue_exec at_venue_upd snapshot_keeps reconcile_one_venue cancel_keeps cancel_stop_keeps
      place_stop_keeps) simp

lemma dispatch_account: "keeps (at_venue I) (dispatch ops ev)"
  unfolding dispatch_def each_router_def
  by (auto intro!: keeps_intros reconcile_account on_known_account in_router_account handle_event_account
      split: event.split)

lemma run_pf_account: "keeps (at_venue I) (run_pf ops c)"
  by (cases c) (auto intro!: keeps_intros pf_on_bar_account pf_on_fast_account dispatch_account reconcile_account)

lemma recover_account: "keeps (at_venue I) (recover ops :: ('x, 's, recovery_report) pop)"
proof -
  have all: "keeps (rv_venue I) (recover_all ops sn)" for sn
    by (rule recover_all_venue) (rule exchange_stop cancel_keeps)+
  have failed: "keeps (rv_venue I) (recover_failed e)" for e
    unfolding recover_failed_def Let_def by (intro keeps_intros)
  have "keeps (rv_venue I) (recover_run ops)"
    unfolding recover_run_def by (intro keeps_intros rv_cpf at_venue_exec snapshot_keeps all failed)
  then have "at_venue I (rv_pf (snd (recover_run ops \<lparr>rv_pf = p, rv_rep = empty_report, rv_cur = None\<rparr>)))"
    if "at_venue I p" for p :: "('x, 's) pf"
    using keepsD [of "rv_venue I" "recover_run ops" "\<lparr>rv_pf = p, rv_rep = empty_report, rv_cur = None\<rparr>"] that
    by (simp add: rv_venue_def)
  moreover have "snd (recover ops p) = rv_pf (snd (recover_run ops \<lparr>rv_pf = p, rv_rep = empty_report, rv_cur = None\<rparr>))"
    for p :: "('x, 's) pf" by (simp add: recover_def split: prod.split)
  ultimately show ?thesis by (simp add: keeps_def)
qed

lemma run_calls_account: "at_venue I p \<Longrightarrow> at_venue I (run_calls ops cs p)"
  by (induction cs arbitrary: p) (simp_all add: run_calls_def keepsD [OF run_pf_account])

end

section \<open>The paper account on disk\<close>

text \<open>
  What the persistence callback was last given agrees with the books of the account, up to the marks and the counter of
  the exchange ids; while it was given nothing yet, the books are still those the account started with, \<open>b\<close>.
\<close>

definition books :: "sim \<Rightarrow> dec \<times> (int \<times> sim_pos) list \<times> (int \<times> dec) list \<times> dec" where
  "books x = (sx_cash x, open_positions x, sx_stops x, sx_start_equity x)"

definition saved_current :: "dec \<times> (int \<times> sim_pos) list \<times> (int \<times> dec) list \<times> dec \<Rightarrow> sim \<Rightarrow> bool" where
  "saved_current b x \<longleftrightarrow> sx_persist x \<and>
     (case sx_saved x of None \<Rightarrow> books x = b
      | Some j \<Rightarrow> js_cash j = sx_cash x \<and> js_positions j = open_positions x \<and> js_stops j = sx_stops x \<and>
          js_start_equity j = Some (sx_start_equity x))"

lemma saved_after_save: "sx_persist x \<Longrightarrow> saved_current b (snd (sim_save x))"
  by (simp add: sim_save_def upd_def saved_current_def to_json_def open_positions_def)

lemma saved_same:
  "sx_persist y = sx_persist x \<Longrightarrow> sx_saved y = sx_saved x \<Longrightarrow> sx_cash y = sx_cash x \<Longrightarrow>
   open_positions y = open_positions x \<Longrightarrow> sx_stops y = sx_stops x \<Longrightarrow> sx_start_equity y = sx_start_equity x \<Longrightarrow>
   saved_current b y = saved_current b x"
  by (simp add: saved_current_def books_def split: option.split)

lemma open_positions_pos: "sx_pos y = sx_pos x \<Longrightarrow> open_positions y = open_positions x"
  by (simp add: open_positions_def)

text \<open>Touching a position with its own value adds at most an empty one.\<close>

lemma filter_update_same:
  "map_of m k = Some v \<Longrightarrow> filter P (AList.update k v m) = filter P m"
  "map_of m k = None \<Longrightarrow> \<not> P (k, v) \<Longrightarrow> filter P (AList.update k v m) = filter P m"
  by (induction m) (auto split: if_splits)

lemma open_positions_touch: "open_positions (set_pos iid (pos_or_new iid x) x) = open_positions x"
  by (cases "map_of (sx_pos x) iid")
    (simp_all add: open_positions_def set_pos_def pos_or_new_def new_pos_def filter_update_same)

definition persisting :: "sim \<Rightarrow> bool" where "persisting x \<longleftrightarrow> sx_persist x"

lemma position_after_returns: "\<exists>q r. position_after p delta price = Inr (q, r)"
proof -
  have "dabs new \<noteq> 0" if "dabs old < dabs new" for old new :: dec
    using that dabs_nonneg [of old] by (metis dabs_eq_0 leD)
  then show ?thesis by (auto simp: position_after_def Let_def ddiv_eq_Inr)
qed

text \<open>A fill that raises has changed nothing that is saved.\<close>

lemma apply_position_wp:
  assumes "sx_persist y = b"
  shows "wp (apply_position iid d px) (\<lambda>_ z. sx_persist z = b) (\<lambda>_ _. False) y"
  using position_after_returns [of "pos_or_new iid y" d px] assms
  by (auto simp: apply_position_def wp_simps set_pos_def)

lemma sim_fill_wp:
  "wp (sim_fill order now qty price) (\<lambda>_ y. sx_persist y = sx_persist x) (\<lambda>_ y. y = x) x"
proof -
  have rest: "wp (andthen (upd (\<lambda>x. x\<lparr>sx_cash := dsub (sx_cash x) fee\<rparr>))
      (andthen (apply_position iid d px) (ret f))) (\<lambda>_ y. sx_persist y = sx_persist x) (\<lambda>_ y. y = x) x" for fee iid d px f
    unfolding wp_andthen wp_upd wp_ret by (rule wp_mono [OF apply_position_wp]) simp_all
  show ?thesis
    unfolding sim_fill_def wp_bind wp_getr
    by (cases price) (auto simp: wp_getr wp_ret rest split: sum.split)
qed

lemma saved_cong:
  "saved_current b y \<Longrightarrow> saved_current b (y\<lparr>sx_n := m\<rparr>)" "saved_current b y \<Longrightarrow> saved_current b (y\<lparr>sx_reads := r\<rparr>)"
  "saved_current b y \<Longrightarrow> saved_current b (y\<lparr>sx_fail_queue := q\<rparr>)" "saved_current b y \<Longrightarrow> saved_current b (y\<lparr>sx_fail_next := e\<rparr>)"
  "saved_current b y \<Longrightarrow> saved_current b (set_pos i (pos_or_new i y) y)"
  using saved_same [of "set_pos i (pos_or_new i y) y" y, OF _ _ _ open_positions_touch]
  by (auto simp: saved_current_def books_def open_positions_def set_pos_def split: option.splits)

lemma saved_clock: "keeps (saved_current b) sim_clock"
  by (simp add: keeps_def sim_clock_def saved_cong)

lemma saved_mode: "keeps (saved_current b) next_mode"
  by (simp add: keeps_def next_mode_def saved_cong split: list.split)

lemma saved_saves: "(\<And>x. sx_persist (f x) = sx_persist x) \<Longrightarrow> keeps (saved_current b) (andthen (upd f) sim_save)"
  by (auto simp: keeps_def andthen_def bind_def upd_def sim_save_def saved_current_def to_json_def open_positions_def)

lemma keeps_get_upd:
  "(\<And>x. P x \<Longrightarrow> P (g (f x) x)) \<Longrightarrow> (\<And>a. keeps P (m a)) \<Longrightarrow> keeps P (bind (get f) (\<lambda>a. andthen (upd (g a)) (m a)))"
  by (auto simp: keeps_def bind_def get_def andthen_def upd_def)

text \<open>A fill, its events and the save.\<close>

lemma saved_fill:
  assumes "\<And>f. keeps (saved_current b) (k f)"
  shows "keeps (saved_current b) (bind (sim_fill order now qty px) (\<lambda>fill.
    andthen (upd (\<lambda>x. x\<lparr>sx_queue := sx_queue x @ evs fill\<rparr>)) (andthen sim_save (k fill))))"
  unfolding keeps_wp wp_bind
proof (intro allI impI)
  fix x assume s: "saved_current b x"
  then have p: "sx_persist x" by (simp add: saved_current_def)
  have k: "wp (k f) (\<lambda>_. saved_current b) (\<lambda>_. saved_current b) z" if "saved_current b z" for f z
    by (rule keeps_wpD [OF assms that])
  have "wp (andthen (upd (\<lambda>x. x\<lparr>sx_queue := sx_queue x @ evs f\<rparr>)) (andthen sim_save (k f)))
      (\<lambda>_. saved_current b) (\<lambda>_. saved_current b) y" if "sx_persist y" for f y
    unfolding wp_andthen wp_upd sim_save_def using that
    by (intro k) (simp add: saved_current_def to_json_def open_positions_def)
  then show "wp (sim_fill order now qty px) (\<lambda>a. wp (andthen (upd (\<lambda>x. x\<lparr>sx_queue := sx_queue x @ evs a\<rparr>))
      (andthen sim_save (k a))) (\<lambda>_. saved_current b) (\<lambda>_. saved_current b)) (\<lambda>_. saved_current b) x"
    by (intro wp_mono [OF sim_fill_wp]) (use s p in auto)
qed

lemma saved_submit: "keeps (saved_current b) (sim_submit order)"
  unfolding sim_submit_def Let_def
  by (intro keeps_intros saved_clock saved_mode saved_fill keeps_get_upd saved_cong keeps_upd)

lemma saved_snapshot: "keeps (saved_current b) sim_snapshot"
  unfolding sim_snapshot_def by (intro keeps_intros saved_clock)

lemma saved_stops: "keeps (saved_current b) (sim_place_stop iid p)" "keeps (saved_current b) (sim_cancel_stop iid)"
proof -
  have assoc: "andthen a (andthen b c) = andthen (andthen a b) c" for a b c
    by (auto simp: andthen_def bind_def fun_eq_iff split: prod.split sum.split)
  show "keeps (saved_current b) (sim_place_stop iid p)" "keeps (saved_current b) (sim_cancel_stop iid)"
    unfolding sim_place_stop_def sim_cancel_stop_def assoc
    by (intro keeps_andthen saved_saves keeps_bind saved_clock keeps_ret; simp)+
qed

interpretation paper_saved: account_frame sim_ops "saved_current b" for b
  by unfold_locales (simp_all add: sim_ops_def saved_submit saved_snapshot saved_stops sim_cancel_def keeps_ret)

text \<open>A persisted paper portfolio at the start of a session: long two units behind a stop.\<close>

definition persisted_pf :: "(sim, unit) pf" where
  "persisted_pf = (sample_pf OPEN)
     \<lparr>pf_io := sample_io\<lparr>io_ex := snd (sim_save (sample_sim\<lparr>sx_persist := True,
        sx_pos := [(6, \<lparr>sp_size = 2, sp_entry = 100, sp_funding = 0\<rparr>)], sx_stops := [(6, 85)]\<rparr>))\<rparr>\<rparr>"

text \<open>What an account rebuilt from current books has.\<close>

lemma saved_current_restored:
  "saved_current b x \<Longrightarrow> sx_saved x = Some j \<Longrightarrow> books (from_json j fee spread impact notional clock again) = books x"
  by (simp add: saved_current_def books_def from_json_def sim_init_def open_positions_def)

lemma calls_keep_books_current:
  "saved_current b (io_ex (pf_io p)) \<Longrightarrow> saved_current b (io_ex (pf_io (run_calls sim_ops cs p)))"
  using paper_saved.run_calls_account [of b p cs] by (simp add: at_venue_def)

section \<open>Shadow and live\<close>

text \<open>A fact of what an executor over the real account adds to the reader.\<close>

definition beside_reader :: "(('x, 'e) reader_scheme \<Rightarrow> bool) \<Rightarrow> bool" where
  "beside_reader Q \<longleftrightarrow> (\<forall>l x ids n. Q (l\<lparr>lv_session := x\<rparr>) = Q l \<and> Q (l\<lparr>lv_stop_ids := ids\<rparr>) = Q l \<and> Q (l\<lparr>lv_reads := n\<rparr>) = Q l)"

lemma beside_reader_facts: "beside_reader (\<lambda>_. True)" "beside_reader (\<lambda>l. lv_gate l = g)"
  by (simp_all add: beside_reader_def)

lemma keeps_lses: "keeps P m \<Longrightarrow> beside_reader Q \<Longrightarrow> keeps (\<lambda>l. P (lv_session l) \<and> Q l) (lses m)"
  by (auto simp: keeps_def lses_def focus_def beside_reader_def split: prod.split)

lemma keeps_lclock: "beside_reader Q \<Longrightarrow> keeps (\<lambda>l. P (lv_session l) \<and> Q l) lclock"
  by (simp add: keeps_def lclock_def beside_reader_def)

lemma keeps_stop_ids:
  "beside_reader Q \<Longrightarrow> keeps (\<lambda>l. P (lv_session l) \<and> Q l) (upd (\<lambda>l. l\<lparr>lv_stop_ids := f l\<rparr>))"
  by (rule keeps_upd) (simp add: beside_reader_def)

lemma live_snapshot_keeps:
  assumes "keeps P (ss_portfolio s)" "keeps P (ss_open_orders s)" "beside_reader Q"
  shows "keeps (\<lambda>l. P (lv_session l) \<and> Q l) (live_snapshot s)"
  unfolding live_snapshot_def Let_def
  by (intro keeps_intros keeps_lses keeps_lclock keeps_stop_ids assms)

lemma shadow_frame:
  assumes "keeps P (ss_portfolio s)" "keeps P (ss_open_orders s)"
  shows "account_frame (shadow_ops s) (\<lambda>l. P (lv_session l))"
  using live_snapshot_keeps [OF assms beside_reader_facts(1)]
  by unfold_locales (simp_all add: shadow_ops_def shadow_refuse_def keeps_raise keeps_ret)

text \<open>The operations of a session other than placing an order.\<close>

definition keeps_but_orders :: "('x \<Rightarrow> bool) \<Rightarrow> 'x session \<Rightarrow> bool" where
  "keeps_but_orders P s \<longleftrightarrow> keeps P (ss_portfolio s) \<and> keeps P (ss_open_orders s) \<and> (\<forall>cid. keeps P (ss_cancel_cid s cid)) \<and>
     (\<forall>n. keeps P (ss_cancel_id s n)) \<and> (\<forall>iid trigger. keeps P (ss_place_stop s iid trigger))"

lemma live_submit_closed:
  assumes "\<And>iid. \<not> gd_allowed (g iid)"
  shows "keeps (\<lambda>l. P (lv_session l) \<and> lv_gate l = g) (live_submit s rq)"
  using assms by (auto simp: keeps_def live_submit_def bind_def get_def raise_def)

lemma live_frame:
  assumes "keeps_but_orders P s" "\<And>iid. \<not> gd_allowed (g iid)"
  shows "account_frame (live_ops s) (\<lambda>l. P (lv_session l) \<and> lv_gate l = g)"
proof -
  have k: "keeps P (ss_portfolio s)" "keeps P (ss_open_orders s)" "keeps P (ss_cancel_cid s cid)"
    "keeps P (ss_cancel_id s n)" "keeps P (ss_place_stop s iid trigger)" for cid n iid trigger
    using assms(1) by (simp_all add: keeps_but_orders_def)
  show ?thesis
    by unfold_locales
      (auto simp: live_ops_def live_cancel_def live_place_stop_def live_cancel_stop_def live_submit_closed assms(2)
        intro!: keeps_intros keeps_lses keeps_lclock live_snapshot_keeps keeps_stop_ids beside_reader_facts k)
qed

text \<open>A session that writes down what it is asked to write.\<close>

definition logging_session :: "string list session" where
  "logging_session = \<lparr>ss_portfolio = ret \<lparr>xf_positions = [\<lparr>xp_instrument = 6, xp_size = 2, xp_entry = 100, xp_value = 200,
       xp_leverage = 5, xp_liq_price = Some 85, xp_unrealised = 0, xp_funding = 0\<rparr>], xf_account_value = 1000, xf_in_liquidation = False\<rparr>,
     ss_open_orders = ret [], ss_place_order = (\<lambda>_ _ _ _ cid. andthen (upd (\<lambda>l. l @ [cid])) (ret \<lparr>xl_id = Some 1, xl_status = Some ''filled''\<rparr>)),
     ss_cancel_cid = (\<lambda>cid. upd (\<lambda>l. l @ [''cancel''])), ss_cancel_id = (\<lambda>n. ret ()),
     ss_place_stop = (\<lambda>iid trigger. ret (Some 2)), ss_arm = (\<lambda>_. ret ()), ss_close = ret ()\<rparr>"

definition live_pf :: "(int \<Rightarrow> gate_decision) \<Rightarrow> (string list live, unit) pf" where
  "live_pf gate = \<lparr>pf_run = ''r'', pf_routers = [(6, sample_router\<lparr>rt_state := OPEN, rt_size := 2, rt_entry := Some 100\<rparr>)],
     pf_start_equity = Some 1000, pf_pnl_level = None, pf_funding_seen = [], pf_refused = [],
     pf_io = \<lparr>io_db = empty_db, io_ex = \<lparr>lv_session = [], lv_stop_ids = [], lv_clock = sample_clock, lv_reads = 0,
       lv_gate = gate, lv_dead_man = seconds 60\<rparr>, io_alerts = [], io_clock = sample_clock, io_reads = 0\<rparr>\<rparr>"

text \<open>
  C38. Behind a closed lock no order leaves: while the environment variable is not exactly \<open>true\<close> or the committed evidence
  does not validate the signal, every sequence of portfolio calls and every recovery over the live executor keeps any
  property that all operations of the session other than placing an order keep. Stops can still be placed and cancelled.
\<close>

theorem closed_lock_places_no_order:
  assumes "keeps_but_orders P s" "P (lv_session (io_ex (pf_io p)))"
    and "lv_gate (io_ex (pf_io p)) = (\<lambda>iid. live_orders_allowed iid modes env None (load_validated lib f))"
    and "env LIVE_ENV_VAR \<noteq> Some ''true'' \<or> \<not> load_validated lib f"
  shows "P (lv_session (io_ex (pf_io (run_calls (live_ops s) cs p)))) \<and>
         P (lv_session (io_ex (pf_io (snd (recover (live_ops s) p)))))"
proof -
  have closed: "\<not> gd_allowed (lv_gate (io_ex (pf_io p)) iid)" for iid
    using assms(3,4) by (auto simp: live_orders_allowed_def Let_def)
  let ?I = "\<lambda>l. P (lv_session l) \<and> lv_gate l = lv_gate (io_ex (pf_io p))"
  have "at_venue ?I p" using assms(2) by (simp add: at_venue_def)
  then show ?thesis
    using account_frame.run_calls_account [OF live_frame [OF assms(1) closed]]
      keepsD [OF account_frame.recover_account [OF live_frame [OF assms(1) closed]]]
    by (fastforce simp: at_venue_def)
qed

text \<open>The orders in the log of the session are what is left to count.\<close>

lemma closed_lock_places_no_order_witness:
  "''r-6-1'' \<notin> set (lv_session (io_ex (pf_io (run_calls (live_ops logging_session) [PReconcile, PFast [(6, 85)]]
     (live_pf (\<lambda>iid. live_orders_allowed iid (\<lambda>_. None) (\<lambda>_. None) None (load_validated sample_lib sample_files)))))))"
proof -
  have "keeps_but_orders (\<lambda>l. ''r-6-1'' \<notin> set l) logging_session"
    by (auto simp: keeps_but_orders_def logging_session_def intro!: keeps_ret keeps_upd)
  from closed_lock_places_no_order [OF this, of "live_pf (\<lambda>iid. live_orders_allowed iid (\<lambda>_. None) (\<lambda>_. None) None (load_validated sample_lib sample_files))"
      "\<lambda>_. None" "\<lambda>_. None" sample_lib sample_files]
  show ?thesis by (simp add: live_pf_def)
qed

end
