(* ===== verification/Trader.thy ===== *)
theory Trader
  imports Account_Frame Feed_Laws Strategies
begin

text \<open>
  \<open>scripts/run_trader.py\<close>: one trader for the paper, shadow and live executors. How it starts (checks, executor,
  recovery, warm-up) and the iterations of its loops over one state. The loops are asyncio tasks behind the
  portfolio's lock: a run is a sequence of iterations, and the first that raises ends it.
\<close>

section \<open>Starting\<close>

datatype executor_mode = SimMode | ShadowMode | LiveMode

fun executor_name :: "executor_mode \<Rightarrow> string" where
  "executor_name SimMode = ''sim''"
| "executor_name ShadowMode = ''shadow''"
| "executor_name LiveMode = ''live''"

text \<open>No instrument has a mode: every one is reviewed by hand.\<close>

definition MODES :: "int \<rightharpoonup> execution_mode" where
  "MODES = (\<lambda>_. None)"

definition exit_code :: "int \<Rightarrow> text_t \<Rightarrow> 'a res" where
  "exit_code n msg = Inl (Exn (OtherException ''SystemExit'') (I n # msg))"

text \<open>\<open>main\<close> before anything is opened; \<open>validated\<close> is the signal flag computed when the program was loaded.\<close>

definition main_check ::
  "executor_mode \<Rightarrow> string option \<Rightarrow> int list \<Rightarrow> (string \<rightharpoonup> string) \<Rightarrow> bool \<Rightarrow> unit res" where
  "main_check mode run_id iids env validated =
     (if mode \<noteq> SimMode \<and> (case run_id of None \<Rightarrow> True | Some r \<Rightarrow> r = []) then
        exit_code 2 [S ''--executor '', S (executor_name mode), S '' needs an explicit --run-id'']
      else if mode = LiveMode \<and> list_ex (\<lambda>i. \<not> gd_allowed (live_orders_allowed i MODES env None validated)) iids then
        exit_code 2 (S ''--executor live refused: '' # concat (map gd_reason (filter (\<lambda>d. \<not> gd_allowed d)
          (map (\<lambda>i. live_orders_allowed i MODES env None validated) iids))))
      else Inr ())"

text \<open>The run id of another executor is refused: its rows and its baseline belong to another account.\<close>

definition run_owner :: "db \<Rightarrow> string \<Rightarrow> string option" where
  "run_owner d run =
     (case load_account_snapshot d run of
        Some (_, _, name) \<Rightarrow> Some name
      | None \<Rightarrow> if load_sim_account d run \<noteq> None then Some ''sim'' else None)"

definition refuse_foreign_run_id :: "db \<Rightarrow> string \<Rightarrow> string \<Rightarrow> unit res" where
  "refuse_foreign_run_id d run name =
     (case run_owner d run of
        None \<Rightarrow> Inr ()
      | Some owner \<Rightarrow>
          if owner \<noteq> name then
            exit_code 2 [S ''--executor '', S name, S '' refused: run_id '', S run, S '' already belongs to the '', S owner,
              S '' executor'']
          else Inr ())"

lemma load_saved_snapshot:
  "load_account_snapshot (save_account_snapshot run sn start name d) run = Some (sn, start, name)"
proof -
  have "find (\<lambda>r. ac_run r = run) (upsert ac_run (\<lambda>_ new. new) row rows) = Some row" if "ac_run row = run" for row rows
    using that by (induction rows) auto
  from this [of "\<lparr>ac_run = run, ac_snap = sn, ac_executor = name, ac_start_equity = start\<rparr>" "db_accounts d"]
  show ?thesis by (simp add: load_account_snapshot_def save_account_snapshot_def)
qed

text \<open>\<open>build_executor\<close>, paper: the account stored for the run, or a fresh one.\<close>

definition build_sim :: "db \<Rightarrow> string \<Rightarrow> dec \<Rightarrow> dec \<Rightarrow> (nat \<Rightarrow> time) \<Rightarrow> sim res" where
  "build_sim d run fee_rate equity clock =
     rmap (\<lambda>_.
       case load_sim_account d run of
         Some saved \<Rightarrow> from_json saved fee_rate (sb_proxy_spread_bps BAR) (sb_impact_bps BAR) (rl_notional_usd LIMITS) clock True
       | None \<Rightarrow> sim_init equity fee_rate (sb_proxy_spread_bps BAR) (sb_impact_bps BAR) (rl_notional_usd LIMITS) clock True)
       (refuse_foreign_run_id d run ''sim'')"

text \<open>
  \<open>build_executor\<close>, shadow and live: the object, a reader of the account without a gate (shadow) or the gated executor,
  then the loss-limit baseline, which is the one stored for the run or the equity of a first snapshot, stored at once.
\<close>

definition io_of :: "db \<Rightarrow> 'x \<Rightarrow> (nat \<Rightarrow> time) \<Rightarrow> 'x io" where
  "io_of d x clock = \<lparr>io_db = d, io_ex = x, io_alerts = [], io_clock = clock, io_reads = 0\<rparr>"

definition baseline :: "'x session \<Rightarrow> string \<Rightarrow> string \<Rightarrow> (('x, 'e) reader_scheme io, dec) eff" where
  "baseline s run name =
     bind (io_store (get (\<lambda>d. load_account_snapshot d run))) (\<lambda>prev.
       case prev of
         Some (_, start, _) \<Rightarrow> ret start
       | None \<Rightarrow>
           bind (io_exec (live_snapshot s)) (\<lambda>sn.
           andthen (io_store (upd (save_account_snapshot run sn (sn_equity sn) name))) (ret (sn_equity sn))))"

datatype 'x started = ShadowStarted dec "'x reader io" | LiveStarted dec "'x live io"

definition build_real ::
  "'x session \<Rightarrow> executor_mode \<Rightarrow> string \<Rightarrow> int list \<Rightarrow> (string \<rightharpoonup> string) \<Rightarrow> bool \<Rightarrow> (nat \<Rightarrow> time) \<Rightarrow> db \<Rightarrow> 'x
     \<Rightarrow> 'x started res" where
  "build_real s mode run iids env validated clock d x =
     rbind (refuse_foreign_run_id d run (executor_name mode)) (\<lambda>_.
       if mode = ShadowMode then
         (case baseline s run (executor_name mode) (io_of d (reader_init x clock) clock) of
            (Inl e, _) \<Rightarrow> Inl e
          | (Inr start, io) \<Rightarrow> Inr (ShadowStarted start io))
       else
         rbind (live_init x iids (\<lambda>i. live_orders_allowed i MODES env None validated) clock 60) (\<lambda>l.
         case baseline s run (executor_name mode) (io_of d l clock) of
           (Inl e, _) \<Rightarrow> Inl e
         | (Inr start, io) \<Rightarrow> Inr (LiveStarted start io)))"

text \<open>The refusal of a closed gate is an exit too.\<close>

definition exit_on_gate :: "'a res \<Rightarrow> 'a res" where
  "exit_on_gate r = (case r of Inl e \<Rightarrow> if exc_class e = GateClosed then exit_code 2 (S ''--executor live refused: '' # exc_msg e) else Inl e
     | Inr a \<Rightarrow> Inr a)"

text \<open>
  The database a paper trader leaves behind: \<open>persist\<close> writes the account's text under the run id each time the
  executor saves, so it holds the last text the executor gave.
\<close>

definition stored_db :: "(sim, 's) pf \<Rightarrow> db" where
  "stored_db p = (case sx_saved (io_ex (pf_io p)) of
     None \<Rightarrow> io_db (pf_io p)
   | Some text \<Rightarrow> save_sim_account (pf_run p) text (io_db (pf_io p)))"

text \<open>\<open>--params-from\<close>: the parameters a logged run chose; a text with a point is a decimal, any other value an int.\<close>

definition stored_param :: "(string \<Rightarrow> dec res) \<Rightarrow> (json \<Rightarrow> int res) \<Rightarrow> string \<times> json \<Rightarrow> (string \<times> param) res" where
  "stored_param to_dec to_int = (\<lambda>(k, v).
     case v of
       JStr s \<Rightarrow> if CHR ''.'' \<in> set s then rmap (\<lambda>x. (k, PDec x)) (to_dec s) else rmap (\<lambda>n. (k, PInt n)) (to_int v)
     | _ \<Rightarrow> rmap (\<lambda>n. (k, PInt n)) (to_int v))"

fun params_from :: "(string \<Rightarrow> dec res) \<Rightarrow> (json \<Rightarrow> int res) \<Rightarrow> string \<Rightarrow> json list \<Rightarrow> params res" where
  "params_from to_dec to_int run [] = Inl (Exn (OtherException ''SystemExit'') [S ''run_id '', S run, S '' not found in validation log''])"
| "params_from to_dec to_int run (j # js) =
     rbind (obj_of j) (\<lambda>r.
       case map_of r ''run_id'' of
         None \<Rightarrow> Inl (Exn KeyError [S ''run_id''])
       | Some v \<Rightarrow>
           if v = JStr run then
             (case map_of r ''params_chosen'' of
                None \<Rightarrow> Inl (Exn KeyError [S ''params_chosen''])
              | Some ps \<Rightarrow> rbind (obj_of ps) (rmapM (stored_param to_dec to_int)))
           else params_from to_dec to_int run js)"

section \<open>Warm-up and strategies\<close>

definition seed_bars :: "db \<Rightarrow> int \<Rightarrow> nat \<Rightarrow> time \<Rightarrow> source_type \<Rightarrow> bar list res" where
  "seed_bars d iid n now src =
     (let end_ts = floor_hour now in
      rmap (\<lambda>raw. last_n n (map (\<lambda>b. b\<lparr>br_spread_bps := sb_proxy_spread_bps BAR, br_spread_source := FromConstant\<rparr>)
              (filter br_complete raw)))
        (build_bars d iid src (end_ts - int n * 2 * HOUR) end_ts (sb_proxy_spread_bps BAR)))"

fun seed_history :: "db \<Rightarrow> time \<Rightarrow> (int \<times> nat) list \<Rightarrow> builder \<Rightarrow> (builder \<times> (int \<times> nat) list) res" where
  "seed_history d now [] b = Inr (b, [])"
| "seed_history d now ((iid, n) # rest) b =
     (if n = 0 then rmap (\<lambda>(b', seeded). (b', (iid, 0) # seeded)) (seed_history d now rest b)
      else
        rbind (seed_bars d iid n now POLYMARKET_REST) (\<lambda>bars.
        rmap (\<lambda>(b', seeded). (b', (iid, length bars) # seeded)) (seed_history d now rest (builder_seed iid bars b))))"

text \<open>Each strategy is told which side it recovered.\<close>

definition recover_strategy :: "int \<Rightarrow> ('x, 's, unit) pop" where
  "recover_strategy k =
     in_router k (bind (rget rt_size) (\<lambda>sz.
       if sz = 0 then ret () else recover_hook (if 0 < sz then 1 else - 1)))"

definition recover_strategies :: "('x, 's, unit) pop" where
  "recover_strategies = each_router recover_strategy"

text \<open>From the executor to the first loop iteration: recovery, strategies, the operator's clear, warm-up.\<close>

definition boot ::
  "'x exec_ops \<Rightarrow> int option \<Rightarrow> (int \<times> nat) list \<Rightarrow> time \<Rightarrow> ('x, 's, builder) pop" where
  "boot X clear wanted now =
     bind (recover X) (\<lambda>_.
     andthen recover_strategies
     (andthen (case clear of None \<Rightarrow> ret () | Some k \<Rightarrow> on_known k clear_halt)
     (bind (getr (\<lambda>p. seed_history (io_db (pf_io p)) now wanted (builder_init (sb_proxy_spread_bps BAR) 500))) (\<lambda>bs.
       ret (fst bs)))))"

section \<open>The loops\<close>

record ('x, 's) trader =
  tr_pf :: "('x, 's) pf"
  tr_start :: dec
  tr_builder :: builder
  tr_marks :: "(int \<times> dec) list"
  tr_queue :: "bar list"

type_synonym ('x, 's, 'a) top = "(('x, 's) trader, 'a) eff"

definition tpf :: "('x, 's, 'a) pop \<Rightarrow> ('x, 's, 'a) top" where
  "tpf m = focus tr_pf (\<lambda>p t. t\<lparr>tr_pf := p\<rparr>) m"

text \<open>\<open>on_accept\<close>: the mark, the executor, the bar builder; a closed bar goes to the executor and to the bar loop.\<close>

definition on_accept :: "'x exec_ops \<Rightarrow> tick \<Rightarrow> ('x, 's, unit) top" where
  "on_accept X t =
     andthen (upd (\<lambda>s. s\<lparr>tr_marks := AList.update (tk_instrument t) (tk_mark t) (tr_marks s)\<rparr>))
     (andthen (tpf (pexec (xo_on_tick X t)))
     (bind (get (\<lambda>s. builder_tick t (tr_builder s))) (\<lambda>(fin, b).
      andthen (upd (\<lambda>s. s\<lparr>tr_builder := b\<rparr>))
      (case fin of
         None \<Rightarrow> ret ()
       | Some br \<Rightarrow>
           andthen (tpf (pexec (xo_on_bar X br)))
             (upd (\<lambda>s. s\<lparr>tr_queue := tr_queue s @ [br]\<rparr>))))))"

definition trader_hooks :: "'x exec_ops \<Rightarrow> ('x, 's) trader feed_hooks" where
  "trader_hooks X = \<lparr>hk_accept = on_accept X, hk_reject = None, hk_clock = tpf (pio io_now)\<rparr>"

definition bar_iteration :: "'x exec_ops \<Rightarrow> mode \<Rightarrow> ('x, 's, unit) top" where
  "bar_iteration X kill_mode =
     bind (get tr_queue) (\<lambda>q.
       case q of
         [] \<Rightarrow> ret ()
       | b # rest \<Rightarrow>
           andthen (upd (\<lambda>s. s\<lparr>tr_queue := rest\<rparr>))
           (bind (tpf (pexec (xo_snapshot X))) (\<lambda>sn.
            bind (get tr_start) (\<lambda>start.
            bind (get (\<lambda>s. hist_of (tr_builder s) (br_instrument b))) (\<lambda>h.
              tpf (pf_on_bar X [(br_instrument b, h)]
                (kill_evaluate None None kill_mode (Some (sn_equity sn)) (Some start) THRESHOLDS)))))))"

text \<open>A stop that fired is dispatched before anything else can look at the account.\<close>

definition fast_iteration :: "'x exec_ops \<Rightarrow> ('x, 's, unit) top" where
  "fast_iteration X =
     andthen (tpf (pexec (xo_heartbeat X)))
     (bind (tpf (pexec (xo_poll_fills X))) (\<lambda>fills.
      andthen (forM fills (\<lambda>f. tpf (dispatch X (EvFill f))))
      (bind (get tr_marks) (\<lambda>marks.
       bind (tpf (pf_on_fast X marks)) (\<lambda>sn.
       bind (get id) (\<lambda>s.
         tpf (pio (io_store (upd (save_account_snapshot (pf_run (tr_pf s)) sn (tr_start s) (xo_name X)))))))))))"

datatype iteration = TickIn tick | BarLoop | FastLoop | ReconcileLoop | Pump event

text \<open>The feed owns the ticks it compares with; everything else is the world its callback acts on.\<close>

definition iterate ::
  "'x exec_ops \<Rightarrow> sanity_bounds \<Rightarrow> mode \<Rightarrow> iteration \<Rightarrow> (('x, 's) trader, unit) fop" where
  "iterate X bounds kill_mode it =
     (case it of
        TickIn t \<Rightarrow> feed_tick (trader_hooks X) bounds t
      | BarLoop \<Rightarrow> fworld (bar_iteration X kill_mode)
      | FastLoop \<Rightarrow> fworld (fast_iteration X)
      | ReconcileLoop \<Rightarrow> fworld (bind (tpf (reconcile_now X)) (\<lambda>_. ret ()))
      | Pump ev \<Rightarrow> fworld (tpf (dispatch X ev)))"

text \<open>The first loop to raise ends the run.\<close>

definition run_trader ::
  "'x exec_ops \<Rightarrow> sanity_bounds \<Rightarrow> mode \<Rightarrow> iteration list \<Rightarrow> (('x, 's) trader, unit) fop" where
  "run_trader X bounds kill_mode its = forM its (iterate X bounds kill_mode)"

end
