(* ===== verification/Trader_Laws.thy ===== *)
theory Trader_Laws
  imports Trader
begin

text \<open>
  What every iteration of the trader's loops keeps of the account behind its executor, and the shadow, which keeps
  whatever its two fetches keep.
\<close>

section \<open>The loops keep the account\<close>

text \<open>The rest of the executor's surface: what only the loops of the trader call.\<close>

locale trader_frame = account_frame ops I for ops :: "'x exec_ops" and I :: "'x \<Rightarrow> bool" +
  assumes heartbeat_keeps: "keeps I (xo_heartbeat ops)"
    and on_tick_keeps: "keeps I (xo_on_tick ops t)"
    and on_bar_keeps: "keeps I (xo_on_bar ops b)"
    and poll_fills_keeps: "keeps I (xo_poll_fills ops)"
begin

definition at_trader :: "('x, 's) trader feed \<Rightarrow> bool" where
  "at_trader f \<longleftrightarrow> at_venue I (tr_pf (fd_world f))"

lemma tpf_account: "keeps (at_venue I) m \<Longrightarrow> keeps (\<lambda>s. at_venue I (tr_pf s)) (tpf m)"
  by (auto simp: keeps_def tpf_def focus_def split: prod.split)

lemma world_account: "keeps (\<lambda>s. at_venue I (tr_pf s)) m \<Longrightarrow> keeps at_trader (fworld m)"
  by (auto simp: keeps_def at_trader_def fworld_def focus_def split: prod.split)

lemma trader_upd: "(\<And>s. tr_pf (f s) = tr_pf s) \<Longrightarrow> keeps (\<lambda>s. at_venue I (tr_pf s)) (upd f)"
  by (rule keeps_upd) simp

lemma pio_quiet: "keeps (at_venue I) (pio io_now)" "keeps (at_venue I) (pio (io_store m))"
  by (auto simp: keeps_def at_venue_def pio_def focus_def io_now_def io_store_def split: prod.split)

lemma fast_iteration_account: "keeps (\<lambda>s. at_venue I (tr_pf s)) (fast_iteration ops)"
  unfolding fast_iteration_def
  by (intro keeps_intros tpf_account at_venue_exec heartbeat_keeps poll_fills_keeps dispatch_account pf_on_fast_account pio_quiet)

lemma bar_iteration_account: "keeps (\<lambda>s. at_venue I (tr_pf s)) (bar_iteration ops m)"
  unfolding bar_iteration_def
  by (auto intro!: keeps_intros tpf_account at_venue_exec snapshot_keeps pf_on_bar_account trader_upd split: list.split)

lemma on_accept_account: "keeps (\<lambda>s. at_venue I (tr_pf s)) (on_accept ops t)"
  unfolding on_accept_def
  by (auto intro!: keeps_intros tpf_account at_venue_exec on_tick_keeps on_bar_keeps trader_upd split: prod.split option.split)

lemma feed_tick_account: "keeps at_trader (feed_tick (trader_hooks ops) b t)"
  unfolding feed_tick_def accept_tick_def reject_tick_def fhealth_def
  by (auto intro!: keeps_intros world_account tpf_account on_accept_account pio_quiet keeps_upd
      simp: trader_hooks_def at_trader_def split: option.split)

lemma iterate_account: "keeps at_trader (iterate ops b m it)"
  by (cases it)
    (auto simp: iterate_def intro!: keeps_intros feed_tick_account world_account fast_iteration_account bar_iteration_account
      tpf_account reconcile_account dispatch_account)

lemma run_trader_account: "keeps at_trader (run_trader ops b m its)"
  unfolding run_trader_def by (intro keeps_intros iterate_account)

lemma boot_account: "keeps (at_venue I) (boot ops clear wanted now)"
proof -
  have "keeps (at_venue I) recover_strategies"
    unfolding recover_strategies_def each_router_def recover_strategy_def
    by (intro keeps_intros in_router_account account_intros)
  then show ?thesis
    unfolding boot_def
    by (intro keeps_intros recover_account on_known_account offline_account offline_rows)
qed

end

section \<open>The shadow\<close>

text \<open>The session an executor over the real account leaves behind.\<close>

definition session_of :: "('x reader, 's) pf \<Rightarrow> 'x" where
  "session_of p = lv_session (io_ex (pf_io p))"

lemma shadow_trader:
  assumes "keeps P (ss_portfolio s)" "keeps P (ss_open_orders s)"
  shows "trader_frame (shadow_ops s) (\<lambda>l. P (lv_session l))"
  by (intro trader_frame.intro shadow_frame assms trader_frame_axioms.intro)
    (simp_all add: shadow_ops_def keeps_ret)

text \<open>
  C37. The shadow only reads: any property of the SDK session that its two fetches keep is kept by building the executor
  (the first reading for the baseline), by recovery and warm-up, and by every sequence of iterations of the trader's
  loops over the shadow executor: ticks, bars, the fast loop with its heartbeat, reconciliations and events, whether or
  not one of them raises. So nothing is placed, cancelled or armed, whatever the strategy wants.
\<close>

theorem shadow_only_reads:
  assumes "keeps P (ss_portfolio s)" "keeps P (ss_open_orders s)"
  shows "(P x \<longrightarrow> P (lv_session (io_ex (snd (baseline s run name (io_of d (reader_init x clock) clock))))))
    \<and> (P (session_of p) \<longrightarrow> P (session_of (snd (boot (shadow_ops s) clear wanted now p))))
    \<and> (P (session_of (tr_pf (fd_world f))) \<longrightarrow>
         P (session_of (tr_pf (fd_world (snd (run_trader (shadow_ops s) bounds m its f))))))"
proof -
  note frame = shadow_trader [OF assms]
  have read: "keeps (\<lambda>i :: 'a reader io. P (lv_session (io_ex i))) (io_exec (live_snapshot s))"
    using live_snapshot_keeps [OF assms beside_reader_facts(1)]
    by (auto simp: keeps_def io_exec_def focus_def split: prod.split)
  have "keeps (\<lambda>i :: 'a reader io. P (lv_session (io_ex i))) (baseline s run name)"
    unfolding baseline_def
    by (intro keeps_intros read; auto simp: keeps_def io_store_def focus_def get_def upd_def ret_def split: prod.split)
  then show ?thesis
    using keepsD [OF trader_frame.boot_account [OF frame], of p clear wanted now]
      keepsD [OF trader_frame.run_trader_account [OF frame], of f bounds m its]
    by (auto simp: keeps_def io_of_def reader_init_def at_venue_def trader_frame.at_trader_def [OF frame] session_of_def)
qed

text \<open>A shadow at the start of its loops, long two units, on a session that writes down what it is asked to write.\<close>

definition shadow_pf :: "(string list reader, unit) pf" where
  "shadow_pf = \<lparr>pf_run = ''r'', pf_routers = [(6, sample_router\<lparr>rt_state := OPEN, rt_size := 2, rt_entry := Some 100\<rparr>)],
     pf_start_equity = Some 1000, pf_pnl_level = None, pf_funding_seen = [], pf_refused = [],
     pf_io = io_of empty_db (reader_init [] sample_clock) sample_clock\<rparr>"

definition shadow_feed :: "(string list reader, unit) trader feed" where
  "shadow_feed = feed_init \<lparr>tr_pf = shadow_pf, tr_start = 1000, tr_builder = builder_init 2 500, tr_marks = [(6, 85)], tr_queue = []\<rparr>"

lemma shadow_only_reads_witness:
  "session_of (tr_pf (fd_world (snd (run_trader (shadow_ops logging_session) DEFAULT_BOUNDS Paper
     [FastLoop, ReconcileLoop, Pump (EvReconcileNow ''resync'')] shadow_feed)))) = []"
proof -
  have "keeps (\<lambda>l. l = []) (ss_portfolio logging_session)" "keeps (\<lambda>l. l = []) (ss_open_orders logging_session)"
    by (simp_all add: logging_session_def keeps_ret)
  note reads = shadow_only_reads [OF this, where f = shadow_feed, THEN conjunct2, THEN conjunct2]
  show ?thesis
    by (rule reads [THEN mp]) (simp add: shadow_feed_def feed_init_def shadow_pf_def session_of_def io_of_def reader_init_def)
qed

end
