(* ===== verification/Intake.thy ===== *)
theory Intake
  imports Market_Store Float_Stats
begin

text \<open>
  How market data comes in: interval texts (\<open>data_ingest/intervals.py\<close>), the gap check (\<open>storage/gaps.py\<close>), the
  client-side token bucket (\<open>exchange/rate_limiter.py\<close>), the adapter over the SDK (\<open>exchange/client.py\<close>) and the
  backfill (\<open>scripts/backfill.py\<close>). The SDK is not code of the repository: its models are records of the fields the
  adapter reads and its calls are parameters, any of which may raise.
\<close>

section \<open>Intervals\<close>

text \<open>The digits and the unit of \<open>^(\d+)([smhdw])$\<close>; the \<open>$\<close> also stands before a final newline.\<close>

definition unit_of :: "char \<Rightarrow> time option" where
  "unit_of c =
     (if c = CHR ''s'' \<or> c = CHR ''S'' then Some (seconds 1)
      else if c = CHR ''m'' \<or> c = CHR ''M'' then Some (minutes 1)
      else if c = CHR ''h'' \<or> c = CHR ''H'' then Some (hours 1)
      else if c = CHR ''d'' \<or> c = CHR ''D'' then Some (days 1)
      else if c = CHR ''w'' \<or> c = CHR ''W'' then Some (7 * days 1)
      else None)"

definition match_interval :: "string \<Rightarrow> (string \<times> time) option" where
  "match_interval txt =
     (let body = (if txt \<noteq> [] \<and> last txt = CHR 0x0A then butlast txt else txt) in
      if length body < 2 \<or> \<not> list_all is_digit (butlast body) then None
      else map_option (\<lambda>u. (butlast body, u)) (unit_of (last body)))"

text \<open>\<open>int\<close> refuses more than 4300 digits, \<open>timedelta\<close> a billion days.\<close>

definition parse_interval :: "string \<Rightarrow> time option res" where
  "parse_interval txt =
     (case match_interval txt of
        None \<Rightarrow> Inr None
      | Some (ds, u) \<Rightarrow>
          if 4300 < length ds then Inl (Exn ValueError [S ''Exceeds the limit (4300 digits) for integer string conversion''])
          else if days 1000000000 \<le> parse_nat ds * u then Inl (Exn (OtherException ''OverflowError'') [I (parse_nat ds)])
          else Inr (Some (parse_nat ds * u)))"

fun closed_candles :: "time \<Rightarrow> candle list \<Rightarrow> candle list res" where
  "closed_candles now [] = Inr []"
| "closed_candles now (c # cs) =
     rbind (parse_interval (cd_interval c)) (\<lambda>i.
       case i of
         None \<Rightarrow> Inl (Exn TypeError [S ''unsupported operand type(s) for +''])
       | Some d \<Rightarrow> rmap (\<lambda>rest. if cd_open_ts c + d \<le> now then c # rest else rest) (closed_candles now cs))"

section \<open>Gaps\<close>

datatype gap_table = Ticks_Table | Funding_Table | Candles_Table

text \<open>The stored instants of the window, over every source.\<close>

definition gap_stamps :: "db \<Rightarrow> int \<Rightarrow> gap_table \<Rightarrow> string option \<Rightarrow> time \<Rightarrow> time \<Rightarrow> time list res" where
  "gap_stamps d iid table interval start end_ts =
     (case table of
        Ticks_Table \<Rightarrow> Inr (sort (filter (between start end_ts)
          (map tk_exchange_ts (filter (\<lambda>t. tk_instrument t = iid) (db_ticks d)))))
      | Funding_Table \<Rightarrow> Inr (sort (filter (between start end_ts)
          (map fo_exchange_ts (filter (\<lambda>f. fo_instrument f = iid) (db_funding d)))))
      | Candles_Table \<Rightarrow>
          (case interval of
             None \<Rightarrow> Inl (Exn ValueError [S (''interval is required when table='' @ [CHR 0x27] @ ''candles'' @ [CHR 0x27])])
           | Some i \<Rightarrow> Inr (sort (filter (between start end_ts)
               (map cd_open_ts (filter (\<lambda>c. cd_instrument c = iid \<and> cd_interval c = i) (db_candles d)))))))"

definition gaps_of :: "time \<Rightarrow> time \<Rightarrow> time \<Rightarrow> time list \<Rightarrow> (time \<times> time) list" where
  "gaps_of max_gap start end_ts stamps =
     (if stamps = [] then [(start, end_ts)]
      else
        (if max_gap < hd stamps - start then [(start, hd stamps)] else []) @
        filter (\<lambda>(a, b). max_gap < b - a) (zip stamps (tl stamps)) @
        (if max_gap < end_ts - last stamps then [(last stamps, end_ts)] else []))"

definition find_gaps ::
  "db \<Rightarrow> int \<Rightarrow> gap_table \<Rightarrow> time \<Rightarrow> time \<Rightarrow> time \<Rightarrow> string option \<Rightarrow> (time \<times> time) list res" where
  "find_gaps d iid table max_gap start end_ts interval =
     rmap (gaps_of max_gap start end_ts) (gap_stamps d iid table interval start end_ts)"

section \<open>The token bucket\<close>

text \<open>Times are the floats of a monotonic clock; the bucket lives beside the clock and the sleeps it asked for.\<close>

record bucket =
  tb_rate :: rat
  tb_burst :: rat
  tb_tokens :: rat
  tb_last :: rat

record 'c paced =
  pc_bucket :: bucket
  pc_world :: 'c

text \<open>The monotonic clock and the sleep of the world the bucket was given.\<close>

record 'c timer =
  tm_clock :: "('c, rat) eff"
  tm_sleep :: "rat \<Rightarrow> ('c, unit) eff"

definition pworld :: "('c, 'a) eff \<Rightarrow> ('c paced, 'a) eff" where
  "pworld m = focus pc_world (\<lambda>c p. p\<lparr>pc_world := c\<rparr>) m"

definition bucket_new :: "rat \<Rightarrow> int \<Rightarrow> rat \<Rightarrow> bucket res" where
  "bucket_new rate burst now =
     (if rate \<le> 0 then Inl (Exn ValueError [S ''rate_per_sec must be > 0''])
      else if burst < 1 then Inl (Exn ValueError [S ''burst must be >= 1''])
      else Inr \<lparr>tb_rate = rate, tb_burst = fl (of_int burst), tb_tokens = fl (of_int burst), tb_last = now\<rparr>)"

definition refill_at :: "rat \<Rightarrow> bucket \<Rightarrow> bucket" where
  "refill_at now b = b\<lparr>tb_tokens := min (tb_burst b) (fl (tb_tokens b + fl (fl (now - tb_last b) * tb_rate b))), tb_last := now\<rparr>"

definition refill :: "'c timer \<Rightarrow> ('c paced, unit) eff" where
  "refill T = bind (pworld (tm_clock T)) (\<lambda>now. upd (\<lambda>p. p\<lparr>pc_bucket := refill_at now (pc_bucket p)\<rparr>))"

definition acquire :: "'c timer \<Rightarrow> ('c paced, rat) eff" where
  "acquire T =
     andthen (refill T)
     (bind (get pc_bucket) (\<lambda>b.
      bind (if tb_tokens b < 1 then
              let waited = fl (fl (1 - tb_tokens b) / tb_rate b) in
              andthen (pworld (tm_sleep T waited)) (andthen (refill T) (ret waited))
            else ret 0) (\<lambda>waited.
      andthen (upd (\<lambda>p. p\<lparr>pc_bucket := (pc_bucket p)\<lparr>tb_tokens := fl (tb_tokens (pc_bucket p) - 1)\<rparr>\<rparr>))
      (ret waited))))"

section \<open>The adapter: converters\<close>

text \<open>The fields of the SDK's models that the adapter reads; \<open>int\<close>, \<open>str\<close> and \<open>bool\<close> of a field of that type are the field.\<close>

record sdk_instrument =
  si_id :: int
  si_symbol :: string
  si_category :: string
  si_funding_interval :: string
  si_max_leverage :: int
  si_price_decimals :: int
  si_quantity_decimals :: int
  si_min_notional :: dec
  si_isolated_only :: bool

record sdk_tick =
  st_instrument :: int
  st_mark :: dec
  st_index :: dec
  st_last :: dec
  st_funding :: dec
  st_next_funding :: time

record sdk_ticker = sdk_tick +
  st_timestamp :: "time option"

record sdk_tick_event =
  sv_topic :: "string option"
  sv_payload :: sdk_tick
  sv_timestamp :: time
  sv_sequence :: int

record sdk_book =
  sk_instrument :: int
  sk_bids :: "(dec \<times> dec) list"
  sk_asks :: "(dec \<times> dec) list"
  sk_timestamp :: time
  sk_sequence :: "int option"

record sdk_funding =
  sf_rate :: dec
  sf_timestamp :: time

record sdk_candle =
  sc_timestamp :: time
  sc_open :: dec
  sc_high :: dec
  sc_low :: dec
  sc_close :: dec
  sc_volume :: dec
  sc_trades :: int

record sdk_fee =
  se_category :: string
  se_taker :: dec
  se_maker :: dec

definition instrument_from_rest :: "sdk_instrument \<Rightarrow> instrument" where
  "instrument_from_rest i = \<lparr>is_id = si_id i, is_symbol = si_symbol i, is_category = si_category i,
     is_funding_interval = si_funding_interval i, is_max_leverage = si_max_leverage i,
     is_price_decimals = si_price_decimals i, is_quantity_decimals = si_quantity_decimals i,
     is_min_notional = si_min_notional i, is_isolated_only = si_isolated_only i\<rparr>"

definition tick_from_rest :: "sdk_ticker \<Rightarrow> time \<Rightarrow> tick" where
  "tick_from_rest t received = \<lparr>tk_instrument = st_instrument t, tk_mark = st_mark t, tk_index = st_index t,
     tk_last = st_last t, tk_funding = st_funding t, tk_next_funding = st_next_funding t,
     tk_exchange_ts = (case st_timestamp t of None \<Rightarrow> received | Some ts \<Rightarrow> ts), tk_received_ts = received,
     tk_source = POLYMARKET_REST, tk_sequence = None\<rparr>"

definition tick_from_event :: "sdk_tick_event \<Rightarrow> time \<Rightarrow> tick" where
  "tick_from_event ev received = (let p = sv_payload ev in
     \<lparr>tk_instrument = st_instrument p, tk_mark = st_mark p, tk_index = st_index p, tk_last = st_last p,
      tk_funding = st_funding p, tk_next_funding = st_next_funding p, tk_exchange_ts = sv_timestamp ev,
      tk_received_ts = received, tk_source = POLYMARKET_WS, tk_sequence = Some (sv_sequence ev)\<rparr>)"

definition book_from_rest :: "sdk_book \<Rightarrow> time \<Rightarrow> book_snapshot" where
  "book_from_rest b received = \<lparr>bs_instrument = sk_instrument b,
     bs_bids = map (\<lambda>(p, q). \<lparr>bl_price = p, bl_quantity = q\<rparr>) (sk_bids b),
     bs_asks = map (\<lambda>(p, q). \<lparr>bl_price = p, bl_quantity = q\<rparr>) (sk_asks b), bs_exchange_ts = sk_timestamp b,
     bs_received_ts = received, bs_source = POLYMARKET_REST, bs_sequence = sk_sequence b\<rparr>"

definition funding_from_rest :: "int \<Rightarrow> sdk_funding \<Rightarrow> time \<Rightarrow> funding_obs" where
  "funding_from_rest iid fr received = \<lparr>fo_instrument = iid, fo_rate = sf_rate fr, fo_exchange_ts = sf_timestamp fr,
     fo_received_ts = received, fo_source = POLYMARKET_REST\<rparr>"

definition candle_from_rest :: "int \<Rightarrow> string \<Rightarrow> sdk_candle \<Rightarrow> time \<Rightarrow> candle" where
  "candle_from_rest iid interval c received = \<lparr>cd_instrument = iid, cd_interval = interval, cd_open_ts = sc_timestamp c,
     cd_open = sc_open c, cd_high = sc_high c, cd_low = sc_low c, cd_close = sc_close c, cd_volume = sc_volume c,
     cd_trades = sc_trades c, cd_received_ts = received, cd_source = POLYMARKET_REST\<rparr>"

definition fee_from_rest :: "sdk_fee \<Rightarrow> time \<Rightarrow> fee_schedule" where
  "fee_from_rest f fetched = \<lparr>fs_category = se_category f, fs_taker = se_taker f, fs_maker = se_maker f,
     fs_fetched_at = fetched\<rparr>"

section \<open>The adapter: calls\<close>

text \<open>
  A page of a paginated query, and the SDK's client over a world of its own. A pager is the list of the page requests
  it has to offer; one request more raises \<open>StopAsyncIteration\<close>.
\<close>

record 'i page =
  pg_items :: "'i list"
  pg_more :: bool

record 'c sdk =
  sd_timer :: "'c timer"
  sd_clock :: "('c, time) eff"
  sd_instruments :: "('c, sdk_instrument list) eff"
  sd_ticker :: "int \<Rightarrow> ('c, sdk_ticker) eff"
  sd_book :: "int \<Rightarrow> int \<Rightarrow> ('c, sdk_book) eff"
  sd_funding :: "int \<Rightarrow> time \<Rightarrow> time \<Rightarrow> ('c, sdk_funding page) eff list"
  sd_candles :: "int \<Rightarrow> string \<Rightarrow> time \<Rightarrow> time \<Rightarrow> ('c, sdk_candle page) eff list"
  sd_fees :: "('c, sdk_fee list) eff"

definition limited :: "'c sdk \<Rightarrow> ('c, 'a) eff \<Rightarrow> ('c paced, 'a) eff" where
  "limited C m = bind (acquire (sd_timer C)) (\<lambda>_. pworld m)"

definition fetch_instruments :: "'c sdk \<Rightarrow> ('c paced, instrument list) eff" where
  "fetch_instruments C = bind (limited C (sd_instruments C)) (\<lambda>raw. ret (map instrument_from_rest raw))"

definition fetch_ticker :: "'c sdk \<Rightarrow> int \<Rightarrow> ('c paced, tick) eff" where
  "fetch_ticker C iid =
     bind (limited C (sd_ticker C iid)) (\<lambda>raw. bind (pworld (sd_clock C)) (\<lambda>now. ret (tick_from_rest raw now)))"

definition fetch_book :: "'c sdk \<Rightarrow> int \<Rightarrow> int \<Rightarrow> ('c paced, book_snapshot) eff" where
  "fetch_book C iid depth =
     bind (limited C (sd_book C iid depth)) (\<lambda>raw. bind (pworld (sd_clock C)) (\<lambda>now. ret (book_from_rest raw now)))"

text \<open>\<open>while True\<close> over the pages: a token per page.\<close>

fun all_pages :: "'c sdk \<Rightarrow> ('i \<Rightarrow> 'a) \<Rightarrow> ('c, 'i page) eff list \<Rightarrow> ('c paced, 'a list) eff" where
  "all_pages C conv [] = bind (acquire (sd_timer C)) (\<lambda>_. raise (Exn (OtherException ''StopAsyncIteration'') []))"
| "all_pages C conv (p # ps) =
     bind (limited C p) (\<lambda>pg.
       if pg_more pg then bind (all_pages C conv ps) (\<lambda>rest. ret (map conv (pg_items pg) @ rest))
       else ret (map conv (pg_items pg)))"

definition fetch_funding_history :: "'c sdk \<Rightarrow> int \<Rightarrow> time \<Rightarrow> time \<Rightarrow> ('c paced, funding_obs list) eff" where
  "fetch_funding_history C iid start end_ts =
     bind (pworld (sd_clock C)) (\<lambda>now. all_pages C (\<lambda>fr. funding_from_rest iid fr now) (sd_funding C iid start end_ts))"

definition fetch_candles :: "'c sdk \<Rightarrow> int \<Rightarrow> string \<Rightarrow> time \<Rightarrow> time \<Rightarrow> ('c paced, candle list) eff" where
  "fetch_candles C iid interval start end_ts =
     bind (pworld (sd_clock C)) (\<lambda>now. all_pages C (\<lambda>c. candle_from_rest iid interval c now) (sd_candles C iid interval start end_ts))"

definition fetch_fees :: "'c sdk \<Rightarrow> ('c paced, fee_schedule list) eff" where
  "fetch_fees C =
     bind (limited C (sd_fees C)) (\<lambda>raw. bind (pworld (sd_clock C)) (\<lambda>now. ret (map (\<lambda>e. fee_from_rest e now) raw)))"

text \<open>The stream: the events of other topics are passed over.\<close>

fun stream_ticks :: "'c sdk \<Rightarrow> sdk_tick_event list \<Rightarrow> ('c paced, tick list) eff" where
  "stream_ticks C [] = ret []"
| "stream_ticks C (ev # evs) =
     (if sv_topic ev \<noteq> Some ''perps.tickers'' then stream_ticks C evs
      else bind (pworld (sd_clock C)) (\<lambda>now. bind (stream_ticks C evs) (\<lambda>ts. ret (tick_from_event ev now # ts))))"

section \<open>The backfill\<close>

record 'c backfill =
  bf_db :: db
  bf_client :: "'c paced"
  bf_slept :: "rat list"

definition bclient :: "('c paced, 'a) eff \<Rightarrow> ('c backfill, 'a) eff" where
  "bclient m = focus bf_client (\<lambda>c b. b\<lparr>bf_client := c\<rparr>) m"

text \<open>\<open>TRANSIENT_ERRORS\<close>; what the server suggests is an attribute of the exception, read by a parameter.\<close>

definition transient :: "exn \<Rightarrow> bool" where
  "transient e \<longleftrightarrow> exc_class e \<in> {OtherException ''RateLimitError'', OtherException ''TimeoutError'', OtherException ''TransportError''}"

definition MAX_ATTEMPTS :: nat where "MAX_ATTEMPTS = 3"
definition RETRY_SLEEP :: rat where "RETRY_SLEEP = 60"

definition runtime_error :: "text_t \<Rightarrow> exn" where
  "runtime_error msg = Exn (OtherException ''RuntimeError'') msg"

text \<open>\<open>sum\<close> over the inserts: how many were new.\<close>

definition insert_all :: "('r \<Rightarrow> db \<Rightarrow> bool \<times> db) \<Rightarrow> 'r list \<Rightarrow> ('c backfill, nat) eff" where
  "insert_all ins rows = (\<lambda>b.
     let (n, d) = foldl (\<lambda>(n, d) r. let (new, d') = ins r d in (if new then Suc n else n, d')) (0, bf_db b) rows in
     (Inr n, b\<lparr>bf_db := d\<rparr>))"

definition try_window :: "'c sdk \<Rightarrow> int \<Rightarrow> string \<Rightarrow> time \<times> time \<Rightarrow> time \<Rightarrow> ('c backfill, nat \<times> nat) eff" where
  "try_window C iid interval w now =
     bind (bclient (fetch_funding_history C iid (fst w) (snd w))) (\<lambda>fs.
     bind (insert_all insert_funding fs) (\<lambda>n_f.
     bind (bclient (fetch_candles C iid interval (fst w) (snd w))) (\<lambda>cs.
     bind (lift (closed_candles now cs)) (\<lambda>done_cs.
     bind (insert_all insert_candle done_cs) (\<lambda>n_c. ret (n_f, n_c))))))"

definition retry_wait :: "(exn \<Rightarrow> rat option) \<Rightarrow> exn \<Rightarrow> rat" where
  "retry_wait retry_after e = (case retry_after e of None \<Rightarrow> RETRY_SLEEP | Some s \<Rightarrow> if s = 0 then RETRY_SLEEP else s)"

fun window_attempts ::
  "'c sdk \<Rightarrow> (exn \<Rightarrow> rat option) \<Rightarrow> int \<Rightarrow> string \<Rightarrow> time \<times> time \<Rightarrow> time \<Rightarrow> nat list \<Rightarrow> ('c backfill, nat \<times> nat) eff" where
  "window_attempts C ra iid interval w now [] = raise (runtime_error [S ''window '', I (fst w), S ''..'', I (snd w), S '' exhausted retries''])"
| "window_attempts C ra iid interval w now (k # ks) =
     bind (attempt (bind (try_window C iid interval w now) (\<lambda>n. ret (Some n)))
        (\<lambda>e. if transient e then
                if k = MAX_ATTEMPTS then ret None
                else andthen (upd (\<lambda>b. b\<lparr>bf_slept := bf_slept b @ [retry_wait ra e]\<rparr>)) (ret None)
              else raise e)) (\<lambda>got.
       case got of
         Some n \<Rightarrow> ret n
       | None \<Rightarrow> if k = MAX_ATTEMPTS then window_attempts C ra iid interval w now [] else window_attempts C ra iid interval w now ks)"

definition fetch_window :: "'c sdk \<Rightarrow> (exn \<Rightarrow> rat option) \<Rightarrow> int \<Rightarrow> string \<Rightarrow> time \<times> time \<Rightarrow> time \<Rightarrow> ('c backfill, nat \<times> nat) eff" where
  "fetch_window C ra iid interval w now = window_attempts C ra iid interval w now [1..<Suc MAX_ATTEMPTS]"

text \<open>The windows of a day each that the loop walks through.\<close>

function day_windows :: "time \<Rightarrow> time \<Rightarrow> (time \<times> time) list" where
  "day_windows start end_ts =
     (if start < end_ts then
        let stop = min (start + days 1) end_ts in (start, stop) # day_windows stop end_ts
      else [])"
  by pat_completeness auto
termination
  by (relation "measure (\<lambda>(s, e). nat (e - s))") (auto simp: days_def)

declare day_windows.simps [simp del]

record window_tally =
  wt_funding :: nat
  wt_candles :: nat
  wt_failed :: "(time \<times> time) list"
  wt_aborted :: bool

fun run_windows ::
  "'c sdk \<Rightarrow> (exn \<Rightarrow> rat option) \<Rightarrow> int \<Rightarrow> string \<Rightarrow> time \<Rightarrow> (time \<times> time) list \<Rightarrow> window_tally \<Rightarrow> ('c backfill, window_tally) eff" where
  "run_windows C ra iid interval now [] tally = ret tally"
| "run_windows C ra iid interval now (w # ws) tally =
     bind (attempt (bind (fetch_window C ra iid interval w now) (\<lambda>(n_f, n_c).
            ret (tally\<lparr>wt_funding := wt_funding tally + n_f, wt_candles := wt_candles tally + n_c\<rparr>)))
        (\<lambda>e. if exc_class e = OtherException ''RuntimeError'' then ret (tally\<lparr>wt_failed := wt_failed tally @ [w]\<rparr>)
              else ret (tally\<lparr>wt_aborted := True\<rparr>))) (\<lambda>tally'.
       if wt_aborted tally' then ret tally' else run_windows C ra iid interval now ws tally')"

text \<open>What is printed of one instrument.\<close>

record backfill_report =
  bp_instrument :: int
  bp_tally :: window_tally
  bp_funding_gaps :: "(time \<times> time) list option"
  bp_candle_gaps :: "(time \<times> time) list"

definition report_gaps :: "db \<Rightarrow> instrument \<Rightarrow> string \<Rightarrow> time \<Rightarrow> time \<Rightarrow> window_tally \<Rightarrow> backfill_report res" where
  "report_gaps d inst interval start end_ts tally =
     rbind (parse_interval (is_funding_interval inst)) (\<lambda>fi.
     rbind (case fi of None \<Rightarrow> Inr None
            | Some i \<Rightarrow> rmap Some (find_gaps d (is_id inst) Funding_Table (2 * i) start end_ts None)) (\<lambda>fgaps.
     rbind (parse_interval interval) (\<lambda>ci.
     case ci of
       None \<Rightarrow> Inl (Exn TypeError [S ''unsupported operand type(s) for *''])
     | Some i \<Rightarrow> rmap (\<lambda>cgaps. \<lparr>bp_instrument = is_id inst, bp_tally = tally, bp_funding_gaps = fgaps, bp_candle_gaps = cgaps\<rparr>)
         (find_gaps d (is_id inst) Candles_Table (2 * i) start end_ts (Some interval)))))"

text \<open>The instruments in turn; the flag says that one was aborted.\<close>

fun backfill_each ::
  "'c sdk \<Rightarrow> (exn \<Rightarrow> rat option) \<Rightarrow> (int \<rightharpoonup> instrument) \<Rightarrow> string \<Rightarrow> time \<Rightarrow> time \<Rightarrow> int list
   \<Rightarrow> ('c backfill, backfill_report list \<times> bool) eff" where
  "backfill_each C ra insts interval start end_ts [] = ret ([], False)"
| "backfill_each C ra insts interval start end_ts (iid # iids) =
     (case insts iid of
        None \<Rightarrow> backfill_each C ra insts interval start end_ts iids
      | Some inst \<Rightarrow>
          bind (run_windows C ra iid interval end_ts (day_windows start end_ts)
              \<lparr>wt_funding = 0, wt_candles = 0, wt_failed = [], wt_aborted = False\<rparr>) (\<lambda>tally.
          if wt_aborted tally then ret ([], True)
          else
            bind (getr (\<lambda>b. report_gaps (bf_db b) inst interval start end_ts tally)) (\<lambda>rep.
            bind (backfill_each C ra insts interval start end_ts iids) (\<lambda>(reps, aborted). ret (rep # reps, aborted)))))"

text \<open>\<open>main\<close> on the parsed arguments: exit code 1 when a window was left out.\<close>

definition backfill_main ::
  "'c sdk \<Rightarrow> (exn \<Rightarrow> rat option) \<Rightarrow> int list \<Rightarrow> string \<Rightarrow> int \<Rightarrow> time \<Rightarrow> ('c backfill, backfill_report list) eff" where
  "backfill_main C ra iids interval n now =
     bind (bclient (fetch_instruments C)) (\<lambda>raw.
     bind (backfill_each C ra (map_of (rev (map (\<lambda>i. (is_id i, i)) raw))) interval (now - days n) now iids) (\<lambda>(reps, aborted).
       if aborted \<or> list_ex (\<lambda>r. wt_failed (bp_tally r) \<noteq> []) reps
       then raise (Exn (OtherException ''SystemExit'') [I 1])
       else ret reps))"

end
