(* ===== verification/Dashboard.thy ===== *)
theory Dashboard
  imports Market_Store Exposure Evidence Intake "HOL-Library.List_Lexorder" "HOL-Library.Char_ord"
begin

text \<open>
  The read-only views over the database: the page state of \<open>dashboard/state.py\<close> and the trail of
  \<open>monitor/decision_trail.py\<close>. A number the page shows as text is the decimal it is rendered from, a number it shows as
  a float is the rounded float.
\<close>

section \<open>Account and positions\<close>

text \<open>What the page knows of an instrument: symbol and category, or nothing.\<close>

type_synonym known_instruments = "(int \<rightharpoonup> string \<times> string) option"

definition known_of :: "known_instruments \<Rightarrow> int \<Rightarrow> (string \<times> string) option" where
  "known_of insts iid = (case insts of None \<Rightarrow> None | Some m \<Rightarrow> m iid)"

definition page_name :: "known_instruments \<Rightarrow> int \<Rightarrow> text_t" where
  "page_name insts iid = (case known_of insts iid of Some (symbol, _) \<Rightarrow> [S symbol] | None \<Rightarrow> [S ''inst '', I iid])"

definition liq_price :: "dec \<Rightarrow> dec \<Rightarrow> dec res" where
  "liq_price sz entry = liquidation_price sz entry LIMITS"

definition opened_at :: "order_row list \<Rightarrow> int \<Rightarrow> time option" where
  "opened_at os iid =
     (let fills = filter (\<lambda>r. or_instrument r = iid \<and> \<not> or_reduce_only r) os in
      if fills = [] then None else Some (or_submitted_at (last fills)))"

record page_position =
  pg_instrument :: int
  pg_name :: text_t
  pg_state :: string
  pg_side :: string
  pg_size :: dec
  pg_entry :: dec
  pg_mark :: dec
  pg_pnl :: dec
  pg_liq :: dec
  pg_liq_distance :: rat
  pg_adverse :: rat
  pg_funding_paid :: rat
  pg_stop :: "dec option"
  pg_opened :: "time option"

text \<open>The running sums of the loop.\<close>

record page_sums =
  ps_rows :: "page_position list"
  ps_unreal :: dec
  ps_gross :: dec
  ps_clusters :: "(string \<times> dec) list"
  ps_all_known :: bool

definition ratio_or_0 :: "dec \<Rightarrow> dec \<Rightarrow> dec res" where
  "ratio_or_0 x y = (if y = 0 then Inr 0 else ddiv x y)"

definition add_cluster :: "string \<Rightarrow> dec \<Rightarrow> (string \<times> dec) list \<Rightarrow> (string \<times> dec) list" where
  "add_cluster c x m = AList.update c (dadd (case map_of m c of None \<Rightarrow> 0 | Some v \<Rightarrow> v) x) m"

definition page_position_of ::
  "db \<Rightarrow> string \<Rightarrow> known_instruments \<Rightarrow> account_snapshot \<Rightarrow> position_view \<Rightarrow> page_position res" where
  "page_position_of d run insts sn p =
     (let iid = pv_instrument p; sz = pv_size p; entry = pv_entry p in
      rbind (ddiv (pv_notional p) (dabs sz)) (\<lambda>mark.
      rbind (case pv_liq_price p of Some l \<Rightarrow> Inr l | None \<Rightarrow> liq_price sz entry) (\<lambda>liq.
      rbind (ratio_or_0 (dabs (dsub mark liq)) mark) (\<lambda>distance.
      rbind (ratio_or_0 (dsub mark entry) entry) (\<lambda>move.
      let base = dmul (dabs sz) entry in
      rbind (ratio_or_0 (dneg (pv_funding p)) base) (\<lambda>paid.
        Inr \<lparr>pg_instrument = iid, pg_name = page_name insts iid,
          pg_state = (case map_of (get_positions_local d run) iid of Some row \<Rightarrow> state_value (pr_state row) | None \<Rightarrow> state_value OPEN),
          pg_side = (if 0 < sz then ''LONG'' else ''SHORT''), pg_size = sz, pg_entry = entry, pg_mark = mark,
          pg_pnl = pv_unrealised p, pg_liq = liq, pg_liq_distance = fl distance,
          pg_adverse = fl (max 0 (if 0 < sz then dneg move else move)), pg_funding_paid = fl paid,
          pg_stop = map_of (sn_stops sn) iid, pg_opened = opened_at (list_orders_status d run Filled) iid\<rparr>))))))"

definition page_step ::
  "db \<Rightarrow> string \<Rightarrow> known_instruments \<Rightarrow> account_snapshot \<Rightarrow> page_sums \<Rightarrow> position_view \<Rightarrow> page_sums res" where
  "page_step d run insts sn s p =
     (if pv_size p = 0 then Inr s
      else
        rmap (\<lambda>row.
          let notional = pv_notional p in
          \<lparr>ps_rows = ps_rows s @ [row], ps_unreal = dadd (ps_unreal s) (pv_unrealised p),
           ps_gross = dadd (ps_gross s) notional,
           ps_clusters = (case known_of insts (pv_instrument p) of
               None \<Rightarrow> ps_clusters s
             | Some (_, category) \<Rightarrow> add_cluster (cluster_of category) (if 0 < pv_size p then notional else dneg notional) (ps_clusters s)),
           ps_all_known = (ps_all_known s \<and> known_of insts (pv_instrument p) \<noteq> None)\<rparr>)
        (page_position_of d run insts sn p))"

fun page_loop ::
  "db \<Rightarrow> string \<Rightarrow> known_instruments \<Rightarrow> account_snapshot \<Rightarrow> position_view list \<Rightarrow> page_sums \<Rightarrow> page_sums res" where
  "page_loop d run insts sn [] s = Inr s"
| "page_loop d run insts sn (p # ps) s = rbind (page_step d run insts sn s p) (page_loop d run insts sn ps)"

record page_account =
  pa_equity :: dec
  pa_start_equity :: dec
  pa_pnl :: dec
  pa_unrealized :: dec
  pa_gross :: rat
  pa_gross_limit :: rat
  pa_cluster_net :: "rat option"
  pa_cluster_limit :: rat
  pa_leverage :: int
  pa_kill_switch :: string

definition share_of_equity :: "dec \<Rightarrow> dec \<Rightarrow> rat res" where
  "share_of_equity x equity = rmap fl (ratio_or_0 x equity)"

definition worst_net :: "(string \<times> dec) list \<Rightarrow> dec" where
  "worst_net m = (if m = [] then 0 else Max (set (map (\<lambda>(_, v). dabs v) m)))"

definition account_and_positions ::
  "db \<Rightarrow> string \<Rightarrow> known_instruments \<Rightarrow> (page_account option \<times> page_position list) res" where
  "account_and_positions d run insts =
     (case load_account_snapshot d run of
        None \<Rightarrow> Inr (None, [])
      | Some (sn, start, _) \<Rightarrow>
          rbind (page_loop d run insts sn (sn_positions sn)
            \<lparr>ps_rows = [], ps_unreal = 0, ps_gross = 0, ps_clusters = [], ps_all_known = (insts \<noteq> None)\<rparr>) (\<lambda>s.
          let equity = sn_equity sn in
          rbind (if ps_all_known s then rmap Some (share_of_equity (worst_net (ps_clusters s)) equity) else Inr None) (\<lambda>cnet.
          rbind (share_of_equity (ps_gross s) equity) (\<lambda>gross.
            Inr (Some \<lparr>pa_equity = equity, pa_start_equity = start, pa_pnl = dsub equity start, pa_unrealized = ps_unreal s,
                   pa_gross = gross, pa_gross_limit = fl (xl_gross EXPOSURE), pa_cluster_net = cnet,
                   pa_cluster_limit = fl (xl_cluster_net EXPOSURE), pa_leverage = rl_max_leverage LIMITS,
                   pa_kill_switch = ''unarmed''\<rparr>, ps_rows s)))))"

section \<open>Guards\<close>

definition halted_instruments :: "db \<Rightarrow> string \<Rightarrow> int list" where
  "halted_instruments d run =
     sort (map fst (filter (\<lambda>(_, row). pr_state row = HALTED \<or> pr_state row = LIQUIDATED) (get_positions_local d run)))"

fun margin_rank :: "level \<Rightarrow> nat" where
  "margin_rank WARN = 1"
| "margin_rank CRITICAL = 2"
| "margin_rank INFO = 0"

text \<open>The worst alert level over the positions, judged from the float the page shows.\<close>

definition margin_step :: "time \<Rightarrow> level option \<Rightarrow> page_position \<Rightarrow> level option" where
  "margin_step now best p =
     (case margin_alert (repr_dec (pg_liq_distance p)) (pg_instrument p) now ALERT_THRESHOLDS of
        None \<Rightarrow> best
      | Some a \<Rightarrow>
          if (case best of None \<Rightarrow> 0 | Some l \<Rightarrow> margin_rank l) < margin_rank (al_level a) then Some (al_level a) else best)"

text \<open>The keys of a stored report; \<open>len\<close> of the dict counts them.\<close>

definition report_keys :: "recovery_report \<Rightarrow> string list" where
  "report_keys rep = [''adopted'', ''abandoned'', ''cancelled'', ''stops_replaced'', ''unknown_positions'',
     ''adopted_untracked'', ''states'', ''failed'']"

record page_guards =
  gu_margin :: "level option"
  gu_liquidation_breach :: bool
  gu_exposure_breach :: bool
  gu_halted :: "int list"
  gu_reconciliation :: "(nat \<times> time) option"

definition page_guards_of :: "db \<Rightarrow> string \<Rightarrow> page_account option \<Rightarrow> page_position list \<Rightarrow> time \<Rightarrow> page_guards" where
  "page_guards_of d run account positions now =
     \<lparr>gu_margin = foldl (margin_step now) None positions,
      gu_liquidation_breach = list_ex (\<lambda>p. pg_liq_distance p < fl (rl_min_liq_distance LIMITS)) positions,
      gu_exposure_breach = (case account of
          None \<Rightarrow> False
        | Some a \<Rightarrow> fl (xl_gross EXPOSURE) < pa_gross a \<or>
            (case pa_cluster_net a of None \<Rightarrow> False | Some c \<Rightarrow> fl (xl_cluster_net EXPOSURE) < c)),
      gu_halted = halted_instruments d run,
      gu_reconciliation = (let rs = list_recovery d run in
        if rs = [] then None else Some (length (report_keys (snd (last rs))), fst (last rs)))\<rparr>"

section \<open>Decisions and alerts\<close>

text \<open>\<open>sort(reverse=True)\<close> keeps the order of equal elements.\<close>

definition recent_decisions :: "db \<Rightarrow> string \<Rightarrow> int list \<Rightarrow> nat \<Rightarrow> decision_row list" where
  "recent_decisions d run iids limit =
     take limit (sort_key (\<lambda>r. - dr_ts r) (concat (map (list_decisions d run) iids)))"

definition recent_alerts :: "db \<Rightarrow> string \<Rightarrow> nat \<Rightarrow> alert list" where
  "recent_alerts d run limit = take limit (rev (list_alerts d run))"

definition is_clean :: "db \<Rightarrow> string \<Rightarrow> bool" where
  "is_clean d run \<longleftrightarrow> halted_instruments d run = [] \<and> list_all (\<lambda>a. al_level a \<noteq> CRITICAL) (list_alerts d run)"

section \<open>The feed\<close>

definition TICK_GAP :: time where "TICK_GAP = seconds 30"
definition FUNDING_GAP :: time where "FUNDING_GAP = hours 2"
definition FEED_WINDOW :: time where "FEED_WINDOW = hours 48"
definition TICK_WINDOW :: time where "TICK_WINDOW = minutes 30"

text \<open>\<open>total_seconds()\<close>.\<close>

definition secs_of :: "time \<Rightarrow> rat" where
  "secs_of t = fl (of_int t / 1000000)"

text \<open>
  The gap count SQLite computes. \<open>apart a b\<close> is what its date functions make of two stored instants: the seconds from
  \<open>a\<close> to \<open>b\<close> as a float. The first row has no predecessor and counts nothing.
\<close>

definition internal_gaps :: "(time \<Rightarrow> time \<Rightarrow> rat) \<Rightarrow> rat \<Rightarrow> time list \<Rightarrow> nat" where
  "internal_gaps apart limit stamps = length (filter (\<lambda>(a, b). fl (limit + fl (1 / 1000000)) < apart a b) (zip stamps (tl stamps)))"

definition count_gaps_of :: "(time \<Rightarrow> time \<Rightarrow> rat) \<Rightarrow> time \<Rightarrow> time \<Rightarrow> time \<Rightarrow> time list \<Rightarrow> nat" where
  "count_gaps_of apart max_gap start end_ts stamps =
     (if stamps = [] then 1
      else
        let limit = secs_of max_gap in
        internal_gaps apart limit stamps
          + (if limit < secs_of (hd stamps - start) then 1 else 0)
          + (if limit < secs_of (end_ts - last stamps) then 1 else 0))"

definition count_gaps :: "(time \<Rightarrow> time \<Rightarrow> rat) \<Rightarrow> db \<Rightarrow> int \<Rightarrow> gap_table \<Rightarrow> time \<Rightarrow> time \<Rightarrow> time \<Rightarrow> nat res" where
  "count_gaps apart d iid table max_gap start end_ts =
     (if table = Candles_Table then Inl (Exn KeyError [S ''candles''])
      else rmap (count_gaps_of apart max_gap start end_ts) (gap_stamps d iid table None start end_ts))"

definition newest_of :: "time list \<Rightarrow> time option" where
  "newest_of ts = (if ts = [] then None else Some (Max (set ts)))"

record page_feed_row =
  pf_instrument :: int
  pf_tick_age :: "rat option"
  pf_last_funding :: "time option"

record page_feed =
  pf_rows :: "page_feed_row list"
  pf_tick_gaps :: nat
  pf_funding_gaps :: nat
  pf_rejections :: nat

definition page_feed_one :: "(time \<Rightarrow> time \<Rightarrow> rat) \<Rightarrow> db \<Rightarrow> time \<Rightarrow> page_feed \<Rightarrow> int \<Rightarrow> page_feed res" where
  "page_feed_one apart d now s iid =
     (let start = now - FEED_WINDOW in
      rbind (count_gaps apart d iid Ticks_Table TICK_GAP (now - TICK_WINDOW) now) (\<lambda>tg.
      rbind (count_gaps apart d iid Funding_Table FUNDING_GAP start now) (\<lambda>fg.
        Inr \<lparr>pf_rows = pf_rows s @ [\<lparr>pf_instrument = iid,
             pf_tick_age = map_option (\<lambda>t. secs_of (now - t))
               (newest_of (map tk_exchange_ts (filter (\<lambda>t. tk_instrument t = iid) (db_ticks d)))),
             pf_last_funding = newest_of (map fo_exchange_ts (filter (\<lambda>f. fo_instrument f = iid) (db_funding d)))\<rparr>],
           pf_tick_gaps = pf_tick_gaps s + tg, pf_funding_gaps = pf_funding_gaps s + fg,
           pf_rejections = pf_rejections s
             + length (filter (\<lambda>r. rj_instrument r = iid \<and> start \<le> rj_at r) (db_rejections d))\<rparr>)))"

fun page_feed_loop :: "(time \<Rightarrow> time \<Rightarrow> rat) \<Rightarrow> db \<Rightarrow> time \<Rightarrow> int list \<Rightarrow> page_feed \<Rightarrow> page_feed res" where
  "page_feed_loop apart d now [] s = Inr s"
| "page_feed_loop apart d now (iid # iids) s = rbind (page_feed_one apart d now s iid) (page_feed_loop apart d now iids)"

definition page_feed_of :: "(time \<Rightarrow> time \<Rightarrow> rat) \<Rightarrow> db \<Rightarrow> int list \<Rightarrow> time \<Rightarrow> page_feed res" where
  "page_feed_of apart d iids now =
     page_feed_loop apart d now iids \<lparr>pf_rows = [], pf_tick_gaps = 0, pf_funding_gaps = 0, pf_rejections = 0\<rparr>"

section \<open>The run\<close>

definition PAPER_DAYS_TARGET :: int where "PAPER_DAYS_TARGET = 14"

definition started_at :: "db \<Rightarrow> string \<Rightarrow> time option" where
  "started_at d run =
     (let stamps = map dr_ts (filter (\<lambda>r. dr_run r = run) (db_decisions d))
        @ map or_submitted_at (filter (\<lambda>r. or_run r = run) (db_orders d))
        @ map (\<lambda>(_, a). al_ts a) (filter (\<lambda>(r, _). r = run) (db_alerts d)) in
      if stamps = [] then None else Some (Min (set stamps)))"

text \<open>The main run and its siblings \<open>main-\<dots>\<close>, the main one first.\<close>

definition list_runs :: "db \<Rightarrow> string \<Rightarrow> string list" where
  "list_runs d main =
     main # sort (filter (\<lambda>r. take (length main + 1) r = main @ ''-'') (map ac_run (db_accounts d)))"

record page_run =
  pn_run :: string
  pn_executor :: string
  pn_hypothesis :: string
  pn_host :: string
  pn_started :: "time option"
  pn_uptime :: int

definition run_info :: "db \<Rightarrow> string \<Rightarrow> string \<Rightarrow> string \<Rightarrow> time \<Rightarrow> page_run" where
  "run_info d run hypothesis host now =
     \<lparr>pn_run = run, pn_executor = (case load_account_snapshot d run of Some (_, _, name) \<Rightarrow> name | None \<Rightarrow> ''sim''),
      pn_hypothesis = hypothesis, pn_host = host, pn_started = started_at d run,
      pn_uptime = max 0 (case started_at d run of None \<Rightarrow> 0
        | Some t \<Rightarrow> (if t \<le> now then \<lfloor>secs_of (now - t)\<rfloor> else \<lceil>secs_of (now - t)\<rceil>))\<rparr>"

record page_road =
  pr_days :: rat
  pr_days_required :: int
  pr_periods :: int
  pr_periods_required :: int
  pr_paper_days :: rat
  pr_paper_days_target :: int
  pr_clean :: bool

fun native_best :: "db \<Rightarrow> int \<Rightarrow> time \<Rightarrow> source_type list \<Rightarrow> dec \<times> int \<Rightarrow> (dec \<times> int) res" where
  "native_best d iid now [] best = Inr best"
| "native_best d iid now (src # srcs) best =
     rbind (check_dataset d iid src now BAR) (\<lambda>rep.
       native_best d iid now srcs (max (fst best) (sr_days rep), max (snd best) (sr_funding_periods rep)))"

definition road_to_live :: "db \<Rightarrow> string \<Rightarrow> int list \<Rightarrow> int \<Rightarrow> time \<Rightarrow> page_road res" where
  "road_to_live d run iids uptime now =
     rmap (\<lambda>(n, periods). \<lparr>pr_days = fl n, pr_days_required = sb_min_days BAR, pr_periods = periods,
         pr_periods_required = sb_min_funding_periods BAR, pr_paper_days = fl (of_int uptime / 86400),
         pr_paper_days_target = PAPER_DAYS_TARGET, pr_clean = is_clean d run\<rparr>)
       (case iids of [] \<Rightarrow> Inr (0, 0) | iid # _ \<Rightarrow> native_best d iid now NATIVE_SOURCES (0, 0))"

record page_locks =
  pk_auto :: "(int \<times> bool) list"
  pk_live_env :: bool
  pk_validated :: bool

definition page_locks_of :: "int list \<Rightarrow> (string \<rightharpoonup> string) \<Rightarrow> bool \<Rightarrow> page_locks" where
  "page_locks_of iids env validated =
     \<lparr>pk_auto = dict_of (map (\<lambda>i. (i, False)) iids), pk_live_env = (env LIVE_ENV_VAR = Some ''true''), pk_validated = validated\<rparr>"

record page =
  px_generated :: time
  px_run :: page_run
  px_account :: "page_account option"
  px_positions :: "page_position list"
  px_guards :: page_guards
  px_feed :: page_feed
  px_decisions :: "decision_row list"
  px_alerts :: "alert list"
  px_locks :: page_locks
  px_road :: page_road

definition build_state ::
  "(time \<Rightarrow> time \<Rightarrow> rat) \<Rightarrow> db \<Rightarrow> string \<Rightarrow> int list \<Rightarrow> known_instruments \<Rightarrow> string \<Rightarrow> string \<Rightarrow> time \<Rightarrow>
   (string \<rightharpoonup> string) \<Rightarrow> bool \<Rightarrow> page res" where
  "build_state apart d run iids insts hypothesis host now env validated =
     (let info = run_info d run hypothesis host now in
      rbind (account_and_positions d run insts) (\<lambda>(account, positions).
      rbind (page_feed_of apart d iids now) (\<lambda>fd.
      rbind (road_to_live d run iids (pn_uptime info) now) (\<lambda>road.
        Inr \<lparr>px_generated = now, px_run = info, px_account = account, px_positions = positions,
          px_guards = page_guards_of d run account positions now, px_feed = fd,
          px_decisions = recent_decisions d run iids 50, px_alerts = recent_alerts d run 50,
          px_locks = page_locks_of iids env validated, px_road = road\<rparr>))))"

section \<open>The trail\<close>

datatype trail_kind = TDecision | TOrder | TAlert | TRecovery

fun trail_order :: "trail_kind \<Rightarrow> nat" where
  "trail_order TDecision = 0"
| "trail_order TOrder = 1"
| "trail_order TAlert = 2"
| "trail_order TRecovery = 3"

record trail_event =
  te_ts :: time
  te_kind :: trail_kind
  te_instrument :: "int option"
  te_row :: "decision_row + order_row + alert + recovery_report"

definition trail_of :: "db \<Rightarrow> string \<Rightarrow> int \<Rightarrow> trail_event list" where
  "trail_of d run iid =
     map (\<lambda>r. \<lparr>te_ts = dr_ts r, te_kind = TDecision, te_instrument = Some iid, te_row = Inl r\<rparr>) (list_decisions d run iid)
     @ map (\<lambda>r. \<lparr>te_ts = or_updated_at r, te_kind = TOrder, te_instrument = Some iid, te_row = Inr (Inl r)\<rparr>)
         (filter (\<lambda>r. or_instrument r = iid) (list_orders d run))
     @ map (\<lambda>a. \<lparr>te_ts = al_ts a, te_kind = TAlert, te_instrument = al_instrument a, te_row = Inr (Inr (Inl a))\<rparr>)
         (filter (\<lambda>a. al_instrument a = Some iid \<or> al_instrument a = None) (list_alerts d run))
     @ map (\<lambda>(ts, rep). \<lparr>te_ts = ts, te_kind = TRecovery, te_instrument = None, te_row = Inr (Inr (Inr rep))\<rparr>)
         (list_recovery d run)"

text \<open>\<open>sort(key=(ts, order))\<close>, as two stable sorts.\<close>

definition reconstruct :: "db \<Rightarrow> string \<Rightarrow> int \<Rightarrow> trail_event list" where
  "reconstruct d run iid = sort_key te_ts (sort_key (\<lambda>e. trail_order (te_kind e)) (trail_of d run iid))"

end
