(* ===== verification/Intake_Laws.thy ===== *)
theory Intake_Laws
  imports Intake
begin

text \<open>The gap check finds every silence, the backfill walks the whole range, a window's retries are bounded.\<close>

section \<open>Intervals\<close>

text \<open>What is not an interval is no interval; what is one can still be too long for a \<open>timedelta\<close>.\<close>

lemma parse_interval_total: "match_interval txt = None \<Longrightarrow> parse_interval txt = Inr None"
  by (simp add: parse_interval_def)

lemma parse_interval_can_overflow:
  "parse_interval ''9999999999d'' = Inl (Exn (OtherException ''OverflowError'') [I 9999999999])"
  "parse_interval (''8h'' @ [CHR 0x0A]) = Inr (Some (hours 8))"
  "parse_interval ''8x'' = Inr None"
  by code_simp+

section \<open>Gaps\<close>

lemma zip_shift: "zip (s # ss) (ss @ [e]) = zip (s # ss) ss @ [(last (s # ss), e)]"
  by (induction ss arbitrary: s) auto

lemma gaps_of_points:
  "gaps_of g start e stamps =
     (if stamps = [] then [(start, e)] else filter (\<lambda>(a, b). g < b - a) (zip (start # stamps) (stamps @ [e])))"
proof (cases stamps)
  case (Cons s ss)
  have "zip (start # stamps) (stamps @ [e]) = (start, s) # zip stamps (tl stamps) @ [(last stamps, e)]"
    using zip_shift [of s ss e] by (simp add: Cons)
  then show ?thesis by (simp add: gaps_of_def Cons)
qed (simp add: gaps_of_def)

lemma silence_between_points:
  "start \<le> a \<Longrightarrow> b \<le> (e :: time) \<Longrightarrow> \<forall>s \<in> set stamps. s \<le> a \<or> b \<le> s \<Longrightarrow>
   \<exists>(x, y) \<in> set (zip (start # stamps) (stamps @ [e])). x \<le> a \<and> b \<le> y"
proof (induction stamps arbitrary: start)
  case (Cons s ss)
  show ?case
  proof (cases "b \<le> s")
    case False
    then have "\<exists>(x, y) \<in> set (zip (s # ss) (ss @ [e])). x \<le> a \<and> b \<le> y" using Cons by (intro Cons.IH) auto
    then show ?thesis by auto
  qed (use Cons.prems in auto)
qed auto

lemma silence_reported:
  assumes "start \<le> a" "b \<le> e" "g < b - a" "\<forall>s \<in> set stamps. s \<le> a \<or> b \<le> s"
  shows "\<exists>(x, y) \<in> set (gaps_of g start e stamps). x \<le> a \<and> b \<le> y"
  using silence_between_points [OF assms(1,2,4)] assms by (force simp: gaps_of_points)

lemma points_are_silent:
  "sorted (start # stamps) \<Longrightarrow> \<forall>s \<in> set stamps. s \<le> e \<Longrightarrow> (x, y) \<in> set (zip (start # stamps) (stamps @ [e])) \<Longrightarrow>
   (start :: time) \<le> x \<and> y \<le> e \<and> (\<forall>s \<in> set stamps. s \<le> x \<or> y \<le> s)"
proof (induction stamps arbitrary: start)
  case (Cons s ss)
  from Cons.prems(3) consider "x = start" "y = s" | "(x, y) \<in> set (zip (s # ss) (ss @ [e]))" by auto
  then show ?case
  proof cases
    case 2
    with Cons have "s \<le> x \<and> y \<le> e \<and> (\<forall>s \<in> set ss. s \<le> x \<or> y \<le> s)" by (intro Cons.IH) auto
    with Cons.prems(1) show ?thesis by auto
  qed (use Cons.prems in auto)
qed simp

lemma gap_stamps_window:
  "gap_stamps d iid table interval start e = Inr stamps \<Longrightarrow> sorted stamps \<and> (\<forall>s \<in> set stamps. start \<le> s \<and> s \<le> e)"
  by (auto simp: gap_stamps_def between_def split: gap_table.splits option.splits)

text \<open>
  A window of ticks in which an instrument was silent for longer than the tolerance lies inside a reported gap, and
  every gap reported is longer than the tolerance (unless the window is empty) and holds no tick.
\<close>

theorem every_silence_is_reported:
  assumes "find_gaps d iid Ticks_Table g start e i = Inr gaps" "start \<le> a" "b \<le> e" "g < b - a"
    and "\<forall>t \<in> set (db_ticks d). tk_instrument t = iid \<longrightarrow> tk_exchange_ts t \<le> a \<or> b \<le> tk_exchange_ts t"
  shows "\<exists>(x, y) \<in> set gaps. x \<le> a \<and> b \<le> y"
  using assms(1,5) silence_reported [OF assms(2-4), of "sort (filter (between start e)
      (map tk_exchange_ts (filter (\<lambda>t. tk_instrument t = iid) (db_ticks d))))"]
  by (auto simp: find_gaps_def gap_stamps_def)

theorem every_gap_is_silent:
  assumes "find_gaps d iid table g start e i = Inr gaps" "gap_stamps d iid table i start e = Inr stamps"
    and "(x, y) \<in> set gaps" "stamps \<noteq> []"
  shows "g < y - x \<and> start \<le> x \<and> y \<le> e \<and> (\<forall>s \<in> set stamps. s \<le> x \<or> y \<le> s)"
proof -
  have "(x, y) \<in> set (zip (start # stamps) (stamps @ [e]))" "g < y - x"
    using assms by (auto simp: find_gaps_def gaps_of_points)
  moreover have "sorted (start # stamps)" "\<forall>s \<in> set stamps. s \<le> e" using gap_stamps_window [OF assms(2)] by auto
  ultimately show ?thesis using points_are_silent by blast
qed

section \<open>The backfill\<close>

text \<open>The windows follow one another from the start to the end, none longer than a day.\<close>

lemma day_windows_Nil: "day_windows s e = [] \<longleftrightarrow> e \<le> s"
  by (subst day_windows.simps) (simp add: Let_def)

lemma day_windows_cover:
  "s \<le> t \<Longrightarrow> t < e \<Longrightarrow> \<exists>(a, b) \<in> set (day_windows s e). a \<le> t \<and> t < b"
proof (induction s e rule: day_windows.induct)
  case (1 s e)
  show ?case
  proof (cases "t < min (s + days 1) e")
    case True
    with 1 show ?thesis by (subst day_windows.simps) (auto simp: Let_def)
  next
    case False
    with 1 have "\<exists>(a, b) \<in> set (day_windows (min (s + days 1) e) e). a \<le> t \<and> t < b" by auto
    with 1 show ?thesis by (subst day_windows.simps) (auto simp: Let_def)
  qed
qed

lemma day_windows_short: "(a, b) \<in> set (day_windows s e) \<Longrightarrow> s \<le> a \<and> a < b \<and> b \<le> e \<and> b \<le> a + days 1"
proof (induction s e rule: day_windows.induct)
  case (1 s e)
  then show ?case
    by (subst (asm) (2) day_windows.simps) (auto simp: Let_def days_def min_def split: if_splits)
qed

text \<open>A window sleeps at most twice, and what escapes it is never a transient error.\<close>

lemma window_attempts_end:
  assumes "window_attempts C ra iid interval w now ks b = (r, b')"
    and "\<And>b r b'. try_window C iid interval w now b = (r, b') \<Longrightarrow> bf_slept b' = bf_slept b"
    and "set (butlast ks) \<subseteq> {k. k \<noteq> MAX_ATTEMPTS}" "ks \<noteq> [] \<Longrightarrow> last ks = MAX_ATTEMPTS"
  shows "length (bf_slept b') \<le> length (bf_slept b) + (length ks - 1) \<and> (\<forall>e. r = Inl e \<longrightarrow> \<not> transient e)"
  using assms(1,3,4)
proof (induction ks arbitrary: b)
  case Nil
  then show ?case by (auto simp: raise_def runtime_error_def transient_def)
next
  case (Cons k ks)
  obtain r1 b1 where t: "try_window C iid interval w now b = (r1, b1)" by fastforce
  note quiet = assms(2) [OF t]
  show ?case
  proof (cases r1)
    case (Inr n)
    with Cons.prems(1) t quiet show ?thesis by (auto simp: bind_def attempt_def ret_def)
  next
    case (Inl e)
    show ?thesis
    proof (cases "transient e")
      case False
      with Cons.prems(1) t quiet Inl show ?thesis by (auto simp: bind_def attempt_def ret_def raise_def)
    next
      case True
      note e = this
      show ?thesis
      proof (cases "k = MAX_ATTEMPTS")
        case True
        with Cons.prems(1) t quiet Inl e show ?thesis
          by (auto simp: bind_def attempt_def ret_def raise_def runtime_error_def transient_def)
      next
        case False
        then have ks: "ks \<noteq> []" using Cons.prems(3) by auto
        let ?b = "b1\<lparr>bf_slept := bf_slept b1 @ [retry_wait ra e]\<rparr>"
        have "window_attempts C ra iid interval w now ks ?b = (r, b')"
          using Cons.prems(1) t Inl e False by (simp add: bind_def attempt_def ret_def andthen_def upd_def)
        from Cons.IH [OF this] Cons.prems(2,3) ks quiet show ?thesis
          by (cases ks) auto
      qed
    qed
  qed
qed

lemma keeps_bclient: "keeps (\<lambda>b. P (bf_db b) (bf_slept b)) (bclient m)"
  by (auto simp: keeps_def bclient_def focus_def split: prod.split)

lemma keeps_insert_all:
  assumes "\<And>r d s. P d s \<Longrightarrow> P (snd (ins r d)) s"
  shows "keeps (\<lambda>b. P (bf_db b) (bf_slept b)) (insert_all ins rows)"
proof -
  have "P d s \<Longrightarrow> P (snd (foldl (\<lambda>(n, d) r. let (new, d') = ins r d in (if new then Suc n else n, d')) (n, d) rows)) s" for n d s
    by (induction rows arbitrary: n d) (use assms in \<open>auto simp: Let_def split_def\<close>)
  then show ?thesis by (auto simp: keeps_def insert_all_def Let_def split_def)
qed

lemma keeps_try_window:
  assumes "\<And>r d s. P d s \<Longrightarrow> P (snd (insert_funding r d)) s" "\<And>r d s. P d s \<Longrightarrow> P (snd (insert_candle r d)) s"
  shows "keeps (\<lambda>b. P (bf_db b) (bf_slept b)) (try_window C iid interval w now)"
  unfolding try_window_def by (intro keeps_intros keeps_bclient keeps_insert_all assms)

lemma try_window_awake: "try_window C iid interval w now b = (r, b') \<Longrightarrow> bf_slept b' = bf_slept b"
  using keeps_try_window [of "\<lambda>_ s. s = bf_slept b" C iid interval w now] by (force simp: keeps_def)

theorem window_retries_are_bounded:
  assumes "fetch_window C ra iid interval w now b = (r, b')"
  shows "length (bf_slept b') \<le> length (bf_slept b) + 2 \<and> (\<forall>e. r = Inl e \<longrightarrow> \<not> transient e)"
proof -
  have ks: "[1..<Suc MAX_ATTEMPTS] = [1, 2, 3 :: nat]" by (simp add: MAX_ATTEMPTS_def upt_rec)
  have "window_attempts C ra iid interval w now [1, 2, 3] b = (r, b')" using assms by (simp only: fetch_window_def ks)
  from window_attempts_end [OF this try_window_awake] show ?thesis by (simp add: MAX_ATTEMPTS_def)
qed

text \<open>The insertions of a window only add rows: whatever the client does, nothing stored is lost or changed.\<close>

lemma insert_grows:
  "set (db_funding d) \<subseteq> set (db_funding (snd (insert_funding f d)))" "db_candles (snd (insert_funding f d)) = db_candles d"
  "set (db_candles d) \<subseteq> set (db_candles (snd (insert_candle c d)))" "db_funding (snd (insert_candle c d)) = db_funding d"
  by (auto simp: insert_funding_def insert_candle_def insert_or_ignore_def Let_def)

lemma window_only_adds:
  "keeps (\<lambda>b. fs \<subseteq> set (db_funding (bf_db b)) \<and> cs \<subseteq> set (db_candles (bf_db b))) (window_attempts C ra iid interval w now ks)"
proof -
  let ?P = "\<lambda>d (_ :: rat list). fs \<subseteq> set (db_funding d) \<and> cs \<subseteq> set (db_candles d)"
  have one: "keeps (\<lambda>b. ?P (bf_db b) (bf_slept b)) (try_window C iid interval w now)"
    by (rule keeps_try_window [of ?P]) (simp_all add: insert_grows subset_trans [OF _ insert_grows(1)] subset_trans [OF _ insert_grows(3)])
  show ?thesis
    by (induction ks) (auto intro!: keeps_intros one keeps_upd split: option.split)
qed

end
