(* ===== verification/Dashboard_Laws.thy ===== *)
theory Dashboard_Laws
  imports Dashboard Intake_Laws
begin

text \<open>
  The dashboard against the modules whose answers it repeats: its gap counter counts the gaps of \<open>find_gaps\<close>; the trail
  holds every row once, in order; what the page says of the last recovery.
\<close>

section \<open>Counting gaps\<close>

text \<open>A float of seconds is within a microsecond of the exact number, for spans of up to a hundred million seconds.\<close>

lemma fl_near: "\<bar>x\<bar> \<le> 10 ^ 8 \<Longrightarrow> \<bar>fl x - x\<bar> \<le> 2 / 10 ^ 8"
  using fl_abs [of x "10 ^ 8"] by simp

text \<open>
  What is asked of SQLite's date functions: between stored instants on whole milliseconds they measure to half a
  microsecond. (A float of seconds since 1970 has steps of a quarter of a microsecond.)
\<close>

definition fine_clock :: "(time \<Rightarrow> time \<Rightarrow> rat) \<Rightarrow> time list \<Rightarrow> bool" where
  "fine_clock apart stamps \<longleftrightarrow>
     (\<forall>a \<in> set stamps. \<forall>b \<in> set stamps. \<bar>apart a b - of_int (b - a) / 1000000\<bar> \<le> 1 / 2000000)"

lemma millis_apart: "1000 dvd (a :: int) \<Longrightarrow> 1000 dvd b \<Longrightarrow> a < b \<Longrightarrow> a + 1000 \<le> b"
  using zdvd_imp_le [of 1000 "b - a"] by (simp add: dvd_diff)

lemma secs_near:
  assumes "\<bar>t\<bar> \<le> 10 ^ 13"
  shows "of_int t / 1000000 - 2 / 10 ^ 8 \<le> secs_of t" "secs_of t \<le> of_int t / 1000000 + 2 / 10 ^ 8"
proof -
  have "of_int \<bar>t\<bar> \<le> (of_int (10 ^ 13) :: rat)" using assms by (simp only: of_int_le_iff)
  then have "\<bar>of_int t / 1000000 :: rat\<bar> \<le> 10 ^ 8" by simp
  from fl_near [OF this] show "of_int t / 1000000 - 2 / 10 ^ 8 \<le> secs_of t" "secs_of t \<le> of_int t / 1000000 + 2 / 10 ^ 8"
    unfolding secs_of_def abs_le_iff by auto
qed

lemma secs_mono: "s \<le> t \<Longrightarrow> secs_of s \<le> secs_of t"
  unfolding secs_of_def by (rule fl_mono) (simp add: divide_right_mono)

lemma secs_less:
  assumes "1000 dvd g" "1000 dvd t" "\<bar>g\<bar> \<le> 10 ^ 13" "\<bar>t\<bar> \<le> 10 ^ 13"
  shows "secs_of g < secs_of t \<longleftrightarrow> g < t"
proof
  assume "g < t"
  then have "of_int (g + 1000) \<le> (of_int t :: rat)" using millis_apart [OF assms(1,2)] by (simp only: of_int_le_iff)
  then have "of_int g / 1000000 + 1 / 1000 \<le> (of_int t / 1000000 :: rat)" by simp
  then show "secs_of g < secs_of t" using secs_near(2) [OF assms(3)] secs_near(1) [OF assms(4)] by (simp; linarith)
next
  assume "secs_of g < secs_of t"
  then show "g < t" using secs_mono [of t g] by force
qed

text \<open>One pair of neighbours: SQLite's test with its slack of a microsecond, against the exact one.\<close>

lemma apart_less:
  assumes "\<bar>apart a b - of_int (b - a) / 1000000\<bar> \<le> 1 / 2000000" "1000 dvd a" "1000 dvd b" "1000 dvd g" "\<bar>g\<bar> \<le> 10 ^ 13"
  shows "fl (secs_of g + fl (1 / 1000000)) < apart a b \<longleftrightarrow> g < b - a"
proof -
  let ?g = "of_int g / 1000000 :: rat" and ?d = "of_int (b - a) / 1000000 :: rat" and ?u = "fl (1 / 1000000)"
  let ?l = "fl (secs_of g + ?u)"
  have clock: "?d - 1 / 2000000 \<le> apart a b" "apart a b \<le> ?d + 1 / 2000000"
    using abs_within [OF assms(1)] .
  note s = secs_near [OF assms(5)]
  have u: "1 / 1000000 - 2 / 10 ^ 8 \<le> ?u" "?u \<le> 1 / 1000000 + 2 / 10 ^ 8"
    using fl_near [of "1 / 1000000"] unfolding abs_le_iff by auto
  have "of_int \<bar>g\<bar> \<le> (of_int (10 ^ 13) :: rat)" using assms(5) by (simp only: of_int_le_iff)
  then have "\<bar>?g\<bar> \<le> 10 ^ 7" by simp
  then have "- (10 ^ 7) \<le> ?g" "?g \<le> 10 ^ 7" unfolding abs_le_iff by auto
  then have "\<bar>secs_of g + ?u\<bar> \<le> 10 ^ 8" using s u unfolding abs_le_iff by (simp; linarith)
  from fl_near [OF this] have l: "secs_of g + ?u - 2 / 10 ^ 8 \<le> ?l" "?l \<le> secs_of g + ?u + 2 / 10 ^ 8"
    unfolding abs_le_iff by auto
  show ?thesis
  proof
    assume "g < b - a"
    then have "of_int (g + 1000) \<le> (of_int (b - a) :: rat)"
      using millis_apart [of g "b - a"] assms(2-4) by (simp only: of_int_le_iff dvd_diff)
    then have "?g + 1 / 1000 \<le> ?d" by simp
    then show "?l < apart a b" using clock l s u by (simp; linarith)
  next
    assume *: "?l < apart a b"
    show "g < b - a"
    proof (rule ccontr)
      assume "\<not> g < b - a"
      then have "of_int (b - a) \<le> (of_int g :: rat)" by (simp only: of_int_le_iff not_less)
      then have "?d \<le> ?g" by (simp add: divide_right_mono)
      then show False using * clock l s u by (simp; linarith)
    qed
  qed
qed

lemma length_filter_zip_cong:
  assumes "\<And>a b. a \<in> set xs \<Longrightarrow> b \<in> set xs \<Longrightarrow> P a b = Q a b"
  shows "length (filter (\<lambda>(a, b). P a b) (zip xs (tl xs))) = length (filter (\<lambda>(a, b). Q a b) (zip xs (tl xs)))"
proof -
  have "set (tl xs) \<subseteq> set xs" by (cases xs) auto
  then have "a \<in> set xs \<and> b \<in> set xs" if "(a, b) \<in> set (zip xs (tl xs))" for a b
    using set_zip_leftD [OF that] set_zip_rightD [OF that] by blast
  then show ?thesis using assms by (intro arg_cong [where f = length] filter_cong) auto
qed

text \<open>
  C8. The gap counter of the dashboard, which runs inside SQLite so that no row is loaded, gives the number of the gaps
  that the gap check of the storage lists: for a window of at most \<open>10 ^ 13\<close> microseconds (115 days) whose stamps, ends
  and tolerance are whole milliseconds, on a clock that measures them to half a microsecond.
\<close>

theorem count_gaps_counts_find_gaps:
  assumes "gap_stamps d iid table None start e = Inr stamps" "fine_clock apart stamps"
    and "\<forall>t \<in> set (start # e # max_gap # stamps). 1000 dvd t" "start \<le> e" "e \<le> start + 10 ^ 13" "\<bar>max_gap\<bar> \<le> 10 ^ 13"
  shows "\<exists>gaps. find_gaps d iid table max_gap start e None = Inr gaps \<and> count_gaps apart d iid table max_gap start e = Inr (length gaps)"
proof -
  have "count_gaps_of apart max_gap start e stamps = length (gaps_of max_gap start e stamps)"
  proof (cases "stamps = []")
    case False
    have window: "\<forall>t \<in> set stamps. start \<le> t \<and> t \<le> e" using gap_stamps_window [OF assms(1)] by blast
    have edge: "secs_of max_gap < secs_of t \<longleftrightarrow> max_gap < t" if "1000 dvd t" "\<bar>t\<bar> \<le> 10 ^ 13" for t
      using that assms(3,6) by (intro secs_less) simp_all
    have "start \<le> hd stamps" "hd stamps \<le> e" "start \<le> last stamps" "last stamps \<le> e" using False window by auto
    then have near: "\<bar>hd stamps - start\<bar> \<le> 10 ^ 13" "\<bar>e - last stamps\<bar> \<le> 10 ^ 13" using assms(5) by auto
    have "1000 dvd hd stamps - start" "1000 dvd e - last stamps" using assms(3) False by (auto intro!: dvd_diff)
    note edges = edge [OF this(1) near(1)] edge [OF this(2) near(2)]
    have "internal_gaps apart (secs_of max_gap) stamps = length (filter (\<lambda>(a, b). max_gap < b - a) (zip stamps (tl stamps)))"
      unfolding internal_gaps_def
    proof (rule length_filter_zip_cong)
      fix a b assume "a \<in> set stamps" "b \<in> set stamps"
      then show "fl (secs_of max_gap + fl (1 / 1000000)) < apart a b \<longleftrightarrow> max_gap < b - a"
        using assms(2,3,6) by (intro apart_less) (auto simp: fine_clock_def)
    qed
    then show ?thesis using False by (simp add: edges count_gaps_of_def gaps_of_def Let_def)
  qed (simp add: count_gaps_of_def gaps_of_def)
  moreover have "table \<noteq> Candles_Table" using assms(1) by (auto simp: gap_stamps_def)
  ultimately show ?thesis using assms(1) by (simp add: count_gaps_def find_gaps_def)
qed

definition gap_tick :: "time \<Rightarrow> tick" where
  "gap_tick ts = \<lparr>tk_instrument = 6, tk_mark = 100, tk_index = 100, tk_last = 100, tk_funding = 0, tk_next_funding = 0,
     tk_exchange_ts = ts, tk_received_ts = ts, tk_source = POLYMARKET_WS, tk_sequence = None\<rparr>"

definition gap_db :: db where
  "gap_db = empty_db\<lparr>db_ticks := [gap_tick (seconds 10), gap_tick (seconds 90)]\<rparr>"

lemma count_gaps_counts_find_gaps_witness:
  "\<exists>gaps. find_gaps gap_db 6 Ticks_Table TICK_GAP 0 (seconds 100) None = Inr gaps
     \<and> count_gaps (\<lambda>a b. of_int (b - a) / 1000000) gap_db 6 Ticks_Table TICK_GAP 0 (seconds 100) = Inr (length gaps)"
proof (rule count_gaps_counts_find_gaps)
  show "gap_stamps gap_db 6 Ticks_Table None 0 (seconds 100) = Inr [seconds 10, seconds 90]" by code_simp
  show "fine_clock (\<lambda>a b. of_int (b - a) / 1000000) [seconds 10, seconds 90]" by (simp add: fine_clock_def)
  show "\<forall>t \<in> set (0 # seconds 100 # TICK_GAP # [seconds 10, seconds 90]). 1000 dvd t" by (simp add: TICK_GAP_def seconds_def)
  show "(0 :: time) \<le> seconds 100" "seconds 100 \<le> 0 + (10 :: int) ^ 13" "\<bar>TICK_GAP\<bar> \<le> 10 ^ 13" by (simp_all add: TICK_GAP_def seconds_def)
qed

section \<open>The trail\<close>

text \<open>Every row once, ordered by time; at one instant a decision, then orders, alerts, recoveries.\<close>

lemma reconstruct_rows: "set (reconstruct d run iid) = set (trail_of d run iid)" "length (reconstruct d run iid) = length (trail_of d run iid)"
  by (simp_all add: reconstruct_def)

lemma reconstruct_ordered: "sorted (map te_ts (reconstruct d run iid))"
  by (simp add: reconstruct_def)

section \<open>The last recovery\<close>

text \<open>
  The page counts the keys of the stored report, which are the same eight in every report: after any recovery it says
  eight findings, also when there was nothing to find.
\<close>

theorem page_always_counts_eight_findings:
  "list_recovery d run \<noteq> [] \<Longrightarrow> \<exists>ts. gu_reconciliation (page_guards_of d run account positions now) = Some (8, ts)"
  by (simp add: page_guards_of_def report_keys_def Let_def)

end
