(* ===== verification/Health.thy ===== *)
theory Health
  imports Settings Alerting Store "HOL-Library.List_Lexorder" "HOL-Library.Char_ord"
begin

text \<open>
  \<open>scripts/healthcheck.py\<close>: the check that systemd runs every five minutes. \<open>evaluate\<close> turns readings and the state
  of the last check into alerts and the next state; \<open>main\<close> takes the readings, sends the alerts and writes the state.
\<close>

section \<open>Readings\<close>

definition RUN_ID :: string where "RUN_ID = ''ops-health''"

definition UNITS :: "string list" where
  "UNITS = [''polyperps-feed.service'', ''polyperps-paper.service'', ''polyperps-paper@h3.service'', ''polyperps-paper@h5.service'']"

definition ONESHOTS :: "string list" where
  "ONESHOTS = [''polyperps-prune.service'', ''polyperps-backfill.service'', ''polyperps-hl-backfill.service'']"

type_synonym unit_facts = "(string \<times> string) list"

text \<open>What one check reads, the last ticks and the units in the order of their dicts.\<close>

record readings =
  hr_now :: time
  hr_disk_pct :: rat
  hr_ticks :: "(int \<times> time option) list"
  hr_units :: "(string \<times> unit_facts) list"
  hr_oneshots :: "(string \<times> string) list"
  hr_disk_limit :: rat
  hr_stale_s :: rat

text \<open>The JSON file beside the database; a missing entry is empty.\<close>

record health_state =
  hs_open :: "string list"
  hs_restarts :: "(string \<times> int) list"

definition no_health :: health_state where
  "no_health = \<lparr>hs_open = [], hs_restarts = []\<rparr>"

section \<open>Problems\<close>

record problem =
  pb_key :: string
  pb_instrument :: "int option"
  pb_detail :: "(string \<times> text_t) list"

definition text_or_none :: "string option \<Rightarrow> text_t" where
  "text_or_none v = [S (case v of None \<Rightarrow> ''None'' | Some s \<Rightarrow> s)]"

definition tick_age :: "time \<Rightarrow> time option \<Rightarrow> rat option" where
  "tick_age now ts = map_option (\<lambda>t. fl (of_int (now - t) / 1000000)) ts"

definition disk_problems :: "readings \<Rightarrow> problem list" where
  "disk_problems r =
     (if hr_disk_limit r \<le> hr_disk_pct r then
        [\<lparr>pb_key = ''disk_full'', pb_instrument = None,
          pb_detail = [(''used_pct'', [D (fl (of_int (rhe (hr_disk_pct r * 10)) / 10))]), (''limit_pct'', [D (hr_disk_limit r)])]\<rparr>]
      else [])"

definition tick_problems :: "readings \<Rightarrow> problem list" where
  "tick_problems r =
     map (\<lambda>(iid, ts). \<lparr>pb_key = ''ticks_stale:'' @ show_int iid, pb_instrument = Some iid,
         pb_detail = [(''instrument_id'', [I iid]),
           (''age_s'', case tick_age (hr_now r) ts of None \<Rightarrow> [S ''None''] | Some age \<Rightarrow> [I (rhe age)])]\<rparr>)
       (filter (\<lambda>(_, ts). case tick_age (hr_now r) ts of None \<Rightarrow> True | Some age \<Rightarrow> hr_stale_s r < age) (hr_ticks r))"

definition unit_problems :: "readings \<Rightarrow> problem list" where
  "unit_problems r =
     map (\<lambda>(u, props). \<lparr>pb_key = ''unit_down:'' @ u, pb_instrument = None,
         pb_detail = [(''unit'', [S u]), (''state'', text_or_none (map_of props ''ActiveState''))]\<rparr>)
       (filter (\<lambda>(_, props). map_of props ''ActiveState'' \<noteq> Some ''active'') (hr_units r))"

definition oneshot_problems :: "readings \<Rightarrow> problem list" where
  "oneshot_problems r =
     map (\<lambda>(u, result). \<lparr>pb_key = ''oneshot_failed:'' @ u, pb_instrument = None,
         pb_detail = [(''unit'', [S u]), (''result'', [S result])]\<rparr>)
       (filter (\<lambda>(_, result). result \<noteq> ''success'' \<and> result \<noteq> []) (hr_oneshots r))"

definition problems :: "readings \<Rightarrow> problem list" where
  "problems r = disk_problems r @ tick_problems r @ unit_problems r @ oneshot_problems r"

definition problem_keys :: "readings \<Rightarrow> string list" where
  "problem_keys r = map pb_key (problems r)"

section \<open>Alerts\<close>

definition health_alert :: "time \<Rightarrow> level \<Rightarrow> string \<Rightarrow> int option \<Rightarrow> (string \<times> text_t) list \<Rightarrow> alert" where
  "health_alert now lv key iid detail =
     \<lparr>al_level = lv, al_kind = hd (split_on (CHR '':'') key), al_instrument = iid, al_detail = detail, al_ts = now\<rparr>"

definition restarts_of :: "readings \<Rightarrow> (string \<times> int) list res" where
  "restarts_of r =
     rmapM (\<lambda>(u, props). rmap (\<lambda>n. (u, n))
       (case truthy (map_of props ''NRestarts'') of None \<Rightarrow> Inr 0 | Some txt \<Rightarrow> py_int txt)) (hr_units r)"

text \<open>A unit seen for the first time has its count as baseline; a lower count is silent.\<close>

definition restart_alerts :: "time \<Rightarrow> (string \<times> int) list \<Rightarrow> (string \<times> int) list \<Rightarrow> alert list" where
  "restart_alerts now seen counts =
     concat (map (\<lambda>(u, n).
       let before = (case map_of seen u of None \<Rightarrow> n | Some m \<Rightarrow> m) in
       if before < n then
         [health_alert now CRITICAL ''unit_restarted'' None [(''unit'', [S u]), (''restarts'', [I n]), (''new'', [I (n - before)])]]
       else []) counts)"

definition appeared :: "string list \<Rightarrow> string list \<Rightarrow> string list" where
  "appeared was keys = sort (remdups (filter (\<lambda>k. k \<notin> set was) keys))"

definition cleared :: "string list \<Rightarrow> string list \<Rightarrow> string list" where
  "cleared was keys = sort (remdups (filter (\<lambda>k. k \<notin> set keys) was))"

definition problem_alert :: "time \<Rightarrow> problem list \<Rightarrow> string \<Rightarrow> alert" where
  "problem_alert now ps k =
     (case find (\<lambda>p. pb_key p = k) ps of
        Some p \<Rightarrow> health_alert now CRITICAL k (pb_instrument p) (pb_detail p)
      | None \<Rightarrow> health_alert now CRITICAL k None [])"

definition evaluate :: "readings \<Rightarrow> health_state \<Rightarrow> (alert list \<times> health_state) res" where
  "evaluate r s =
     rmap (\<lambda>counts.
       (restart_alerts (hr_now r) (hs_restarts s) counts
          @ map (problem_alert (hr_now r) (problems r)) (appeared (hs_open s) (problem_keys r))
          @ map (\<lambda>k. health_alert (hr_now r) INFO ''recovered'' None [(''problem'', [S k])]) (cleared (hs_open s) (problem_keys r)),
        \<lparr>hs_open = sort (remdups (problem_keys r)), hs_restarts = counts\<rparr>))
       (restarts_of r)"

section \<open>Taking the readings\<close>

text \<open>\<open>splitlines\<close>, and the lines of \<open>systemctl show\<close> that have an equals sign.\<close>

definition ends_line :: "char \<Rightarrow> bool" where
  "ends_line c = (let n = of_char c :: nat in 10 \<le> n \<and> n \<le> 13 \<or> 28 \<le> n \<and> n \<le> 30 \<or> n = 133)"

function split_lines :: "string \<Rightarrow> string list" where
  "split_lines s =
     (if s = [] then []
      else
        let line = takeWhile (\<lambda>c. \<not> ends_line c) s; rest = drop (length line) s in
        line # split_lines (drop (if take 2 rest = [CHR 0x0D, CHR 0x0A] then 2 else 1) rest))"
  by pat_completeness auto
termination
  by (relation "measure length") (auto simp: Let_def length_takeWhile_le intro!: diff_less)

declare split_lines.simps [simp del]

definition unit_props :: "string \<Rightarrow> unit_facts" where
  "unit_props out =
     dict_of (map (\<lambda>l. let k = takeWhile (\<lambda>c. c \<noteq> CHR ''='') l in (k, drop (length k + 1) l))
       (filter (\<lambda>l. CHR ''='' \<in> set l) (split_lines out)))"

definition disk_used_pct :: "int \<times> int \<Rightarrow> rat res" where
  "disk_used_pct usage = (case usage of (used, free) \<Rightarrow>
     if used + free = 0 then Inl (Exn (OtherException ''ZeroDivisionError'') [S ''division by zero''])
     else Inr (fl (of_int (100 * used) / of_int (used + free))))"

definition last_tick :: "db \<Rightarrow> int \<Rightarrow> time option" where
  "last_tick d iid =
     (let ts = map tk_exchange_ts (filter (\<lambda>t. tk_instrument t = iid) (db_ticks d)) in
      if ts = [] then None else Some (Max (set ts)))"

text \<open>The state file: absent, not the JSON it should be, readable, or not readable at all.\<close>

datatype state_file = Missing | Garbled | Saved health_state | Unreadable exn

fun load_state :: "state_file \<Rightarrow> health_state res" where
  "load_state Missing = Inr no_health"
| "load_state Garbled = Inr no_health"
| "load_state (Saved s) = Inr s"
| "load_state (Unreadable e) = Inl e"

text \<open>The machine: the database if it opens, the disk, systemd's answers, the environment, and how a write ends.\<close>

record machine =
  mc_now :: time
  mc_db :: "db res"
  mc_usage :: "(int \<times> int) res"
  mc_systemctl :: "string \<Rightarrow> string res"
  mc_env :: env
  mc_token :: "string res"
  mc_chat :: "string res"
  mc_sinks :: sink_env
  mc_write :: "health_state \<Rightarrow> (state_file, unit) eff"

record health_world =
  hw_file :: state_file
  hw_sinks :: sink_state

definition limit_from :: "env \<Rightarrow> string \<Rightarrow> rat \<Rightarrow> rat res" where
  "limit_from env key fallback = (case truthy (env key) of None \<Rightarrow> Inr fallback | Some txt \<Rightarrow> the_finite (py_float txt))"

definition take_readings :: "machine \<Rightarrow> db \<Rightarrow> settings \<Rightarrow> state_file \<Rightarrow> (readings \<times> health_state) res" where
  "take_readings m d sg f =
     rbind (mc_usage m) (\<lambda>usage.
     rbind (disk_used_pct usage) (\<lambda>pct.
     rbind (rmapM (\<lambda>u. rmap (\<lambda>out. (u, unit_props out)) (mc_systemctl m u)) UNITS) (\<lambda>us.
     rbind (rmapM (\<lambda>u. rmap (\<lambda>out. (u, case map_of (unit_props out) ''Result'' of None \<Rightarrow> [] | Some v \<Rightarrow> v))
       (mc_systemctl m u)) ONESHOTS) (\<lambda>os.
     rbind (load_state f) (\<lambda>s.
     rbind (limit_from (mc_env m) ''HEALTH_DISK_PCT'' 95) (\<lambda>disk.
     rmap (\<lambda>stale. (\<lparr>hr_now = mc_now m, hr_disk_pct = pct, hr_ticks = dict_of (map (\<lambda>i. (i, last_tick d i)) (sg_instruments sg)),
           hr_units = us, hr_oneshots = os, hr_disk_limit = disk, hr_stale_s = stale\<rparr>, s))
       (limit_from (mc_env m) ''HEALTH_TICK_STALE_S'' 300)))))))"

definition emit_all :: "machine \<Rightarrow> bool \<Rightarrow> alert list \<Rightarrow> (health_world, unit) eff" where
  "emit_all m with_conn as =
     bind (lift (default_sinks with_conn (mc_token m) (mc_chat m))) (\<lambda>sinks.
       focus hw_sinks (\<lambda>s w. w\<lparr>hw_sinks := s\<rparr>) (forM as (alerter_emit (mc_sinks m) RUN_ID sinks)))"

definition error_alert :: "time \<Rightarrow> exn \<Rightarrow> alert" where
  "error_alert now e = \<lparr>al_level = CRITICAL, al_kind = ''healthcheck_error'', al_instrument = None,
     al_detail = [(''error'', S (exn_name (exc_class e)) # exc_msg e)], al_ts = now\<rparr>"

definition health_try :: "machine \<Rightarrow> settings \<Rightarrow> (health_world, unit) eff" where
  "health_try m sg =
     bind (lift (mc_db m)) (\<lambda>d.
     bind (lift (default_sinks True (mc_token m) (mc_chat m))) (\<lambda>_.
     bind (getr (\<lambda>w. rbind (take_readings m d sg (hw_file w)) (\<lambda>(r, s). evaluate r s))) (\<lambda>(as, s').
     andthen (emit_all m True as)
       (focus hw_file (\<lambda>f w. w\<lparr>hw_file := f\<rparr>) (mc_write m s')))))"

definition health_main :: "machine \<Rightarrow> (health_world, unit) eff" where
  "health_main m =
     bind (lift (load_settings (mc_env m))) (\<lambda>sg.
       attempt (health_try m sg) (\<lambda>e.
         andthen (emit_all m (case mc_db m of Inl _ \<Rightarrow> False | Inr _ \<Rightarrow> True) [error_alert (mc_now m) e]) (raise e)))"

end
