(* ===== verification/Health_Laws.thy ===== *)
theory Health_Laws
  imports Health
begin

text \<open>
  What the health check says and when: once when a problem appears, once when it clears, every restart once, and never
  nothing when the check itself fails.
\<close>

section \<open>Edges\<close>

lemma mem_appeared [simp]: "k \<in> set (appeared was keys) \<longleftrightarrow> k \<in> set keys \<and> k \<notin> set was"
  by (auto simp: appeared_def)

lemma mem_cleared [simp]: "k \<in> set (cleared was keys) \<longleftrightarrow> k \<in> set was \<and> k \<notin> set keys"
  by (auto simp: cleared_def)

lemma evaluate_Inr:
  assumes "evaluate r s = Inr (as, s')"
  obtains counts where "restarts_of r = Inr counts" "hs_restarts s' = counts" "hs_open s' = sort (remdups (problem_keys r))"
    "as = restart_alerts (hr_now r) (hs_restarts s) counts
      @ map (problem_alert (hr_now r) (problems r)) (appeared (hs_open s) (problem_keys r))
      @ map (\<lambda>k. health_alert (hr_now r) INFO ''recovered'' None [(''problem'', [S k])]) (cleared (hs_open s) (problem_keys r))"
  using assms by (auto simp: evaluate_def)

text \<open>What a reader of the alerts takes from them: the key of the problem an alert is about.\<close>

definition alert_key :: "alert \<Rightarrow> string" where
  "alert_key a =
     (case al_instrument a of
        Some iid \<Rightarrow> al_kind a @ CHR '':'' # show_int iid
      | None \<Rightarrow> (case map_of (al_detail a) ''unit'' of Some [S u] \<Rightarrow> al_kind a @ CHR '':'' # u | _ \<Rightarrow> al_kind a))"

definition opened :: "alert list \<Rightarrow> string list" where
  "opened as = map alert_key (filter (\<lambda>a. al_level a = CRITICAL \<and> al_kind a \<noteq> ''unit_restarted'') as)"

definition recovered :: "alert list \<Rightarrow> string list" where
  "recovered as = concat (map (\<lambda>a. case al_detail a of [(_, [S k])] \<Rightarrow> [k] | _ \<Rightarrow> []) (filter (\<lambda>a. al_level a = INFO) as))"

lemma kind_of: "CHR '':'' \<notin> set s \<Longrightarrow> hd (split_on (CHR '':'') (s @ CHR '':'' # t)) = s"
  by (simp add: split_on_append)

lemma key_kinds:
  "hd (split_on (CHR '':'') ''disk_full'') = ''disk_full''"
  "hd (split_on (CHR '':'') (''ticks_stale:'' @ t)) = ''ticks_stale''"
  "hd (split_on (CHR '':'') (''unit_down:'' @ t)) = ''unit_down''"
  "hd (split_on (CHR '':'') (''oneshot_failed:'' @ t)) = ''oneshot_failed''"
proof -
  have whole: "''ticks_stale:'' @ t = ''ticks_stale'' @ CHR '':'' # t" "''unit_down:'' @ t = ''unit_down'' @ CHR '':'' # t"
    "''oneshot_failed:'' @ t = ''oneshot_failed'' @ CHR '':'' # t"
    by (simp_all only: append_Cons append_Nil)
  show "hd (split_on (CHR '':'') ''disk_full'') = ''disk_full''" by code_simp
  show "hd (split_on (CHR '':'') (''ticks_stale:'' @ t)) = ''ticks_stale''" unfolding whole by (rule kind_of) code_simp
  show "hd (split_on (CHR '':'') (''unit_down:'' @ t)) = ''unit_down''" unfolding whole by (rule kind_of) code_simp
  show "hd (split_on (CHR '':'') (''oneshot_failed:'' @ t)) = ''oneshot_failed''" unfolding whole by (rule kind_of) code_simp
qed

definition keyed :: "problem \<Rightarrow> bool" where
  "keyed p \<longleftrightarrow> (\<forall>now lv. let a = health_alert now lv (pb_key p) (pb_instrument p) (pb_detail p) in
     alert_key a = pb_key p \<and> al_kind a \<noteq> ''unit_restarted'')"

text \<open>A key made of a kind and a unit is told by its kind and found again in the detail.\<close>

lemma unit_keyed:
  assumes "CHR '':'' \<notin> set kind" "kind \<noteq> ''unit_restarted''" "pb_key p = kind @ CHR '':'' # u" "pb_instrument p = None"
    and "map_of (pb_detail p) ''unit'' = Some [S u]"
  shows "keyed p"
  using assms by (simp add: keyed_def alert_key_def health_alert_def kind_of)

lemma problems_keyed:
  "p \<in> set (disk_problems r) \<Longrightarrow> keyed p"
  "p \<in> set (tick_problems r) \<Longrightarrow> keyed p"
  "p \<in> set (unit_problems r) \<Longrightarrow> keyed p"
  "p \<in> set (oneshot_problems r) \<Longrightarrow> keyed p"
  subgoal by (clarsimp simp: disk_problems_def keyed_def alert_key_def health_alert_def key_kinds split: if_splits)
  subgoal by (clarsimp simp: tick_problems_def keyed_def alert_key_def health_alert_def key_kinds)
  subgoal by (auto simp: unit_problems_def intro!: unit_keyed [of "''unit_down''"])
  subgoal by (auto simp: oneshot_problems_def intro!: unit_keyed [of "''oneshot_failed''"])
  done

lemma problem_alert_key: "p \<in> set (problems r) \<Longrightarrow> keyed p"
  using problems_keyed by (auto simp: problems_def)

lemma problem_alert_told:
  assumes "k \<in> set (problem_keys r)"
  shows "alert_key (problem_alert now (problems r) k) = k \<and> al_kind (problem_alert now (problems r) k) \<noteq> ''unit_restarted''
    \<and> al_level (problem_alert now (problems r) k) = CRITICAL"
proof -
  obtain p where p: "find (\<lambda>p. pb_key p = k) (problems r) = Some p"
    using assms by (cases "find (\<lambda>p. pb_key p = k) (problems r)") (auto simp: find_None_iff problem_keys_def)
  then have "p \<in> set (problems r)" "pb_key p = k" by (auto simp: find_Some_iff)
  then show ?thesis using problem_alert_key [of p r] by (auto simp: problem_alert_def p keyed_def Let_def) (simp add: health_alert_def)
qed

lemma restart_alerts_kind: "a \<in> set (restart_alerts now seen counts) \<Longrightarrow> al_kind a = ''unit_restarted'' \<and> al_level a = CRITICAL"
proof -
  have "hd (split_on (CHR '':'') ''unit_restarted'') = ''unit_restarted''" by code_simp
  then show "a \<in> set (restart_alerts now seen counts) \<Longrightarrow> ?thesis"
    by (auto simp: restart_alerts_def health_alert_def Let_def simp del: split_on.simps split: if_splits)
qed

lemma evaluate_tells:
  assumes "evaluate r s = Inr (as, s')"
  shows "opened as = appeared (hs_open s) (problem_keys r)" "recovered as = cleared (hs_open s) (problem_keys r)"
    "set (hs_open s') = set (problem_keys r)"
proof -
  obtain counts where as: "as = restart_alerts (hr_now r) (hs_restarts s) counts
      @ map (problem_alert (hr_now r) (problems r)) (appeared (hs_open s) (problem_keys r))
      @ map (\<lambda>k. health_alert (hr_now r) INFO ''recovered'' None [(''problem'', [S k])]) (cleared (hs_open s) (problem_keys r))"
    and s': "hs_open s' = sort (remdups (problem_keys r))"
    by (rule evaluate_Inr [OF assms])
  have told: "\<forall>k \<in> set (appeared (hs_open s) (problem_keys r)). alert_key (problem_alert (hr_now r) (problems r) k) = k
      \<and> al_kind (problem_alert (hr_now r) (problems r) k) \<noteq> ''unit_restarted'' \<and> al_level (problem_alert (hr_now r) (problems r) k) = CRITICAL"
    using problem_alert_told [of _ r "hr_now r"] by simp
  show "opened as = appeared (hs_open s) (problem_keys r)"
    using restart_alerts_kind [of _ "hr_now r" "hs_restarts s" counts] told
    by (simp add: as opened_def filter_empty_conv filter_map o_def health_alert_def) (auto intro!: map_idI simp: filter_id_conv)
  show "recovered as = cleared (hs_open s) (problem_keys r)"
    using restart_alerts_kind [of _ "hr_now r" "hs_restarts s" counts] told
    by (simp add: as recovered_def filter_empty_conv filter_map o_def health_alert_def)
  show "set (hs_open s') = set (problem_keys r)" by (simp add: s')
qed

section \<open>A series of checks\<close>

text \<open>Checks one after the other, each from the state the one before it wrote: the alerts of each, the state at the end.\<close>

fun health_run :: "readings list \<Rightarrow> health_state \<Rightarrow> (alert list list \<times> health_state) res" where
  "health_run [] s = Inr ([], s)"
| "health_run (r # rs) s =
     rbind (evaluate r s) (\<lambda>(as, s'). rmap (\<lambda>(ass, s''). (as # ass, s'')) (health_run rs s'))"

text \<open>In how many of the checks a key was told.\<close>

definition told :: "string \<Rightarrow> string list list \<Rightarrow> nat" where
  "told k ls = length (filter (\<lambda>l. k \<in> set l) ls)"

lemma told_Cons: "told k (l # ls) = (if k \<in> set l then Suc (told k ls) else told k ls)"
  by (simp add: told_def)

lemma health_run_balance:
  assumes "health_run rs s = Inr (ass, s')"
  shows "told k (map opened ass) + (if k \<in> set (hs_open s) then 1 else 0) =
    told k (map recovered ass) + (if k \<in> set (hs_open s') then 1 else 0)"
  using assms
proof (induction rs arbitrary: s ass)
  case (Cons r rs)
  obtain as s1 ass1 where e: "evaluate r s = Inr (as, s1)" and h: "health_run rs s1 = Inr (ass1, s')" and ass: "ass = as # ass1"
    using Cons.prems by auto
  show ?case using Cons.IH [OF h] by (auto simp: ass told_Cons evaluate_tells [OF e])
qed (simp add: told_def)

lemma health_run_snoc:
  "health_run (rs @ [r]) s = Inr (ass, s') \<Longrightarrow> set (hs_open s') = set (problem_keys r)"
  by (induction rs arbitrary: s ass) (auto dest: evaluate_tells(3))

text \<open>
  C9. The health check tells a problem once. Over any number of checks, each of which starts from the state the one
  before it wrote, the alerts that name a problem as new and the ones that say it cleared balance: there is one more of
  the first kind while the problem lasts, as many of both when it does not. So they alternate, and a problem that stays
  is silent.
\<close>

theorem problems_are_told_once:
  assumes "health_run (rs @ [r]) no_health = Inr (ass, s')"
  shows "told k (map opened ass) = told k (map recovered ass) + (if k \<in> set (problem_keys r) then 1 else 0)"
  using health_run_balance [OF assms, of k] health_run_snoc [OF assms] by (simp add: no_health_def)

definition sample_readings :: "rat \<Rightarrow> readings" where
  "sample_readings pct = \<lparr>hr_now = 0, hr_disk_pct = pct, hr_ticks = [(6, Some 0)], hr_units = [], hr_oneshots = [],
     hr_disk_limit = 95, hr_stale_s = 300\<rparr>"

lemma problems_are_told_once_witness:
  "\<exists>ass s'. health_run ([sample_readings 96, sample_readings 96] @ [sample_readings 97]) no_health = Inr (ass, s')
     \<and> told ''disk_full'' (map opened ass) = told ''disk_full'' (map recovered ass) + 1"
proof -
  have run: "case health_run ([sample_readings 96, sample_readings 96] @ [sample_readings 97]) no_health of Inl _ \<Rightarrow> False | Inr _ \<Rightarrow> True"
    by code_simp
  have key: "''disk_full'' \<in> set (problem_keys (sample_readings 97))" by code_simp
  from run obtain ass s' where "health_run ([sample_readings 96, sample_readings 96] @ [sample_readings 97]) no_health = Inr (ass, s')"
    by (auto split: sum.splits)
  from problems_are_told_once [OF this, of "''disk_full''"] this key show ?thesis by auto
qed

section \<open>Restarts\<close>

text \<open>A restart is told exactly when a unit's count has grown since the last check, with by how much.\<close>

lemma restart_told_iff:
  "a \<in> set (restart_alerts now seen counts) \<longleftrightarrow>
     (\<exists>u n m. (u, n) \<in> set counts \<and> map_of seen u = Some m \<and> m < n \<and>
        a = health_alert now CRITICAL ''unit_restarted'' None [(''unit'', [S u]), (''restarts'', [I n]), (''new'', [I (n - m)])])"
  by (fastforce simp: restart_alerts_def Let_def split: if_splits option.splits)

section \<open>The check itself\<close>

lemma emit_logs:
  assumes "count_list sinks LogSink = 1"
  shows "\<exists>s'. forM as (alerter_emit env run sinks) s = (Inr (), s') \<and> sk_log s' = sk_log s @ map (\<lambda>a. (al_level a, run, a)) as"
proof (induction as arbitrary: s)
  case (Cons a as)
  obtain s1 where "alerter_emit env run sinks a s = (Inr (), s1)" "sk_log s1 = sk_log s @ [(al_level a, run, a)]"
    using alerter_delivers [of env run sinks a s] assms by auto
  with Cons.IH [of s1] show ?case by (auto simp: andthen_def bind_def)
qed (simp add: ret_def)

lemma default_sinks_log: "default_sinks b token chat = Inr sinks \<Longrightarrow> count_list sinks LogSink = 1"
  by (auto simp: default_sinks_def Let_def split: sum.splits if_splits)

text \<open>
  A check that starts never passes in silence: it returns with every alert in the journal and the state written, or it
  raises with a critical alert about itself as the last line of the journal.
\<close>

theorem check_never_fails_in_silence:
  assumes "load_settings (mc_env m) = Inr sg" "\<forall>b. \<exists>sinks. default_sinks b (mc_token m) (mc_chat m) = Inr sinks"
    and "health_main m w = (r, w')"
  shows "case r of
      Inr _ \<Rightarrow> \<exists>d rd s as s'. mc_db m = Inr d \<and> take_readings m d sg (hw_file w) = Inr (rd, s) \<and> evaluate rd s = Inr (as, s')
        \<and> sk_log (hw_sinks w') = sk_log (hw_sinks w) @ map (\<lambda>a. (al_level a, RUN_ID, a)) as
        \<and> mc_write m s' (hw_file w) = (Inr (), hw_file w')
    | Inl e \<Rightarrow> \<exists>as. sk_log (hw_sinks w') = sk_log (hw_sinks w) @ map (\<lambda>a. (al_level a, RUN_ID, a)) (as @ [error_alert (mc_now m) e])"
proof -
  have emit: "\<exists>s'. emit_all m b as v = (Inr (), v\<lparr>hw_sinks := s'\<rparr>)
      \<and> sk_log s' = sk_log (hw_sinks v) @ map (\<lambda>a. (al_level a, RUN_ID, a)) as" for b as v
  proof -
    obtain sinks where s: "default_sinks b (mc_token m) (mc_chat m) = Inr sinks" using assms(2) by blast
    from emit_logs [OF default_sinks_log [OF s], of as "mc_sinks m" RUN_ID "hw_sinks v"] show ?thesis
      by (auto simp: emit_all_def s bind_def lift_def focus_def)
  qed
  obtain sinks where s: "default_sinks True (mc_token m) (mc_chat m) = Inr sinks" using assms(2) by blast
  obtain r1 w1 where t: "health_try m sg w = (r1, w1)" by fastforce
  have tried: "case r1 of
      Inr _ \<Rightarrow> \<exists>d rd s as s'. mc_db m = Inr d \<and> take_readings m d sg (hw_file w) = Inr (rd, s) \<and> evaluate rd s = Inr (as, s')
        \<and> sk_log (hw_sinks w1) = sk_log (hw_sinks w) @ map (\<lambda>a. (al_level a, RUN_ID, a)) as
        \<and> mc_write m s' (hw_file w) = (Inr (), hw_file w1)
    | Inl _ \<Rightarrow> \<exists>as. sk_log (hw_sinks w1) = sk_log (hw_sinks w) @ map (\<lambda>a. (al_level a, RUN_ID, a)) as"
  proof (cases "rbind (mc_db m) (\<lambda>d. rbind (take_readings m d sg (hw_file w)) (\<lambda>(rd, s). evaluate rd s))")
    case (Inl e)
    then show ?thesis using t s
      by (auto simp: health_try_def bind_def lift_def getr_def rbind_def split: sum.splits prod.splits intro!: exI [of _ "[]"])
  next
    case (Inr out)
    then obtain d rd st as st' where ok: "mc_db m = Inr d" "take_readings m d sg (hw_file w) = Inr (rd, st)" "evaluate rd st = Inr (as, st')"
      by (cases out) auto
    obtain sk where e: "emit_all m True as w = (Inr (), w\<lparr>hw_sinks := sk\<rparr>)"
      "sk_log sk = sk_log (hw_sinks w) @ map (\<lambda>a. (al_level a, RUN_ID, a)) as" using emit by blast
    show ?thesis using t s ok e
      by (cases "mc_write m st' (hw_file w)")
        (auto simp: health_try_def bind_def lift_def getr_def andthen_def focus_def split: sum.splits)
  qed
  show ?thesis
  proof (cases r1)
    case (Inr u)
    then show ?thesis using assms(1,3) t tried by (auto simp: health_main_def bind_def lift_def attempt_def)
  next
    case (Inl e)
    with tried obtain as where as: "sk_log (hw_sinks w1) = sk_log (hw_sinks w) @ map (\<lambda>a. (al_level a, RUN_ID, a)) as" by auto
    obtain sk where e: "emit_all m (case mc_db m of Inl _ \<Rightarrow> False | Inr _ \<Rightarrow> True) [error_alert (mc_now m) e] w1 = (Inr (), w1\<lparr>hw_sinks := sk\<rparr>)"
      "sk_log sk = sk_log (hw_sinks w1) @ map (\<lambda>a. (al_level a, RUN_ID, a)) [error_alert (mc_now m) e]" using emit by blast
    show ?thesis using assms(1,3) t Inl as e
      by (auto simp: health_main_def bind_def lift_def attempt_def andthen_def raise_def)
  qed
qed

text \<open>
  The memory is the file: a check that could not write it, which cuts the file short, tells every problem again. A disk
  that is full is such a problem and such a failure.
\<close>

theorem unwritten_state_repeats:
  assumes "evaluate r s = Inr (as, s')" "load_state f = Inr no_health"
  shows "\<exists>as2 s2. rbind (load_state f) (evaluate r) = Inr (as2, s2) \<and> set (opened as2) = set (problem_keys r)"
proof -
  obtain as2 s2 where e: "evaluate r no_health = Inr (as2, s2)" using assms(1) by (auto simp: evaluate_def)
  then show ?thesis using assms(2) evaluate_tells(1) [OF e] by (auto simp: no_health_def)
qed

end
