(* ===== verification/Proxy.thy ===== *)
theory Proxy
  imports Intake Evidence Settings
begin

text \<open>
  The proxy source: the client of \<open>data_ingest/hyperliquid.py\<close> and the backfill of \<open>scripts/backfill_hyperliquid.py\<close>.
  The HTTP transport is a parameter which answers a body with a status, a header and a parsed body or raises. An error
  that carries an attribute, \<open>TransientProxyError\<close>, is a value.
\<close>

section \<open>Times in milliseconds\<close>

text \<open>\<open>int(dt.timestamp() * 1000)\<close> and \<open>fromtimestamp(ms / 1000)\<close>, floats in between.\<close>

definition ms_of :: "time \<Rightarrow> int" where
  "ms_of t = (let x = fl (fl (of_int t / 1000000) * 1000) in if 0 \<le> x then \<lfloor>x\<rfloor> else \<lceil>x\<rceil>)"

definition from_ms :: "int \<Rightarrow> time" where
  "from_ms ms =
     (let x = fl (of_int ms / 1000); whole = (if 0 \<le> x then \<lfloor>x\<rfloor> else \<lceil>x\<rceil>) in
      whole * 1000000 + rhe (fl ((x - of_int whole) * 1000000)))"

section \<open>Parsing\<close>

definition item_field :: "json \<Rightarrow> string \<Rightarrow> json res" where
  "item_field j k =
     (case j of
        JObj kvs \<Rightarrow> (case map_of kvs k of None \<Rightarrow> Inl (Exn KeyError [S k]) | Some v \<Rightarrow> Inr v)
      | _ \<Rightarrow> Inl (Exn TypeError [S ''indices must be integers or slices'']))"

text \<open>\<open>Decimal(str(v))\<close>: a float through its shortest text.\<close>

fun json_decimal :: "json \<Rightarrow> dec res" where
  "json_decimal (JStr s) = the_finite (py_decimal s)"
| "json_decimal (JInt n) = Inr (of_int n)"
| "json_decimal (JNum x) = Inr (repr_dec x)"
| "json_decimal _ = Inl (Exn InvalidOperation [S ''ConversionSyntax''])"

fun json_int :: "json \<Rightarrow> int res" where
  "json_int (JStr s) = py_int s"
| "json_int (JInt n) = Inr n"
| "json_int (JNum x) = Inr (if 0 \<le> x then \<lfloor>x\<rfloor> else \<lceil>x\<rceil>)"
| "json_int (JBool b) = Inr (if b then 1 else 0)"
| "json_int _ = Inl (Exn TypeError [S ''int() argument must be a string or a real number''])"

definition item_dec :: "json \<Rightarrow> string \<Rightarrow> dec res" where
  "item_dec j k = rbind (item_field j k) json_decimal"

definition item_int :: "json \<Rightarrow> string \<Rightarrow> int res" where
  "item_int j k = rbind (item_field j k) json_int"

definition parse_funding_history :: "json list \<Rightarrow> int \<Rightarrow> time \<Rightarrow> funding_obs list res" where
  "parse_funding_history items iid received =
     rmapM (\<lambda>item.
       rbind (item_dec item ''fundingRate'') (\<lambda>rate.
       rmap (\<lambda>ms. \<lparr>fo_instrument = iid, fo_rate = rate, fo_exchange_ts = from_ms ms, fo_received_ts = received,
           fo_source = PROXY_HYPERLIQUID\<rparr>)
         (item_int item ''time''))) items"

definition parse_candles :: "json list \<Rightarrow> int \<Rightarrow> string \<Rightarrow> time \<Rightarrow> candle list res" where
  "parse_candles items iid interval received =
     rmapM (\<lambda>item.
       rbind (item_int item ''t'') (\<lambda>t. rbind (item_dec item ''o'') (\<lambda>op. rbind (item_dec item ''h'') (\<lambda>hi.
       rbind (item_dec item ''l'') (\<lambda>lo. rbind (item_dec item ''c'') (\<lambda>cl. rbind (item_dec item ''v'') (\<lambda>vol.
       rmap (\<lambda>n. \<lparr>cd_instrument = iid, cd_interval = interval, cd_open_ts = from_ms t, cd_open = op, cd_high = hi,
           cd_low = lo, cd_close = cl, cd_volume = vol, cd_trades = n, cd_received_ts = received,
           cd_source = PROXY_HYPERLIQUID\<rparr>)
         (item_int item ''n'')))))))) items"

section \<open>The client\<close>

record http_reply =
  rp_status :: int
  rp_retry_after :: "string option"
  rp_json :: "json res"

text \<open>
  \<open>hl_transport\<close> says which exceptions are transport errors; \<open>hl_parsedate\<close> is the instant an HTTP date denotes, in
  UTC when it names no zone, or nothing when it is no date.
\<close>

record 'c hl_client =
  hl_timer :: "'c timer"
  hl_post :: "json \<Rightarrow> ('c, http_reply) eff"
  hl_transport :: "exn \<Rightarrow> bool"
  hl_clock :: "('c, time) eff"
  hl_now :: "('c, time) eff"
  hl_parsedate :: "string \<Rightarrow> time option"

datatype 'a fetched = Fetched 'a | Transient_Error text_t "numeral option"

text \<open>\<open>Retry-After\<close>: seconds, or a date; a date in the past is no wait at all.\<close>

definition retry_after_header :: "'c hl_client \<Rightarrow> string option \<Rightarrow> ('c, numeral option) eff" where
  "retry_after_header H v =
     (case truthy v of
        None \<Rightarrow> ret None
      | Some txt \<Rightarrow>
          (case py_float txt of
             Inr n \<Rightarrow> ret (Some n)
           | Inl _ \<Rightarrow>
               (case hl_parsedate H txt of
                  None \<Rightarrow> ret None
                | Some t \<Rightarrow> bind (hl_now H) (\<lambda>now. ret (Some (Finite (max 0 (fl (of_int (t - now) / 1000000)))))))))"

definition hl_info :: "'c hl_client \<Rightarrow> json \<Rightarrow> ('c paced, json list fetched) eff" where
  "hl_info H body =
     bind (acquire (hl_timer H)) (\<lambda>_.
     bind (attempt (bind (pworld (hl_post H body)) (\<lambda>r. ret (Inr r)))
         (\<lambda>e. if hl_transport H e then ret (Inl e) else raise e)) (\<lambda>got.
     case got of
       Inl e \<Rightarrow> ret (Transient_Error [S ''transport error: '', S (exn_name (exc_class e))] None)
     | Inr r \<Rightarrow>
         if rp_status r = 429 \<or> 500 \<le> rp_status r then
           bind (pworld (retry_after_header H (rp_retry_after r))) (\<lambda>ra.
             ret (Transient_Error [S ''HTTP '', I (rp_status r)] ra))
         else if rp_status r < 200 \<or> 300 \<le> rp_status r then
           raise (Exn (OtherException ''HTTPStatusError'') [I (rp_status r)])
         else
           bind (lift (rp_json r)) (\<lambda>data.
             case data of
               JArr items \<Rightarrow> ret (Fetched items)
             | _ \<Rightarrow> raise (Exn ValueError [S ''expected a JSON list from /info'']))))"

definition then_parse ::
  "'c hl_client \<Rightarrow> (json list \<Rightarrow> time \<Rightarrow> 'a res) \<Rightarrow> ('c paced, json list fetched) eff \<Rightarrow> ('c paced, 'a fetched) eff" where
  "then_parse H parse m =
     bind m (\<lambda>got.
       case got of
         Transient_Error msg ra \<Rightarrow> ret (Transient_Error msg ra)
       | Fetched items \<Rightarrow> bind (pworld (hl_clock H)) (\<lambda>now. bind (lift (parse items now)) (\<lambda>rows. ret (Fetched rows))))"

definition funding_history :: "'c hl_client \<Rightarrow> string \<Rightarrow> time \<times> time \<Rightarrow> int \<Rightarrow> ('c paced, funding_obs list fetched) eff" where
  "funding_history H coin w iid =
     then_parse H (\<lambda>items now. parse_funding_history items iid now)
       (hl_info H (JObj [(''type'', JStr ''fundingHistory''), (''coin'', JStr coin), (''startTime'', JInt (ms_of (fst w))),
         (''endTime'', JInt (ms_of (snd w)))]))"

definition hl_candles :: "'c hl_client \<Rightarrow> string \<Rightarrow> string \<Rightarrow> time \<times> time \<Rightarrow> int \<Rightarrow> ('c paced, candle list fetched) eff" where
  "hl_candles H coin interval w iid =
     then_parse H (\<lambda>items now. parse_candles items iid interval now)
       (hl_info H (JObj [(''type'', JStr ''candleSnapshot''),
         (''req'', JObj [(''coin'', JStr coin), (''interval'', JStr interval), (''startTime'', JInt (ms_of (fst w))),
           (''endTime'', JInt (ms_of (snd w)))])]))"

section \<open>The backfill\<close>

definition upper :: "string \<Rightarrow> string" where
  "upper s = map (\<lambda>c. let n = of_char c :: nat in if 97 \<le> n \<and> n \<le> 122 then char_of (n - 32) else c) s"

text \<open>\<open>parse_map\<close>: pairs \<open>id=COIN\<close>; upper case is that of ASCII.\<close>

definition parse_pair :: "string \<Rightarrow> (int \<times> string) res" where
  "parse_pair part =
     (case split_on (CHR ''='') (strip part) of
        [iid, coin] \<Rightarrow> rmap (\<lambda>n. (n, upper (strip coin))) (py_int iid)
      | _ \<Rightarrow> Inl (Exn ValueError [S ''values to unpack'']))"

definition parse_map :: "string \<Rightarrow> (int \<times> string) list res" where
  "parse_map txt = rmap dict_of (rmapM parse_pair (split_on (CHR '','') txt))"

record 'c hl_backfill =
  hb_db :: db
  hb_client :: "'c paced"
  hb_slept :: "numeral list"

definition hclient :: "('c paced, 'a) eff \<Rightarrow> ('c hl_backfill, 'a) eff" where
  "hclient m = focus hb_client (\<lambda>c b. b\<lparr>hb_client := c\<rparr>) m"

definition hl_wait :: "numeral option \<Rightarrow> numeral" where
  "hl_wait ra = (case ra of None \<Rightarrow> Finite RETRY_SLEEP | Some n \<Rightarrow> if n = Finite 0 then Finite RETRY_SLEEP else n)"

text \<open>\<open>with_retries\<close>: the last attempt's transient error is the caller's.\<close>

fun with_retries :: "nat list \<Rightarrow> ('c paced, 'a fetched) eff \<Rightarrow> ('c hl_backfill, 'a fetched) eff" where
  "with_retries [] m = raise (Exn (OtherException ''AssertionError'') [S ''unreachable''])"
| "with_retries (k # ks) m =
     bind (hclient m) (\<lambda>got.
       case got of
         Fetched a \<Rightarrow> ret (Fetched a)
       | Transient_Error msg ra \<Rightarrow>
           if k = MAX_ATTEMPTS then ret (Transient_Error msg ra)
           else andthen (upd (\<lambda>b. b\<lparr>hb_slept := hb_slept b @ [hl_wait ra]\<rparr>)) (with_retries ks m))"

definition retried :: "('c paced, 'a fetched) eff \<Rightarrow> ('c hl_backfill, 'a fetched) eff" where
  "retried m = with_retries [1..<Suc MAX_ATTEMPTS] m"

record hl_tally =
  ht_funding :: nat
  ht_hours :: nat
  ht_minutes :: nat
  ht_failed :: "(time \<times> time) list"

definition hb_insert :: "('r \<Rightarrow> db \<Rightarrow> bool \<times> db) \<Rightarrow> 'r list \<Rightarrow> ('c hl_backfill, nat) eff" where
  "hb_insert ins rows = (\<lambda>b.
     let (n, d) = foldl (\<lambda>(n, d) r. let (new, d') = ins r d in (if new then Suc n else n, d')) (0, hb_db b) rows in
     (Inr n, b\<lparr>hb_db := d\<rparr>))"

text \<open>The candles of one interval: those closed at the end of the backfill. False says the window failed.\<close>

definition hl_candle_step ::
  "'c hl_client \<Rightarrow> string \<Rightarrow> string \<Rightarrow> time \<times> time \<Rightarrow> int \<Rightarrow> time \<Rightarrow> ('c hl_backfill, nat option) eff" where
  "hl_candle_step H coin interval w iid end_ts =
     bind (retried (hl_candles H coin interval w iid)) (\<lambda>got.
       case got of
         Transient_Error _ _ \<Rightarrow> ret None
       | Fetched cs \<Rightarrow> bind (lift (closed_candles end_ts cs)) (\<lambda>done_cs. bind (hb_insert insert_candle done_cs) (\<lambda>n. ret (Some n))))"

definition hl_failed :: "time \<times> time \<Rightarrow> hl_tally \<Rightarrow> hl_tally" where
  "hl_failed w y = y\<lparr>ht_failed := ht_failed y @ [w]\<rparr>"

text \<open>One window: what was inserted before a failure is counted.\<close>

definition hl_window ::
  "'c hl_client \<Rightarrow> bool \<Rightarrow> string \<Rightarrow> int \<Rightarrow> time \<Rightarrow> time \<times> time \<Rightarrow> hl_tally \<Rightarrow> ('c hl_backfill, hl_tally) eff" where
  "hl_window H minutely coin iid end_ts w y =
     bind (retried (funding_history H coin w iid)) (\<lambda>got.
       case got of
         Transient_Error _ _ \<Rightarrow> ret (hl_failed w y)
       | Fetched fs \<Rightarrow>
           bind (hb_insert insert_funding fs) (\<lambda>n_f.
           let y1 = y\<lparr>ht_funding := ht_funding y + n_f\<rparr> in
           bind (hl_candle_step H coin ''1h'' w iid end_ts) (\<lambda>n_h.
             case n_h of
               None \<Rightarrow> ret (hl_failed w y1)
             | Some n \<Rightarrow>
                 let y2 = y1\<lparr>ht_hours := ht_hours y1 + n\<rparr> in
                 if \<not> minutely then ret y2
                 else
                   bind (hl_candle_step H coin ''1m'' w iid end_ts) (\<lambda>n_m.
                     case n_m of
                       None \<Rightarrow> ret (hl_failed w y2)
                     | Some n \<Rightarrow> ret (y2\<lparr>ht_minutes := ht_minutes y2 + n\<rparr>)))))"

fun hl_windows ::
  "'c hl_client \<Rightarrow> bool \<Rightarrow> string \<Rightarrow> int \<Rightarrow> time \<Rightarrow> (time \<times> time) list \<Rightarrow> hl_tally \<Rightarrow> ('c hl_backfill, hl_tally) eff" where
  "hl_windows H minutely coin iid end_ts [] y = ret y"
| "hl_windows H minutely coin iid end_ts (w # ws) y =
     bind (hl_window H minutely coin iid end_ts w y) (hl_windows H minutely coin iid end_ts ws)"

fun hl_each ::
  "'c hl_client \<Rightarrow> bool \<Rightarrow> time \<Rightarrow> time \<Rightarrow> (int \<times> string) list \<Rightarrow> ('c hl_backfill, (int \<times> hl_tally) list) eff" where
  "hl_each H minutely start end_ts [] = ret []"
| "hl_each H minutely start end_ts ((iid, coin) # rest) =
     bind (hl_windows H minutely coin iid end_ts (day_windows start end_ts)
         \<lparr>ht_funding = 0, ht_hours = 0, ht_minutes = 0, ht_failed = []\<rparr>) (\<lambda>y.
     bind (hl_each H minutely start end_ts rest) (\<lambda>ys. ret ((iid, y) # ys)))"

text \<open>\<open>main\<close> on the parsed arguments; the tallies are what it prints.\<close>

definition hl_main :: "'c hl_client \<Rightarrow> int \<Rightarrow> string \<Rightarrow> bool \<Rightarrow> time \<Rightarrow> ('c hl_backfill, (int \<times> hl_tally) list) eff" where
  "hl_main H n pairs minutely now =
     bind (lift (parse_map pairs)) (\<lambda>m. hl_each H minutely (now - days n) now m)"

end
