(* ===== verification/Proxy_Laws.thy ===== *)
theory Proxy_Laws
  imports Proxy Intake_Laws
begin

text \<open>
  Proxy data stays proxy data: what the backfill stores, what it leaves alone, how long it tries, and the milliseconds it
  asks for and reads.
\<close>

section \<open>Milliseconds\<close>

text \<open>A stored instant is the exact millisecond, for about a century and a quarter around 1970.\<close>

theorem from_ms_exact:
  assumes "\<bar>ms\<bar> \<le> 4000000000000"
  shows "from_ms ms = 1000 * ms"
proof -
  define x where "x = fl (of_int ms / 1000)"
  define whole where "whole = (if 0 \<le> x then \<lfloor>x\<rfloor> else \<lceil>x\<rceil>)"
  define y where "y = fl ((x - of_int whole) * 1000000)"
  have "of_int \<bar>ms\<bar> \<le> (of_int 4000000000000 :: rat)" using assms by (simp only: of_int_le_iff)
  then have "\<bar>of_int ms / 1000 :: rat\<bar> \<le> 4000000000" by simp
  note x = abs_within [OF fl_abs [OF this], folded x_def]
  have "\<bar>x - of_int whole\<bar> \<le> 1" unfolding whole_def by (auto simp: abs_le_iff; linarith)
  then have "\<bar>(x - of_int whole) * 1000000\<bar> \<le> 1000000" by (simp add: abs_mult)
  note y = abs_within [OF fl_abs [OF this], folded y_def] and r = abs_within [OF rhe_error [of y]]
  have "from_ms ms = whole * 1000000 + rhe y" by (simp add: from_ms_def Let_def whole_def x_def y_def)
  then have sum: "(of_int (from_ms ms) :: rat) = of_int whole * 1000000 + of_int (rhe y)" by simp
  have "(of_int (from_ms ms) :: rat) < of_int (1000 * ms + 1)" "of_int (1000 * ms - 1) < (of_int (from_ms ms) :: rat)"
    unfolding sum using x y r by (simp; linarith)+
  then show ?thesis unfolding of_int_less_iff by linarith
qed

text \<open>
  What a window asks for is its instant in whole milliseconds, or one millisecond before: the product of two floats may
  fall short of the integer it should be, and \<open>int\<close> cuts.
\<close>

theorem ms_of_close:
  assumes "0 \<le> t" "t \<le> 4000000000000000"
  shows "t div 1000 - 1 \<le> ms_of t \<and> ms_of t \<le> t div 1000"
proof -
  let ?s = "of_int t / 1000000 :: rat"
  have "of_int t \<le> (of_int 4000000000000000 :: rat)" using assms(2) by (simp only: of_int_le_iff)
  then have t: "0 \<le> (of_int t :: rat)" "of_int t \<le> (4000000000000000 :: rat)" using assms(1) by simp_all
  then have s: "\<bar>?s\<bar> \<le> 4000000000" by simp
  note f = abs_within [OF fl_abs [OF s]]
  have "\<bar>fl ?s * 1000\<bar> \<le> 4000000001000" using f t by (simp add: abs_le_iff; linarith)
  note g = abs_within [OF fl_abs [OF this]]
  let ?x = "fl (fl ?s * 1000)"
  have "0 \<le> fl ?s" using fl_mono [of 0 ?s] t by simp
  then have "0 \<le> ?x" using fl_mono [of 0 "fl ?s * 1000"] by simp
  then have ms: "ms_of t = \<lfloor>?x\<rfloor>" by (simp add: ms_of_def Let_def)
  define m where "m = t div 1000"
  have "1000 * m \<le> t" "t \<le> 1000 * m + 999" by (simp_all add: m_def) 
  then have "of_int (1000 * m) \<le> (of_int t :: rat)" "of_int t \<le> (of_int (1000 * m + 999) :: rat)" by (simp_all only: of_int_le_iff)
  then have "of_int m - 1 \<le> ?x" "?x < of_int m + 1" using f g by (simp; linarith)+
  then show ?thesis unfolding ms m_def [symmetric] by linarith
qed

lemma ms_of_short: "ms_of 1001000 = 1000"
  by code_simp

section \<open>Retries\<close>

lemma hclient_quiet: "hclient m b = (r, b') \<Longrightarrow> hb_db b' = hb_db b \<and> hb_slept b' = hb_slept b"
  by (auto simp: hclient_def focus_def split: prod.splits)

lemma with_retries_sleeps:
  "with_retries ks m b = (r, b') \<Longrightarrow> ks \<noteq> [] \<Longrightarrow> last ks = MAX_ATTEMPTS \<Longrightarrow>
   length (hb_slept b') < length (hb_slept b) + length ks \<and> hb_db b' = hb_db b"
proof (induction ks arbitrary: b)
  case (Cons k ks)
  obtain r1 b1 where m: "hclient m b = (r1, b1)" by fastforce
  note quiet = hclient_quiet [OF m]
  consider e where "r1 = Inl e" | a where "r1 = Inr (Fetched a)" | msg ra where "r1 = Inr (Transient_Error msg ra)"
    by (metis fetched.exhaust sum.exhaust)
  then show ?case
  proof cases
    case 3
    show ?thesis
    proof (cases "k = MAX_ATTEMPTS")
      case False
      then have "ks \<noteq> []" "last ks = MAX_ATTEMPTS" using Cons.prems(3) by (auto split: if_splits)
      moreover have "with_retries ks m (b1\<lparr>hb_slept := hb_slept b1 @ [hl_wait ra]\<rparr>) = (r, b')"
        using Cons.prems(1) m 3 False by (simp add: bind_def andthen_def upd_def)
      ultimately show ?thesis using Cons.IH [of "b1\<lparr>hb_slept := hb_slept b1 @ [hl_wait ra]\<rparr>"] quiet by auto
    qed (use Cons.prems(1) m 3 quiet in \<open>auto simp: bind_def ret_def\<close>)
  qed (use Cons.prems(1) m quiet in \<open>auto simp: bind_def ret_def\<close>)
qed simp

lemma retried_sleeps: "retried m b = (r, b') \<Longrightarrow> length (hb_slept b') \<le> length (hb_slept b) + 2 \<and> hb_db b' = hb_db b"
proof -
  assume r: "retried m b = (r, b')"
  have ks: "[1..<Suc MAX_ATTEMPTS] = [1, 2, MAX_ATTEMPTS]" by (simp add: MAX_ATTEMPTS_def upt_rec)
  from r have "with_retries [1, 2, MAX_ATTEMPTS] m b = (r, b')" by (simp only: retried_def ks)
  from with_retries_sleeps [OF this] show ?thesis by simp
qed

section \<open>What is stored\<close>

text \<open>What an effect returns when it returns.\<close>

definition yields :: "('a \<Rightarrow> bool) \<Rightarrow> ('w, 'a) eff \<Rightarrow> bool" where
  "yields P m \<longleftrightarrow> (\<forall>w a w'. m w = (Inr a, w') \<longrightarrow> P a)"

lemma yields_bind: "(\<And>a. yields P (f a)) \<Longrightarrow> yields P (bind m f)"
  by (auto simp: yields_def bind_def split: prod.splits sum.splits)

lemma yields_lift: "(\<And>a. r = Inr a \<Longrightarrow> P a) \<Longrightarrow> yields P (lift r)"
  by (auto simp: yields_def lift_def)

lemma yields_ret: "P a \<Longrightarrow> yields P (ret a)"
  by (simp add: yields_def ret_def)

lemma yields_pass: "yields P m \<Longrightarrow> (\<And>a. P a \<Longrightarrow> yields Q (f a)) \<Longrightarrow> yields Q (bind m f)"
  unfolding yields_def bind_def by (force split: prod.splits sum.splits)

lemma keeps_bind_yields: "keeps J m \<Longrightarrow> yields P m \<Longrightarrow> (\<And>a. P a \<Longrightarrow> keeps J (f a)) \<Longrightarrow> keeps J (bind m f)"
  unfolding keeps_def yields_def bind_def by (force split: prod.splits sum.splits)

definition all_of :: "('a \<Rightarrow> bool) \<Rightarrow> 'a list fetched \<Rightarrow> bool" where
  "all_of P got = (case got of Fetched rows \<Rightarrow> list_all P rows | Transient_Error _ _ \<Rightarrow> True)"

lemma all_of_simps: "all_of P (Fetched rows) = list_all P rows" "all_of P (Transient_Error msg ra)"
  by (simp_all add: all_of_def)

lemma rmapM_all: "rmapM f xs = Inr ys \<Longrightarrow> (\<And>x y. f x = Inr y \<Longrightarrow> P y) \<Longrightarrow> list_all P ys"
  by (induction xs arbitrary: ys) auto

lemma parsed_are_proxy:
  "parse_funding_history items iid now = Inr fs \<Longrightarrow> list_all (\<lambda>f. fo_source f = PROXY_HYPERLIQUID) fs"
  "parse_candles items iid interval now = Inr cs \<Longrightarrow> list_all (\<lambda>c. cd_source c = PROXY_HYPERLIQUID) cs"
  unfolding parse_funding_history_def parse_candles_def by (erule rmapM_all; auto)+

lemma yields_then_parse:
  "(\<And>items now rows. parse items now = Inr rows \<Longrightarrow> list_all P rows) \<Longrightarrow> yields (all_of P) (then_parse H parse m)"
  by (auto simp: then_parse_def yields_def bind_def lift_def ret_def all_of_def split: prod.splits sum.splits fetched.splits)

lemma yields_fetched:
  "yields (all_of (\<lambda>f. fo_source f = PROXY_HYPERLIQUID)) (funding_history H coin w iid)"
  "yields (all_of (\<lambda>c. cd_source c = PROXY_HYPERLIQUID)) (hl_candles H coin interval w iid)"
  unfolding funding_history_def hl_candles_def by (rule yields_then_parse, erule parsed_are_proxy)+

lemma yields_hclient: "yields P m \<Longrightarrow> yields P (hclient m)"
  by (auto simp: yields_def hclient_def focus_def split: prod.splits)

lemma yields_retried: "yields (all_of P) m \<Longrightarrow> yields (all_of P) (retried m)"
proof -
  assume m: "yields (all_of P) m"
  have "yields (all_of P) (with_retries ks m)" for ks
  proof (induction ks)
    case (Cons k ks)
    show ?case unfolding with_retries.simps
      by (rule yields_pass [OF yields_hclient [OF m]])
        (auto split: fetched.split simp: andthen_def all_of_simps intro!: Cons yields_ret yields_bind)
  qed (simp add: yields_def raise_def)
  then show ?thesis by (simp add: retried_def)
qed

text \<open>The database without its proxy rows.\<close>

definition not_proxy :: "db \<Rightarrow> db" where
  "not_proxy d = d\<lparr>db_funding := filter (\<lambda>f. fo_source f \<noteq> PROXY_HYPERLIQUID) (db_funding d),
     db_candles := filter (\<lambda>c. cd_source c \<noteq> PROXY_HYPERLIQUID) (db_candles d)\<rparr>"

lemma not_proxy_insert:
  "fo_source f = PROXY_HYPERLIQUID \<Longrightarrow> not_proxy (snd (insert_funding f d)) = not_proxy d"
  "cd_source c = PROXY_HYPERLIQUID \<Longrightarrow> not_proxy (snd (insert_candle c d)) = not_proxy d"
  by (simp_all add: not_proxy_def insert_funding_def insert_candle_def insert_or_ignore_def Let_def)

lemma keeps_hb_insert:
  assumes "list_all P rows" "\<And>r d. P r \<Longrightarrow> not_proxy (snd (ins r d)) = not_proxy d"
  shows "keeps (\<lambda>b. not_proxy (hb_db b) = d0) (hb_insert ins rows)"
proof -
  have "not_proxy (snd (foldl (\<lambda>(n, d) r. let (new, d') = ins r d in (if new then Suc n else n, d')) (n, d) rows)) = not_proxy d" for n d
    using assms(1) by (induction rows arbitrary: n d) (auto simp: assms(2) Let_def split_def)
  then show ?thesis by (auto simp: keeps_def hb_insert_def Let_def split_def)
qed

lemma keeps_retried: "keeps (\<lambda>b. not_proxy (hb_db b) = d0) (retried m)"
  unfolding keeps_def by (metis prod.collapse retried_sleeps)

lemma closed_candles_all: "closed_candles now cs = Inr done_cs \<Longrightarrow> list_all P cs \<Longrightarrow> list_all P done_cs"
  by (induction cs arbitrary: done_cs) (auto split: option.splits if_splits)

lemma keeps_candle_step: "keeps (\<lambda>b. not_proxy (hb_db b) = d0) (hl_candle_step H coin interval w iid end_ts)"
  unfolding hl_candle_step_def
proof (rule keeps_bind_yields [OF keeps_retried yields_retried [OF yields_fetched(2)]])
  fix got :: "candle list fetched"
  assume "all_of (\<lambda>c. cd_source c = PROXY_HYPERLIQUID) got"
  then show "keeps (\<lambda>b. not_proxy (hb_db b) = d0) (case got of Transient_Error _ _ \<Rightarrow> ret None
      | Fetched cs \<Rightarrow> bind (lift (closed_candles end_ts cs)) (\<lambda>done_cs. bind (hb_insert insert_candle done_cs) (\<lambda>n. ret (Some n))))"
    by (auto simp: all_of_def split: fetched.split
        intro!: keeps_intros keeps_bind_yields [OF keeps_lift yields_lift [where P = "list_all (\<lambda>c. cd_source c = PROXY_HYPERLIQUID)"]]
          keeps_hb_insert [where P = "\<lambda>c. cd_source c = PROXY_HYPERLIQUID"] not_proxy_insert intro: closed_candles_all)
qed

lemma keeps_hl_window: "keeps (\<lambda>b. not_proxy (hb_db b) = d0) (hl_window H minutely coin iid end_ts w y)"
  unfolding hl_window_def
proof (rule keeps_bind_yields [OF keeps_retried yields_retried [OF yields_fetched(1)]])
  fix got :: "funding_obs list fetched"
  assume "all_of (\<lambda>f. fo_source f = PROXY_HYPERLIQUID) got"
  then show "keeps (\<lambda>b. not_proxy (hb_db b) = d0) (case got of Transient_Error _ _ \<Rightarrow> ret (hl_failed w y)
      | Fetched fs \<Rightarrow> bind (hb_insert insert_funding fs) (\<lambda>n_f.
           let y1 = y\<lparr>ht_funding := ht_funding y + n_f\<rparr> in
           bind (hl_candle_step H coin ''1h'' w iid end_ts) (\<lambda>n_h.
             case n_h of
               None \<Rightarrow> ret (hl_failed w y1)
             | Some n \<Rightarrow>
                 let y2 = y1\<lparr>ht_hours := ht_hours y1 + n\<rparr> in
                 if \<not> minutely then ret y2
                 else
                   bind (hl_candle_step H coin ''1m'' w iid end_ts) (\<lambda>n_m.
                     case n_m of
                       None \<Rightarrow> ret (hl_failed w y2)
                     | Some n \<Rightarrow> ret (y2\<lparr>ht_minutes := ht_minutes y2 + n\<rparr>)))))"
    by (auto simp: all_of_def Let_def split: fetched.split intro!: keeps_intros keeps_candle_step
          keeps_hb_insert [where P = "\<lambda>f. fo_source f = PROXY_HYPERLIQUID"] not_proxy_insert)
qed

lemma keeps_hl_each: "keeps (\<lambda>b. not_proxy (hb_db b) = d0) (hl_each H minutely start end_ts m)"
proof -
  have windows: "keeps (\<lambda>b. not_proxy (hb_db b) = d0) (hl_windows H minutely coin iid end_ts ws y)" for coin iid ws y
    by (induction ws arbitrary: y) (auto intro!: keeps_intros keeps_hl_window)
  show ?thesis by (induction m) (auto intro!: keeps_intros windows)
qed

lemma query_not_proxy:
  "src \<noteq> PROXY_HYPERLIQUID \<Longrightarrow> query_funding d iid start e (Some src) = query_funding (not_proxy d) iid start e (Some src)"
  by (auto simp: query_funding_def not_proxy_def source_clause_def intro!: arg_cong [where f = "sort_key fo_exchange_ts"] filter_cong)

text \<open>
  C26. A proxy backfill never touches native data. Whatever the proxy answers and wherever the run ends, every row that
  is not a proxy's own is as it was, in every table; so no native data set is longer or better for it, and what the
  sufficiency check says of one is unchanged.
\<close>

theorem proxy_backfill_leaves_native_data:
  assumes "hl_main H n pairs minutely now b = (r, b')" "src \<in> set NATIVE_SOURCES"
  shows "not_proxy (hb_db b') = not_proxy (hb_db b) \<and>
    check_dataset (hb_db b') iid src t bar = check_dataset (hb_db b) iid src t bar"
proof -
  have "keeps (\<lambda>b. not_proxy (hb_db b) = d0) (hl_main H n pairs minutely now)" for d0
    unfolding hl_main_def by (intro keeps_intros keeps_hl_each)
  from keepsD [OF this [of "not_proxy (hb_db b)"], of b] have same: "not_proxy (hb_db b') = not_proxy (hb_db b)"
    using assms(1) by simp
  have "src \<noteq> PROXY_HYPERLIQUID" using assms(2) by (auto simp: NATIVE_SOURCES_def)
  with same show ?thesis by (simp add: check_dataset_def query_not_proxy [of src "hb_db b'"] query_not_proxy [of src "hb_db b"])
qed

text \<open>A proxy that answers one funding row for every request.\<close>

definition sample_proxy :: "unit hl_client" where
  "sample_proxy = \<lparr>hl_timer = \<lparr>tm_clock = ret 0, tm_sleep = \<lambda>_. ret ()\<rparr>,
     hl_post = \<lambda>body. ret \<lparr>rp_status = 200, rp_retry_after = None,
       rp_json = Inr (JArr (if item_field body ''type'' = Inr (JStr ''fundingHistory'')
         then [JObj [(''fundingRate'', JStr ''0.0001''), (''time'', JInt 3600000)]] else []))\<rparr>,
     hl_transport = \<lambda>_. False, hl_clock = ret 7, hl_now = ret 7, hl_parsedate = \<lambda>_. None\<rparr>"

definition sample_target :: "unit hl_backfill" where
  "sample_target = \<lparr>hb_db = empty_db, hb_client = \<lparr>pc_bucket = \<lparr>tb_rate = 2, tb_burst = 4, tb_tokens = 4, tb_last = 0\<rparr>, pc_world = ()\<rparr>,
     hb_slept = []\<rparr>"

lemma proxy_backfill_leaves_native_data_witness:
  "\<exists>r b'. hl_main sample_proxy 1 ''6=btc'' False (days 1) sample_target = (r, b') \<and> length (db_funding (hb_db b')) = 1
     \<and> check_dataset (hb_db b') 6 POLYMARKET_REST (days 2) BAR = check_dataset empty_db 6 POLYMARKET_REST (days 2) BAR"
proof -
  obtain r b' where run: "hl_main sample_proxy 1 ''6=btc'' False (days 1) sample_target = (r, b')" by fastforce
  have "length (db_funding (hb_db (snd (hl_main sample_proxy 1 ''6=btc'' False (days 1) sample_target)))) = 1" by code_simp
  moreover have "POLYMARKET_REST \<in> set NATIVE_SOURCES" by (simp add: NATIVE_SOURCES_def)
  ultimately show ?thesis using proxy_backfill_leaves_native_data [OF run] run by (auto simp: sample_target_def)
qed

end
