(* ===== verification/Feed_Process.thy ===== *)
theory Feed_Process
  imports Intake Feed_Laws Settings
begin

text \<open>
  \<open>scripts/run_feed.py\<close>: the process that stores the market. It resolves its instruments, then three tasks share the
  connection: the feed over the stream, the book snapshots, the health line. A run is a sequence of their iterations;
  the first tick that raises ends it, as does the end of the stream. Other processes write the same file, so every write
  of this one may be refused (SQLite raises once its lock cannot be had): \<open>fp_refuses n\<close> is what the \<open>n\<close>th write
  raises, any choice of writes and errors. A refused write leaves the tables as they were.
\<close>

record 'c feed_proc =
  fp_db :: db
  fp_refuses :: "nat \<Rightarrow> exn option"
  fp_writes :: nat
  fp_client :: "'c paced"
  fp_log :: "text_t list"

type_synonym ('c, 'a) fproc = "('c feed_proc, 'a) eff"

definition fclient :: "('c paced, 'a) eff \<Rightarrow> ('c, 'a) fproc" where
  "fclient m = focus fp_client (\<lambda>c p. p\<lparr>fp_client := c\<rparr>) m"

definition fdb :: "(db \<Rightarrow> db) \<Rightarrow> ('c, unit) fproc" where
  "fdb g = (\<lambda>p. let q = p\<lparr>fp_writes := fp_writes p + 1\<rparr> in
     case fp_refuses p (fp_writes p) of
       None \<Rightarrow> (Inr (), q\<lparr>fp_db := g (fp_db p)\<rparr>)
     | Some e \<Rightarrow> (Inl e, q))"

definition flog :: "text_t \<Rightarrow> ('c, unit) fproc" where
  "flog line = upd (\<lambda>p. p\<lparr>fp_log := fp_log p @ [line]\<rparr>)"

section \<open>Starting\<close>

text \<open>What \<open>--list-instruments\<close> prints of an instrument.\<close>

definition list_line :: "instrument \<Rightarrow> text_t" where
  "list_line i = [I (is_id i), S (is_symbol i), S (is_category i), S ''funding='', S (is_funding_interval i), S ''max_lev='',
     I (is_max_leverage i), S ''x'']"

definition list_instruments :: "'c sdk \<Rightarrow> ('c paced, text_t list) eff" where
  "list_instruments C = bind (fetch_instruments C) (\<lambda>is. ret (map list_line is))"

text \<open>An unknown id ends the process with code 2 before anything is subscribed.\<close>

definition resolve :: "'c sdk \<Rightarrow> int list \<Rightarrow> ('c, (int \<times> string) list) fproc" where
  "resolve C ids =
     bind (fclient (fetch_instruments C)) (\<lambda>is.
     let known = map_of (rev (map (\<lambda>i. (is_id i, is_symbol i)) is)); unknown = filter (\<lambda>i. known i = None) ids in
     if unknown \<noteq> [] then
       andthen (flog (S ''unknown instrument id(s) in POLYPERPS_INSTRUMENT_IDS: '' # map I unknown))
         (raise (Exn (OtherException ''SystemExit'') [I 2]))
     else
       let names = dict_of (map (\<lambda>i. (i, the (known i))) ids) in
       andthen (flog (S ''resolved instruments: '' # concat (map (\<lambda>(i, s). [I i, S s]) names))) (ret names))"

section \<open>The tasks\<close>

fun reason_value :: "reject_reason \<Rightarrow> string" where
  "reason_value Stale = ''stale''"
| "reason_value NonPositivePrice = ''non_positive_price''"
| "reason_value MarkIndexDivergence = ''mark_index_divergence''"
| "reason_value FundingOutOfBounds = ''funding_out_of_bounds''"
| "reason_value OutOfOrder = ''out_of_order''"
| "reason_value PriceJump = ''price_jump''"

definition store_tick :: "tick \<Rightarrow> ('c, unit) fproc" where
  "store_tick t = fdb (\<lambda>d. snd (insert_tick t d))"

definition seq_text :: "tick \<Rightarrow> text_t" where
  "seq_text t = (case tk_sequence t of None \<Rightarrow> [S ''None''] | Some n \<Rightarrow> [I n])"

definition store_rejection :: "tick \<Rightarrow> rejection \<Rightarrow> ('c, unit) fproc" where
  "store_rejection t why =
     andthen (fdb (insert_rejection (tk_instrument t) (reason_value (rj_why why)) (rj_text why) (tk_received_ts t)))
       (flog (S ''rejected '' # I (tk_instrument t) # S '' seq='' # seq_text t @ S (reason_value (rj_why why)) # rj_text why))"

definition process_hooks :: "'c sdk \<Rightarrow> 'c feed_proc feed_hooks" where
  "process_hooks C = \<lparr>hk_accept = store_tick, hk_reject = Some store_rejection, hk_clock = fclient (pworld (sd_clock C))\<rparr>"

text \<open>One round of book snapshots: a book that cannot be fetched is logged and the next instrument follows.\<close>

definition book_round :: "'c sdk \<Rightarrow> int list \<Rightarrow> ('c, unit) fproc" where
  "book_round C ids =
     forM ids (\<lambda>iid.
       attempt (bind (fclient (fetch_book C iid 10)) (\<lambda>b. fdb (\<lambda>d. snd (insert_book 10 b d))))
         (\<lambda>_. flog [S ''book snapshot failed for '', I iid]))"

definition health_line :: "feed_health \<Rightarrow> time \<Rightarrow> text_t" where
  "health_line h now =
     [S ''health received='', I (int (fh_received h)), S '' accepted='', I (int (fh_accepted h)), S '' rejected='']
     @ concat (map (\<lambda>(why, n). [S (reason_value why), I (int n)]) (fh_rejected h))
     @ [S '' silent_for_s='']
     @ (case fh_last_event h of None \<Rightarrow> [S ''None''] | Some t \<Rightarrow> [D (fl (of_int (now - t) / 1000000))])
     @ [S '' last=''] @ concat (map (\<lambda>(i, t). [I i, I t]) (fh_last_accepted h))"

text \<open>
  An iteration: the stream yields a tick, or raises; the snapshot task wakes up; the health task does.
\<close>

datatype feed_iteration = Feed_Tick tick | Stream_Raises exn | Book_Round | Health_Line time

definition feed_iterate :: "'c sdk \<Rightarrow> settings \<Rightarrow> feed_iteration \<Rightarrow> ('c feed_proc, unit) fop" where
  "feed_iterate C sg it =
     (case it of
        Feed_Tick t \<Rightarrow> feed_tick (process_hooks C) (sg_bounds sg) t
      | Stream_Raises e \<Rightarrow> raise e
      | Book_Round \<Rightarrow> fworld (book_round C (sg_instruments sg))
      | Health_Line now \<Rightarrow> bind (get fd_health) (\<lambda>h. fworld (flog (health_line h now))))"

text \<open>\<open>run_once\<close>: the client, the instruments, a fresh feed, the iterations until the stream ends.\<close>

definition new_client :: "settings \<Rightarrow> rat \<Rightarrow> 'c \<Rightarrow> 'c paced res" where
  "new_client sg now w = rmap (\<lambda>b. \<lparr>pc_bucket = b, pc_world = w\<rparr>) (bucket_new (sg_rest_rate sg) (sg_rest_burst sg) now)"

definition feed_once ::
  "'c sdk \<Rightarrow> settings \<Rightarrow> feed_iteration list \<Rightarrow> 'c feed_proc \<Rightarrow> unit res \<times> 'c feed_proc" where
  "feed_once C sg its p =
     (case resolve C (sg_instruments sg) p of
        (Inl e, p') \<Rightarrow> (Inl e, p')
      | (Inr _, p') \<Rightarrow>
          (case forM its (feed_iterate C sg) (feed_init p') of (r, f) \<Rightarrow> (r, fd_world f)))"

text \<open>\<open>main\<close>: settings, client, one run on an opened connection.\<close>

definition feed_main ::
  "'c sdk \<Rightarrow> env \<Rightarrow> feed_iteration list \<Rightarrow> db \<Rightarrow> (nat \<Rightarrow> exn option) \<Rightarrow> rat \<Rightarrow> 'c \<Rightarrow> (unit res \<times> 'c feed_proc) res" where
  "feed_main C env its d refuses now w =
     rbind (load_settings env) (\<lambda>sg.
     rmap (\<lambda>cl. feed_once C sg its 
       \<lparr>fp_db = d, fp_refuses = refuses, fp_writes = 0, fp_client = cl, fp_log = []\<rparr>) (new_client sg now w))"

section \<open>What a run leaves of every tick\<close>

text \<open>The clock of a process always answers.\<close>

definition clock_answers :: "'c sdk \<Rightarrow> bool" where
  "clock_answers C \<longleftrightarrow> (\<forall>w. \<exists>t w'. sd_clock C w = (Inr t, w'))"

text \<open>
  The specification: the ticks of the iterations, sorted by the filter of \<open>Feed_Laws\<close> into those let through
  and the rows of those rejected (the tick's instrument and arrival, the filter's reason and its detail).
\<close>

fun ticks_of :: "feed_iteration list \<Rightarrow> tick list" where
  "ticks_of [] = []"
| "ticks_of (Feed_Tick t # its) = t # ticks_of its"
| "ticks_of (_ # its) = ticks_of its"

definition rejection_of :: "tick \<Rightarrow> rejection \<Rightarrow> rejection_row" where
  "rejection_of t why = \<lparr>rj_instrument = tk_instrument t, rj_at = tk_received_ts t, rj_reason = reason_value (rj_why why),
     rj_detail = rj_text why\<rparr>"

definition verdict :: "sanity_bounds \<Rightarrow> tick list \<Rightarrow> tick \<Rightarrow> rejection option res" where
  "verdict b passed t = check_tick b t (last_opt (of_instrument (tk_instrument t) passed))"

definition sort_tick :: "sanity_bounds \<Rightarrow> tick list \<times> rejection_row list \<Rightarrow> tick \<Rightarrow> tick list \<times> rejection_row list" where
  "sort_tick b out t = (admit b (fst out) t,
     snd out @ (case verdict b (fst out) t of Inr (Some why) \<Rightarrow> [rejection_of t why] | _ \<Rightarrow> []))"

definition sorted_ticks :: "sanity_bounds \<Rightarrow> feed_iteration list \<Rightarrow> tick list \<times> rejection_row list" where
  "sorted_ticks b its = foldl (sort_tick b) ([], []) (ticks_of its)"

text \<open>
  The database after them: every tick let through went in by \<open>INSERT OR IGNORE\<close>, in order, so it is stored unless a row of
  its instrument, source and instant was; every rejected one left its row; the books are some books; nothing else moved.
\<close>

definition ingested :: "sanity_bounds \<Rightarrow> feed_iteration list \<Rightarrow> book_snapshot list \<Rightarrow> db \<Rightarrow> db" where
  "ingested b its books d = d\<lparr>
     db_ticks := foldl (\<lambda>rows t. snd (insert_or_ignore tick_key t rows)) (db_ticks d) (fst (sorted_ticks b its)),
     db_rejections := db_rejections d @ snd (sorted_ticks b its),
     db_books := books\<rparr>"

text \<open>What may end a run early: the stream itself, or the last write tried, of this tick.\<close>

definition ended_by :: "feed_iteration \<Rightarrow> exn \<Rightarrow> 'c feed_proc \<Rightarrow> bool" where
  "ended_by it e p \<longleftrightarrow> (case it of
     Stream_Raises x \<Rightarrow> x = e
   | Feed_Tick t \<Rightarrow> 0 < fp_writes p \<and> fp_refuses p (fp_writes p - 1) = Some e
   | _ \<Rightarrow> False)"

lemma ticks_of_append: "ticks_of (xs @ ys) = ticks_of xs @ ticks_of ys"
  by (induction xs rule: ticks_of.induct) simp_all

lemma sorted_ticks_snoc:
  "sorted_ticks b (its @ [it]) = (case it of Feed_Tick t \<Rightarrow> sort_tick b (sorted_ticks b its) t | _ \<Rightarrow> sorted_ticks b its)"
  by (cases it) (simp_all add: sorted_ticks_def ticks_of_append)

lemma sorted_ticks_clean: "clean_stream b (fst (sorted_ticks b its))"
proof -
  have "fst (foldl (sort_tick b) out ts) = foldl (admit b) (fst out) ts" for out ts
    by (induction ts arbitrary: out) (simp_all add: sort_tick_def)
  moreover have "clean_stream b []" by (simp add: clean_stream_def)
  ultimately show ?thesis by (simp add: sorted_ticks_def clean_stream_foldl)
qed

lemma sorted_ticks_sane: "t \<in> set (fst (sorted_ticks b its)) \<Longrightarrow> sane_tick b t"
  using sorted_ticks_clean [of b its] by (simp add: clean_stream_def list_all_iff)

lemma verdict_returns:
  "\<exists>why. verdict b (fst (sorted_ticks b its)) t = Inr why \<and>
     sort_tick b (sorted_ticks b its) t = (case why of
        None \<Rightarrow> (fst (sorted_ticks b its) @ [t], snd (sorted_ticks b its))
      | Some w \<Rightarrow> (fst (sorted_ticks b its), snd (sorted_ticks b its) @ [rejection_of t w]))"
proof -
  let ?out = "fst (sorted_ticks b its)"
  have "baselines_positive (last_opt (of_instrument (tk_instrument t) ?out))"
    using sorted_ticks_sane [of _ b its]
    by (auto simp: baselines_positive_def sane_tick_def of_instrument_def dest!: last_opt_mem split: option.split)
  from check_tick_returns [OF this, of b t] show ?thesis
    by (auto simp: verdict_def sort_tick_def admit_def split: option.split)
qed

text \<open>Where a feed process stands after some iterations.\<close>

definition stands_at :: "sanity_bounds \<Rightarrow> feed_iteration list \<Rightarrow> 'c feed_proc \<Rightarrow> 'c feed_proc feed \<Rightarrow> bool" where
  "stands_at b past p f \<longleftrightarrow>
     (\<exists>books. fp_db (fd_world f) = ingested b past books (fp_db p)) \<and> fp_refuses (fd_world f) = fp_refuses p \<and>
     (\<forall>i. map_of (fd_previous f) i = last_opt (of_instrument i (fst (sorted_ticks b past))))"

lemma clock_reads:
  assumes "clock_answers C"
  shows "\<exists>t w. fclient (pworld (sd_clock C)) p = (Inr t, p\<lparr>fp_client := w\<rparr>)"
proof -
  obtain t w' where "sd_clock C (pc_world (fp_client p)) = (Inr t, w')" using assms unfolding clock_answers_def by blast
  then show ?thesis by (auto simp: fclient_def pworld_def focus_def)
qed

text \<open>What an iteration does to the tables, and what one that raises leaves.\<close>

definition after_iteration ::
  "sanity_bounds \<Rightarrow> feed_iteration list \<Rightarrow> feed_iteration \<Rightarrow> 'c feed_proc \<Rightarrow> unit res \<times> 'c feed_proc feed \<Rightarrow> bool" where
  "after_iteration b past it p out \<longleftrightarrow> (case out of
     (Inr _, f) \<Rightarrow> stands_at b (past @ [it]) p f
   | (Inl e, f) \<Rightarrow> (\<exists>books. fp_db (fd_world f) = ingested b past books (fp_db p)) \<and>
       fp_refuses (fd_world f) = fp_refuses p \<and> ended_by it e (fd_world f))"

lemma ingested_passed:
  "sort_tick b (sorted_ticks b past) t = (fst (sorted_ticks b past) @ [t], snd (sorted_ticks b past)) \<Longrightarrow>
     ingested b (past @ [Feed_Tick t]) books d = snd (insert_tick t (ingested b past books d))"
  by (simp add: ingested_def sorted_ticks_snoc insert_tick_def split_beta)

lemma ingested_rejected:
  "sort_tick b (sorted_ticks b past) t = (fst (sorted_ticks b past), snd (sorted_ticks b past) @ [rejection_of t why]) \<Longrightarrow>
     ingested b (past @ [Feed_Tick t]) books d
       = insert_rejection (tk_instrument t) (reason_value (rj_why why)) (rj_text why) (tk_received_ts t) (ingested b past books d)"
  by (simp add: ingested_def sorted_ticks_snoc rejection_of_def insert_rejection_def)

lemma ingested_other: "(\<And>t. it \<noteq> Feed_Tick t) \<Longrightarrow> ingested b (past @ [it]) books d = ingested b past books d"
  by (cases it) (auto simp: ingested_def sorted_ticks_snoc)

lemma stands_at_other:
  "(\<And>t. it \<noteq> Feed_Tick t) \<Longrightarrow> stands_at b (past @ [it]) p f \<longleftrightarrow> stands_at b past p f"
  by (cases it) (auto simp: stands_at_def ingested_other sorted_ticks_snoc)

lemma feed_tick_ingests:
  assumes "clock_answers C" "stands_at b past p f"
  shows "after_iteration b past (Feed_Tick t) p (feed_tick (process_hooks C) b t f)"
proof -
  obtain now w where clock: "fclient (pworld (sd_clock C)) (fd_world f) = (Inr now, (fd_world f)\<lparr>fp_client := w\<rparr>)"
    using clock_reads [OF assms(1)] by blast
  obtain books where db: "fp_db (fd_world f) = ingested b past books (fp_db p)" and refuses: "fp_refuses (fd_world f) = fp_refuses p"
    and last: "\<And>i. map_of (fd_previous f) i = last_opt (of_instrument i (fst (sorted_ticks b past)))"
    using assms(2) unfolding stands_at_def by blast
  obtain why where why: "verdict b (fst (sorted_ticks b past)) t = Inr why"
    "sort_tick b (sorted_ticks b past) t = (case why of
        None \<Rightarrow> (fst (sorted_ticks b past) @ [t], snd (sorted_ticks b past))
      | Some v \<Rightarrow> (fst (sorted_ticks b past), snd (sorted_ticks b past) @ [rejection_of t v]))"
    using verdict_returns by blast
  note steps = feed_tick_def fworld_def fhealth_def process_hooks_def fdb_def flog_def andthen_def bind_def upd_def ret_def getr_def
    focus_def verdict_def Let_def
  show ?thesis
  proof (cases why)
    case None
    have "ingested b (past @ [Feed_Tick t]) books (fp_db p) = snd (insert_tick t (ingested b past books (fp_db p)))"
      by (rule ingested_passed) (simp add: why(2) None)
    then have "\<exists>bs. snd (insert_tick t (ingested b past books (fp_db p))) = ingested b (past @ [Feed_Tick t]) bs (fp_db p)"
      by metis
    then show ?thesis using clock why db refuses last None
      by (cases "fp_refuses p (fp_writes (fd_world f))")
        (auto simp: steps accept_tick_def store_tick_def after_iteration_def stands_at_def ended_by_def sorted_ticks_snoc
          of_instrument_snoc last_opt_def update_conv)
  next
    case (Some v)
    have "ingested b (past @ [Feed_Tick t]) books (fp_db p)
        = insert_rejection (tk_instrument t) (reason_value (rj_why v)) (rj_text v) (tk_received_ts t) (ingested b past books (fp_db p))"
      by (rule ingested_rejected) (simp add: why(2) Some)
    then have "\<exists>bs. insert_rejection (tk_instrument t) (reason_value (rj_why v)) (rj_text v) (tk_received_ts t)
        (ingested b past books (fp_db p)) = ingested b (past @ [Feed_Tick t]) bs (fp_db p)" by metis
    then show ?thesis using clock why db refuses last Some
      by (cases "fp_refuses p (fp_writes (fd_world f))")
        (auto simp: steps reject_tick_def store_rejection_def after_iteration_def stands_at_def ended_by_def sorted_ticks_snoc)
  qed
qed

text \<open>A round of books always returns, and moves no table but the books.\<close>

lemma ingested_books: "(ingested b past books d)\<lparr>db_books := books'\<rparr> = ingested b past books' d"
  by (simp add: ingested_def)

lemma book_round_returns:
  "\<exists>q books. book_round C ids p = (Inr (), q) \<and> fp_db q = (fp_db p)\<lparr>db_books := books\<rparr> \<and> fp_refuses q = fp_refuses p"
proof (induction ids arbitrary: p)
  case Nil
  have "\<exists>books. fp_db p = (fp_db p)\<lparr>db_books := books\<rparr>" by (rule exI [of _ "db_books (fp_db p)"]) simp
  then show ?case by (simp add: book_round_def ret_def)
next
  case (Cons iid ids)
  let ?one = "attempt (bind (fclient (fetch_book C iid 10)) (\<lambda>b. fdb (\<lambda>d. snd (insert_book 10 b d))))
         (\<lambda>_. flog [S ''book snapshot failed for '', I iid])"
  have keep: "\<exists>books. fp_db p = (fp_db p)\<lparr>db_books := books\<rparr>" by (rule exI [of _ "db_books (fp_db p)"]) simp
  have "\<exists>p1. ?one p = (Inr (), p1) \<and> (\<exists>books. fp_db p1 = (fp_db p)\<lparr>db_books := books\<rparr>) \<and> fp_refuses p1 = fp_refuses p"
    using keep by (cases "fetch_book C iid 10 (fp_client p)"; cases "fst (fetch_book C iid 10 (fp_client p))";
        cases "fp_refuses p (fp_writes p)")
      (auto simp: attempt_def bind_def fclient_def focus_def fdb_def flog_def upd_def Let_def insert_book_def split_beta)
  then obtain p1 books where p1: "?one p = (Inr (), p1)" "fp_db p1 = (fp_db p)\<lparr>db_books := books\<rparr>" "fp_refuses p1 = fp_refuses p"
    by blast
  from Cons [of p1] obtain p2 books' where "book_round C ids p1 = (Inr (), p2)" "fp_db p2 = (fp_db p1)\<lparr>db_books := books'\<rparr>"
    "fp_refuses p2 = fp_refuses p1" by blast
  with p1 show ?case by (auto simp: book_round_def andthen_def bind_def)
qed

lemma iteration_ingests:
  assumes "clock_answers C" "stands_at (sg_bounds sg) past p f"
  shows "after_iteration (sg_bounds sg) past it p (feed_iterate C sg it f)"
proof (cases it)
  case (Feed_Tick t)
  then show ?thesis using feed_tick_ingests [OF assms] by (simp add: feed_iterate_def)
next
  case (Stream_Raises e)
  then show ?thesis using assms(2) by (auto simp: feed_iterate_def raise_def after_iteration_def stands_at_def ended_by_def)
next
  case Book_Round
  obtain q books where "book_round C (sg_instruments sg) (fd_world f) = (Inr (), q)"
    "fp_db q = (fp_db (fd_world f))\<lparr>db_books := books\<rparr>" "fp_refuses q = fp_refuses (fd_world f)"
    using book_round_returns by blast
  with Book_Round assms(2) show ?thesis
    by (auto simp: feed_iterate_def fworld_def focus_def after_iteration_def stands_at_other)
      (auto simp: stands_at_def ingested_books)
next
  case (Health_Line now)
  with assms(2) show ?thesis
    by (auto simp: feed_iterate_def fworld_def focus_def flog_def bind_def get_def upd_def after_iteration_def stands_at_other)
      (auto simp: stands_at_def)
qed

lemma iterations_ingest:
  assumes "clock_answers C" "stands_at (sg_bounds sg) past p f"
  shows "case forM its (feed_iterate C sg) f of (r, f') \<Rightarrow>
    \<exists>gone later books. its = gone @ later \<and> fp_db (fd_world f') = ingested (sg_bounds sg) (past @ gone) books (fp_db p) \<and>
      fp_refuses (fd_world f') = fp_refuses p \<and>
      (case r of Inr _ \<Rightarrow> later = [] | Inl e \<Rightarrow> \<exists>it rest. later = it # rest \<and> ended_by it e (fd_world f'))"
  using assms(2)
proof (induction its arbitrary: f past)
  case Nil
  then show ?case by (auto simp: ret_def stands_at_def)
next
  case (Cons it its)
  obtain r f1 where step: "feed_iterate C sg it f = (r, f1)" by fastforce
  with iteration_ingests [OF assms(1) Cons.prems, of it] have after: "after_iteration (sg_bounds sg) past it p (r, f1)" by simp
  show ?case
  proof (cases r)
    case (Inl e)
    then obtain books where "fp_db (fd_world f1) = ingested (sg_bounds sg) (past @ []) books (fp_db p)"
      "fp_refuses (fd_world f1) = fp_refuses p" "ended_by it e (fd_world f1)"
      using after by (auto simp: after_iteration_def)
    moreover have "forM (it # its) (feed_iterate C sg) f = (Inl e, f1)" using step Inl by (simp add: andthen_def bind_def)
    ultimately show ?thesis
      by (simp only: prod.case sum.case) (intro exI conjI, rule append_Nil [symmetric], simp_all)
  next
    case (Inr u)
    then have "stands_at (sg_bounds sg) (past @ [it]) p f1" using after by (simp add: after_iteration_def)
    note rest = Cons.IH [OF this]
    obtain r' f2 where run: "forM its (feed_iterate C sg) f1 = (r', f2)" by fastforce
    with rest obtain gone later books where "its = gone @ later"
      "fp_db (fd_world f2) = ingested (sg_bounds sg) ((past @ [it]) @ gone) books (fp_db p)" "fp_refuses (fd_world f2) = fp_refuses p"
      "case r' of Inr _ \<Rightarrow> later = [] | Inl e \<Rightarrow> \<exists>it rest. later = it # rest \<and> ended_by it e (fd_world f2)"
      by auto
    moreover have "forM (it # its) (feed_iterate C sg) f = (r', f2)" using step Inr run by (simp add: andthen_def bind_def)
    ultimately show ?thesis
      by (simp only: prod.case) (intro exI conjI, rule append_Cons [symmetric], simp_all)
  qed
qed

lemma resolve_frame: "resolve C ids p = (r, p1) \<Longrightarrow> fp_db p1 = fp_db p \<and> fp_refuses p1 = fp_refuses p"
  by (cases "fetch_instruments C (fp_client p)"; cases "fst (fetch_instruments C (fp_client p))")
    (auto simp: resolve_def bind_def fclient_def focus_def flog_def andthen_def upd_def raise_def ret_def Let_def split: if_splits)

text \<open>
  C34. Every tick the feed process handled is in its database. Whatever iterations come, whichever writes SQLite refuses,
  whatever the stream raises and however often a book cannot be fetched: the tables it leaves are exactly those of the
  iterations it got through, each tick the filter let through having gone into \<open>ticks\<close> (by \<open>INSERT OR IGNORE\<close>: it is
  stored, unless a row of the same instrument, source and instant was) and each rejected one into \<open>rejections\<close> with its own
  reason and detail. It got through all of them, unless the stream raised, or the write of a tick was refused: that
  error ends the process, and the tick it lost is the one whose write was refused. Where no write is refused and the
  stream does not raise, the process thus ends with its stream and not before.
\<close>

theorem feed_accounts_for_every_tick:
  assumes "clock_answers C" "resolve C (sg_instruments sg) p = (Inr names, p1)"
  shows "case feed_once C sg its p of (r, q) \<Rightarrow>
    \<exists>gone later books. its = gone @ later \<and> fp_db q = ingested (sg_bounds sg) gone books (fp_db p) \<and>
      fp_refuses q = fp_refuses p \<and>
      (case r of Inr _ \<Rightarrow> later = [] | Inl e \<Rightarrow> \<exists>it rest. later = it # rest \<and> ended_by it e q)"
proof -
  have "fp_db p1 = (fp_db p1)\<lparr>db_books := db_books (fp_db p1)\<rparr>" by simp
  then have "stands_at (sg_bounds sg) [] p (feed_init p1)"
    using resolve_frame [OF assms(2)]
    by (auto simp: stands_at_def feed_init_def ingested_def sorted_ticks_def of_instrument_def last_opt_def
        intro!: exI [of _ "db_books (fp_db p)"])
  from iterations_ingest [OF assms(1) this, of its] show ?thesis
    using assms(2) by (auto simp: feed_once_def split_beta)
qed

section \<open>An example\<close>

definition still_sdk :: "unit sdk" where
  "still_sdk = \<lparr>sd_timer = \<lparr>tm_clock = ret 0, tm_sleep = \<lambda>_. ret ()\<rparr>, sd_clock = ret 7,
     sd_instruments = ret [\<lparr>si_id = 6, si_symbol = ''BTC'', si_category = ''crypto'', si_funding_interval = ''1h'', si_max_leverage = 10,
       si_price_decimals = 2, si_quantity_decimals = 3, si_min_notional = 1, si_isolated_only = False\<rparr>],
     sd_ticker = \<lambda>_. raise (Exn KeyError []), sd_book = \<lambda>_ _. raise (Exn KeyError []), sd_funding = \<lambda>_ _ _. [],
     sd_candles = \<lambda>_ _ _ _. [], sd_fees = ret []\<rparr>"

definition sample_settings :: settings where
  "sample_settings = \<lparr>sg_db_path = [], sg_instruments = [6], sg_bounds = DEFAULT_BOUNDS, sg_book_interval = 5,
     sg_health_interval = 60, sg_rest_rate = 2, sg_rest_burst = 4\<rparr>"

text \<open>A process whose third write is refused.\<close>

definition sample_proc :: "unit feed_proc" where
  "sample_proc = \<lparr>fp_db = empty_db, fp_refuses = \<lambda>n. if n = 2 then Some (Exn (OtherException ''OperationalError'') []) else None,
     fp_writes = 0, fp_client = \<lparr>pc_bucket = \<lparr>tb_rate = 2, tb_burst = 4, tb_tokens = 4, tb_last = 0\<rparr>, pc_world = ()\<rparr>, fp_log = []\<rparr>"

definition sample_tick :: "dec \<Rightarrow> time \<Rightarrow> tick" where
  "sample_tick mark at_ts = \<lparr>tk_instrument = 6, tk_mark = mark, tk_index = 100, tk_last = 100, tk_funding = 0, tk_next_funding = 0,
     tk_exchange_ts = at_ts, tk_received_ts = at_ts, tk_source = POLYMARKET_WS, tk_sequence = None\<rparr>"

definition sample_its :: "feed_iteration list" where
  "sample_its = [Feed_Tick (sample_tick 100 5), Book_Round, Feed_Tick (sample_tick 0 6), Feed_Tick (sample_tick 101 7), Health_Line 8]"

lemma feed_accounts_for_every_tick_witness:
  "\<exists>e q gone later books. feed_once still_sdk sample_settings sample_its sample_proc = (Inl e, q) \<and>
     (length (db_ticks (fp_db q)), length (db_rejections (fp_db q))) = (1, 1) \<and>
     sample_its = gone @ later \<and> fp_db q = ingested DEFAULT_BOUNDS gone books empty_db \<and>
     (\<exists>it rest. later = it # rest \<and> ended_by it e q)"
proof -
  have "clock_answers still_sdk" by (simp add: clock_answers_def still_sdk_def ret_def)
  moreover have "isl (fst (resolve still_sdk (sg_instruments sample_settings) sample_proc)) = False" by code_simp
  then obtain names p1 where "resolve still_sdk (sg_instruments sample_settings) sample_proc = (Inr names, p1)"
    by (cases "resolve still_sdk (sg_instruments sample_settings) sample_proc"; cases "fst (resolve still_sdk (sg_instruments sample_settings) sample_proc)") auto
  ultimately have run: "case feed_once still_sdk sample_settings sample_its sample_proc of (r, q) \<Rightarrow>
    \<exists>gone later books. sample_its = gone @ later \<and> fp_db q = ingested DEFAULT_BOUNDS gone books empty_db \<and>
      fp_refuses q = fp_refuses sample_proc \<and>
      (case r of Inr _ \<Rightarrow> later = [] | Inl e \<Rightarrow> \<exists>it rest. later = it # rest \<and> ended_by it e q)"
    using feed_accounts_for_every_tick [of still_sdk sample_settings sample_proc names p1 sample_its]
    by (simp add: sample_settings_def sample_proc_def)
  have "(case feed_once still_sdk sample_settings sample_its sample_proc of (r, q) \<Rightarrow>
      (isl r, length (db_ticks (fp_db q)), length (db_rejections (fp_db q)))) = (True, 1, 1)" by code_simp
  then obtain e q where "feed_once still_sdk sample_settings sample_its sample_proc = (Inl e, q)"
    "length (db_ticks (fp_db q)) = 1" "length (db_rejections (fp_db q)) = 1"
    by (auto simp: isl_def split: prod.splits)
  with run show ?thesis by auto
qed

end
