(* ===== verification/Server.thy ===== *)
theory Server
  imports Dashboard Settings
begin

text \<open>
  \<open>dashboard/server.py\<close> and \<open>scripts/run_dashboard.py\<close>: what a request gets. A reply is its status, its body as a value
  and whether the body is sent; sockets, threads and JSON text are left out, as is percent-decoding (\<open>unquote\<close>).
\<close>

section \<open>The state of a run\<close>

text \<open>The configuration of the server; \<open>sv_open\<close> is the read-only connection of a request, or the error of opening it.\<close>

record server =
  sv_open :: "db res"
  sv_run :: string
  sv_instruments :: "int list"
  sv_hypothesis :: string
  sv_known :: known_instruments
  sv_host :: string
  sv_clock :: time
  sv_env :: env
  sv_validated :: bool
  sv_apart :: "time \<Rightarrow> time \<Rightarrow> rat"

definition hypothesis_of :: "server \<Rightarrow> string \<Rightarrow> string" where
  "hypothesis_of sv run =
     (let pre = sv_run sv @ ''-h''; rest = drop (length pre) run in
      if take (length pre) run = pre \<and> isdigit rest then CHR ''h'' # rest else sv_hypothesis sv)"

record state_payload =
  sp_page :: page
  sp_runs :: "(string \<times> string) list"

text \<open>Nothing when the run asked for is not one this dashboard shows.\<close>

definition server_state :: "server \<Rightarrow> string option \<Rightarrow> state_payload option res" where
  "server_state sv asked =
     rbind (sv_open sv) (\<lambda>d.
       let runs = list_runs d (sv_run sv);
           run = (case truthy asked of None \<Rightarrow> sv_run sv | Some r \<Rightarrow> r) in
       if run \<notin> set runs then Inr None
       else
         rmap (\<lambda>pg. Some \<lparr>sp_page = pg, sp_runs = map (\<lambda>r. (r, hypothesis_of sv r)) runs\<rparr>)
           (build_state (sv_apart sv) d run (sv_instruments sv) (sv_known sv) (hypothesis_of sv run) (sv_host sv) (sv_clock sv)
             (sv_env sv) (sv_validated sv)))"

section \<open>Requests\<close>

datatype reply_body = Index_Html | State_Json state_payload | Error_Json string

record reply =
  ry_status :: int
  ry_body :: reply_body
  ry_sent :: bool

definition is_json :: "reply_body \<Rightarrow> bool" where
  "is_json b = (case b of Index_Html \<Rightarrow> False | _ \<Rightarrow> True)"

text \<open>The headers a reply has beside its length; JSON is never cached.\<close>

definition reply_headers :: "reply \<Rightarrow> (string \<times> string) list" where
  "reply_headers r =
     (''Content-Type'', if is_json (ry_body r) then ''application/json; charset=utf-8'' else ''text/html; charset=utf-8'')
       # (if is_json (ry_body r) then [(''Cache-Control'', ''no-store'')] else [])"

text \<open>\<open>parse_qs\<close>: fields without an equals sign or with an empty value are dropped; a plus is a space.\<close>

definition query_field :: "(string \<Rightarrow> string) \<Rightarrow> string \<Rightarrow> (string \<times> string) option" where
  "query_field unquote field =
     (let k = takeWhile (\<lambda>c. c \<noteq> CHR ''='') field; v = drop (length k + 1) field;
          plain = \<lambda>s. unquote (map (\<lambda>c. if c = CHR ''+'' then CHR '' '' else c) s) in
      if v = [] then None else Some (plain k, plain v))"

definition query_get :: "(string \<Rightarrow> string) \<Rightarrow> string \<Rightarrow> string \<Rightarrow> string option" where
  "query_get unquote query key = map_of (List.map_filter (query_field unquote) (split_on (CHR ''&'') query)) key"

definition route :: "(string \<Rightarrow> string) \<Rightarrow> server \<Rightarrow> bool \<Rightarrow> string \<Rightarrow> reply" where
  "route unquote sv head target =
     (let path = takeWhile (\<lambda>c. c \<noteq> CHR ''?'') target; query = drop (length path + 1) target;
          answer = \<lambda>status body. \<lparr>ry_status = status, ry_body = body, ry_sent = \<not> head\<rparr> in
      if path = ''/'' then answer 200 Index_Html
      else if path = ''/api/state'' then
        (case server_state sv (query_get unquote query ''run'') of
           Inr None \<Rightarrow> answer 404 (Error_Json ''unknown_run'')
         | Inr (Some payload) \<Rightarrow> answer 200 (State_Json payload)
         | Inl e \<Rightarrow> if exc_class e = OtherException ''OperationalError'' then answer 503 (Error_Json ''db_unavailable'')
                    else answer 500 (Error_Json ''internal''))
      else answer 404 (Error_Json ''not_found''))"

text \<open>How much of a refused request's body is read: at most \<open>n\<close> bytes, or all of it when \<open>n\<close> is negative.\<close>

definition drain_limit :: "string option \<Rightarrow> int" where
  "drain_limit header =
     (let n = (case truthy header of None \<Rightarrow> 0 | Some txt \<Rightarrow> (case py_int txt of Inl _ \<Rightarrow> 0 | Inr n \<Rightarrow> n)) in
      if n = 0 then 0 else min n 65536)"

definition drained :: "string option \<Rightarrow> nat \<Rightarrow> nat" where
  "drained header body = (let n = drain_limit header in if n < 0 then body else min (nat n) body)"

datatype request_method = GET | HEAD | POST | PUT | DELETE | PATCH

fun handle :: "(string \<Rightarrow> string) \<Rightarrow> server \<Rightarrow> request_method \<Rightarrow> string \<Rightarrow> reply" where
  "handle unquote sv GET target = route unquote sv False target"
| "handle unquote sv HEAD target = route unquote sv True target"
| "handle unquote sv _ target = \<lparr>ry_status = 405, ry_body = Error_Json ''method_not_allowed'', ry_sent = True\<rparr>"

section \<open>Starting it\<close>

text \<open>\<open>rpartition(':')\<close>; \<open>isdigit\<close> also holds of the three superscripts of Latin-1, which \<open>int\<close> refuses.\<close>

definition py_isdigit :: "string \<Rightarrow> bool" where
  "py_isdigit s \<longleftrightarrow> s \<noteq> [] \<and> list_all (\<lambda>c. is_digit c \<or> c \<in> {CHR 0xB2, CHR 0xB3, CHR 0xB9}) s"

definition parse_bind :: "string \<Rightarrow> (string \<times> int) res" where
  "parse_bind txt =
     (let port = rev (takeWhile (\<lambda>c. c \<noteq> CHR '':'') (rev txt)); host = take (length txt - length port - 1) txt in
      if CHR '':'' \<notin> set txt \<or> host = [] \<or> \<not> py_isdigit port then
        Inl (Exn (OtherException ''SystemExit'') [S ''POLYPERPS_DASHBOARD_BIND must be host:port, got '', S txt])
      else rmap (Pair host) (py_int port))"

record dashboard_config =
  dc_settings :: settings
  dc_run :: string
  dc_hypothesis :: string
  dc_bind :: "string \<times> int"

definition configure :: "env \<Rightarrow> dashboard_config res" where
  "configure env =
     rbind (load_settings env) (\<lambda>sg.
       case truthy (env ''PAPER_RUN_ID'') of
         None \<Rightarrow> Inl (Exn (OtherException ''SystemExit'') [S ''PAPER_RUN_ID is required (the paper account to show)''])
       | Some run \<Rightarrow>
           rmap (\<lambda>addr. \<lparr>dc_settings = sg, dc_run = run, dc_hypothesis = env_or env ''PAPER_HYPOTHESIS'' ''?'', dc_bind = addr\<rparr>)
             (parse_bind (env_or env ''POLYPERPS_DASHBOARD_BIND'' ''127.0.0.1:8080'')))"

text \<open>The instrument cache: a refresh that fails keeps what was there.\<close>

definition cache_refresh :: "instrument list res \<Rightarrow> known_instruments \<Rightarrow> known_instruments" where
  "cache_refresh fetched known =
     (case fetched of Inl _ \<Rightarrow> known | Inr is \<Rightarrow> Some (map_of (rev (map (\<lambda>i. (is_id i, is_symbol i, is_category i)) is))))"

section \<open>What a client can see\<close>

text \<open>The runs it shows: the main one, and every stored account whose id begins with the main one's and a dash.\<close>

lemma mem_list_runs:
  "r \<in> set (list_runs d main) \<longleftrightarrow> r = main \<or> (\<exists>t. r = main @ CHR ''-'' # t) \<and> r \<in> ac_run ` set (db_accounts d)"
proof -
  have "take (length main + 1) r = main @ ''-'' \<longleftrightarrow> (\<exists>t. r = main @ CHR ''-'' # t)"
    by (metis append.assoc append_Cons append_Nil append_eq_conv_conj append_take_drop_id length_append_singleton
        Suc_eq_plus1)
  then show ?thesis by (auto simp: list_runs_def)
qed

theorem only_known_runs_are_shown:
  assumes "server_state sv asked = Inr (Some payload)" "sv_open sv = Inr d"
  shows "\<exists>run. run = (case truthy asked of None \<Rightarrow> sv_run sv | Some r \<Rightarrow> r) \<and> pn_run (px_run (sp_page payload)) = run \<and>
    (run = sv_run sv \<or> (\<exists>t. run = sv_run sv @ CHR ''-'' # t) \<and> run \<in> ac_run ` set (db_accounts d))"
  using assms mem_list_runs
  by (auto simp: server_state_def Let_def build_state_def run_info_def split: if_splits prod.splits)

text \<open>A HEAD is the GET without its body, an error is told with a name and nothing else, a write is refused.\<close>

theorem replies:
  "handle u sv HEAD target = (handle u sv GET target)\<lparr>ry_sent := False\<rparr>"
  "ry_status (handle u sv m target) \<in> {200, 404, 405, 500, 503}"
  "m \<notin> {GET, HEAD} \<Longrightarrow> ry_status (handle u sv m target) = 405"
  "ry_status (handle u sv m target) \<noteq> 200 \<Longrightarrow> ry_body (handle u sv m target) \<in>
     Error_Json ` {''unknown_run'', ''db_unavailable'', ''internal'', ''not_found'', ''method_not_allowed''}"
  by (cases m; auto simp: route_def Let_def split: sum.splits option.splits)+

text \<open>The hypothesis a sibling shows is the one in its name; a sibling without one shows the main run's.\<close>

theorem sibling_hypothesis:
  "hypothesis_of sv run = (if take (length (sv_run sv) + 2) run = sv_run sv @ ''-h'' \<and> isdigit (drop (length (sv_run sv) + 2) run)
     then drop (length (sv_run sv) + 1) run else sv_hypothesis sv)"
proof -
  have "drop (length (sv_run sv) + 1) run = CHR ''h'' # drop (length (sv_run sv) + 2) run"
    if "take (length (sv_run sv) + 2) run = sv_run sv @ ''-h''"
  proof -
    have "run = sv_run sv @ ''-h'' @ drop (length (sv_run sv) + 2) run" using that by (metis append_assoc append_take_drop_id)
    then have "drop (length (sv_run sv) + 1) run = drop (length (sv_run sv) + 1) (sv_run sv @ ''-h'' @ drop (length (sv_run sv) + 2) run)"
      by (rule arg_cong)
    then show ?thesis by simp
  qed
  then show ?thesis by (simp add: hypothesis_of_def Let_def)
qed

text \<open>
  The cap on the drained body holds for every length a client names, unless it is negative: then everything the client
  sends is read.
\<close>

theorem drain_is_capped: "0 \<le> drain_limit header \<Longrightarrow> drained header body \<le> 65536"
  by (auto simp: drained_def drain_limit_def Let_def min_def split: if_splits)

theorem negative_length_drains_all: "drained (Some ''-1'') body = body"
proof -
  have "drain_limit (Some ''-1'') = - 1" by code_simp
  then show ?thesis by (simp add: drained_def)
qed

end
