(* ===== verification/Dashboard_Run.thy ===== *)
theory Dashboard_Run
  imports Server Feed_Process
begin

text \<open>
  \<open>scripts/run_dashboard.py\<close>, the process: a thread refreshes the names of the instruments every hour while the server
  answers. The two share one reference, which a refresh replaces whole, so a run is a sequence of refreshes and requests.
\<close>

section \<open>The cache\<close>

text \<open>\<open>_fetch\<close>: a fresh client with its own bucket; \<open>finally\<close> closes it, and a close that raises fails the refresh.\<close>

definition cache_fetch :: "'c sdk \<Rightarrow> ('c, unit) eff \<Rightarrow> settings \<Rightarrow> ('c, instrument list) eff" where
  "cache_fetch C close_client sg =
     bind (tm_clock (sd_timer C)) (\<lambda>now w.
       case new_client sg now w of
         Inl e \<Rightarrow> (Inl e, w)
       | Inr cl \<Rightarrow>
           (case fetch_instruments C cl of
              (r, cl') \<Rightarrow> (case close_client (pc_world cl') of (Inl e, w') \<Rightarrow> (Inl e, w') | (Inr _, w') \<Rightarrow> (r, w'))))"

section \<open>A run\<close>

text \<open>A request meets the database as it can be opened at that moment.\<close>

datatype dash_event = Refresh | Ask request_method string "db res" time

record 'c dash =
  da_known :: known_instruments
  da_world :: 'c
  da_replies :: "reply list"

definition dash_step ::
  "'c sdk \<Rightarrow> ('c, unit) eff \<Rightarrow> settings \<Rightarrow> (string \<Rightarrow> string) \<Rightarrow> server \<Rightarrow> 'c dash \<Rightarrow> dash_event \<Rightarrow> 'c dash" where
  "dash_step C close_client sg unquote sv d e =
     (case e of
        Refresh \<Rightarrow> (case cache_fetch C close_client sg (da_world d) of (r, w) \<Rightarrow>
          d\<lparr>da_known := cache_refresh r (da_known d), da_world := w\<rparr>)
      | Ask m target opened now \<Rightarrow>
          d\<lparr>da_replies := da_replies d @
            [handle unquote (sv\<lparr>sv_open := opened, sv_clock := now, sv_known := da_known d\<rparr>) m target]\<rparr>)"

definition dash_run ::
  "'c sdk \<Rightarrow> ('c, unit) eff \<Rightarrow> settings \<Rightarrow> (string \<Rightarrow> string) \<Rightarrow> server \<Rightarrow> 'c dash \<Rightarrow> dash_event list \<Rightarrow> 'c dash" where
  "dash_run C close_client sg unquote sv = foldl (dash_step C close_client sg unquote sv)"

text \<open>\<open>main\<close>: the configuration, an empty cache, then the events until the process is told to stop.\<close>

definition dash_main ::
  "'c sdk \<Rightarrow> ('c, unit) eff \<Rightarrow> env \<Rightarrow> (dashboard_config \<Rightarrow> server) \<Rightarrow> (string \<Rightarrow> string) \<Rightarrow> dash_event list \<Rightarrow> 'c \<Rightarrow> 'c dash res" where
  "dash_main C close_client env build unquote es w =
     rmap (\<lambda>cfg. dash_run C close_client (dc_settings cfg) unquote (build cfg) \<lparr>da_known = None, da_world = w, da_replies = []\<rparr> es)
       (configure env)"

section \<open>What a run shows\<close>

lemma dash_run_simps [simp]:
  "dash_run C cc sg u sv d [] = d"
  "dash_run C cc sg u sv d (e # es) = dash_run C cc sg u sv (dash_step C cc sg u sv d e) es"
  by (simp_all add: dash_run_def)

text \<open>The outcomes of the refreshes of a run, in order; a request does not reach the exchange.\<close>

fun outcomes :: "'c sdk \<Rightarrow> ('c, unit) eff \<Rightarrow> settings \<Rightarrow> dash_event list \<Rightarrow> 'c \<Rightarrow> instrument list res list" where
  "outcomes C cc sg [] w = []"
| "outcomes C cc sg (Refresh # es) w = (case cache_fetch C cc sg w of (r, w') \<Rightarrow> r # outcomes C cc sg es w')"
| "outcomes C cc sg (Ask m t o' n # es) w = outcomes C cc sg es w"

fun newest_success :: "instrument list res list \<Rightarrow> instrument list option" where
  "newest_success [] = None"
| "newest_success (r # rs) = (case newest_success rs of Some is \<Rightarrow> Some is | None \<Rightarrow> (case r of Inl _ \<Rightarrow> None | Inr is \<Rightarrow> Some is))"

text \<open>
  The names shown are those of the newest refresh that succeeded, however many failed after it: once there are names,
  the page never falls back to bare ids.
\<close>

theorem names_of_the_newest_refresh:
  "da_known (dash_run C cc sg u sv d es) =
     (case newest_success (outcomes C cc sg es (da_world d)) of
        None \<Rightarrow> da_known d
      | Some is \<Rightarrow> Some (map_of (rev (map (\<lambda>i. (is_id i, is_symbol i, is_category i)) is))))"
proof (induction es arbitrary: d)
  case (Cons e es)
  show ?case
  proof (cases e)
    case Refresh
    obtain r w where r: "cache_fetch C cc sg (da_world d) = (r, w)" by fastforce
    then show ?thesis
      using Refresh Cons.IH [of "d\<lparr>da_known := cache_refresh r (da_known d), da_world := w\<rparr>"]
      by (auto simp: dash_step_def cache_refresh_def split: option.split sum.split)
  next
    case (Ask m t o' n)
    then show ?thesis by (simp add: dash_step_def Cons.IH split: option.split)
  qed
qed simp

text \<open>Every request is answered, in order, with a status of the protocol; nothing a refresh does ends the server.\<close>

definition is_ask :: "dash_event \<Rightarrow> bool" where
  "is_ask e \<longleftrightarrow> e \<noteq> Refresh"

theorem every_request_is_answered:
  "length (da_replies (dash_run C cc sg u sv d es)) = length (da_replies d) + length (filter is_ask es)"
  "\<forall>r \<in> set (da_replies d). ry_status r \<in> {200, 404, 405, 500, 503} \<Longrightarrow>
   \<forall>r \<in> set (da_replies (dash_run C cc sg u sv d es)). ry_status r \<in> {200, 404, 405, 500, 503}"
proof -
  show "length (da_replies (dash_run C cc sg u sv d es)) = length (da_replies d) + length (filter is_ask es)"
    by (induction es arbitrary: d) (auto simp: dash_step_def is_ask_def split: dash_event.split prod.split)
  have status: "ry_status (handle u sv' m t) \<in> {200, 404, 405, 500, 503}" for sv' m t by (rule replies(2))
  show "\<forall>r \<in> set (da_replies d). ry_status r \<in> {200, 404, 405, 500, 503} \<Longrightarrow>
    \<forall>r \<in> set (da_replies (dash_run C cc sg u sv d es)). ry_status r \<in> {200, 404, 405, 500, 503}"
  proof (induction es arbitrary: d)
    case (Cons e es)
    have "\<forall>r \<in> set (da_replies (dash_step C cc sg u sv d e)). ry_status r \<in> {200, 404, 405, 500, 503}"
      using Cons.prems status by (auto simp: dash_step_def simp del: insert_iff split: dash_event.split prod.split)
    then show ?case using Cons.IH by simp
  qed simp
qed

end
