(* ===== verification/Smoke.thy ===== *)
theory Smoke
  imports Live_Exec Settings
begin

text \<open>
  \<open>scripts/live_smoke.py\<close> and \<open>scripts/check_auth.py\<close>: the two scripts a person runs by hand against the real account.
  What the collector task has taken from the event stream is a function of the session's state, since it runs whenever
  the main task waits.
\<close>

section \<open>The operator\<close>

text \<open>The session behind the reader, the lines shown, the answers still to come; no answer is the end of the input.\<close>

record 'x smoke =
  sm_live :: "'x reader"
  sm_said :: "text_t list"
  sm_answers :: "string list"

type_synonym ('x, 'a) sop = "('x smoke, 'a) eff"

definition slive :: "('x reader, 'a) eff \<Rightarrow> ('x, 'a) sop" where
  "slive m = focus sm_live (\<lambda>l s. s\<lparr>sm_live := l\<rparr>) m"

definition say :: "text_t \<Rightarrow> ('x, unit) sop" where
  "say line = upd (\<lambda>s. s\<lparr>sm_said := sm_said s @ [line]\<rparr>)"

definition ask :: "('x, string) sop" where
  "ask = (\<lambda>s. case sm_answers s of
     [] \<Rightarrow> (Inl (Exn (OtherException ''EOFError'') []), s)
   | a # as \<Rightarrow> (Inr a, s\<lparr>sm_answers := as\<rparr>))"

definition CONFIRM :: string where "CONFIRM = ''I ACCEPT REAL ORDERS''"
definition STOP_DISTANCE :: dec where "STOP_DISTANCE = 1 / 100"
definition POLL_S :: rat where "POLL_S = 5"
definition STOP_WAIT_S :: rat where "STOP_WAIT_S = 600"

definition confirmed :: "int \<Rightarrow> ('x, bool) sop" where
  "confirmed iid =
     attempt
       (bind ask (\<lambda>a.
          if strip a \<noteq> show_int iid then ret False
          else bind ask (\<lambda>b. ret (strip b = CONFIRM))))
       (\<lambda>e. if exc_class e = OtherException ''EOFError'' then ret False else raise e)"

definition no_stop_warning :: "int \<Rightarrow> text_t" where
  "no_stop_warning iid = [S ''A REAL POSITION MAY BE OPEN on instrument '', I iid,
     S '' with NO stop. Close it now in the Polymarket app or with a reduce-only order.'']"

definition may_have_filled :: "int \<Rightarrow> text_t" where
  "may_have_filled iid = [S ''the entry order MAY HAVE FILLED on instrument '', I iid,
     S ''. Check the Polymarket app and close any position by hand.'']"

section \<open>The test\<close>

text \<open>The monotonic clock and the sleep of the session's world, and what the collector has by then.\<close>

record 'x surroundings =
  su_clock :: "('x, rat) eff"
  su_sleep :: "rat \<Rightarrow> ('x, unit) eff"
  su_fills :: "'x \<Rightarrow> fill_update list"

datatype smoke_report = Not_Opened | Timed_Out | Exited dec "fill_update list" dec

definition open_position :: "'x session \<Rightarrow> int \<Rightarrow> ('x, position_view option) sop" where
  "open_position s iid = bind (slive (live_snapshot s)) (\<lambda>sn. ret (position_of sn iid))"

text \<open>
  The watch: poll until the position is gone or the deadline has passed. Each round costs one unit of fuel; None is a
  watch that is still on. \<open>funding\<close> is the last cumulative funding seen.
\<close>

fun watch :: "nat \<Rightarrow> 'x session \<Rightarrow> 'x surroundings \<Rightarrow> int \<Rightarrow> rat \<Rightarrow> rat \<Rightarrow> dec \<Rightarrow> ('x, (bool \<times> dec) option) sop" where
  "watch 0 s su iid poll deadline funding = ret None"
| "watch (Suc n) s su iid poll deadline funding =
     bind (open_position s iid) (\<lambda>p.
       case p of
         None \<Rightarrow> ret (Some (True, funding))
       | Some v \<Rightarrow>
           if pv_size v = 0 then ret (Some (True, funding))
           else
             andthen (say [S ''still open: size='', D (pv_size v), S '' cumulative_funding='', D (pv_funding v)])
             (bind (slive (lses (su_clock su))) (\<lambda>now.
              if deadline \<le> now then
                andthen (say ([S ''the stop did not fill within '', D STOP_WAIT_S, S ''s. ''] @ no_stop_warning iid))
                  (ret (Some (False, pv_funding v)))
              else
                andthen (slive (lses (su_sleep su poll))) (watch n s su iid poll deadline (pv_funding v)))))"

definition from_venue :: "int \<Rightarrow> 'x surroundings \<Rightarrow> ('x, fill_update list) sop" where
  "from_venue iid su = get (\<lambda>s. filter (\<lambda>f. fu_instrument f = iid \<and> take 6 (fu_cid f) = ''venue-'')
     (su_fills su (lv_session (sm_live s))))"

fun settle_fills :: "nat \<Rightarrow> int \<Rightarrow> 'x surroundings \<Rightarrow> rat \<Rightarrow> ('x, unit) sop" where
  "settle_fills 0 iid su poll = ret ()"
| "settle_fills (Suc n) iid su poll =
     bind (from_venue iid su) (\<lambda>fs.
       if fs \<noteq> [] then ret () else andthen (slive (lses (su_sleep su poll))) (settle_fills n iid su poll))"

text \<open>From the placed order on. The fuel is that of the watch.\<close>

definition protect_and_watch ::
  "nat \<Rightarrow> 'x session \<Rightarrow> 'x surroundings \<Rightarrow> int \<Rightarrow> rat \<Rightarrow> ('x, smoke_report option) sop" where
  "protect_and_watch fuel s su iid poll =
     bind (open_position s iid) (\<lambda>p.
       case (case p of None \<Rightarrow> None | Some v \<Rightarrow> if pv_size v = 0 then None else Some v) of
         None \<Rightarrow> andthen (say [S ''no position after the order; nothing to protect. Stopping.'']) (ret (Some Not_Opened))
       | Some v \<Rightarrow>
           let factor = (if 0 < pv_size v then dsub 1 STOP_DISTANCE else dadd 1 STOP_DISTANCE) in
           bind (lift (quantize rhe 2 (dmul (pv_entry v) factor))) (\<lambda>trigger.
           bind (slive (lses (ss_place_stop s iid trigger))) (\<lambda>_.
           andthen (say [S ''position '', D (pv_size v), S '' @ '', D (pv_entry v), S ''; exchange stop at '', D trigger])
           (bind ask (\<lambda>_.
            bind (slive (lses (su_clock su))) (\<lambda>start.
            bind (watch fuel s su iid poll (fl (start + STOP_WAIT_S)) (pv_funding v)) (\<lambda>ended.
            case ended of
              None \<Rightarrow> ret None
            | Some (False, _) \<Rightarrow> ret (Some Timed_Out)
            | Some (True, funding) \<Rightarrow>
                andthen (settle_fills 3 iid su poll)
                (bind (from_venue iid su) (\<lambda>fs.
                 andthen (say [S ''report: '', D trigger, I (int (length fs)), D funding])
                   (ret (Some (Exited trigger fs funding))))))))))))"

definition smoke_test ::
  "nat \<Rightarrow> 'x session \<Rightarrow> 'x surroundings \<Rightarrow> int \<Rightarrow> dec \<Rightarrow> string \<Rightarrow> string \<Rightarrow> rat \<Rightarrow> ('x, smoke_report option) sop" where
  "smoke_test fuel s su iid quantity sd cid poll =
     bind (attempt (slive (lses (ss_place_order s iid sd quantity False cid)))
         (\<lambda>e. andthen (say (may_have_filled iid)) (raise e))) (\<lambda>placed.
       attempt
         (andthen (say [S ''order '', S cid, S '': status='', S (case xl_status placed of None \<Rightarrow> ''None'' | Some st \<Rightarrow> st)])
            (protect_and_watch fuel s su iid poll))
         (\<lambda>e. andthen (say (no_stop_warning iid)) (raise e)))"

text \<open>\<open>main\<close> on the parsed arguments: 2 without confirmation, 0 when the exchange filled the stop.\<close>

definition exit_status :: "smoke_report \<Rightarrow> int" where
  "exit_status r = (case r of Exited _ fs _ \<Rightarrow> if fs \<noteq> [] then 0 else 1 | _ \<Rightarrow> 1)"

definition smoke_main ::
  "nat \<Rightarrow> 'x session \<Rightarrow> 'x surroundings \<Rightarrow> ('x, unit) sop \<Rightarrow> int \<Rightarrow> dec \<Rightarrow> string \<Rightarrow> string \<Rightarrow> rat \<Rightarrow> ('x, int option) sop" where
  "smoke_main fuel s su opening iid quantity sd cid poll =
     bind (confirmed iid) (\<lambda>ok.
       if \<not> ok then andthen (say [S ''refused: confirmation not typed exactly; nothing was sent'']) (ret (Some 2))
       else
         andthen opening
         (bind (\<lambda>w. case smoke_test fuel s su iid quantity sd cid poll w of
              (r, w') \<Rightarrow> (r, snd (attempt (slive (live_close s)) (\<lambda>_. ret ()) w'))) (\<lambda>rep.
           ret (map_option exit_status rep))))"

text \<open>\<open>--quantity\<close>: a finite decimal above zero.\<close>

definition positive :: "string \<Rightarrow> dec res" where
  "positive txt =
     rbind (py_decimal txt) (\<lambda>n.
       case n of
         Finite x \<Rightarrow> if x \<le> 0 then Inl (Exn (OtherException ''ArgumentTypeError'') [S ''must be a finite number > 0'']) else Inr x
       | _ \<Rightarrow> Inl (Exn (OtherException ''ArgumentTypeError'') [S ''must be a finite number > 0'']))"

section \<open>Checking the key\<close>

record 'a auth =
  au_create :: "string \<Rightarrow> ('a, unit) eff"
  au_open :: "('a, string \<times> time) eff"
  au_balances :: "('a, text_t list) eff"
  au_close_session :: "('a, unit) eff"
  au_close_client :: "('a, unit) eff"

record 'a checked =
  ck_world :: 'a
  ck_said :: "text_t list"

definition cworld :: "('a, 'b) eff \<Rightarrow> ('a checked, 'b) eff" where
  "cworld m = focus ck_world (\<lambda>x c. c\<lparr>ck_world := x\<rparr>) m"

definition show_line :: "text_t \<Rightarrow> ('a checked, unit) eff" where
  "show_line line = upd (\<lambda>c. c\<lparr>ck_said := ck_said c @ [line]\<rparr>)"

text \<open>\<open>try \<dots> finally\<close>: an exception of the last part hides that of the first.\<close>

definition finally_do :: "('w, 'a) eff \<Rightarrow> ('w, unit) eff \<Rightarrow> ('w, 'a) eff" where
  "finally_do m f = (\<lambda>w. case m w of (r, w1) \<Rightarrow> (case f w1 of (Inl e, w2) \<Rightarrow> (Inl e, w2) | (Inr _, w2) \<Rightarrow> (r, w2)))"

definition check_auth :: "'a auth \<Rightarrow> string res \<Rightarrow> ('a checked, unit) eff" where
  "check_auth A secret =
     bind (lift secret) (\<lambda>pk.
     andthen (show_line (S ''loaded POLYMARKET_PRIVATE_KEY '' # redact pk))
     (andthen (cworld (au_create A pk))
       (finally_do
         (bind (cworld (au_open A)) (\<lambda>(proxy, expires).
            finally_do
              (andthen (show_line [S ''delegated proxy='', S proxy, S '' expires_at='', I expires])
              (bind (cworld (au_balances A)) (\<lambda>bs.
               andthen (show_line [S ''fetch_balances -> '', I (int (length bs)), S '' entries'']) (forM bs show_line))))
              (cworld (au_close_session A))))
         (cworld (au_close_client A)))))"

section \<open>Nothing is sent without both confirmations\<close>

lemma confirmed_only:
  "confirmed iid s = (r, s') \<Longrightarrow> sm_live s' = sm_live s \<and> sm_said s' = sm_said s \<and>
     (\<exists>b. r = Inr b \<and> (b \<longleftrightarrow> (\<exists>x y rest. sm_answers s = x # y # rest \<and> strip x = show_int iid \<and> strip y = CONFIRM)))"
  by (cases "sm_answers s"; cases "tl (sm_answers s)")
    (auto simp: confirmed_def attempt_def bind_def ask_def ret_def split: if_splits)

theorem unconfirmed_sends_nothing:
  assumes "\<not> (\<exists>x y rest. sm_answers w = x # y # rest \<and> strip x = show_int iid \<and> strip y = CONFIRM)"
  shows "\<exists>w'. smoke_main fuel s su opening iid quantity sd cid poll w = (Inr (Some 2), w') \<and> sm_live w' = sm_live w"
proof -
  obtain r w1 where c: "confirmed iid w = (r, w1)" by fastforce
  from confirmed_only [OF c] assms have "r = Inr False" "sm_live w1 = sm_live w" by auto
  with c show ?thesis by (auto simp: smoke_main_def bind_def andthen_def say_def upd_def ret_def)
qed

section \<open>The operator is told\<close>

text \<open>
  However the test ends after its order may have reached the exchange, other than by seeing the position gone: the
  operator has been told that a position may be open.
\<close>

definition warned :: "int \<Rightarrow> 'x smoke \<Rightarrow> bool" where
  "warned iid s \<longleftrightarrow> may_have_filled iid \<in> set (sm_said s) \<or> no_stop_warning iid \<in> set (sm_said s)
     \<or> [S ''the stop did not fill within '', D STOP_WAIT_S, S ''s. ''] @ no_stop_warning iid \<in> set (sm_said s)"

text \<open>What holds of every normal end of an effect, whatever came before.\<close>

definition tells :: "('a \<Rightarrow> 'w \<Rightarrow> bool) \<Rightarrow> ('w, 'a) eff \<Rightarrow> bool" where
  "tells Q m \<longleftrightarrow> (\<forall>w. wp m Q (\<lambda>_ _. True) w)"

lemma tells_bind: "(\<And>a. tells Q (f a)) \<Longrightarrow> tells Q (bind m f)"
  unfolding tells_def wp_bind by (blast intro: wp_mono [OF wp_True])

lemma tells_andthen: "tells Q n \<Longrightarrow> tells Q (andthen m n)"
  unfolding andthen_def by (rule tells_bind)

lemma tells_ret: "(\<And>w. Q a w) \<Longrightarrow> tells Q (ret a)"
  by (simp add: tells_def wp_simps)

definition told_of_timeout :: "int \<Rightarrow> (bool \<times> dec) option \<Rightarrow> 'x smoke \<Rightarrow> bool" where
  "told_of_timeout iid ended w \<longleftrightarrow> (case ended of Some (False, _) \<Rightarrow> warned iid w | _ \<Rightarrow> True)"

lemma tells_option: "tells Q m \<Longrightarrow> (\<And>a. tells Q (f a)) \<Longrightarrow> tells Q (case x of None \<Rightarrow> m | Some a \<Rightarrow> f a)"
  by (simp split: option.split)

lemma tells_if: "tells Q m \<Longrightarrow> tells Q n \<Longrightarrow> tells Q (if c then m else n)"
  by simp

lemma told_late:
  "tells (told_of_timeout iid) (andthen (say ([S ''the stop did not fill within '', D STOP_WAIT_S, S ''s. ''] @ no_stop_warning iid))
     (ret (Some (False, f))))"
  by (simp add: tells_def wp_simps say_def warned_def told_of_timeout_def)

lemma told_gone: "tells (told_of_timeout iid) (ret (Some (True, f)))" "tells (told_of_timeout iid) (ret None)"
  by (simp_all add: tells_def wp_simps told_of_timeout_def)

lemma watch_told: "tells (told_of_timeout iid) (watch n s su iid poll deadline funding)"
proof (induction n arbitrary: funding)
  case (Suc n)
  show ?case unfolding watch.simps
    by (rule Suc told_late told_gone tells_option tells_if tells_bind tells_andthen)+
qed (simp add: told_gone)

text \<open>A position that is still open when the watch gives up: the rest of the test adds nothing after the warning.\<close>

definition told_of_report :: "int \<Rightarrow> smoke_report option \<Rightarrow> 'x smoke \<Rightarrow> bool" where
  "told_of_report iid rep w \<longleftrightarrow> (rep = Some Timed_Out \<longrightarrow> warned iid w)"

lemma watched_told:
  assumes "\<And>ended. (\<forall>f. ended \<noteq> Some (False, f)) \<Longrightarrow> tells (told_of_report iid) (k ended)"
    and "\<And>f. k (Some (False, f)) = ret (Some Timed_Out)"
  shows "tells (told_of_report iid) (bind (watch n s su iid poll deadline funding) k)"
proof -
  have "wp (k ended) (told_of_report iid) (\<lambda>_ _. True) w" if "told_of_timeout iid ended w" for ended w
  proof (cases "\<forall>f. ended \<noteq> Some (False, f)")
    case True
    from assms(1) [OF this] show ?thesis by (simp add: tells_def)
  next
    case False
    then obtain f where "ended = Some (False, f)" by blast
    with that show ?thesis by (simp add: assms(2) wp_simps told_of_report_def told_of_timeout_def)
  qed
  then show ?thesis using watch_told [of iid n s su poll deadline funding] unfolding tells_def wp_bind by (blast intro: wp_mono)
qed

lemma told_other: "rep \<noteq> Some Timed_Out \<Longrightarrow> tells (told_of_report iid) (ret rep)"
  by (simp add: tells_def wp_simps told_of_report_def)

lemma watched_end:
  "tells (told_of_report iid) (bind (watch n s su iid poll deadline funding) (\<lambda>ended. case ended of
      None \<Rightarrow> ret None
    | Some (False, _) \<Rightarrow> ret (Some Timed_Out)
    | Some (True, funding) \<Rightarrow> andthen (settle_fills 3 iid su poll) (bind (from_venue iid su) (\<lambda>fs.
        andthen (say (line fs funding)) (ret (Some (Exited trigger fs funding)))))))"
  by (rule watched_told) (auto split: option.split bool.split intro!: told_other tells_andthen tells_bind)

lemma protect_told: "tells (told_of_report iid) (protect_and_watch fuel s su iid poll)"
  unfolding protect_and_watch_def Let_def
  by (rule tells_bind, rule tells_option, rule tells_andthen, rule told_other, simp)
    (rule watched_end tells_bind tells_andthen)+

theorem operator_is_told:
  assumes "smoke_test fuel s su iid quantity sd cid poll w = (r, w')"
  shows "case r of Inl _ \<Rightarrow> warned iid w' | Inr rep \<Rightarrow> told_of_report iid rep w'"
proof -
  let ?Q = "\<lambda>rep v. told_of_report iid rep v" and ?E = "\<lambda>_ v. warned iid v"
  let ?rest = "\<lambda>placed. andthen (say [S ''order '', S cid, S '': status='', S (case xl_status placed of None \<Rightarrow> ''None'' | Some st \<Rightarrow> st)])
            (protect_and_watch fuel s su iid poll)"
  have rest: "wp (attempt (?rest placed) (\<lambda>e. andthen (say (no_stop_warning iid)) (raise e))) ?Q ?E v" for placed v
  proof -
    have "tells (told_of_report iid) (?rest placed)" by (rule tells_andthen [OF protect_told])
    then have "wp (?rest placed) ?Q (\<lambda>_ _. True) v" by (simp add: tells_def)
    then show ?thesis unfolding wp_attempt by (rule wp_mono) (simp_all add: wp_simps say_def warned_def)
  qed
  have "wp (smoke_test fuel s su iid quantity sd cid poll) ?Q ?E w"
    unfolding smoke_test_def wp_bind
  proof (rule wp_mono [where Q = "\<lambda>_ _. True" and E = ?E])
    show "wp (attempt (slive (lses (ss_place_order s iid sd quantity False cid))) (\<lambda>e. andthen (say (may_have_filled iid)) (raise e)))
        (\<lambda>_ _. True) ?E w"
      unfolding wp_attempt by (rule wp_mono [OF wp_True]) (simp_all add: wp_simps say_def warned_def)
  qed (simp_all only: rest)
  with assms show ?thesis by (auto simp: wp_def split: sum.split)
qed

section \<open>The watch ends\<close>

text \<open>
  Where the clock and the sleep answer, the clock never runs back and a sleep advances it by its length, the watch ends
  within the rounds that fit before its deadline.
\<close>

definition keeps_time :: "'x session \<Rightarrow> 'x surroundings \<Rightarrow> ('x \<Rightarrow> rat) \<Rightarrow> rat \<Rightarrow> bool" where
  "keeps_time s su wall poll \<longleftrightarrow>
     (\<forall>x. \<exists>x'. su_clock su x = (Inr (wall x), x') \<and> wall x' = wall x) \<and>
     (\<forall>x. \<exists>x'. su_sleep su poll x = (Inr (), x') \<and> wall x + poll \<le> wall x') \<and>
     (\<forall>x. wall x \<le> wall (snd (ss_portfolio s x)) \<and> wall x \<le> wall (snd (ss_open_orders s x)))"

lemma snapshot_time:
  assumes "keeps_time s su wall poll"
  shows "wall (lv_session l) \<le> wall (lv_session (snd (live_snapshot s l)))"
proof -
  obtain r1 x1 where 1: "ss_portfolio s (lv_session l) = (r1, x1)" by fastforce
  obtain r2 x2 where 2: "ss_open_orders s x1 = (r2, x2)" by fastforce
  have "wall (lv_session l) \<le> wall x1" "wall x1 \<le> wall x2" using assms 1 2 unfolding keeps_time_def by (metis snd_conv)+
  then show ?thesis using 1 2
    by (cases r1; cases r2) (auto simp: live_snapshot_def lses_def focus_def bind_def andthen_def upd_def lclock_def ret_def Let_def)
qed

lemma watch_goes_on:
  assumes "keeps_time s su wall poll" "watch (Suc n) s su iid poll deadline funding w = (Inr None, w')"
  shows "wall (lv_session (sm_live w)) < deadline \<and>
    (\<exists>f w2. watch n s su iid poll deadline f w2 = (Inr None, w') \<and> wall (lv_session (sm_live w)) + poll \<le> wall (lv_session (sm_live w2)))"
proof -
  obtain r1 l1 where snap: "live_snapshot s (sm_live w) = (r1, l1)" by fastforce
  have t1: "wall (lv_session (sm_live w)) \<le> wall (lv_session l1)" using snapshot_time [OF assms(1), of "sm_live w"] snap by simp
  obtain x2 where clock: "su_clock su (lv_session l1) = (Inr (wall (lv_session l1)), x2)" "wall x2 = wall (lv_session l1)"
    using assms(1) unfolding keeps_time_def by blast
  obtain x3 where sleep: "su_sleep su poll x2 = (Inr (), x3)" "wall x2 + poll \<le> wall x3"
    using assms(1) unfolding keeps_time_def by blast
  obtain sn where sn: "r1 = Inr sn" using assms(2) snap
    by (cases r1) (auto simp: open_position_def slive_def focus_def bind_def)
  obtain v where v: "position_of sn iid = Some v" "pv_size v \<noteq> 0" using assms(2) snap sn
    by (auto simp: open_position_def slive_def focus_def bind_def ret_def split: option.splits if_splits)
  have late: "\<not> deadline \<le> wall (lv_session l1)" using assms(2) snap sn v clock
    by (auto simp: open_position_def slive_def lses_def focus_def bind_def ret_def andthen_def say_def upd_def)
  have "watch n s su iid poll deadline (pv_funding v)
      (w\<lparr>sm_said := sm_said w @ [[S ''still open: size='', D (pv_size v), S '' cumulative_funding='', D (pv_funding v)]],
          sm_live := l1\<lparr>lv_session := x3\<rparr>\<rparr>)
      = (Inr None, w')"
    using assms(2) snap sn v clock late sleep
    by (simp add: open_position_def slive_def lses_def focus_def bind_def ret_def andthen_def say_def upd_def)
  moreover have "wall (lv_session (sm_live w)) < deadline" "wall (lv_session (sm_live w)) + poll \<le> wall x3"
    using late t1 clock(2) sleep(2) by linarith+
  ultimately show ?thesis by (intro conjI exI) (assumption, assumption, simp)
qed

theorem watch_ends:
  assumes "keeps_time s su wall poll" "deadline \<le> wall (lv_session (sm_live w)) + of_nat n * poll"
  shows "fst (watch (Suc n) s su iid poll deadline funding w) \<noteq> Inr None"
  using assms(2)
proof (induction n arbitrary: funding w)
  case 0
  show ?case
  proof
    assume "fst (watch (Suc 0) s su iid poll deadline funding w) = Inr None"
    then have "watch (Suc 0) s su iid poll deadline funding w = (Inr None, snd (watch (Suc 0) s su iid poll deadline funding w))"
      by (simp add: prod_eq_iff)
    from watch_goes_on [OF assms(1) this] 0 show False by simp
  qed
next
  case (Suc n)
  show ?case
  proof
    assume "fst (watch (Suc (Suc n)) s su iid poll deadline funding w) = Inr None"
    then have "watch (Suc (Suc n)) s su iid poll deadline funding w = (Inr None, snd (watch (Suc (Suc n)) s su iid poll deadline funding w))"
      by (simp add: prod_eq_iff)
    from watch_goes_on [OF assms(1) this] obtain f w2 where
      w2: "fst (watch (Suc n) s su iid poll deadline f w2) = Inr None" "wall (lv_session (sm_live w)) + poll \<le> wall (lv_session (sm_live w2))"
      by (metis fst_conv)
    then have "deadline \<le> wall (lv_session (sm_live w2)) + of_nat n * poll" using Suc.prems by (simp add: algebra_simps)
    from Suc.IH [OF this] w2(1) show False by blast
  qed
qed

end
