(* ===== verification/Reports.thy ===== *)
theory Reports
  imports Feed_Process Evidence
begin

text \<open>
  The small scripts over the database: \<open>scripts/store_fees.py\<close>, \<open>scripts/sufficiency.py\<close> and \<open>scripts/gap_report.py\<close>.
  What they print is the value they return.
\<close>

section \<open>Fees\<close>

fun store_each :: "fee_schedule list \<Rightarrow> ('c, (fee_schedule \<times> bool) list) fproc" where
  "store_each [] = ret []"
| "store_each (f # fs) =
     bind (get (\<lambda>p. insert_fee f (fp_db p))) (\<lambda>(new, d).
     andthen (upd (\<lambda>p. p\<lparr>fp_db := d\<rparr>))
     (bind (store_each fs) (\<lambda>rest. ret ((f, new) # rest))))"

definition store_fees :: "'c sdk \<Rightarrow> ('c, (fee_schedule \<times> bool) list) fproc" where
  "store_fees C = bind (fclient (fetch_fees C)) store_each"

section \<open>Sufficiency\<close>

definition REPORT_SOURCES :: "source_type list" where
  "REPORT_SOURCES = [POLYMARKET_REST, PROXY_HYPERLIQUID]"

definition sufficiency_lines :: "db \<Rightarrow> int list \<Rightarrow> time \<Rightarrow> (int \<times> sufficiency_report) list res" where
  "sufficiency_lines d ids now =
     rmapM (\<lambda>(iid, src). rmap (Pair iid) (check_dataset d iid src now BAR))
       (concat (map (\<lambda>iid. map (Pair iid) REPORT_SOURCES) ids))"

section \<open>Gaps\<close>

record gap_lines =
  gl_instrument :: int
  gl_ticks :: "(time \<times> time) list"
  gl_funding :: "(time \<times> time) list"
  gl_rejections :: "(string \<times> nat) list"

definition gap_lines_of :: "db \<Rightarrow> time \<Rightarrow> time \<Rightarrow> time \<Rightarrow> time \<Rightarrow> int \<Rightarrow> gap_lines res" where
  "gap_lines_of d tick_gap funding_gap start end_ts iid =
     rbind (find_gaps d iid Ticks_Table tick_gap start end_ts None) (\<lambda>ts.
     rmap (\<lambda>fs. \<lparr>gl_instrument = iid, gl_ticks = ts, gl_funding = fs, gl_rejections = count_rejections d iid\<rparr>)
       (find_gaps d iid Funding_Table funding_gap start end_ts None))"

text \<open>The arguments are floats of hours, seconds and hours; with no instrument the last two are never read.\<close>

definition gap_report :: "db \<Rightarrow> int list \<Rightarrow> rat \<Rightarrow> rat \<Rightarrow> rat \<Rightarrow> time \<Rightarrow> gap_lines list res" where
  "gap_report d ids window tick_gap_s funding_gap_h now =
     rbind (td_hours (Finite window)) (\<lambda>w.
       rmapM (\<lambda>iid.
         rbind (td_seconds (Finite tick_gap_s)) (\<lambda>tg.
         rbind (td_hours (Finite funding_gap_h)) (\<lambda>fg. gap_lines_of d tg fg (now - w) now iid))) ids)"

section \<open>What they say\<close>

text \<open>After the fees are stored, every category the exchange named has a fee for the trader and the backtest to find.\<close>

lemma insert_fee_rows: "insert_fee f d = (new, d') \<Longrightarrow> set (db_fees d) \<subseteq> set (db_fees d') \<and> (\<exists>g \<in> set (db_fees d'). fs_category g = fs_category f)"
  by (auto simp: insert_fee_def insert_or_ignore_def split: if_splits)

lemma latest_fee_iff: "latest_fee d category \<noteq> None \<longleftrightarrow> (\<exists>g \<in> set (db_fees d). fs_category g = category)"
proof -
  have empty: "sort_key fs_fetched_at xs = [] \<longleftrightarrow> xs = []" for xs by (metis length_0_conv length_sort)
  show ?thesis unfolding latest_fee_def Let_def empty by (simp add: filter_empty_conv)
qed

lemma store_each_stores:
  "store_each fs p = (r, p') \<Longrightarrow> r = Inr rows \<Longrightarrow> set (db_fees (fp_db p)) \<subseteq> set (db_fees (fp_db p'))
     \<and> map fst rows = fs \<and> (\<forall>f \<in> set fs. latest_fee (fp_db p') (fs_category f) \<noteq> None)"
proof (induction fs arbitrary: p p' rows r)
  case (Cons f fs)
  obtain new d where i: "insert_fee f (fp_db p) = (new, d)" by fastforce
  obtain r1 p1 where s: "store_each fs (p\<lparr>fp_db := d\<rparr>) = (r1, p1)" by fastforce
  obtain rows1 where rows: "r1 = Inr rows1" "rows = (f, new) # rows1" "p1 = p'"
    using Cons.prems i s by (cases r1) (auto simp: bind_def get_def andthen_def upd_def ret_def)
  from Cons.IH [OF s rows(1)] have ih: "set (db_fees d) \<subseteq> set (db_fees (fp_db p1))" "map fst rows1 = fs"
    "\<forall>f \<in> set fs. latest_fee (fp_db p1) (fs_category f) \<noteq> None" by simp_all
  from insert_fee_rows [OF i] ih(1) have "set (db_fees (fp_db p)) \<subseteq> set (db_fees (fp_db p1))"
    "latest_fee (fp_db p1) (fs_category f) \<noteq> None" unfolding latest_fee_iff by blast+
  then show ?case using ih(2,3) rows(2,3) by simp
qed (simp add: ret_def)

theorem stored_fees_are_found:
  assumes "store_fees C p = (Inr rows, p')" "(f, new) \<in> set rows"
  shows "latest_fee (fp_db p') (fs_category f) \<noteq> None"
proof -
  obtain fs p1 where "fclient (fetch_fees C) p = (Inr fs, p1)" "store_each fs p1 = (Inr rows, p')"
    using assms(1) by (auto simp: store_fees_def bind_def split: prod.splits sum.splits)
  from store_each_stores [OF this(2) refl] assms(2) show ?thesis by force
qed

lemma rmapM_each: "rmapM f xs = Inr ys \<Longrightarrow> y \<in> set ys \<Longrightarrow> \<exists>x \<in> set xs. f x = Inr y"
  by (induction xs arbitrary: ys) auto

text \<open>A proxy's line never says that the bar is met, however much data there is.\<close>

theorem proxy_lines_are_never_met:
  assumes "sufficiency_lines d ids now = Inr rows" "(iid, rep) \<in> set rows" "sr_source rep = PROXY_HYPERLIQUID"
  shows "\<not> sr_met rep"
proof -
  have one: "sr_source rep = src \<and> (src = PROXY_HYPERLIQUID \<longrightarrow> \<not> sr_met rep)" if "check_dataset d i src now BAR = Inr rep" for i src rep
    using that by (auto simp: check_dataset_def dataset_meets_bar_def BAR_def NATIVE_SOURCES_def Let_def split: if_splits)
  obtain src where "check_dataset d iid src now BAR = Inr rep"
    using rmapM_each [OF assms(1) [unfolded sufficiency_lines_def] assms(2)] by auto
  with one assms(3) show ?thesis by blast
qed

end
