(* ===== verification/Trader_Start.thy ===== *)
theory Trader_Start
  imports Trader Proxy
begin

text \<open>
  \<open>scripts/run_trader.py\<close> from the parsed command line to the running loops: the refusals, the fee, the executor, the
  instruments, the parameters, one router per instrument, recovery and warm-up. Opening and closing of connections and
  the wallet login are left out.
\<close>

record trader_args =
  ta_mode :: executor_mode
  ta_hypothesis :: string
  ta_params_from :: "string option"
  ta_grid_index :: int
  ta_run_id :: "string option"
  ta_equity :: string
  ta_fee_category :: string
  ta_clear_halt :: "int option"

text \<open>The run id, minted from the executor and an instant (\<open>stamp\<close>) when the command line has none.\<close>

definition run_id_of :: "trader_args \<Rightarrow> string \<Rightarrow> string" where
  "run_id_of a stamp =
     (case truthy (ta_run_id a) of Some r \<Rightarrow> r | None \<Rightarrow> executor_name (ta_mode a) @ CHR ''-'' # stamp)"

text \<open>\<open>_params\<close>; a negative index counts from the end.\<close>

definition grid_params :: "string \<Rightarrow> int \<Rightarrow> params res" where
  "grid_params h k =
     (case map_of GRIDS h of
        None \<Rightarrow> Inl (Exn KeyError [S h])
      | Some ps \<Rightarrow>
          let n = (if k < 0 then k + int (length ps) else k) in
          if 0 \<le> n \<and> n < int (length ps) then Inr (ps ! nat n) else Inl (Exn IndexError [S ''list index out of range'']))"

definition trader_params :: "trader_args \<Rightarrow> json list res \<Rightarrow> params res" where
  "trader_params a records =
     (case truthy (ta_params_from a) of
        Some run \<Rightarrow> rbind records (params_from (\<lambda>s. the_finite (py_decimal s)) json_int run)
      | None \<Rightarrow> grid_params (ta_hypothesis a) (ta_grid_index a))"

text \<open>Shadow is judged as paper: it must reach an order to exercise it.\<close>

definition kill_mode_of :: "executor_mode \<Rightarrow> mode" where
  "kill_mode_of m = (if m = LiveMode then Live else Paper)"

text \<open>The checks of \<open>run_once\<close> before anything is built.\<close>

definition wired :: "trader_args \<Rightarrow> unit res" where
  "wired a =
     (if ta_hypothesis a = ''h2'' \<or> ta_hypothesis a = ''h4'' then
        Inl (Exn (OtherException ''SystemExit'') [S (ta_hypothesis a), S '' needs a live proxy feed; not wired''])
      else Inr ())"

definition fee_of :: "db \<Rightarrow> string \<Rightarrow> dec res" where
  "fee_of d category =
     (case latest_fee d category of
        None \<Rightarrow> Inl (Exn (OtherException ''SystemExit'') [S ''no fee row for '', S category, S ''; run scripts/store_fees.py''])
      | Some f \<Rightarrow> Inr (fs_taker f))"

section \<open>Routers\<close>

definition categories_of :: "instrument list \<Rightarrow> int list \<Rightarrow> (int \<times> string) list res" where
  "categories_of is ids =
     (let known = map_of (rev (map (\<lambda>i. (is_id i, is_category i)) is)); unknown = filter (\<lambda>i. known i = None) ids in
      if unknown \<noteq> [] then Inl (Exn (OtherException ''SystemExit'') (S ''unknown instrument ids '' # map I unknown))
      else Inr (dict_of (map (\<lambda>i. (i, the (known i))) ids)))"

definition router_for ::
  "string \<Rightarrow> string \<Rightarrow> params \<Rightarrow> (int \<times> string) list \<Rightarrow> int \<Rightarrow> (int \<times> strat_state router) res" where
  "router_for run h ps cats iid =
     rmap (\<lambda>hyp. (iid, router_init run iid (the (map_of cats iid)) (strategy_of hyp) strat_new (map_of cats) LIMITS EXPOSURE))
       (build_strategy h ps None)"

definition routers_of :: "string \<Rightarrow> string \<Rightarrow> params \<Rightarrow> (int \<times> string) list \<Rightarrow> int list \<Rightarrow> (int \<times> strat_state router) list res" where
  "routers_of run h ps cats ids = rmap dict_of (rmapM (router_for run h ps cats) ids)"

text \<open>How many hours each instrument is warmed with: the longest warm-up, or the look-back of the parameters.\<close>

definition warm_hours :: "(int \<times> strat_state router) list \<Rightarrow> params \<Rightarrow> int list \<Rightarrow> (int \<times> nat) list res" where
  "warm_hours rs ps ids =
     (let warm = foldl max 0 (map (\<lambda>(_, r). st_warmup (rt_strategy r)) rs) in
      rmap (\<lambda>lb. map (\<lambda>(i, _). (i, max warm (nat lb))) (dict_of (map (\<lambda>i. (i, ())) ids)))
        (case map_of ps ''lookback'' of
           None \<Rightarrow> Inr 0
         | Some (PInt n) \<Rightarrow> Inr n
         | Some (PDec x) \<Rightarrow> Inr (if 0 \<le> x then \<lfloor>x\<rfloor> else \<lceil>x\<rceil>)))"

definition portfolio_for :: "string \<Rightarrow> (int \<times> strat_state router) list \<Rightarrow> dec \<Rightarrow> 'x io \<Rightarrow> ('x, strat_state) pf" where
  "portfolio_for run rs start io =
     \<lparr>pf_run = run, pf_routers = rs, pf_start_equity = Some start, pf_pnl_level = None, pf_funding_seen = [], pf_refused = [],
      pf_io = io\<rparr>"

section \<open>Starting the loops\<close>

text \<open>From an executor: instruments, parameters, routers, recovery, warm-up, and the state the loops run over.\<close>

definition start_loops ::
  "'x exec_ops \<Rightarrow> trader_args \<Rightarrow> string \<Rightarrow> instrument list res \<Rightarrow> json list res \<Rightarrow> int list \<Rightarrow> time \<Rightarrow> dec \<Rightarrow> 'x io
     \<Rightarrow> ('x, strat_state) trader feed res" where
  "start_loops X a run fetched records ids now start io =
     rbind fetched (\<lambda>is.
     rbind (categories_of is ids) (\<lambda>cats.
     rbind (trader_params a records) (\<lambda>ps.
     rbind (routers_of run (ta_hypothesis a) ps cats ids) (\<lambda>rs.
     rbind (warm_hours rs ps ids) (\<lambda>wanted.
     case boot X (ta_clear_halt a) wanted now (portfolio_for run rs start io) of
       (Inl e, _) \<Rightarrow> Inl e
     | (Inr b, p) \<Rightarrow>
         Inr (feed_init \<lparr>tr_pf = p, tr_start = start, tr_builder = b, tr_marks = [], tr_queue = []\<rparr>))))))"

text \<open>The paper trader, whole: the account stored for the run or a fresh one, then the loops.\<close>

definition start_paper ::
  "trader_args \<Rightarrow> string \<Rightarrow> instrument list res \<Rightarrow> json list res \<Rightarrow> int list \<Rightarrow> time \<Rightarrow> (nat \<Rightarrow> time) \<Rightarrow> db
     \<Rightarrow> (sim, strat_state) trader feed res" where
  "start_paper a run fetched records ids now clock d =
     rbind (wired a) (\<lambda>_.
     rbind (fee_of d (ta_fee_category a)) (\<lambda>fee.
     rbind (the_finite (py_decimal (ta_equity a))) (\<lambda>equity.
     rbind (build_sim d run fee equity clock) (\<lambda>x.
       start_loops sim_ops a run fetched records ids now (sx_start_equity x) (io_of d x clock)))))"

text \<open>
  The shadow and the live trader up to the executor: the checks of the command line, the hypothesis, the fee, the owner
  of the run, the session (\<open>opened\<close>), the equity argument and \<open>build_executor\<close>.
\<close>

definition start_account ::
  "'x session \<Rightarrow> trader_args \<Rightarrow> int list \<Rightarrow> env \<Rightarrow> bool \<Rightarrow> (nat \<Rightarrow> time) \<Rightarrow> db \<Rightarrow> 'x res \<Rightarrow> 'x started res" where
  "start_account s a ids env validated clock d opened =
     rbind (main_check (ta_mode a) (ta_run_id a) ids env validated) (\<lambda>_.
     rbind (wired a) (\<lambda>_.
     rbind (fee_of d (ta_fee_category a)) (\<lambda>_.
     rbind (refuse_foreign_run_id d (the (ta_run_id a)) (executor_name (ta_mode a))) (\<lambda>_.
     rbind opened (\<lambda>x.
     rbind (the_finite (py_decimal (ta_equity a))) (\<lambda>_.
       exit_on_gate (build_real s (ta_mode a) (the (ta_run_id a)) ids env validated clock d x)))))))"

text \<open>Then the loops, over the executor that was built.\<close>

definition start_real ::
  "'x session \<Rightarrow> trader_args \<Rightarrow> instrument list res \<Rightarrow> json list res \<Rightarrow> int list \<Rightarrow> env \<Rightarrow> bool
     \<Rightarrow> time \<Rightarrow> (nat \<Rightarrow> time) \<Rightarrow> db \<Rightarrow> 'x res
     \<Rightarrow> (('x reader, strat_state) trader feed + ('x live, strat_state) trader feed) res" where
  "start_real s a fetched records ids env validated now clock d opened =
     rbind (start_account s a ids env validated clock d opened) (\<lambda>started.
       case started of
         ShadowStarted start io \<Rightarrow>
           rmap Inl (start_loops (shadow_ops s) a (the (ta_run_id a)) fetched records ids now start io)
       | LiveStarted start io \<Rightarrow>
           rmap Inr (start_loops (live_ops s) a (the (ta_run_id a)) fetched records ids now start io))"

section \<open>What a started trader is\<close>

text \<open>The hypotheses that read a proxy never start, whatever the rest of the command line says.\<close>

theorem proxy_hypotheses_never_start:
  "ta_hypothesis a \<in> {''h2'', ''h4''} \<Longrightarrow> \<exists>msg. start_paper a run fetched records ids now clock d = Inl (Exn (OtherException ''SystemExit'') msg)"
  by (auto simp: start_paper_def wired_def)

text \<open>A grid point of a hypothesis that can be wired always builds its strategy.\<close>

theorem grid_points_build:
  assumes "h \<in> {''h1'', ''h3'', ''h5'', ''h6''}" "grid_params h k = Inr ps"
  shows "\<exists>hyp. build_strategy h ps None = Inr hyp"
proof -
  have "list_all (\<lambda>h. list_all (\<lambda>ps. case build_strategy h ps None of Inl _ \<Rightarrow> False | Inr _ \<Rightarrow> True) (the (map_of GRIDS h)))
      [''h1'', ''h3'', ''h5'', ''h6'']" by code_simp
  moreover have "ps \<in> set (the (map_of GRIDS h))"
    using assms(2) by (auto simp: grid_params_def Let_def split: option.splits if_splits)
  ultimately have "case build_strategy h ps None of Inl _ \<Rightarrow> False | Inr _ \<Rightarrow> True"
    using assms(1) by (auto simp: list_all_iff)
  then show ?thesis by (auto split: sum.splits)
qed

text \<open>Every configured instrument has a router of its own, with the run's id, its own category and the hypothesis asked for.\<close>

theorem every_instrument_has_a_router:
  assumes "categories_of is ids = Inr cats" "routers_of run h ps cats ids = Inr rs"
  shows "fst ` set rs = set ids \<and>
    (\<forall>iid r. map_of rs iid = Some r \<longrightarrow> rt_run r = run \<and> rt_iid r = iid \<and> map_of cats iid = Some (rt_category r)
       \<and> (\<exists>hyp. build_strategy h ps None = Inr hyp \<and> rt_strategy r = strategy_of hyp) \<and> rt_state r = FLAT \<and> rt_size r = 0)"
proof -
  obtain kvs where kvs: "rmapM (router_for run h ps cats) ids = Inr kvs" "rs = dict_of kvs"
    using assms(2) by (auto simp: routers_of_def)
  have all: "list_all2 (\<lambda>i kv. router_for run h ps cats i = Inr kv) ids kvs" using kvs(1) by (simp add: rmapM_all2)
  then have ids: "map fst kvs = ids"
    by (induction rule: list_all2_induct) (auto simp: router_for_def)
  have kv: "\<exists>hyp. build_strategy h ps None = Inr hyp \<and>
      r = router_init run i (the (map_of cats i)) (strategy_of hyp) strat_new (map_of cats) LIMITS EXPOSURE" if "(i, r) \<in> set kvs" for i r
    using all that by (induction rule: list_all2_induct) (auto simp: router_for_def)
  have cats: "map_of cats i = Some (the (map_of cats i))" if "i \<in> set ids" for i
  proof -
    have "i \<in> fst ` set cats" using assms(1) that by (auto simp: categories_of_def Let_def dict_of_keys image_image split: if_splits)
    then show ?thesis by (metis map_of_eq_None_iff option.collapse)
  qed
  have keys: "fst ` set kvs = set ids" using ids by (metis set_map)
  then have "fst ` set rs = set ids" by (simp add: kvs(2) dict_of_keys)
  moreover have "rt_run r = run \<and> rt_iid r = iid \<and> map_of cats iid = Some (rt_category r)
       \<and> (\<exists>hyp. build_strategy h ps None = Inr hyp \<and> rt_strategy r = strategy_of hyp) \<and> rt_state r = FLAT \<and> rt_size r = 0"
    if "map_of rs iid = Some r" for iid r
  proof -
    have "(iid, r) \<in> set kvs" using map_of_SomeD [OF that [unfolded kvs(2) map_of_dict_of]] by simp
    moreover have "iid \<in> set ids" using calculation keys by force
    ultimately show ?thesis using kv cats by (fastforce simp: router_init_def)
  qed
  ultimately show ?thesis by blast
qed

section \<open>What starts on the real account\<close>

lemma no_mode: "\<not> gd_allowed (live_orders_allowed iid MODES env sv validated)"
  by (simp add: live_orders_allowed_def Let_def MODES_def)

lemma live_never_built: "build_real s LiveMode run iids env validated clock d x \<noteq> Inr st"
  by (cases iids) (auto simp: build_real_def live_init_def no_mode)

text \<open>What a first snapshot leaves: the ids of the stop orders it shows, one per instrument.\<close>

lemma snapshot_stop_ids:
  assumes "live_snapshot s (reader_init x clock) = (Inr sn, l)"
  shows "fst ` set (lv_stop_ids l) = fst ` set (sn_stops sn)"
proof -
  have key: "fst ` set (AList.update i v m) = insert i (fst ` set m)" for i v and m :: "(int \<times> int) list"
    by (simp add: dom_map_of_conv_image_fst [symmetric] update_conv')
  have ids: "fst ` set (foldl (\<lambda>m (iid, _, oid). AList.update iid oid m) m os) = fst ` set m \<union> fst ` set os"
    for m :: "(int \<times> int) list" and os :: "(int \<times> dec \<times> int) list"
  proof (induction os arbitrary: m)
    case (Cons o' os)
    show ?case by (cases o') (simp add: Cons key)
  qed simp
  obtain os where "lv_stop_ids l = foldl (\<lambda>m (iid, _, oid). AList.update iid oid m) [] (stop_orders os)"
      "sn_stops sn = dict_of (map (\<lambda>(iid, trigger, _). (iid, trigger)) (stop_orders os))"
    using assms
    by (auto simp: live_snapshot_def bind_def lses_def focus_def andthen_def upd_def lclock_def ret_def reader_init_def Let_def
        split: prod.splits sum.splits)
  then show ?thesis unfolding ids by (simp add: ids dict_of_keys image_image case_prod_beta)
qed

text \<open>What the database has stored for the run after a start, and what the executor has read of the account.\<close>

definition based :: "'x session \<Rightarrow> string \<Rightarrow> string \<Rightarrow> db \<Rightarrow> 'x reader \<Rightarrow> dec \<Rightarrow> 'x reader io \<Rightarrow> bool" where
  "based s run name d l0 start io \<longleftrightarrow>
     (case load_account_snapshot d run of
        Some (_, stored, _) \<Rightarrow> start = stored \<and> io_ex io = l0 \<and> io_db io = d
      | None \<Rightarrow> \<exists>sn. live_snapshot s l0 = (Inr sn, io_ex io) \<and> start = sn_equity sn
          \<and> load_account_snapshot (io_db io) run = Some (sn, start, name)
          \<and> fst ` set (lv_stop_ids (io_ex io)) = fst ` set (sn_stops sn))"

lemma baseline_based:
  assumes "baseline s run name (io_of d (reader_init x clock) clock) = (Inr start, io)"
  shows "based s run name d (reader_init x clock) start io"
proof (cases "load_account_snapshot d run")
  case (Some r)
  then show ?thesis
    using assms by (cases r) (auto simp: based_def baseline_def io_of_def io_store_def focus_def bind_def get_def ret_def)
next
  case None
  obtain res l where sn: "live_snapshot s (reader_init x clock) = (res, l)" by fastforce
  then obtain sn where "res = Inr sn"
    using assms None by (cases res) (auto simp: baseline_def io_of_def io_store_def io_exec_def focus_def bind_def get_def)
  then have "io_ex io = l" "start = sn_equity sn" "io_db io = save_account_snapshot run sn (sn_equity sn) name d"
    using assms None sn
    by (simp_all add: baseline_def io_of_def io_store_def io_exec_def focus_def bind_def andthen_def get_def upd_def ret_def)
      auto
  then show ?thesis
    using None sn \<open>res = Inr sn\<close> snapshot_stop_ids [of s x clock sn l] by (simp add: based_def load_saved_snapshot)
qed

text \<open>
  C39. No command line starts the live executor. Whatever the instruments, the environment, the evidence and the database,
  a start over the real account that comes up is the shadow: under an explicit run id that no other executor owns and on the
  session that was opened. Its loss-limit baseline is the one stored for the run; for a new run it is the equity of a
  first reading of the account, stored at once under the shadow's name, and the stop ids it remembers are those of the
  instruments whose stops that reading showed.
\<close>

theorem only_the_shadow_starts_on_the_real_account:
  assumes "ta_mode a \<noteq> SimMode" "start_account s a ids env validated clock d opened = Inr started"
  shows "\<exists>run x start io. started = ShadowStarted start io \<and> ta_mode a = ShadowMode \<and> opened = Inr x
    \<and> ta_run_id a = Some run \<and> run \<noteq> [] \<and> (run_owner d run = None \<or> run_owner d run = Some ''shadow'')
    \<and> based s run ''shadow'' d (reader_init x clock) start io"
proof -
  obtain x where x: "main_check (ta_mode a) (ta_run_id a) ids env validated = Inr ()" "opened = Inr x"
    "exit_on_gate (build_real s (ta_mode a) (the (ta_run_id a)) ids env validated clock d x) = Inr started"
    using assms(2) by (auto simp: start_account_def)
  from x(3) have built: "build_real s (ta_mode a) (the (ta_run_id a)) ids env validated clock d x = Inr started"
    by (auto simp: exit_on_gate_def exit_code_def split: sum.splits if_splits)
  then have "ta_mode a \<noteq> LiveMode"
    using live_never_built [of s "the (ta_run_id a)" ids env validated clock d x started] by (intro notI) simp
  then have mode: "ta_mode a = ShadowMode" using assms(1) by (cases "ta_mode a") auto
  from x(1) mode obtain run where run: "ta_run_id a = Some run" "run \<noteq> []"
    by (auto simp: main_check_def exit_code_def split: if_splits option.splits)
  from built mode run obtain start io where b: "refuse_foreign_run_id d run ''shadow'' = Inr ()"
      "baseline s run ''shadow'' (io_of d (reader_init x clock) clock) = (Inr start, io)" "started = ShadowStarted start io"
    by (auto simp: build_real_def split: prod.splits sum.splits)
  have "run_owner d run = None \<or> run_owner d run = Some ''shadow''"
    using b(1) by (auto simp: refuse_foreign_run_id_def exit_code_def split: option.splits if_splits)
  then show ?thesis using x(2) mode run b(3) baseline_based [OF b(2)] by blast
qed

text \<open>A shadow on the account of \<open>logging_session\<close>, with a fee in the database.\<close>

definition sample_shadow :: trader_args where
  "sample_shadow = \<lparr>ta_mode = ShadowMode, ta_hypothesis = ''h1'', ta_params_from = None, ta_grid_index = 0,
     ta_run_id = Some ''s1'', ta_equity = ''1000'', ta_fee_category = ''equity'', ta_clear_halt = None\<rparr>"

definition fee_db :: db where
  "fee_db = empty_db\<lparr>db_fees := [\<lparr>fs_category = ''equity'', fs_taker = 4/10000, fs_maker = 0, fs_fetched_at = 0\<rparr>]\<rparr>"

lemma only_the_shadow_starts_on_the_real_account_witness:
  "\<exists>start io. start_account logging_session sample_shadow [6] (\<lambda>_. Some ''true'') True sample_clock fee_db (Inr []) = Inr (ShadowStarted start io)
     \<and> based logging_session ''s1'' ''shadow'' fee_db (reader_init [] sample_clock) start io"
proof -
  have "case start_account logging_session sample_shadow [6] (\<lambda>_. Some ''true'') True sample_clock fee_db (Inr []) of
      Inr _ \<Rightarrow> True | Inl _ \<Rightarrow> False" by code_simp
  then obtain st where "start_account logging_session sample_shadow [6] (\<lambda>_. Some ''true'') True sample_clock fee_db (Inr []) = Inr st"
    by (auto split: sum.splits)
  from only_the_shadow_starts_on_the_real_account [OF _ this] this show ?thesis by (auto simp: sample_shadow_def)
qed

end
