(* ===== verification/Row_Frame.thy ===== *)
theory Row_Frame
  imports Recovery_Laws Account_Frame
begin

text \<open>
  The local position rows on disk as seen from the routers. Only \<open>persist\<close> and \<open>_set_state\<close> write them, each the
  router's own row with its own state; so what such a write keeps, every call of a router keeps, also one that raises.
  Two instances: the router's row shows its state, and the row of another instrument is left alone.
\<close>

section \<open>The row of an instrument\<close>

definition rows_keyed :: "db \<Rightarrow> bool" where
  "rows_keyed d \<longleftrightarrow> distinct (map position_key (db_positions d))"

definition filed :: "db \<Rightarrow> string \<Rightarrow> int \<Rightarrow> rstate option" where
  "filed d run k = map_option pr_state (find (\<lambda>p. position_key p = (run, k)) (db_positions d))"

lemma filed_cong: "db_positions d' = db_positions d \<Longrightarrow> filed d' run k = filed d run k"
    "db_positions d' = db_positions d \<Longrightarrow> rows_keyed d' = rows_keyed d"
  by (simp_all add: filed_def rows_keyed_def)

lemma distinct_upsert:
  "(\<And>y. key (merge y r) = key y) \<Longrightarrow> distinct (map key rows) \<Longrightarrow> distinct (map key (upsert key merge r rows))"
proof (induction rows)
  case (Cons x rows)
  have "key ` set (upsert key merge r rows) = insert (key r) (key ` set rows)" if "key x \<noteq> key r"
    using Cons.prems(1) by (induction rows) auto
  then show ?case using Cons by auto
qed simp

lemma filed_upsert:
  "filed (upsert_position_local row d) (pr_run row) (pr_instrument row) = Some (pr_state row)"
  "(run, k) \<noteq> (pr_run row, pr_instrument row) \<Longrightarrow> filed (upsert_position_local row d) run k = filed d run k"
  "rows_keyed d \<Longrightarrow> rows_keyed (upsert_position_local row d)"
proof -
  have m: "position_key (merge_position y row) = position_key y" for y by simp
  have k: "position_key row = (pr_run row, pr_instrument row)" by (simp add: position_key_def)
  show "filed (upsert_position_local row d) (pr_run row) (pr_instrument row) = Some (pr_state row)"
    using find_upsert_same [of position_key merge_position row "db_positions d", OF m]
    by (simp add: filed_def upsert_position_local_def k merge_position_def split: option.split)
  show "(run, k) \<noteq> (pr_run row, pr_instrument row) \<Longrightarrow> filed (upsert_position_local row d) run k = filed d run k"
    using find_upsert_other [of position_key merge_position row "(run, k)" "db_positions d", OF m]
    by (simp add: filed_def upsert_position_local_def k)
  show "rows_keyed d \<Longrightarrow> rows_keyed (upsert_position_local row d)"
    unfolding rows_keyed_def upsert_position_local_def by (simp add: distinct_upsert)
qed

lemma locals_find:
  assumes "rows_keyed d"
  shows "map_of (get_positions_local d run) k = find (\<lambda>p. position_key p = (run, k)) (db_positions d)"
proof -
  have f: "distinct (map pr_instrument rs) \<Longrightarrow> map_of (foldl (\<lambda>m r. AList.update (pr_instrument r) r m) m rs) k =
      (case find (\<lambda>r. pr_instrument r = k) rs of None \<Rightarrow> map_of m k | Some r \<Rightarrow> Some r)" for rs m
  proof (induction rs arbitrary: m)
    case (Cons r rs)
    have "find (\<lambda>r. pr_instrument r = k) rs = None" if "pr_instrument r = k"
      using Cons.prems that unfolding find_None_iff by (auto simp: image_iff dest: sym)
    then show ?case using Cons by (auto simp: update_conv' split: option.split)
  qed simp
  have "distinct (map pr_instrument (filter (\<lambda>r. pr_run r = run) rows))" if "distinct (map position_key rows)" for rows
    using that by (induction rows) (auto simp: position_key_def image_iff)
  moreover have "find (\<lambda>r. pr_instrument r = k) (filter (\<lambda>r. pr_run r = run) rows) =
      find (\<lambda>p. position_key p = (run, k)) rows" for rows
    by (induction rows) (auto simp: position_key_def)
  ultimately show ?thesis
    using assms by (simp add: get_positions_local_def f rows_keyed_def split: option.split)
qed

lemma filed_locals: "rows_keyed d \<Longrightarrow> map_option pr_state (map_of (get_positions_local d run) k) = filed d run k"
  by (simp add: locals_find filed_def)

section \<open>What a router's writes keep\<close>

text \<open>A fact about a router's run, instrument and state and the database.\<close>

type_synonym row_fact = "string \<Rightarrow> int \<Rightarrow> rstate \<Rightarrow> db \<Rightarrow> bool"

definition of_router :: "row_fact \<Rightarrow> ('x, 's) renv \<Rightarrow> bool" where
  "of_router P w \<longleftrightarrow> P (rt_run (re_rt w)) (rt_iid (re_rt w)) (rt_state (re_rt w)) (io_db (re_io w))"

definition named :: "'s router \<Rightarrow> string \<times> int \<times> rstate" where
  "named r = (rt_run r, rt_iid r, rt_state r)"

lemma of_router_rupd: "(\<And>r. named (f r) = named r) \<Longrightarrow> keeps (of_router P) (rupd f)"
  by (rule keeps_rupd) (simp add: of_router_def named_def)

lemma of_router_rstrat: "keeps (of_router P) (rstrat m)"
  by (auto simp: keeps_def rstrat_def rget_def bind_def get_def focus_def of_router_def split: prod.split)

lemma of_router_reads: "keeps (of_router P) rclock" "keeps (of_router P) (rread g)" "keeps (of_router P) (rexec m)"
    "keeps (of_router P) (rio (io_emit al))"
  by (auto simp: keeps_def of_router_def rexec_def eff_defs split: prod.split)

lemma of_router_alert: "keeps (of_router P) (ralert lv kind d)"
  unfolding ralert_def by (intro keeps_intros of_router_reads)

lemma of_router_hooks: "keeps (of_router P) flatten_hook" "keeps (of_router P) (recover_hook sg)"
  unfolding flatten_hook_def recover_hook_def by (rule of_router_rstrat)+

lemma of_router_submit: "keeps (of_router P) (submit_attempts X rq sz ns)"
  by (induction ns) (auto intro!: keeps_intros of_router_reads of_router_alert)

lemmas row_intros = keeps_intros of_router_rupd of_router_rstrat of_router_reads of_router_alert of_router_hooks
  of_router_submit

locale router_frame =
  fixes P :: row_fact
  assumes other_tables: "db_positions d' = db_positions d \<Longrightarrow> P run iid s d' = P run iid s d"
    and own_row: "P run iid s d \<Longrightarrow> pr_run row = run \<Longrightarrow> pr_instrument row = iid \<Longrightarrow>
      P run iid (pr_state row) (upsert_position_local row d)"
begin

lemma writes: "keeps (of_router P) (rdb (upsert_order orow))" "keeps (of_router P) (rio (io_store (insert_decision dec)))"
  using other_tables [of "upsert_order orow d" d for d] other_tables [of "d\<lparr>db_decisions := ds\<rparr>" d for d ds]
  by (simp_all add: keeps_def of_router_def eff_defs insert_decision_def upsert_order_def split: prod.split)

lemma row_written: "P (rt_run r) (rt_iid r) s d \<Longrightarrow>
    P (rt_run r) (rt_iid r) (rt_state r) (upsert_position_local (row_of r now) d)"
  using own_row [of "rt_run r" "rt_iid r" s d "row_of r now"] by (simp add: row_of_def)

lemma persist_keeps: "keeps (of_router P) persist"
  by (simp add: keeps_def of_router_def persist_def eff_defs row_written)

lemma set_state_keeps: "keeps (of_router P) (set_state s)"
  unfolding keeps_def
proof (intro allI impI)
  fix w :: "('a, 'b) renv"
  assume "of_router P w"
  then show "of_router P (snd (set_state s w))"
    using row_written [of "re_rt w\<lparr>rt_state := s\<rparr>" "rt_state (re_rt w)" "io_db (re_io w)"]
    by (simp add: of_router_def set_state_def persist_def eff_defs)
qed

lemma rows: "keeps (of_router P) (update_order cid b f)" "keeps (of_router P) (record_decision t v i c n)"
  unfolding update_order_def record_decision_def by (intro row_intros writes; simp add: named_def)+

lemma fill_rows: "keeps (of_router P) (record_fill row ev)"
  unfolding record_fill_def by (auto intro!: row_intros rows split: prod.split)

lemma halted: "keeps (of_router P) (halt reason)"
  unfolding halt_def by (intro row_intros set_state_keeps) (simp add: named_def)

lemma adopted: "keeps (of_router P) (adopt X sn)"
  unfolding adopt_def by (intro row_intros persist_keeps) (simp_all add: named_def)

lemma settled: "keeps (of_router P) (adopt_and_settle X sn)"
  unfolding adopt_and_settle_def by (intro row_intros adopted set_state_keeps)

lemma sent: "keeps (of_router P) (send X i t v)"
  unfolding send_def place_order_def attempt_send_def submit_with_recovery_def submit_failed_def submit_returned_def Let_def
  by (auto intro!: row_intros rows set_state_keeps adopted halted writes simp: named_def split: sum.split option.split)

lemma exits: "keeps (of_router P) (exit_position X mark reason t sz)"
  unfolding exit_position_def by (intro row_intros sent)

lemma shut: "keeps (of_router P) (shutdown X mark sz)"
  unfolding shutdown_def Let_def by (intro row_intros exits set_state_keeps)

lemma stop_replaced: "keeps (of_router P) (replace_stop X)"
  unfolding replace_stop_def by (auto intro!: row_intros persist_keeps simp: named_def split: option.split)

lemma pending_checked: "keeps (of_router P) (check_pending X sn)"
  unfolding check_pending_def by (auto intro!: row_intros rows settled split: option.split)

lemma pending_adopted: "keeps (of_router P) (adopt_pending cid st)"
  unfolding adopt_pending_def by (intro row_intros set_state_keeps) (simp_all add: named_def)

lemma on_bar: "keeps (of_router P) (router_on_bar X h sn kill pending)"
  unfolding router_on_bar_def on_target_def enter_def skip_def Let_def
  by (auto intro!: row_intros rows sent exits shut split: prod.split option.split)

lemma on_fast: "keeps (of_router P) (router_on_fast X mark sn)"
  unfolding router_on_fast_def margin_check_def Let_def
  by (auto intro!: row_intros set_state_keeps exits simp: named_def split: option.split)

lemma handles: "keeps (of_router P) (handle_event X ev)"
  unfolding handle_event_def fill_event_def after_fill_def flattened_by_fill_def late_fill_def order_update_event_def
    apply_fill_def Let_def
  by (auto intro!: row_intros rows fill_rows settled stop_replaced set_state_keeps persist_keeps simp: named_def
      split: event.split prod.split option.split)

end

text \<open>The two instances.\<close>

definition own :: "string \<Rightarrow> int \<Rightarrow> row_fact" where
  "own run k run' iid s d \<longleftrightarrow> run' = run \<and> iid = k \<and> rows_keyed d \<and> filed d run k = Some s"

definition other :: "string \<Rightarrow> int \<Rightarrow> int \<Rightarrow> rstate option \<Rightarrow> row_fact" where
  "other run j k b run' iid s d \<longleftrightarrow> run' = run \<and> iid = j \<and> j \<noteq> k \<and> rows_keyed d \<and> filed d run k = b"

interpretation own_row: router_frame "own run k" for run k
proof
  show "own run k r i s d' = own run k r i s d" if "db_positions d' = db_positions d" for r i s d d'
    by (simp add: own_def filed_cong [OF that])
  show "own run k r i (pr_state row) (upsert_position_local row d)"
    if "own run k r i s d" "pr_run row = r" "pr_instrument row = i" for r i s d row
    using that filed_upsert(1) [of row d] filed_upsert(3) [of d row] by (simp add: own_def)
qed

interpretation other_row: router_frame "other run j k b" for run j k b
proof
  show "other run j k b r i s d' = other run j k b r i s d" if "db_positions d' = db_positions d" for r i s d d'
    by (simp add: other_def filed_cong [OF that])
  show "other run j k b r i (pr_state row) (upsert_position_local row d)"
    if "other run j k b r i s d" "pr_run row = r" "pr_instrument row = i" for r i s d row
    using that filed_upsert(2) [of run k row d] filed_upsert(3) [of d row] by (simp add: other_def)
qed

end
