(* ===== verification/Portfolio_Frame.thy ===== *)
theory Portfolio_Frame
  imports Row_Frame
begin

text \<open>
  The running portfolio and the local position rows it leaves in the database. What every call of a router keeps of its
  row, every call of the portfolio keeps: each instrument with a router has a row that shows the router's state, and
  an instrument without one keeps the row it has.
\<close>

section \<open>The portfolio and its rows\<close>

definition pf_db :: "('x, 's) pf \<Rightarrow> db" where
  "pf_db p = io_db (pf_io p)"

definition served :: "string \<Rightarrow> ('x, 's) pf \<Rightarrow> bool" where
  "served run p \<longleftrightarrow> pf_run p = run \<and> rows_keyed (pf_db p) \<and>
     (\<forall>j r. map_of (pf_routers p) j = Some r \<longrightarrow> rt_run r = run \<and> rt_iid r = j)"

text \<open>The row of instrument \<open>k\<close>: the state of its router, or \<open>b\<close> when no router serves it.\<close>

definition on_file :: "string \<Rightarrow> int \<Rightarrow> rstate option \<Rightarrow> ('x, 's) pf \<Rightarrow> bool" where
  "on_file run k b p \<longleftrightarrow> served run p \<and>
     filed (pf_db p) run k = (case map_of (pf_routers p) k of None \<Rightarrow> b | Some r \<Rightarrow> Some (rt_state r))"

lemma in_router_on_file:
  assumes own: "j = k \<Longrightarrow> keeps (of_router (own run k)) m"
    and other: "\<And>c. j \<noteq> k \<Longrightarrow> keeps (of_router (other run j k c)) m"
  shows "keeps (on_file run k b) (in_router j m)"
  unfolding keeps_def
proof (intro allI impI)
  fix p :: "('a, 'b) pf"
  assume h: "on_file run k b p"
  show "on_file run k b (snd (in_router j m p))"
  proof (cases "map_of (pf_routers p) j")
    case None
    then show ?thesis using h by (simp add: in_router_def)
  next
    case (Some r)
    let ?w = "\<lparr>re_rt = r, re_io = pf_io p\<rparr>"
    have s: "rt_run r = run" "rt_iid r = j" "rows_keyed (pf_db p)" using h Some by (simp_all add: on_file_def served_def)
    define v where "v = snd (m ?w)"
    define q where "q = snd (in_router j m p)"
    have q: "pf_db q = io_db (re_io v)" "pf_run q = pf_run p"
        "\<And>i. map_of (pf_routers q) i = (if i = j then Some (re_rt v) else map_of (pf_routers p) i)"
      unfolding q_def v_def in_router_result [OF Some] by (simp_all add: in_router_def Some pf_db_def split: prod.split)
    show ?thesis
    proof (cases "j = k")
      case True
      then have "of_router (own run k) ?w" using h s Some by (simp add: of_router_def own_def on_file_def pf_db_def)
      from keepsD [OF own [OF True] this] have "of_router (own run k) v" by (simp add: v_def)
      then show ?thesis
        using h True unfolding q_def [symmetric] on_file_def served_def of_router_def own_def q by simp
    next
      case False
      then have "of_router (other run j k (filed (pf_db p) run k)) ?w"
        using s by (simp add: of_router_def other_def pf_db_def)
      from keepsD [OF other [OF False] this] have "of_router (other run j k (filed (pf_db p) run k)) v"
        by (simp add: v_def)
      then show ?thesis
        using h False unfolding q_def [symmetric] on_file_def served_def of_router_def other_def q by simp
    qed
  qed
qed

text \<open>A fact of the portfolio that depends on its run, routers and position rows alone.\<close>

definition row_is :: "string \<Rightarrow> int \<Rightarrow> rstate \<Rightarrow> ('x, 's) pf \<Rightarrow> bool" where
  "row_is run k t p \<longleftrightarrow> served run p \<and> filed (pf_db p) run k = Some t"

definition unserved :: "int \<Rightarrow> ('x, 's) pf \<Rightarrow> bool" where
  "unserved k p \<longleftrightarrow> map_of (pf_routers p) k = None"

definition seen :: "('x, 's) pf \<Rightarrow> string \<times> (int \<times> 's router) list \<times> position_row list" where
  "seen p = (pf_run p, pf_routers p, db_positions (pf_db p))"

definition of_rows :: "(('x, 's) pf \<Rightarrow> bool) \<Rightarrow> bool" where
  "of_rows Q \<longleftrightarrow> (\<forall>p p'. seen p' = seen p \<longrightarrow> Q p \<longrightarrow> Q p')"

lemma of_rows_facts: "of_rows (served run)" "of_rows (on_file run k b)" "of_rows (row_is run k t)" "of_rows (unserved k)"
  by (simp_all add: of_rows_def on_file_def row_is_def served_def seen_def unserved_def filed_def rows_keyed_def)

lemma of_rows_keeps: "of_rows Q \<Longrightarrow> (\<And>p. seen (snd (m p)) = seen p) \<Longrightarrow> keeps Q m"
  unfolding of_rows_def keeps_def by blast

lemma of_rows_upd: "of_rows Q \<Longrightarrow> (\<And>p. seen (f p) = seen p) \<Longrightarrow> keeps Q (upd f)"
  by (rule of_rows_keeps) (simp_all add: upd_def)

lemma of_rows_writes:
  assumes "of_rows Q"
  shows "keeps Q (pexec m)" "keeps Q (pemit a)" "keeps Q (pio io_now)" "keeps Q (pio (io_store (upd (upsert_order orow))))"
    "keeps Q (pio (io_store (upd (insert_recovery run now rep))))"
  unfolding pexec_def pemit_def pio_def
  by (rule of_rows_keeps [OF assms],
      simp add: seen_def pf_db_def eff_defs upsert_order_def insert_recovery_def split: prod.split)+

section \<open>What the calls keep\<close>

text \<open>What every call of a router keeps is kept by the router of the portfolio that runs it.\<close>

locale portfolio_frame =
  fixes Q :: "('x, 's) pf \<Rightarrow> bool"
  assumes rows: "of_rows Q"
    and routers: "(\<And>P. router_frame P \<Longrightarrow> keeps (of_router P) m) \<Longrightarrow> keeps Q (in_router j (m :: ('x, 's, unit) rop))"
begin

lemma known: "(\<And>P. router_frame P \<Longrightarrow> keeps (of_router P) m) \<Longrightarrow> keeps Q (on_known j (m :: ('x, 's, unit) rop))"
  unfolding on_known_def by (intro keeps_intros routers)

lemmas frame_intros = keeps_intros of_rows_writes [OF rows] of_rows_upd [OF rows] routers known

lemma shutdown_keeps: "keeps Q (pf_shutdown X sn hs)"
  unfolding pf_shutdown_def each_router_def shutdown_one_def
  by (intro frame_intros router_frame.shut)

lemma bar_keeps: "keeps Q (pf_on_bar X hs kill)"
  unfolding pf_on_bar_def check_funding_def check_funding_one_def bar_one_def Let_def
  by (auto intro!: frame_intros shutdown_keeps router_frame.on_bar simp: seen_def pf_db_def
      split: prod.split option.split)

lemma fast_keeps: "keeps Q (pf_on_fast X marks)"
  unfolding pf_on_fast_def pnl_check_def each_router_def Let_def
  by (auto intro!: frame_intros router_frame.on_fast router_frame.pending_checked
      simp: seen_def pf_db_def split: prod.split option.split)

lemma stop_row: "router_frame P \<Longrightarrow> keeps (of_router P) (andthen (rupd (rt_stop_update f)) persist)"
  by (intro row_intros router_frame.persist_keeps) (simp_all add: named_def)

lemma reconcile_keeps: "keeps Q (reconcile_now X)"
  unfolding reconcile_now_def reconcile_one_def respond_def restore_stop_def refused_def Let_def
  by (auto intro!: frame_intros router_frame.halted stop_row simp: seen_def pf_db_def
      split: option.split mismatch_kind.split)

lemma dispatch_keeps: "keeps Q (dispatch X ev)"
  unfolding dispatch_def each_router_def
  by (auto intro!: frame_intros reconcile_keeps router_frame.handles split: event.split)

lemma run_pf_keeps: "keeps Q (run_pf X c)"
  by (cases c) (auto intro!: keeps_intros bar_keeps fast_keeps dispatch_keeps reconcile_keeps)

lemma run_calls_keeps: "Q p \<Longrightarrow> Q (run_calls X cs p)"
  by (induction cs arbitrary: p) (simp_all add: run_calls_def keepsD [OF run_pf_keeps])

end

lemma frame_on_file: "(\<And>P. router_frame P \<Longrightarrow> keeps (of_router P) m) \<Longrightarrow> keeps (on_file run k b) (in_router j m)"
  by (rule in_router_on_file) (blast intro: own_row.router_frame_axioms other_row.router_frame_axioms)+

interpretation rows_on_file: portfolio_frame "on_file run k b" for run k b
  by unfold_locales (intro of_rows_facts frame_on_file; assumption)+

interpretation not_served: portfolio_frame "unserved k" for k
  by unfold_locales
    (auto simp: of_rows_facts keeps_def unserved_def in_router_def update_conv' split: option.split prod.split)

end
