(* ===== verification/Restart.thy ===== *)
theory Restart
  imports Portfolio_Frame Trader_Start
begin

text \<open>
  The composition of the running portfolio, the rows it leaves in the database and the recovery of the next process:
  a recovery that returns leaves the row of every router in step with its state, every call keeps it in step, and a
  frozen row is taken over as it stands. A process may die after any call.
\<close>

section \<open>The names of the routers\<close>

text \<open>Two more facts about one router: its names, and the row of an instrument, whatever its own state.\<close>

definition its :: "string \<Rightarrow> int \<Rightarrow> row_fact" where
  "its run j run' iid s d \<longleftrightarrow> run' = run \<and> iid = j \<and> rows_keyed d"

interpretation its_names: router_frame "its run j" for run j
proof
  show "its run j r i s d' = its run j r i s d" if "db_positions d' = db_positions d" for r i s d d'
    by (simp add: its_def filed_cong [OF that])
  show "its run j r i (pr_state row) (upsert_position_local row d)"
    if "its run j r i s d" "pr_run row = r" "pr_instrument row = i" for r i s d row
    using that filed_upsert(3) [of d row] by (simp add: its_def)
qed

definition row_still :: "string \<Rightarrow> int \<Rightarrow> int \<Rightarrow> rstate \<Rightarrow> row_fact" where
  "row_still run j k t run' iid s d \<longleftrightarrow> run' = run \<and> iid = j \<and> rows_keyed d \<and> filed d run k = Some t"

lemma row_still_other: "j \<noteq> k \<Longrightarrow> row_still run j k t = other run j k (Some t)"
  by (auto simp: row_still_def other_def fun_eq_iff)

lemma in_router_row:
  shows in_router_served: "keeps (of_router (its run j)) m \<Longrightarrow> keeps (served run) (in_router j m)"
    and in_router_row_is: "keeps (of_router (row_still run j k t)) m \<Longrightarrow> keeps (row_is run k t) (in_router j m)"
proof -
  let ?w = "\<lambda>r p. \<lparr>re_rt = r, re_io = pf_io p\<rparr> :: ('a, 'b) renv"
  have q: "served run (snd (in_router j m p))"
    if "served run p" "map_of (pf_routers p) j = Some r" "of_router (its run j) (snd (m (?w r p)))" for p r
    using that by (auto simp: in_router_def served_def of_router_def its_def pf_db_def update_conv' split: prod.split if_splits)
  have f: "pf_db (snd (in_router j m p)) = io_db (re_io (snd (m (?w r p))))" if "map_of (pf_routers p) j = Some r" for p r
    using that by (simp add: in_router_def pf_db_def split: prod.split)
  have n: "in_router j m p = (Inl (Exn KeyError [I j]), p)" if "map_of (pf_routers p) j = None" for p
    using that by (simp add: in_router_def)
  show "keeps (served run) (in_router j m)" if m: "keeps (of_router (its run j)) m"
    unfolding keeps_def
  proof (intro allI impI)
    fix p :: "('a, 'b) pf"
    assume p: "served run p"
    show "served run (snd (in_router j m p))"
    proof (cases "map_of (pf_routers p) j")
      case (Some r)
      have "of_router (its run j) (?w r p)" using p Some by (simp add: served_def of_router_def its_def pf_db_def)
      from q [OF p Some keepsD [OF m this]] show ?thesis .
    qed (simp add: n p)
  qed
  show "keeps (row_is run k t) (in_router j m)" if m: "keeps (of_router (row_still run j k t)) m"
    unfolding keeps_def
  proof (intro allI impI)
    fix p :: "('a, 'b) pf"
    assume p: "row_is run k t p"
    show "row_is run k t (snd (in_router j m p))"
    proof (cases "map_of (pf_routers p) j")
      case (Some r)
      have "of_router (row_still run j k t) (?w r p)"
        using p Some by (simp add: row_is_def served_def of_router_def row_still_def pf_db_def)
      note v = keepsD [OF m this]
      then have "of_router (its run j) (snd (m (?w r p)))" by (simp add: of_router_def row_still_def its_def)
      then show ?thesis using q [OF _ Some] v p by (simp add: row_is_def f [OF Some] of_router_def row_still_def)
    qed (simp add: n p)
  qed
qed

section \<open>The steps of the recovery\<close>

definition rcv_pf :: "(('x, 's) pf \<Rightarrow> bool) \<Rightarrow> ('x, 's) rcv \<Rightarrow> bool" where
  "rcv_pf Q c \<longleftrightarrow> Q (rv_pf c)"

lemma rcv_cpf: "keeps Q m \<Longrightarrow> keeps (rcv_pf Q) (cpf m)"
  by (auto simp: keeps_def rcv_pf_def cpf_def focus_def split: prod.split)

lemma rcv_report: "keeps (rcv_pf Q) (crep f)" "keeps (rcv_pf Q) (ccur j)" "keeps (rcv_pf Q) (cpf (get g))"
  by (auto simp: keeps_def rcv_pf_def crep_def ccur_def cpf_def focus_def eff_defs split: prod.split)

lemma of_rows_report:
  assumes "of_rows Q"
  shows "keeps (rcv_pf Q) (calert lv kind iid d)" "keeps (rcv_pf Q) write_report"
  unfolding calert_def write_report_def by (intro keeps_intros rcv_cpf rcv_report of_rows_writes [OF assms])+

lemma of_rows_failed: "of_rows Q \<Longrightarrow> keeps (rcv_pf Q) (recover_failed e)"
  unfolding recover_failed_def Let_def by (intro keeps_intros rcv_report of_rows_report)

lemma of_rows_rest:
  assumes "of_rows Q"
  shows "keeps (rcv_pf Q) (recover_unknown X sn ks pos)" "keeps (rcv_pf Q) (recover_stranger X run oid)"
  unfolding recover_unknown_def recover_stranger_def
  by (intro keeps_intros rcv_cpf rcv_report of_rows_writes [OF assms] of_rows_report [OF assms])+

text \<open>
  One router's part of the recovery keeps \<open>Q\<close> when its own steps do: \<open>R\<close> are the updates of the router it may make,
  besides the row's load and the write at the end.
\<close>

lemma recover_router_body:
  assumes "of_rows Q" "\<And>f. R f \<Longrightarrow> keeps Q (in_router j (rupd f))"
    and "\<And>st. R (rt_stop_update (\<lambda>_. st))" "\<And>a b c. R (\<lambda>r. r\<lparr>rt_size := a, rt_entry := b, rt_funding := c\<rparr>)"
    and "R (\<lambda>r. r\<lparr>rt_size := 0, rt_entry := None, rt_stop := None\<rparr>)"
    and "\<And>s. \<not> frozen_row row \<Longrightarrow> R (rt_state_update (\<lambda>_. s))"
  shows "keeps (rcv_pf Q) (recover_open X sn j row pos)" "keeps (rcv_pf Q) (recover_flat j row)"
  unfolding recover_open_def recover_flat_def recover_stop_def set_router_def
  by (intro keeps_intros rcv_cpf rcv_report of_rows_writes [OF assms(1)] of_rows_report [OF assms(1)] assms(2) assms(3-); assumption?)+

text \<open>Another router, and the load of the router's own row.\<close>

lemma load_local_names: "keeps (of_router (its run j)) (load_local row)" "keeps (of_router (row_still run j k t)) (load_local row)"
proof -
  have u: "keeps (of_router P) (rupd f)"
    if "P = its run j \<or> P = row_still run j k t" "\<And>r. rt_run (f r) = rt_run r \<and> rt_iid (f r) = rt_iid r" for P f
    using that by (intro keeps_rupd) (auto simp: of_router_def its_def row_still_def)
  show "keeps (of_router (its run j)) (load_local row)" "keeps (of_router (row_still run j k t)) (load_local row)"
    unfolding load_local_def Let_def by (intro keeps_intros of_router_reads u; simp)+
qed

lemma rupd_names: "(\<And>r. rt_run (f r) = rt_run r \<and> rt_iid (f r) = rt_iid r) \<Longrightarrow>
    keeps (of_router (its run j)) (rupd f) \<and> keeps (of_router (other run j k b)) (rupd f) \<and>
    keeps (of_router (row_still run j k t)) (rupd f)"
  by (intro conjI keeps_rupd) (simp_all add: of_router_def its_def other_def row_still_def)

lemma recover_router_others:
  fixes Q :: "('x, 's) pf \<Rightarrow> bool"
  assumes Q: "of_rows Q" and m: "\<And>m :: ('x, 's, unit) rop. keeps (of_router (its run j)) m \<Longrightarrow>
      (\<And>b. keeps (of_router (other run j k b)) m) \<Longrightarrow> keeps Q (in_router j m)"
    and g: "\<And>f :: 's router \<Rightarrow> rstate. keeps Q (in_router j (rget f))"
  shows "keeps (rcv_pf Q) (recover_router X sn locals j)"
proof -
  let ?R = "\<lambda>f. \<forall>r. rt_run (f r) = rt_run r \<and> rt_iid (f r) = rt_iid r"
  have names: "keeps (of_router (its run j)) (rupd f)" "keeps (of_router (other run j k b)) (rupd f)" if "?R f" for f b
    using rupd_names [of f] that by blast+
  have u: "keeps Q (in_router j (rupd f))" if "?R f" for f
    by (intro m names that)
  note body = recover_router_body [where R = ?R and Q = Q and j = j, OF Q u]
  have l: "keeps (of_router (other run j k b)) (load_local row)" for b row
    unfolding load_local_def Let_def by (intro keeps_intros of_router_reads names) simp_all
  show ?thesis
    unfolding recover_router_def Let_def
    by (intro keeps_intros rcv_cpf rcv_report m g body load_local_names l its_names.persist_keeps other_row.persist_keeps) simp_all
qed

lemma in_router_read: "keeps (served run) (in_router j (rget f))" "keeps (on_file run k b) (in_router j (rget f))"
    "keeps (row_is run k t) (in_router j (rget f))"
  by (intro in_router_served in_router_on_file in_router_row_is keeps_rget)+

text \<open>What every router's recovery keeps, and what it keeps of another instrument.\<close>

lemma recover_router_served: "keeps (rcv_pf (served run)) (recover_router X sn locals j)"
  by (rule recover_router_others [OF of_rows_facts(1) in_router_served in_router_read(1)])

lemma recover_router_other:
  assumes "j \<noteq> k"
  shows "keeps (rcv_pf (on_file run k b)) (recover_router X sn locals j)"
    and "keeps (rcv_pf (row_is run k t)) (recover_router X sn locals j)"
proof -
  show "keeps (rcv_pf (on_file run k b)) (recover_router X sn locals j)"
    by (rule recover_router_others [OF of_rows_facts(2) _ in_router_read(2)], rule in_router_on_file) (use assms in blast)+
  show "keeps (rcv_pf (row_is run k t)) (recover_router X sn locals j)"
    by (rule recover_router_others [OF of_rows_facts(3) _ in_router_read(3)], rule in_router_row_is)
      (simp add: row_still_other [OF assms])
qed

text \<open>From \<open>P\<close> to \<open>Q\<close>, when the step returns.\<close>

definition leads :: "('w \<Rightarrow> bool) \<Rightarrow> ('w \<Rightarrow> bool) \<Rightarrow> ('w, 'a) eff \<Rightarrow> bool" where
  "leads P Q m \<longleftrightarrow> (\<forall>w. P w \<longrightarrow> wp m (\<lambda>_. Q) (\<lambda>_ _. True) w)"

lemma leadsD: "leads P Q m \<Longrightarrow> P w \<Longrightarrow> m w = (Inr a, w') \<Longrightarrow> Q w'"
  by (auto simp: leads_def wp_iff)

lemma leads_keeps: "keeps P m \<Longrightarrow> (\<And>w. P w \<Longrightarrow> Q w) \<Longrightarrow> leads P Q m"
  by (auto simp: leads_def keeps_wp elim!: wp_mono)

lemma leads_bind: "leads P Q m \<Longrightarrow> (\<And>a. leads Q R (f a)) \<Longrightarrow> leads P R (bind m f)"
  by (auto simp: leads_def wp_bind intro: wp_mono)

lemma leads_andthen: "leads P Q m \<Longrightarrow> leads Q R n \<Longrightarrow> leads P R (andthen m n)"
  unfolding andthen_def by (rule leads_bind)

lemma leads_after: "keeps P m \<Longrightarrow> leads P Q n \<Longrightarrow> leads P Q (andthen m n)"
  by (rule leads_andthen [OF leads_keeps])

lemma leads_before: "leads P Q m \<Longrightarrow> keeps Q n \<Longrightarrow> leads P Q (andthen m n)"
  by (rule leads_andthen [OF _ leads_keeps])

lemma leads_forM:
  assumes "x \<in> set xs" "leads P Q (f x)" "\<And>y. keeps P (f y)" "\<And>y. y \<noteq> x \<Longrightarrow> keeps Q (f y)" "\<And>w. Q w \<Longrightarrow> P w"
  shows "leads P Q (forM xs f)"
  using assms(1)
proof (induction xs)
  case (Cons y ys)
  have q: "leads Q Q (f y)" for y
    using assms(2,5) leads_keeps [OF assms(4)] by (cases "y = x") (auto simp: leads_def)
  have qs: "leads Q Q (forM zs f)" for zs
    by (induction zs) (auto intro: leads_andthen q simp: leads_keeps keeps_ret)
  show ?case
  proof (cases "y = x")
    case True
    then show ?thesis using leads_andthen [OF assms(2) qs] by simp
  next
    case False
    then show ?thesis using Cons leads_andthen [OF leads_keeps [OF assms(3)]] by simp
  qed
qed simp

text \<open>After its own recovery a router's row shows its state.\<close>

lemma persist_files: "leads (rcv_pf (served run)) (rcv_pf (on_file run k b)) (cpf (in_router k persist))"
proof -
  have "on_file run k b q" if p: "served run p" "in_router k persist p = (Inr a, q)" for p q :: "('x, 's) pf" and a
  proof -
    obtain r where r: "map_of (pf_routers p) k = Some r" using p(2) by (cases "map_of (pf_routers p) k") (auto simp: in_router_def)
    then have n: "rt_run r = run" "rt_iid r = k" using p(1) by (simp_all add: served_def)
    have "served run q" using keepsD [OF in_router_served [OF its_names.persist_keeps] p(1)] p(2) by (metis snd_conv)
    moreover have "filed (pf_db q) run k = Some (rt_state r)" "map_of (pf_routers q) k = Some r"
      using p(2) r n filed_upsert(1) [of "row_of r now" d for now d]
      by (auto simp: in_router_def persist_def eff_defs pf_db_def row_of_def update_conv' split: prod.splits)
    ultimately show ?thesis by (simp add: on_file_def)
  qed
  then show ?thesis by (auto simp: leads_def wp_iff rcv_pf_def cpf_def focus_def split: prod.splits)
qed

lemma recover_router_files:
  "leads (rcv_pf (served run)) (rcv_pf (on_file run k b)) (recover_router X sn locals k)"
proof -
  have u: "keeps (served run) (in_router k (rupd f))" if "\<forall>r. rt_run (f r) = rt_run r \<and> rt_iid (f r) = rt_iid r" for f
    using rupd_names [of f] that by (intro in_router_served) blast
  note body = recover_router_body [where Q = "served run" and j = k and
      R = "\<lambda>f. \<forall>r. rt_run (f r) = rt_run r \<and> rt_iid (f r) = rt_iid r", OF of_rows_facts(1) u]
  show ?thesis
    unfolding recover_router_def Let_def
  proof (rule leads_after [OF _ leads_after [OF _ leads_after [OF _ leads_before [OF persist_files]]]])
    show "keeps (rcv_pf (served run)) (case map_of locals k of None \<Rightarrow> ret () | Some lr \<Rightarrow> cpf (in_router k (load_local lr)))"
      by (intro keeps_intros rcv_cpf in_router_served load_local_names)
    show "keeps (rcv_pf (served run)) (case position_of sn k of None \<Rightarrow> recover_flat k (map_of locals k)
        | Some pos \<Rightarrow> if pv_size pos \<noteq> 0 then recover_open X sn k (map_of locals k) pos
            else recover_flat k (map_of locals k))"
      by (intro keeps_intros body) simp_all
  qed (intro keeps_intros rcv_cpf rcv_report in_router_read)+
qed

text \<open>A frozen row is taken over, and every later write of it says the same.\<close>

lemma on_file_frozen:
  "on_file run k (Some t) p \<and> (\<forall>r. map_of (pf_routers p) k = Some r \<longrightarrow> rt_state r = t) \<longleftrightarrow>
   row_is run k t p \<and> (\<forall>r. map_of (pf_routers p) k = Some r \<longrightarrow> rt_state r = t)"
  by (auto simp: on_file_def row_is_def split: option.split)

definition taken_over :: "string \<Rightarrow> int \<Rightarrow> rstate \<Rightarrow> ('x, 's) rcv \<Rightarrow> bool" where
  "taken_over run k t c \<longleftrightarrow> rcv_pf (on_file run k (Some t)) c \<and> rshows k (\<lambda>r. rt_state r = t) c"

lemma taken_over_row: "taken_over run k t c \<Longrightarrow> rcv_pf (row_is run k t) c"
  using on_file_frozen by (auto simp: taken_over_def rcv_pf_def rshows_def)

lemma taken_over_keeps:
  "keeps (rcv_pf (on_file run k (Some t))) m \<Longrightarrow> keeps (rshows k (\<lambda>r. rt_state r = t)) m \<Longrightarrow> keeps (taken_over run k t) m"
  by (simp add: keeps_def taken_over_def)

text \<open>A step that leads on from \<open>P\<close> to the stronger \<open>Q\<close>, then one that keeps \<open>Q\<close>.\<close>

lemma keeps_over:
  assumes "keeps P m" "leads P Q m" "keeps Q n" "\<And>w. Q w \<Longrightarrow> P w"
  shows "keeps P (andthen m n)"
  unfolding keeps_wp wp_andthen
proof (intro allI impI)
  fix w assume "P w"
  then have "wp m (\<lambda>_ w. P w \<and> Q w) (\<lambda>_ w. P w \<and> True) w"
    using assms(1,2) by (intro wp_conj) (simp_all add: keeps_wp leads_def)
  then show "wp m (\<lambda>_. wp n (\<lambda>_. P) (\<lambda>_. P)) (\<lambda>_. P) w"
    by (rule wp_mono) (use assms(3,4) in \<open>auto simp: keeps_wp elim!: wp_mono\<close>)
qed

lemma load_takes_over:
  assumes t: "pr_state row = t"
  shows "leads (rcv_pf (row_is run k t)) (taken_over run k t) (cpf (in_router k (load_local row)) :: ('x, 's, unit) cop)"
proof -
  let ?m = "cpf (in_router k (load_local row)) :: ('x, 's, unit) cop"
  have a: "keeps (rcv_pf (row_is run k t)) ?m" by (intro rcv_cpf in_router_row_is load_local_names)
  have u: "nends (rfact (\<lambda>r. rt_state r = t)) (rupd (\<lambda>r. r\<lparr>rt_state := pr_state row, rt_size := pr_size row,
      rt_entry := pr_entry row, rt_stop := pr_stop row, rt_funding := pr_funding row\<rparr>))"
    by (auto simp: nends_def wp_iff rfact_def eff_defs t)
  have "nends (rfact (\<lambda>r. rt_state r = t)) (load_local row)"
    unfolding load_local_def Let_def
    by (rule nends_andthen_keeps [OF u]) (intro keeps_nkeeps keeps_intros rfact_rupd, simp_all)
  then have b: "nends (rshows k (\<lambda>r. rt_state r = t)) ?m" by (rule rshows_router_ends)
  show ?thesis
    unfolding leads_def
  proof (intro allI impI)
    fix c :: "('x, 's) rcv"
    assume "rcv_pf (row_is run k t) c"
    from keeps_wpD [OF a this] have "wp ?m (\<lambda>_. rcv_pf (row_is run k t)) (\<lambda>_ _. True) c" by (rule wp_mono) simp_all
    moreover have "wp ?m (\<lambda>_. rshows k (\<lambda>r. rt_state r = t)) (\<lambda>_ _. True) c" using b by (simp add: nends_def)
    ultimately have "wp ?m (\<lambda>_ c. rcv_pf (row_is run k t) c \<and> rshows k (\<lambda>r. rt_state r = t) c) (\<lambda>_ _. True \<and> True) c"
      by (rule wp_conj)
    then show "wp ?m (\<lambda>_. taken_over run k t) (\<lambda>_ _. True) c"
      by (rule wp_mono) (use on_file_frozen in \<open>auto simp: taken_over_def rcv_pf_def rshows_def\<close>)
  qed
qed

lemma recover_router_frozen:
  assumes "map_of locals k = Some row" "pr_state row = t" "frozen t"
  shows "keeps (rcv_pf (row_is run k t)) (recover_router X sn locals k)"
proof -
  have f: "frozen_row (Some row)" using assms by (simp add: frozen_row_def)
  let ?R = "\<lambda>f. \<forall>r. named (f r) = named r"
  have u: "keeps (on_file run k (Some t)) (in_router k (rupd f))" if "?R f" for f
    using that by (intro frame_on_file of_router_rupd) simp
  note body = recover_router_body [where Q = "on_file run k (Some t)" and j = k and R = ?R, OF of_rows_facts(2) u]
  have shows_open: "keeps (rshows k (\<lambda>r. rt_state r = t)) (recover_open X sn k (Some row) pos)" for pos
    unfolding recover_open_def if_P [OF f] by (intro keeps_intros rshows_set recover_stop_rshows) simp_all
  have shows_flat: "keeps (rshows k (\<lambda>r. rt_state r = t)) (recover_flat k (Some row))"
    unfolding recover_flat_def if_P [OF f] by (intro keeps_intros rshows_set) simp
  have rest: "keeps (taken_over run k t) (andthen
        (case position_of sn k of None \<Rightarrow> recover_flat k (Some row)
         | Some pos \<Rightarrow> if pv_size pos \<noteq> 0 then recover_open X sn k (Some row) pos else recover_flat k (Some row))
        (andthen (cpf (in_router k persist)) (bind (cpf (in_router k (rget rt_state))) (\<lambda>st.
          crep (\<lambda>r. r\<lparr>rp_states := AList.update k (state_value st) (rp_states r)\<rparr>)))))"
    by (intro taken_over_keeps keeps_intros shows_open shows_flat rcv_cpf rcv_report in_router_read
        frame_on_file router_frame.persist_keeps body) (simp_all add: f named_def)
  show ?thesis
    unfolding recover_router_def Let_def assms(1) option.case
    by (rule keeps_andthen [OF rcv_report(2) keeps_over [OF _ load_takes_over [OF assms(2)] rest taken_over_row]])
      (intro rcv_cpf in_router_row_is load_local_names)
qed

section \<open>The recovery as a whole\<close>

lemma keeps_cpf_get: "(\<And>p. Q p \<Longrightarrow> keeps (rcv_pf Q) (f (g p))) \<Longrightarrow> keeps (rcv_pf Q) (bind (cpf (get g)) f)"
  by (auto simp: keeps_def bind_def cpf_def focus_def get_def rcv_pf_def)

lemma leads_cpf_get:
  "(\<And>p. Q p \<Longrightarrow> leads (rcv_pf Q) R (f (g p))) \<Longrightarrow> leads (rcv_pf Q) R (bind (cpf (get g)) f)"
  by (auto simp: leads_def wp_def bind_def cpf_def focus_def get_def rcv_pf_def)

text \<open>Adopting a resting order moves a router that was pending; its row follows.\<close>

lemma recover_order_keeps:
  assumes Q: "of_rows Q"
    and m: "\<And>cid. keeps Q (on_known (or_instrument ord) (adopt_pending cid (pr_state (the (map_of locals (or_instrument ord))))))
      \<or> \<not> pending_state (pr_state (the (map_of locals (or_instrument ord))))"
  shows "keeps (rcv_pf Q) (recover_order sn locals ord)"
  unfolding recover_order_def Let_def
  by (intro keeps_intros rcv_cpf rcv_report of_rows_writes [OF Q]) (use m in auto)

lemma recover_order_files: "keeps (rcv_pf (on_file run k b)) (recover_order sn locals ord)"
  by (intro recover_order_keeps of_rows_facts disjI1 rows_on_file.known router_frame.pending_adopted)

lemma recover_order_row:
  assumes "\<And>row. map_of locals k = Some row \<Longrightarrow> frozen (pr_state row)" "map_of locals k \<noteq> None"
  shows "keeps (rcv_pf (row_is run k t)) (recover_order sn locals ord)"
proof (rule recover_order_keeps [OF of_rows_facts(3)])
  fix cid
  show "keeps (row_is run k t) (on_known (or_instrument ord)
      (adopt_pending cid (pr_state (the (map_of locals (or_instrument ord)))))) \<or>
    \<not> pending_state (pr_state (the (map_of locals (or_instrument ord))))"
  proof (cases "or_instrument ord = k")
    case True
    then show ?thesis using assms by (auto simp: frozen_def pending_state_def)
  next
    case False
    then show ?thesis
      unfolding on_known_def
      by (intro disjI1 keeps_intros in_router_row_is) (simp add: row_still_other other_row.pending_adopted)
  qed
qed

lemma recover_all_row:
  assumes "frozen t"
  shows "keeps (rcv_pf (row_is run k t)) (recover_all X sn)"
  unfolding recover_all_def
proof (rule keeps_cpf_get, goal_cases)
  case (1 p)
  let ?l = "get_positions_local (io_db (pf_io (id p))) (pf_run (id p))"
  obtain row where row: "map_of ?l k = Some row" "pr_state row = t"
    using 1 filed_locals [of "pf_db p" run k] by (auto simp: row_is_def served_def pf_db_def)
  have r: "keeps (rcv_pf (row_is run k t)) (recover_router X sn ?l j)" for j
    using recover_router_frozen [OF row assms] recover_router_other(2) by (cases "j = k") blast+
  have o: "keeps (rcv_pf (row_is run k t)) (recover_order sn ?l ord)" for ord
    by (rule recover_order_row) (use row assms in auto)
  show ?case
    unfolding Let_def by (intro keeps_intros r o rcv_report of_rows_rest of_rows_facts)
qed

lemma recover_run_row: "frozen t \<Longrightarrow> keeps (rcv_pf (row_is run k t)) (recover_run X)"
  unfolding recover_run_def
  by (intro keeps_intros rcv_cpf of_rows_writes of_rows_report of_rows_failed of_rows_facts recover_all_row)

lemma recover_all_files:
  fixes c :: "('x, 's) rcv"
  assumes "k \<in> set (map fst (pf_routers (rv_pf c)))" "served run (rv_pf c)"
  shows "wp (recover_all X sn) (\<lambda>_. rcv_pf (on_file run k b)) (\<lambda>_ _. True) c"
proof -
  let ?l = "get_positions_local (io_db (pf_io (rv_pf c))) (pf_run (rv_pf c))"
  have "leads (rcv_pf (served run)) (rcv_pf (on_file run k b)) (forM (map fst (pf_routers (rv_pf c))) (recover_router X sn ?l))"
    by (rule leads_forM [where f = "recover_router X sn ?l", OF assms(1) recover_router_files recover_router_served])
      (auto intro: recover_router_other simp: rcv_pf_def on_file_def)
  from leads_before [OF this] have "leads (rcv_pf (served run)) (rcv_pf (on_file run k b))
      (andthen (forM (map fst (pf_routers (rv_pf c))) (recover_router X sn ?l)) n)"
    if "keeps (rcv_pf (on_file run k b)) n" for n :: "('x, 's, unit) cop" using that by blast
  note l = this [unfolded leads_def, rule_format, of _ c]
  show ?thesis
    unfolding recover_all_def Let_def wp_bind [of "cpf (get id)"] wp_cpf_get id_apply
    by (rule l) (intro keeps_intros recover_order_files rcv_report of_rows_rest of_rows_facts, simp add: rcv_pf_def assms)
qed

text \<open>What a recovery that returns leaves, from what its steps leave.\<close>

lemma recover_leaves:
  fixes p :: "('x, 's) pf"
  assumes all: "\<And>sn c. pf_run (rv_pf c) = pf_run p \<Longrightarrow> pf_routers (rv_pf c) = pf_routers p \<Longrightarrow> pf_db (rv_pf c) = pf_db p \<Longrightarrow>
      wp (recover_all X sn) (\<lambda>_. G) (\<lambda>_ _. True) c"
    and tail: "keeps G write_report" "\<And>d. keeps G (calert INFO ''recovery'' None d)"
    and r: "recover X p = (Inr rep, q)"
  shows "\<exists>c. rv_pf c = q \<and> G c"
proof -
  let ?c = "\<lparr>rv_pf = p, rv_rep = empty_report, rv_cur = None\<rparr>"
  have snap: "wp (cpf (pexec m)) (\<lambda>_ c. pf_run (rv_pf c) = pf_run p \<and> pf_routers (rv_pf c) = pf_routers p \<and>
      pf_db (rv_pf c) = pf_db p) (\<lambda>_ _. True) ?c" for m
    by (simp add: wp_def cpf_def pexec_def pio_def io_exec_def focus_def pf_db_def split: prod.split sum.split)
  have "nends (\<lambda>_. False) (recover_failed e :: ('x, 's, recovery_report) cop)" for e
    by (rule recover_failed_ends)
  then have f: "wp (recover_failed e) (\<lambda>_ _. False) (\<lambda>_ _. True) w" for e and w :: "('x, 's) rcv"
    by (simp add: nends_def)
  have t: "wp (andthen write_report (bind (get rv_rep) (\<lambda>rep.
      andthen (calert INFO ''recovery'' None (report_detail rep)) (ret rep)))) (\<lambda>_. G) (\<lambda>_ _. True) c" if "G c" for c
    by (rule wp_mono [OF keeps_wpD [where P = G]]) (intro keeps_intros tail that | assumption | simp)+
  have rest: "wp (recover_rest X sn) (\<lambda>_. G) (\<lambda>_ _. True) c"
    if "wp (recover_all X sn) (\<lambda>_. G) (\<lambda>_ _. True) c" for sn c
    unfolding recover_rest_def wp_bind wp_attempt
    by (rule wp_mono [OF that]) (use t in \<open>auto simp: wp_ret intro: wp_mono [OF f]\<close>)
  have "wp (recover_run X) (\<lambda>_. G) (\<lambda>_ _. True) ?c"
    unfolding recover_run_eq wp_bind wp_attempt
    by (rule wp_mono [OF snap]) (auto simp: wp_ret wp_raise intro: rest all)
  then show ?thesis using r by (auto simp: recover_def wp_def split: prod.splits)
qed

lemma recover_files:
  assumes "served run p" "k \<in> fst ` set (pf_routers p)" "recover X p = (Inr rep, q)"
  shows "on_file run k b q"
proof -
  have "\<exists>c. rv_pf c = q \<and> rcv_pf (on_file run k b) c"
  proof (rule recover_leaves [OF _ _ _ assms(3)])
    fix sn and c :: "('a, 'b) rcv"
    assume c: "pf_run (rv_pf c) = pf_run p" "pf_routers (rv_pf c) = pf_routers p" "pf_db (rv_pf c) = pf_db p"
    then have "served run (rv_pf c)" using assms(1) by (simp add: served_def)
    then show "wp (recover_all X sn) (\<lambda>_. rcv_pf (on_file run k b)) (\<lambda>_ _. True) c"
      using assms(2) c(2) by (intro recover_all_files) simp_all
  qed (intro of_rows_report of_rows_facts)+
  then show ?thesis by (auto simp: rcv_pf_def)
qed

lemma unserved_router: "keeps (unserved k) (in_router j m)"
  by (auto simp: keeps_def unserved_def in_router_def update_conv' split: option.split prod.split)

lemma recover_unserved: "unserved k p \<Longrightarrow> unserved k (snd (recover X p))"
proof -
  assume u: "unserved k p"
  note Q = of_rows_facts(4) [of k]
  have r: "keeps (rcv_pf (unserved k)) (recover_router X sn l j)" for sn l j
    by (rule recover_router_others [OF Q]) (rule unserved_router)+
  have o: "keeps (rcv_pf (unserved k)) (recover_order sn l ord)" for sn l ord
    by (intro recover_order_keeps [OF Q] disjI1) (auto simp: on_known_def intro!: keeps_intros unserved_router)
  have a: "keeps (rcv_pf (unserved k)) (recover_all X sn)" for sn
    unfolding recover_all_def Let_def by (intro keeps_intros r o rcv_report of_rows_rest [OF Q])
  have "keeps (rcv_pf (unserved k)) (recover_run X)"
    unfolding recover_run_def
    by (intro keeps_intros rcv_cpf of_rows_writes [OF Q] of_rows_report [OF Q] of_rows_failed [OF Q] a)
  from keepsD [OF this, of "\<lparr>rv_pf = p, rv_rep = empty_report, rv_cur = None\<rparr>"] u show ?thesis
    by (cases "recover_run X \<lparr>rv_pf = p, rv_rep = empty_report, rv_cur = None\<rparr>") (simp add: recover_def rcv_pf_def)
qed

lemma recover_keeps_row:
  assumes "row_is run k t p" "frozen t"
  shows "row_is run k t (snd (recover X p))"
  using keepsD [OF recover_run_row [OF assms(2), of run k X], of "\<lparr>rv_pf = p, rv_rep = empty_report, rv_cur = None\<rparr>"] assms(1)
  by (cases "recover_run X \<lparr>rv_pf = p, rv_rep = empty_report, rv_cur = None\<rparr>") (simp add: recover_def rcv_pf_def)

lemma recover_takes_over:
  assumes "row_is run k t p" "frozen t" "k \<in> fst ` set (pf_routers p)" "recover X p = (Inr rep, q)"
  shows "\<exists>r. map_of (pf_routers q) k = Some r \<and> rt_state r = t"
  using recover_files [OF _ assms(3,4)] recover_keeps_row [OF assms(1,2), of X] assms(1,4)
  by (fastforce simp: row_is_def on_file_def split: option.splits)

section \<open>Processes that die and start again\<close>

text \<open>One process: the recovery, and when it returns a sequence of calls. The process may die after any call.\<close>

definition session :: "'x exec_ops \<Rightarrow> pf_call list \<Rightarrow> ('x, 's, unit) pop" where
  "session X cs = (\<lambda>p. case recover X p of (Inl e, q) \<Rightarrow> (Inl e, q) | (Inr _, q) \<Rightarrow> (Inr (), run_calls X cs q))"

text \<open>The next process of a run: new routers on the same database; executor, clock and alerts are any.\<close>

definition relaunched :: "('x, 's) pf \<Rightarrow> ('x, 's) pf \<Rightarrow> bool" where
  "relaunched q p \<longleftrightarrow> pf_run p = pf_run q \<and> pf_db p = pf_db q \<and> served (pf_run p) p"

inductive restarts :: "'x exec_ops \<Rightarrow> ('x, 's) pf \<Rightarrow> ('x, 's) pf \<Rightarrow> bool" for X where
  running: "restarts X p p"
| again: "restarts X p q \<Longrightarrow> relaunched q p' \<Longrightarrow> session X cs p' = (res, q') \<Longrightarrow> restarts X p q'"

lemma calls_keep_frozen_row:
  assumes "on_file run k b p" "frozen t" "map_of (pf_routers p) k = Some r" "rt_state r = t"
  shows "row_is run k t (run_calls X cs p)" "\<exists>r. map_of (pf_routers (run_calls X cs p)) k = Some r \<and> rt_state r = t"
proof -
  have "held k (\<lambda>s. s = t) q \<Longrightarrow> held k (\<lambda>s. s = t) (run_calls X cs q)" for q :: "('a, 'b) pf"
    by (induction cs arbitrary: q) (simp_all add: run_calls_def keepsD [OF run_pf_held [OF assms(2)]])
  then have "held k (\<lambda>s. s = t) (run_calls X cs p)" using assms(3,4) by (simp add: held_def)
  then show "\<exists>r. map_of (pf_routers (run_calls X cs p)) k = Some r \<and> rt_state r = t" by (simp add: held_def)
  then show "row_is run k t (run_calls X cs p)"
    using rows_on_file.run_calls_keeps [OF assms(1), of X cs] by (auto simp: on_file_def row_is_def)
qed

text \<open>A frozen row is the same after the process, however it ended, and its router is in that state.\<close>

lemma session_keeps_row:
  assumes "row_is run k t p" "frozen t" "session X cs p = (res, q)"
  shows "row_is run k t q"
proof -
  obtain a p1 where r: "recover X p = (a, p1)" by fastforce
  have row: "row_is run k t p1" using recover_keeps_row [OF assms(1,2), of X] r by simp
  show ?thesis
  proof (cases a)
    case (Inl e)
    then show ?thesis using assms(3) r row by (simp add: session_def)
  next
    case (Inr rep)
    then have q: "q = run_calls X cs p1" using assms(3) r by (simp add: session_def)
    show ?thesis
    proof (cases "map_of (pf_routers p1) k")
      case None
      then have "on_file run k (Some t) p1" "unserved k p1" using row by (simp_all add: row_is_def on_file_def unserved_def)
      then show ?thesis
        using rows_on_file.run_calls_keeps [of run k "Some t" p1 X cs] not_served.run_calls_keeps [of k p1 X cs]
        by (simp add: q row_is_def on_file_def unserved_def)
    next
      case (Some r')
      then have k: "k \<in> fst ` set (pf_routers p)"
        using recover_unserved [of k p X] r by (auto simp: unserved_def map_of_eq_None_iff)
      obtain r1 where "map_of (pf_routers p1) k = Some r1" "rt_state r1 = t"
        using recover_takes_over [OF assms(1,2) k] r Inr by blast
      moreover have "on_file run k None p1"
        using recover_files [OF _ k] assms(1) r Inr by (simp add: row_is_def)
      ultimately show ?thesis using calls_keep_frozen_row(1) [OF _ assms(2)] unfolding q by blast
    qed
  qed
qed

lemma relaunched_row: "relaunched q p \<Longrightarrow> row_is run k t q \<Longrightarrow> row_is run k t p"
  by (simp add: row_is_def relaunched_def served_def)

lemma restarts_keep_row:
  "restarts X p q \<Longrightarrow> row_is run k t p \<Longrightarrow> frozen t \<Longrightarrow> row_is run k t q"
proof (induction rule: restarts.induct)
  case (again p q p' cs res q')
  from session_keeps_row [OF relaunched_row [OF again.hyps(2) again.IH [OF again.prems]] again.prems(2) again.hyps(3)]
  show ?case .
qed simp

text \<open>
  C16. A halt survives restarts. Once a router is frozen in a process that recovered and then made any calls, it is in
  the same frozen state in every later process of the run that recovers and serves its instrument, after any number
  of processes that died between two calls or whose recovery raised, whatever their calls, executors and clocks were;
  and the row on disk says so. Only \<open>clear_halt\<close>, which is no call of the portfolio, lets it go.
\<close>

theorem halt_survives_restarts:
  assumes "served run p0" "k \<in> fst ` set (pf_routers p0)" "session X cs p0 = (Inr (), p)"
    and "map_of (pf_routers p) k = Some r" "frozen (rt_state r)"
    and "restarts X p q" "relaunched q p'" "k \<in> fst ` set (pf_routers p')" "session X cs' p' = (Inr (), q')"
  shows "filed (pf_db q') run k = Some (rt_state r) \<and>
    (\<exists>r'. map_of (pf_routers q') k = Some r' \<and> rt_state r' = rt_state r)"
proof -
  obtain rep p1 where p1: "recover X p0 = (Inr rep, p1)" "p = run_calls X cs p1"
    using assms(3) by (auto simp: session_def split: prod.splits sum.splits)
  from recover_files [OF assms(1,2) p1(1)] have "on_file run k None p"
    unfolding p1(2) by (rule rows_on_file.run_calls_keeps)
  then have "row_is run k (rt_state r) p" using assms(4) by (simp add: on_file_def row_is_def)
  from relaunched_row [OF assms(7) restarts_keep_row [OF assms(6) this assms(5)]]
  have row: "row_is run k (rt_state r) p'" .
  obtain rep' p2 where p2: "recover X p' = (Inr rep', p2)" "q' = run_calls X cs' p2"
    using assms(9) by (auto simp: session_def split: prod.splits sum.splits)
  obtain r2 where "map_of (pf_routers p2) k = Some r2" "rt_state r2 = rt_state r"
    using recover_takes_over [OF row assms(5,8) p2(1)] by blast
  with recover_files [OF _ assms(8) p2(1)] row show ?thesis
    using calls_keep_frozen_row [of run k None p2 "rt_state r" r2 X cs'] assms(5)
    by (simp add: p2(2) row_is_def)
qed

text \<open>A shutdown, the death of the process, and the next one on its database.\<close>

definition next_process :: "(sim, unit) pf \<Rightarrow> (sim, unit) pf" where
  "next_process q = (sample_pf FLAT)\<lparr>pf_io := (pf_io (sample_pf FLAT))\<lparr>io_db := pf_db q\<rparr>\<rparr>"

definition first_process :: "(sim, unit) pf" where
  "first_process = snd (session sim_ops [PBar [] Shutdown] (sample_pf FLAT))"

lemma halt_survives_restarts_witness:
  "\<exists>r. map_of (pf_routers (snd (session sim_ops [PReconcile] (next_process first_process)))) 6 = Some r \<and>
     rt_state r = HALTED"
proof -
  have names: "\<forall>j r. map_of (pf_routers (sample_pf FLAT)) j = Some r \<longrightarrow> rt_run r = ''r'' \<and> rt_iid r = j"
    by (auto simp: sample_pf_def sample_router_def router_init_def split: if_splits)
  have k: "6 \<in> fst ` set (pf_routers (sample_pf FLAT))" by (simp add: sample_pf_def)
  have run: "pf_run (sample_pf FLAT) = ''r''" by (simp add: sample_pf_def)
  have "case session sim_ops [PBar [] Shutdown] (sample_pf FLAT) of
      (Inr _, p) \<Rightarrow> map_option rt_state (map_of (pf_routers p) 6) = Some HALTED \<and> rows_keyed (pf_db p) \<and> pf_run p = ''r'' \<and>
        (case session sim_ops [PReconcile] (next_process p) of (Inr _, _) \<Rightarrow> True | (Inl _, _) \<Rightarrow> False)
    | (Inl _, p) \<Rightarrow> False"
    by code_simp
  then obtain r q2 where p: "session sim_ops [PBar [] Shutdown] (sample_pf FLAT) = (Inr (), first_process)"
      "map_of (pf_routers first_process) 6 = Some r" "rt_state r = HALTED" "rows_keyed (pf_db first_process)"
      "pf_run first_process = ''r''"
      and q2: "session sim_ops [PReconcile] (next_process first_process) = (Inr (), q2)"
    unfolding first_process_def by (auto split: prod.splits sum.splits)
  then have q: "session sim_ops [PReconcile] (next_process first_process) =
      (Inr (), snd (session sim_ops [PReconcile] (next_process first_process)))"
    by simp
  have "rows_keyed (pf_db (sample_pf FLAT))" by code_simp
  then have s: "served ''r'' (sample_pf FLAT)" using names run by (simp add: served_def)
  have n: "relaunched first_process (next_process first_process)"
    using names run p(4,5) by (simp add: relaunched_def served_def next_process_def pf_db_def)
  show ?thesis
    using halt_survives_restarts [OF s k p(1,2) _ restarts.running n _ q] k p(3) by (simp add: frozen_def next_process_def)
qed

text \<open>The routers a start builds carry the run and their own instrument, so what it recovers is such a process.\<close>

theorem started_portfolio_is_served:
  assumes "categories_of is ids = Inr cats" "routers_of run h ps cats ids = Inr rs" "rows_keyed d"
  shows "served run (portfolio_for run rs start (io_of d x clock))"
    and "fst ` set (pf_routers (portfolio_for run rs start (io_of d x clock))) = set ids"
  using every_instrument_has_a_router [OF assms(1,2)] assms(3)
  by (simp_all add: served_def portfolio_for_def pf_db_def io_of_def)

end
