(* ===== verification/Account_Tables.thy ===== *)
theory Account_Tables
  imports Restart Trader_Laws
begin

text \<open>
  The tables the trading side only writes elsewhere: no call of a router, of the portfolio or of the recovery touches
  the stored paper accounts or the stored account snapshots. Of the trader's loops the fast one alone writes a
  snapshot, under the run and the name of its executor.
\<close>

section \<open>The interface\<close>

definition of_db :: "(db \<Rightarrow> bool) \<Rightarrow> ('x, 's) renv \<Rightarrow> bool" where
  "of_db T w \<longleftrightarrow> T (io_db (re_io w))"

definition at_db :: "(string \<Rightarrow> db \<Rightarrow> bool) \<Rightarrow> ('x, 's) pf \<Rightarrow> bool" where
  "at_db T p \<longleftrightarrow> T (pf_run p) (io_db (pf_io p))"

lemma of_db_prims:
  "keeps (of_db T) (rget f)" "keeps (of_db T) (rupd u)" "keeps (of_db T) rclock" "keeps (of_db T) (rexec m)"
  "keeps (of_db T) (rread h)" "keeps (of_db T) (rstrat st)" "keeps (of_db T) (ralert lv k d)" "keeps (of_db T) (rio (io_emit a))"
  by (auto simp: keeps_def of_db_def eff_defs rexec_def rstrat_def ralert_def split: prod.split)

lemma in_router_db: "(\<And>run. keeps (of_db (T run)) m) \<Longrightarrow> keeps (at_db T) (in_router k m)"
  by (auto simp: keeps_def at_db_def of_db_def in_router_def split: option.split prod.split)
    (metis renv.select_convs(2) snd_conv)

lemma at_db_prims:
  "keeps (at_db T) (pexec m)" "keeps (at_db T) (pemit a)" "keeps (at_db T) (pio io_now)"
  by (auto simp: keeps_def at_db_def pexec_def pemit_def pio_def io_exec_def io_emit_def io_now_def upd_def focus_def split: prod.split)

lemma at_db_upd: "(\<And>p. pf_io (f p) = pf_io p) \<Longrightarrow> (\<And>p. pf_run (f p) = pf_run p) \<Longrightarrow> keeps (at_db T) (upd f)"
  by (simp add: keeps_def upd_def at_db_def)

locale table_frame =
  fixes T :: "string \<Rightarrow> db \<Rightarrow> bool"
  assumes order_row: "T r (upsert_order orow d) = T r d"
    and position_row: "T r (upsert_position_local prow d) = T r d"
    and decision_row: "T r (d\<lparr>db_decisions := ds\<rparr>) = T r d"
    and report_row: "T r (insert_recovery run now rep d) = T r d"
begin

lemma writes:
  "keeps (of_db (T r)) persist" "keeps (of_db (T r)) (rdb (upsert_order orow))" "keeps (of_db (T r)) (record_decision t v i c nt)"
  by (auto simp: keeps_def of_db_def eff_defs persist_def record_decision_def insert_decision_def order_row position_row
      decision_row split: prod.split)

lemma rows:
  "keeps (of_db (T r)) (set_state s)" "keeps (of_db (T r)) (update_order cid b f)" "keeps (of_db (T r)) (record_fill row ev)"
  "keeps (of_db (T r)) (halt reason)" "keeps (of_db (T r)) (skip t nt)" "keeps (of_db (T r)) flatten_hook" "keeps (of_db (T r)) (recover_hook sg)"
  "keeps (of_db (T r)) clear_halt" "keeps (of_db (T r)) (load_local lr)" "keeps (of_db (T r)) (adopt_pending cid st)"
  unfolding set_state_def update_order_def record_fill_def halt_def skip_def flatten_hook_def recover_hook_def clear_halt_def
    load_local_def adopt_pending_def
  by (auto intro!: keeps_intros of_db_prims writes split: prod.split)

lemmas db_intros = keeps_intros of_db_prims writes rows

lemma adopted: "keeps (of_db (T r)) (adopt X sn)" "keeps (of_db (T r)) (adopt_and_settle X sn)" "keeps (of_db (T r)) (replace_stop X)"
proof -
  show a: "keeps (of_db (T r)) (adopt X sn)" unfolding adopt_def by (intro db_intros)
  show "keeps (of_db (T r)) (adopt_and_settle X sn)" unfolding adopt_and_settle_def by (intro db_intros a)
  show "keeps (of_db (T r)) (replace_stop X)" unfolding replace_stop_def by (intro db_intros)
qed

lemma attempts: "keeps (of_db (T r)) (submit_attempts X rq sz ns)"
  by (induction ns) (auto intro!: db_intros)

lemma sends: "keeps (of_db (T r)) (send X i target verdicts)"
  unfolding send_def place_order_def attempt_send_def submit_with_recovery_def submit_failed_def submit_returned_def Let_def
  by (auto intro!: db_intros attempts adopted simp del: submit_attempts.simps split: sum.split option.split)

lemma exits: "keeps (of_db (T r)) (exit_position X mark reason target sz)" "keeps (of_db (T r)) (shutdown X mark sz)"
proof -
  show a: "keeps (of_db (T r)) (exit_position X mark reason target sz)" for mark reason target sz
    unfolding exit_position_def by (intro db_intros sends)
  show "keeps (of_db (T r)) (shutdown X mark sz)" unfolding shutdown_def Let_def by (intro db_intros a)
qed

lemma calls:
  "keeps (of_db (T r)) (check_pending X sn)" "keeps (of_db (T r)) (router_on_bar X h sn kill pending)"
  "keeps (of_db (T r)) (router_on_fast X mark sn)" "keeps (of_db (T r)) (handle_event X ev)"
  unfolding check_pending_def router_on_bar_def on_target_def enter_def router_on_fast_def margin_check_def handle_event_def
    fill_event_def after_fill_def flattened_by_fill_def late_fill_def order_update_event_def apply_fill_def Let_def
  by (auto intro!: db_intros adopted sends exits split: prod.split option.split event.split)

lemmas pf_intros = keeps_intros at_db_prims at_db_upd in_router_db calls exits rows writes of_db_prims

lemma known: "(\<And>r. keeps (of_db (T r)) m) \<Longrightarrow> keeps (at_db T) (on_known k m)"
  unfolding on_known_def by (intro keeps_intros in_router_db)

lemma bar: "keeps (at_db T) (pf_on_bar X hs kill)"
  unfolding pf_on_bar_def pf_shutdown_def check_funding_def check_funding_one_def bar_one_def each_router_def shutdown_one_def Let_def
  by (auto intro!: pf_intros known split: prod.split option.split)

lemma fast: "keeps (at_db T) (pf_on_fast X marks)"
  unfolding pf_on_fast_def pnl_check_def each_router_def Let_def
  by (auto intro!: pf_intros known split: prod.split option.split)

lemma reconciled: "keeps (at_db T) (reconcile_now X)"
  unfolding reconcile_now_def reconcile_one_def respond_def restore_stop_def refused_def Let_def
  by (auto intro!: pf_intros known split: option.split mismatch_kind.split)

lemma dispatched: "keeps (at_db T) (dispatch X ev)"
  unfolding dispatch_def each_router_def
  by (auto intro!: pf_intros known reconciled split: event.split)

lemma stores: "keeps (at_db T) (pio (io_store (upd (upsert_order orow))))" "keeps (at_db T) (pio (io_store (upd (insert_recovery run now rep))))"
  by (simp_all add: keeps_def at_db_def pio_def io_store_def upd_def focus_def order_row report_row)

lemmas rcv_intros = keeps_intros rcv_report rcv_cpf at_db_prims in_router_db known stores of_db_prims rows writes

lemma rcv_alert: "keeps (rcv_pf (at_db T)) (calert lv kind iid d)" "keeps (rcv_pf (at_db T)) (set_router k f)"
  unfolding calert_def set_router_def by (intro rcv_intros)+

lemma recovered: "keeps (at_db T) (recover X :: ('x, 's, recovery_report) pop)"
proof -
  have stop: "keeps (rcv_pf (at_db T)) (recover_stop X k pos)" for k pos
    unfolding recover_stop_def by (intro rcv_intros rcv_alert)
  have router: "keeps (rcv_pf (at_db T)) (recover_router X sn locals k)" for sn locals k
    unfolding recover_router_def recover_open_def recover_flat_def Let_def
    by (intro rcv_intros rcv_alert stop)
  have rest: "keeps (rcv_pf (at_db T)) (recover_unknown X sn ks pos)" "keeps (rcv_pf (at_db T)) (recover_order sn locals o')"
    "keeps (rcv_pf (at_db T)) (recover_stranger X run oid)" for sn ks pos locals o' run oid
    unfolding recover_unknown_def recover_order_def recover_stranger_def Let_def
    by (intro rcv_intros rcv_alert)+
  have all: "keeps (rcv_pf (at_db T)) (recover_all X sn)" for sn
    unfolding recover_all_def Let_def by (intro rcv_intros router rest)
  have report: "keeps (rcv_pf (at_db T)) write_report"
    unfolding write_report_def by (intro rcv_intros)
  have run: "keeps (rcv_pf (at_db T)) (recover_run X :: ('x, 's, recovery_report) cop)"
    unfolding recover_run_def recover_failed_def Let_def by (intro rcv_intros rcv_alert all report)
  have "snd (recover X p) = rv_pf (snd (recover_run X \<lparr>rv_pf = p, rv_rep = empty_report, rv_cur = None\<rparr>))"
    for p :: "('x, 's) pf" by (simp add: recover_def split: prod.split)
  then show ?thesis
    using keepsD [OF run, of "\<lparr>rv_pf = p, rv_rep = empty_report, rv_cur = None\<rparr>" for p] by (simp add: keeps_def rcv_pf_def)
qed

lemma booted: "keeps (at_db T) (boot X clear wanted now)"
proof -
  have "keeps (at_db T) recover_strategies"
    unfolding recover_strategies_def each_router_def recover_strategy_def by (intro pf_intros)
  then show ?thesis unfolding boot_def by (intro pf_intros recovered known)
qed

end

section \<open>The owner of a run and its stored account\<close>

text \<open>The stored paper account of the run, and a snapshot of it that is missing or the paper executor's.\<close>

definition paper_tables :: "string \<Rightarrow> sim_json option \<Rightarrow> string \<Rightarrow> db \<Rightarrow> bool" where
  "paper_tables run j r d \<longleftrightarrow> r = run \<and> load_sim_account d run = j \<and>
     (case load_account_snapshot d run of None \<Rightarrow> True | Some (_, _, name) \<Rightarrow> name = ''sim'')"

interpretation paper_rows: table_frame "paper_tables run j" for run j
  by unfold_locales
    (simp_all add: paper_tables_def load_sim_account_def load_account_snapshot_def upsert_order_def upsert_position_local_def
      insert_recovery_def)

text \<open>
  What the loops of a paper trader leave stored: the account of the run as it was, since its executor keeps the texts it
  persists beside the database, and no snapshot of the run but its own.
\<close>

definition paper_run :: "string \<Rightarrow> sim_json option \<Rightarrow> (sim, 's) pf \<Rightarrow> bool" where
  "paper_run run j p \<longleftrightarrow> at_db (paper_tables run j) p"

section \<open>The loops of a paper trader\<close>

lemma keeps_tpf: "keeps Q m \<Longrightarrow> keeps (\<lambda>s. Q (tr_pf s)) (tpf m)"
  by (auto simp: keeps_def tpf_def focus_def split: prod.split)

lemma keeps_world: "keeps Q m \<Longrightarrow> keeps (\<lambda>f. Q (fd_world f)) (fworld m)"
  by (auto simp: keeps_def fworld_def focus_def split: prod.split)

lemma keeps_trader_upd: "(\<And>s. tr_pf (f s) = tr_pf s) \<Longrightarrow> keeps (\<lambda>s. Q (tr_pf s)) (upd f)"
  by (rule keeps_upd) simp

text \<open>The write of the fast loop: the snapshot under the run of the portfolio and the executor's name.\<close>

definition store_snapshot :: "account_snapshot \<Rightarrow> string \<Rightarrow> dec \<Rightarrow> ('x, 's, unit) pop" where
  "store_snapshot sn name start = bind (get pf_run) (\<lambda>r. pio (io_store (upd (save_account_snapshot r sn start name))))"

lemma snapshot_stored: "keeps (at_db (paper_tables run j)) (store_snapshot sn ''sim'' start)"
  by (auto simp: store_snapshot_def keeps_def bind_def get_def pio_def io_store_def upd_def focus_def at_db_def paper_tables_def
      load_saved_snapshot)
    (simp add: save_account_snapshot_def load_sim_account_def)

lemma tpf_store:
  "bind (get id) (\<lambda>s. tpf (pio (io_store (upd (save_account_snapshot (pf_run (tr_pf s)) sn (tr_start s) name))))) =
   bind (get tr_start) (\<lambda>start. tpf (store_snapshot sn name start))"
  by (auto simp: store_snapshot_def bind_def get_def tpf_def pio_def io_store_def upd_def focus_def fun_eq_iff)

abbreviation tables_at :: "string \<Rightarrow> sim_json option \<Rightarrow> (sim, 's) trader \<Rightarrow> bool" where
  "tables_at run j s \<equiv> at_db (paper_tables run j) (tr_pf s)"

lemma fast_tables: "keeps (tables_at run j) (fast_iteration sim_ops)"
  unfolding fast_iteration_def tpf_store
  by (intro keeps_intros keeps_tpf at_db_prims paper_rows.dispatched paper_rows.fast)
    (simp add: sim_ops_def snapshot_stored)

lemma bar_tables: "keeps (tables_at run j) (bar_iteration sim_ops m)"
  unfolding bar_iteration_def
  by (auto intro!: keeps_intros keeps_tpf at_db_prims paper_rows.bar keeps_trader_upd split: list.split)

lemma accept_tables: "keeps (tables_at run j) (on_accept sim_ops t)"
  unfolding on_accept_def
  by (auto intro!: keeps_intros keeps_tpf at_db_prims keeps_trader_upd split: prod.split option.split)

lemma feed_tables: "keeps (\<lambda>f. tables_at run j (fd_world f)) (feed_tick (trader_hooks sim_ops) b t)"
  unfolding feed_tick_def accept_tick_def reject_tick_def fhealth_def
  by (auto intro!: keeps_intros keeps_world keeps_tpf accept_tables at_db_prims keeps_upd simp: trader_hooks_def split: option.split)

lemma run_tables: "keeps (\<lambda>f. tables_at run j (fd_world f)) (run_trader sim_ops b m turns)"
proof -
  have "keeps (\<lambda>f. tables_at run j (fd_world f)) (iterate sim_ops b m it)" for it
    by (cases it)
      (auto simp: iterate_def intro!: keeps_intros feed_tables keeps_world fast_tables bar_tables keeps_tpf
        paper_rows.reconciled paper_rows.dispatched)
  then show ?thesis unfolding run_trader_def by (intro keeps_intros)
qed

end
