(* ===== verification/Trader_Restart.thy ===== *)
theory Trader_Restart
  imports Trader_Start Account_Tables
begin

text \<open>
  The paper account across the iterations of the trader's loops, and what a restart reads of it: from a start of the
  whole program over any run of the loops to the start of the next process on the database that was left.
\<close>

section \<open>The paper account\<close>

text \<open>
  What was persisted is current, or nothing was and the books are still \<open>b\<close>; the order size of the cost model is not zero.
\<close>

definition sound_books :: "dec \<times> (int \<times> sim_pos) list \<times> (int \<times> dec) list \<times> dec \<Rightarrow> sim \<Rightarrow> bool" where
  "sound_books b x \<longleftrightarrow> saved_current b x \<and> sx_notional x \<noteq> 0"

lemma keeps_conj: "keeps P m \<Longrightarrow> keeps Q m \<Longrightarrow> keeps (\<lambda>x. P x \<and> Q x) m"
  by (simp add: keeps_def)

lemma keeps_notional:
  "keeps (\<lambda>x. sx_notional x \<noteq> 0) sim_save" "keeps (\<lambda>x. sx_notional x \<noteq> 0) sim_clock" "keeps (\<lambda>x. sx_notional x \<noteq> 0) next_mode"
  "keeps (\<lambda>x. sx_notional x \<noteq> 0) (apply_position iid d px)"
  unfolding apply_position_def
  by (auto intro!: keeps_intros keeps_upd split: prod.split)
    (auto simp: keeps_def sim_save_def upd_def sim_clock_def next_mode_def set_pos_def split: list.split)

lemma keeps_notional_fill: "keeps (\<lambda>x. sx_notional x \<noteq> 0) (sim_fill order now qty px)"
  unfolding sim_fill_def by (intro keeps_intros keeps_notional keeps_upd) simp_all

lemma keeps_notional_ops:
  "keeps (\<lambda>x. sx_notional x \<noteq> 0) (sim_submit rq)" "keeps (\<lambda>x. sx_notional x \<noteq> 0) sim_snapshot"
  "keeps (\<lambda>x. sx_notional x \<noteq> 0) (sim_place_stop iid p)" "keeps (\<lambda>x. sx_notional x \<noteq> 0) (sim_cancel_stop iid)"
  unfolding sim_submit_def sim_snapshot_def sim_place_stop_def sim_cancel_stop_def Let_def
  by (intro keeps_intros keeps_notional keeps_notional_fill keeps_upd; simp add: set_pos_def)+

text \<open>At a given price a fill cannot raise, so a stop that fires is always followed by the save.\<close>

lemma fill_cost_returns: "n \<noteq> 0 \<Longrightarrow> \<exists>c. fill_cost v n sp fee imp = Inr c"
proof -
  have "dmul 2 BPS \<noteq> 0" "BPS \<noteq> 0" by code_simp+
  then show "n \<noteq> 0 \<Longrightarrow> \<exists>c. fill_cost v n sp fee imp = Inr c"
    by (cases "v = 0") (auto simp: fill_cost_def Let_def rbind_def ddiv_eq_Inr split: sum.split)
qed

definition paying :: "sim \<Rightarrow> bool" where
  "paying x \<longleftrightarrow> sx_persist x \<and> sx_notional x \<noteq> 0"

lemma sim_fill_returns:
  assumes "paying x"
  shows "wp (sim_fill order now qty (Some px)) (\<lambda>_. paying) (\<lambda>_ _. False) x"
proof -
  obtain c where c: "fill_cost (dmul qty px) (sx_notional x) (sx_spread x) (sx_fee x) (sx_impact x) = Inr c"
    using assms fill_cost_returns [of "sx_notional x"] unfolding paying_def by blast
  have "wp (apply_position i d px) (\<lambda>_. paying) (\<lambda>_ _. False) (x\<lparr>sx_cash := y\<rparr>)" for i d y
    using position_after_returns [of "pos_or_new i (x\<lparr>sx_cash := y\<rparr>)" d px] assms
    by (auto simp: apply_position_def wp_simps set_pos_def paying_def)
  from wp_mono [OF this] show ?thesis by (simp add: sim_fill_def wp_simps c)
qed

lemma fire_stops_returns:
  "paying x \<Longrightarrow> wp (fire_stops stops) (\<lambda>fs y. paying y \<and> (fs = [] \<longrightarrow> y = x)) (\<lambda>_ _. False) x"
proof (induction stops arbitrary: x)
  case (Cons st stops)
  obtain iid trig where st: "st = (iid, trig)" by (cases st)
  have clock: "wp sim_clock (\<lambda>_. paying) (\<lambda>_ _. False) y" if "paying y" for y
    using that by (simp add: wp_def sim_clock_def paying_def)
  have rest: "wp (fire_stops stops) (\<lambda>_. paying) (\<lambda>_ _. False) y" if "paying y" for y
    by (rule wp_mono [OF Cons.IH [OF that]]) simp_all
  have fire: "wp (bind sim_clock (\<lambda>ts. bind sim_clock (\<lambda>now. bind (sim_fill (rq ts) now q (Some trig)) (\<lambda>fill.
      andthen (upd (\<lambda>x. x\<lparr>sx_stops := AList.delete iid (sx_stops x)\<rparr>))
        (bind (fire_stops stops) (\<lambda>fills. ret (fill # fills)))))))
      (\<lambda>fs y. paying y \<and> fs \<noteq> []) (\<lambda>_ _. False) y" if "paying y" for y rq q
    unfolding wp_bind wp_andthen wp_upd wp_ret
    by (rule wp_mono [OF clock [OF that]], rule wp_mono [OF clock], assumption, rule wp_mono [OF sim_fill_returns], assumption,
        rule wp_mono [OF rest]) (simp_all add: paying_def)
  show ?case
  proof (cases "map_of (sx_pos x) iid"; cases "map_of (sx_marks x) iid")
    fix p mark assume pm: "map_of (sx_pos x) iid = Some p" "map_of (sx_marks x) iid = Some mark"
    show ?thesis
    proof (cases "sp_size p \<noteq> 0 \<and> stop_hit (sp_size p) mark trig")
      case True
      have "paying (x\<lparr>sx_n := sx_n x + 1\<rparr>)" using Cons.prems by (simp add: paying_def)
      from wp_mono [OF fire [OF this]] True pm show ?thesis by (fastforce simp: st wp_simps)
    next
      case False
      then have "fire_stops (st # stops) x = fire_stops stops x" by (auto simp: st pm bind_def get_def)
      then show ?thesis using Cons.IH [OF Cons.prems] by (simp add: wp_def)
    qed
  qed (use Cons in \<open>simp_all add: st wp_simps\<close>)
qed (simp add: wp_simps)

lemma sound_books_paying: "sound_books b x \<Longrightarrow> paying x"
  by (simp add: sound_books_def saved_current_def paying_def)

lemma poll_sound: "keeps (sound_books b) check_triggers"
  unfolding keeps_wp
proof (intro allI impI)
  fix x assume x: "sound_books b x"
  show "wp check_triggers (\<lambda>_. sound_books b) (\<lambda>_. sound_books b) x"
    unfolding check_triggers_def wp_bind wp_get
    by (rule wp_mono [OF fire_stops_returns [OF sound_books_paying [OF x]]])
      (use x in \<open>auto simp: wp_simps sim_save_def sound_books_def saved_current_def to_json_def open_positions_def paying_def\<close>)
qed

lemma sound_upd:
  "(\<And>x. sx_persist (f x) = sx_persist x) \<Longrightarrow> (\<And>x. sx_notional (f x) = sx_notional x) \<Longrightarrow>
   keeps (sound_books b) (andthen (upd f) sim_save)"
  by (auto simp: keeps_def andthen_def bind_def upd_def sim_save_def sound_books_def saved_current_def to_json_def
      open_positions_def)

lemma sound_cong:
  "sx_persist y = sx_persist x \<Longrightarrow> sx_saved y = sx_saved x \<Longrightarrow> sx_cash y = sx_cash x \<Longrightarrow> sx_pos y = sx_pos x \<Longrightarrow>
   sx_stops y = sx_stops x \<Longrightarrow> sx_start_equity y = sx_start_equity x \<Longrightarrow> sx_notional y = sx_notional x \<Longrightarrow>
   sound_books b x \<Longrightarrow> sound_books b y"
  using saved_same [of y x] open_positions_pos [of y x] by (simp add: sound_books_def)

lemma market_data_sound: "keeps (sound_books b) (sim_on_tick t)" "keeps (sound_books b) (sim_on_bar br)" "keeps (sound_books b) sim_heartbeat"
proof -
  have mark: "keeps (sound_books b) (upd (\<lambda>x. x\<lparr>sx_marks := f x\<rparr>))" "keeps (sound_books b) (upd (\<lambda>x. x\<lparr>sx_heartbeats := g x\<rparr>))" for f g
    by (rule keeps_upd, erule sound_cong [rotated -1]; simp)+
  then show "keeps (sound_books b) (sim_on_tick t)" "keeps (sound_books b) sim_heartbeat"
    by (simp_all add: sim_on_tick_def update_mark_def sim_heartbeat_def)
  show "keeps (sound_books b) (sim_on_bar br)"
    unfolding sim_on_bar_def apply_funding_def Let_def by (intro keeps_intros sound_upd) (simp_all add: set_pos_def)
qed

interpretation paper_trader: trader_frame sim_ops "sound_books b" for b
  unfolding sound_books_def
  by unfold_locales
    (simp_all add: sim_ops_def keeps_conj saved_submit saved_snapshot saved_stops keeps_notional_ops sim_cancel_def keeps_ret
      market_data_sound [unfolded sound_books_def] poll_sound [unfolded sound_books_def])

section \<open>From one process to the next\<close>

text \<open>What \<open>build_sim\<close> gives, a new account or the stored one, starts with nothing persisted.\<close>

lemma built_sound:
  assumes "build_sim d run fee equity clock = Inr x"
  shows "sound_books (books x) x" "paper_tables run (load_sim_account d run) run d" "sx_saved x = None"
    "books x = (case load_sim_account d run of None \<Rightarrow> books (sim_init equity 0 0 0 0 clock True)
       | Some j \<Rightarrow> books (from_json j 0 0 0 0 clock True))"
proof -
  have "rl_notional_usd LIMITS \<noteq> 0" by (simp add: LIMITS_def)
  then show "sound_books (books x) x" "sx_saved x = None"
    using assms by (auto simp: build_sim_def sound_books_def saved_current_def sim_init_def from_json_def split: option.splits)
  show "books x = (case load_sim_account d run of None \<Rightarrow> books (sim_init equity 0 0 0 0 clock True)
       | Some j \<Rightarrow> books (from_json j 0 0 0 0 clock True))"
    using assms by (auto simp: build_sim_def books_def open_positions_def sim_init_def from_json_def split: option.splits)
  show "paper_tables run (load_sim_account d run) run d"
    using assms
    by (auto simp: build_sim_def paper_tables_def refuse_foreign_run_id_def run_owner_def exit_code_def
        split: option.splits if_splits prod.splits)
qed

text \<open>And the next process reads what is stored: the last text the executor persisted, or what was there before.\<close>

lemma rebuilt_books:
  fixes p :: "(sim, 's) pf"
  assumes "paper_run run j p" "sound_books b (io_ex (pf_io p))"
    and "b = (case j of None \<Rightarrow> books (sim_init equity 0 0 0 0 clock0 True) | Some t \<Rightarrow> books (from_json t 0 0 0 0 clock0 True))"
  shows "\<exists>y. build_sim (stored_db p) run fee equity clock = Inr y \<and> books y = books (io_ex (pf_io p))"
proof -
  let ?x = "io_ex (pf_io p)" and ?d = "stored_db p"
  have t: "pf_run p = run" "load_sim_account (io_db (pf_io p)) run = j"
      "case load_account_snapshot (io_db (pf_io p)) run of None \<Rightarrow> True | Some (_, _, name) \<Rightarrow> name = ''sim''"
    using assms(1) by (simp_all add: paper_run_def at_db_def paper_tables_def)
  have kept: "load_sim_account ?d run = (case sx_saved ?x of None \<Rightarrow> j | Some s \<Rightarrow> Some s)"
    using t by (simp add: stored_db_def load_sim_account_def save_sim_account_def update_conv' split: option.split)
  have "load_account_snapshot ?d run = load_account_snapshot (io_db (pf_io p)) run"
    by (simp add: stored_db_def load_account_snapshot_def save_sim_account_def split: option.split)
  then have "refuse_foreign_run_id ?d run ''sim'' = Inr ()"
    using t(3) by (auto simp: refuse_foreign_run_id_def run_owner_def split: option.splits)
  then obtain y where y: "build_sim ?d run fee equity clock = Inr y" by (auto simp: build_sim_def)
  have same: "books (from_json s f1 s1 i1 n1 c1 q1) = books (from_json s f2 s2 i2 n2 c2 q2)"
    "books (sim_init equity f1 s1 i1 n1 c1 q1) = books (sim_init equity f2 s2 i2 n2 c2 q2)"
    for s f1 s1 i1 n1 c1 q1 f2 s2 i2 n2 c2 q2
    by (simp_all add: books_def open_positions_def from_json_def sim_init_def)
  have cur: "saved_current b ?x" using assms(2) by (simp add: sound_books_def)
  have "books y = books ?x"
  proof (cases "sx_saved ?x")
    case None
    then have "books ?x = b" using cur by (simp add: saved_current_def)
    then show ?thesis
      using built_sound(4) [OF y] kept None assms(3) same by (cases j) simp_all
  next
    case (Some s)
    then show ?thesis
      using built_sound(4) [OF y] kept saved_current_restored [OF cur Some] by simp
  qed
  then show ?thesis using y by blast
qed

lemma started_loops:
  assumes "start_loops sim_ops a run fetched records ids now start (io_of d x clock) = Inr f"
    and "sound_books b x" "paper_tables run j run d"
  shows "paper_run run j (tr_pf (fd_world f))" "sound_books b (io_ex (pf_io (tr_pf (fd_world f))))"
proof -
  obtain rs wanted bl p where p: "boot sim_ops (ta_clear_halt a) wanted now (portfolio_for run rs start (io_of d x clock)) = (Inr bl, p)"
      "tr_pf (fd_world f) = p"
  proof -
    obtain rs wanted where "(case boot sim_ops (ta_clear_halt a) wanted now (portfolio_for run rs start (io_of d x clock)) of
        (Inl e, _) \<Rightarrow> Inl e
      | (Inr b, p) \<Rightarrow> Inr (feed_init \<lparr>tr_pf = p, tr_start = start, tr_builder = b, tr_marks = [], tr_queue = []\<rparr>)) = Inr f"
      using assms(1) by (auto simp: start_loops_def)
    then show thesis
      by (cases "boot sim_ops (ta_clear_halt a) wanted now (portfolio_for run rs start (io_of d x clock))")
        (auto simp: feed_init_def split: sum.splits intro: that)
  qed
  have "at_db (paper_tables run j) (portfolio_for run rs start (io_of d x clock))"
    "at_venue (sound_books b) (portfolio_for run rs start (io_of d x clock))"
    using assms(2,3) by (simp_all add: at_db_def at_venue_def portfolio_for_def io_of_def)
  from keepsD [OF paper_rows.booted this(1), of sim_ops "ta_clear_halt a" wanted now]
    keepsD [OF paper_trader.boot_account this(2), of "ta_clear_halt a" wanted now]
  show "paper_run run j (tr_pf (fd_world f))" "sound_books b (io_ex (pf_io (tr_pf (fd_world f))))"
    by (simp_all add: p paper_run_def at_db_def at_venue_def paper_tables_def)
qed

text \<open>
  C36. The paper account survives a crash of the trader: whatever a start of the paper trader comes up with, a stored
  account or a fresh one, and after any sequence of ticks, bars, heartbeats, reconciliations and events, wherever the
  run was broken off by an exception, a start of the executor with the same run id and equity on the database that was
  left is not refused and has the same cash, starting equity, stops and open positions as the account in memory had.
\<close>

theorem paper_account_survives_trader_crash:
  assumes "start_paper a run fetched records ids now clock d = Inr f"
    and "run_trader sim_ops bounds m turns f = (r, f')" "p = tr_pf (fd_world f')" "x = io_ex (pf_io p)"
    and "the_finite (py_decimal (ta_equity a)) = Inr equity"
  shows "\<exists>y. build_sim (stored_db p) run fee equity clock' = Inr y \<and> sx_cash y = sx_cash x
    \<and> sx_start_equity y = sx_start_equity x \<and> sx_stops y = sx_stops x \<and> open_positions y = open_positions x"
proof -
  obtain rate x0 where x0: "build_sim d run rate equity clock = Inr x0"
      "start_loops sim_ops a run fetched records ids now (sx_start_equity x0) (io_of d x0 clock) = Inr f"
    using assms(1,5) by (auto simp: start_paper_def)
  note s = started_loops [OF x0(2) built_sound(1,2) [OF x0(1)]]
  have "paper_run run (load_sim_account d run) p"
    using s(1) keepsD [OF run_tables, of run "load_sim_account d run" f bounds m turns] assms(2,3)
    by (simp add: paper_run_def at_db_def paper_tables_def)
  moreover have "sound_books (books x0) (io_ex (pf_io p))"
    using s(2) keepsD [OF paper_trader.run_trader_account, of "books x0" f bounds m turns] assms(2,3)
    by (simp add: paper_trader.at_trader_def at_venue_def)
  ultimately show ?thesis
    using rebuilt_books built_sound(4) [OF x0(1)] assms(4) by (fastforce simp: books_def)
qed

text \<open>A paper trader that finds an account stored for its run, long two units behind a stop.\<close>

definition sample_paper :: trader_args where
  "sample_paper = sample_shadow\<lparr>ta_mode := SimMode\<rparr>"

definition paper_db :: db where
  "paper_db = save_sim_account ''s1'' \<lparr>js_cash = 800, js_start_equity = Some 1000, js_n = 3,
     js_positions = [(6, \<lparr>sp_size = 2, sp_entry = 100, sp_funding = 0\<rparr>)], js_stops = [(6, 85)], js_marks = Some [(6, 101)]\<rparr> fee_db"

lemma paper_account_survives_trader_crash_witness:
  "\<exists>f y. start_paper sample_paper ''s1'' (Inr []) (Inr []) [] 0 sample_clock paper_db = Inr f \<and>
     build_sim (stored_db (tr_pf (fd_world (snd (run_trader sim_ops DEFAULT_BOUNDS Paper
       [FastLoop, ReconcileLoop, Pump (EvReconcileNow ''resync'')] f))))) ''s1'' 0 1000 sample_clock = Inr y"
proof -
  have "case start_paper sample_paper ''s1'' (Inr []) (Inr []) [] 0 sample_clock paper_db of Inr _ \<Rightarrow> True | Inl _ \<Rightarrow> False"
    by code_simp
  then obtain f where f: "start_paper sample_paper ''s1'' (Inr []) (Inr []) [] 0 sample_clock paper_db = Inr f"
    by (auto split: sum.splits)
  have "the_finite (py_decimal (ta_equity sample_paper)) = Inr 1000" by code_simp
  from paper_account_survives_trader_crash [OF f prod.collapse [symmetric] refl refl this] f show ?thesis by blast
qed

end
