(* ===== verification/Retention_Beside.thy ===== *)
theory Retention_Beside
  imports Retention
begin

text \<open>
  The retention run of \<open>scripts/prune.py\<close> beside the feed. Each batch of the delete loop is committed on its own, so
  between two batches the writers of the market data may add rows; the deletes of \<open>Retention\<close> are the case of a
  silent writer. What the writers add at the \<open>i\<close>-th commit is a parameter: any rows whose instant is not before the
  cutoff, which lies days back.
\<close>

section \<open>The loops\<close>

partial_function (option) delete_beside ::
  "(nat list \<Rightarrow> nat list) \<Rightarrow> int \<Rightarrow> ('r \<Rightarrow> bool) \<Rightarrow> (nat \<Rightarrow> 'r list) \<Rightarrow> nat \<Rightarrow> nat \<Rightarrow> 'r list \<Rightarrow> (nat \<times> nat \<times> 'r list) option" where
  "delete_beside pick batch cond w i n rows =
     (case delete_batch pick batch cond rows of (k, rest) \<Rightarrow>
        if k = 0 then Some (i, n, rest) else delete_beside pick batch cond w (Suc i) (n + k) (rest @ w i))"

fun prune_ids_beside ::
  "(nat list \<Rightarrow> nat list) \<Rightarrow> int \<Rightarrow> ('r \<Rightarrow> int) \<Rightarrow> ('r \<Rightarrow> time) \<Rightarrow> time \<Rightarrow> (nat \<Rightarrow> 'r list) \<Rightarrow> int list \<Rightarrow> nat \<Rightarrow> nat \<Rightarrow> 'r list
   \<Rightarrow> (nat \<times> nat \<times> 'r list) option" where
  "prune_ids_beside pick batch inst ts cutoff w [] i n rows = Some (i, n, rows)"
| "prune_ids_beside pick batch inst ts cutoff w (iid # iids) i n rows =
     (case delete_beside pick batch (\<lambda>r. inst r = iid \<and> ts r < cutoff) w i n rows of
        None \<Rightarrow> None
      | Some (j, n', rows') \<Rightarrow> prune_ids_beside pick batch inst ts cutoff w iids j n' rows')"

definition prune_table_beside ::
  "(nat list \<Rightarrow> nat list) \<Rightarrow> int \<Rightarrow> ('r \<Rightarrow> int) \<Rightarrow> ('r \<Rightarrow> time) \<Rightarrow> time \<Rightarrow> (nat \<Rightarrow> 'r list) \<Rightarrow> nat \<Rightarrow> 'r list
   \<Rightarrow> (nat \<times> nat \<times> 'r list) option" where
  "prune_table_beside pick batch inst ts cutoff w i rows =
     prune_ids_beside pick batch inst ts cutoff w (remdups (map inst rows)) i 0 rows"

section \<open>They end, and keep what was written meanwhile\<close>

definition written :: "(nat \<Rightarrow> 'r list) \<Rightarrow> nat \<Rightarrow> nat \<Rightarrow> 'r list" where
  "written w i j = concat (map w [i..<j])"

lemma written_simps: "written w i i = []" "i \<le> j \<Longrightarrow> j \<le> k \<Longrightarrow> written w i j @ written w j k = written w i k"
    "Suc i \<le> j \<Longrightarrow> w i @ written w (Suc i) j = written w i j"
proof -
  show "i \<le> j \<Longrightarrow> j \<le> k \<Longrightarrow> written w i j @ written w j k = written w i k"
    unfolding written_def by (metis concat_append le_Suc_ex map_append upt_add_eq_append)
  show "Suc i \<le> j \<Longrightarrow> w i @ written w (Suc i) j = written w i j"
    by (simp add: written_def upt_conv_Cons)
qed (simp add: written_def)

lemma filter_written: "(\<And>i. filter P (w i) = []) \<Longrightarrow> filter P (written w i j) = [] \<and> filter (\<lambda>r. \<not> P r) (written w i j) = written w i j"
proof -
  assume a: "\<And>i. filter P (w i) = []"
  have "\<not> P r" if "r \<in> set (written w i j)" for r
    using that a by (auto simp: written_def filter_empty_conv)
  then show ?thesis by (auto simp: filter_empty_conv filter_id_conv)
qed

lemma delete_beside_spec:
  assumes "lists_rows pick" "batch \<noteq> 0" "\<And>i. filter cond (w i) = []"
  shows "\<exists>j \<ge> i. delete_beside pick batch cond w i n rows =
    Some (j, n + length (filter cond rows), filter (\<lambda>r. \<not> cond r) rows @ written w i j)"
proof (induction "length (filter cond rows)" arbitrary: i n rows rule: less_induct)
  case less
  obtain k rest where b: "delete_batch pick batch cond rows = (k, rest)" by fastforce
  note spec = delete_batch_spec [OF assms(1) b]
  have count: "length (filter cond xs) + length (filter (\<lambda>r. \<not> cond r) xs) = length xs" for xs
    by (rule sum_length_filter_compl)
  have len: "length (filter cond rest) + k = length (filter cond rows)"
    using spec(1,2) count [of rows] count [of rest] by simp
  have new: "filter (\<lambda>r. \<not> cond r) (w i) = w i" using assms(3) [of i] by (simp add: filter_empty_conv filter_id_conv)
  show ?case
  proof (cases "k = 0")
    case True
    with spec(3) assms(2) have "filter (\<lambda>r. \<not> cond r) rest = rest" "filter cond rest = []"
      by (auto simp: filter_empty_conv filter_id_conv)
    with True spec(1) len show ?thesis
      by (intro exI [of _ i]) (subst delete_beside.simps, simp add: b written_simps)
  next
    case False
    then have "length (filter cond (rest @ w i)) < length (filter cond rows)" using len assms(3) by simp
    from less [OF this, of "Suc i" "n + k"] obtain j where "Suc i \<le> j" "delete_beside pick batch cond w (Suc i) (n + k) (rest @ w i) =
        Some (j, n + k + length (filter cond (rest @ w i)), filter (\<lambda>r. \<not> cond r) (rest @ w i) @ written w (Suc i) j)"
      by auto
    then show ?thesis
      using False spec(1) len assms(3) [of i] new
      by (intro exI [of _ j]) (subst delete_beside.simps, simp add: b written_simps)
  qed
qed

lemma prune_ids_beside_spec:
  assumes "lists_rows pick" "batch \<noteq> 0" "\<And>i. filter (\<lambda>r. ts r < cutoff) (w i) = []"
  shows "\<exists>j \<ge> i. prune_ids_beside pick batch inst ts cutoff w iids i n rows =
    Some (j, n + length (filter (\<lambda>r. inst r \<in> set iids \<and> ts r < cutoff) rows),
      filter (\<lambda>r. \<not> (inst r \<in> set iids \<and> ts r < cutoff)) rows @ written w i j)"
proof (induction iids arbitrary: i n rows)
  case (Cons iid iids)
  let ?one = "\<lambda>r. inst r = iid \<and> ts r < cutoff" and ?rest = "\<lambda>r. inst r \<in> set iids \<and> ts r < cutoff"
  have w: "filter ?one (w l) = []" "filter ?rest (w l) = []" for l
    using assms(3) [of l] by (auto simp: filter_empty_conv)
  obtain j where j: "i \<le> j" "delete_beside pick batch ?one w i n rows =
      Some (j, n + length (filter ?one rows), filter (\<lambda>r. \<not> ?one r) rows @ written w i j)"
    using delete_beside_spec [where w = w and cond = ?one and i = i and n = n and rows = rows, OF assms(1,2) w(1)] by blast
  obtain l where l: "j \<le> l" "prune_ids_beside pick batch inst ts cutoff w iids j (n + length (filter ?one rows))
      (filter (\<lambda>r. \<not> ?one r) rows @ written w i j) =
      Some (l, n + length (filter ?one rows) + length (filter ?rest (filter (\<lambda>r. \<not> ?one r) rows @ written w i j)),
        filter (\<lambda>r. \<not> ?rest r) (filter (\<lambda>r. \<not> ?one r) rows @ written w i j) @ written w j l)"
    using Cons.IH by blast
  have "length (filter ?one rows) + length (filter ?rest (filter (\<lambda>r. \<not> ?one r) rows)) =
      length (filter (\<lambda>r. inst r \<in> set (iid # iids) \<and> ts r < cutoff) rows)"
    by (induction rows) auto
  moreover have "filter (\<lambda>r. \<not> ?rest r) (filter (\<lambda>r. \<not> ?one r) rows) =
      filter (\<lambda>r. \<not> (inst r \<in> set (iid # iids) \<and> ts r < cutoff)) rows"
    by (induction rows) auto
  ultimately show ?case
    using j l filter_written [of ?rest w i j, OF w(2)] written_simps(2) [of i j l w]
    by (intro exI [of _ l]) (simp only: prune_ids_beside.simps option.case prod.case filter_append append_assoc append_Nil2 add.assoc, simp)
qed (auto simp: written_simps)

lemma prune_table_beside_spec:
  assumes "lists_rows pick" "batch \<noteq> 0" "\<And>i. filter (\<lambda>r. ts r < cutoff) (w i) = []"
  shows "\<exists>j \<ge> i. prune_table_beside pick batch inst ts cutoff w i rows =
    Some (j, length (filter (\<lambda>r. ts r < cutoff) rows), filter (\<lambda>r. cutoff \<le> ts r) rows @ written w i j)"
proof -
  have "filter (\<lambda>r. inst r \<in> set (remdups (map inst rows)) \<and> ts r < cutoff) rows = filter (\<lambda>r. ts r < cutoff) rows"
    "filter (\<lambda>r. \<not> (inst r \<in> set (remdups (map inst rows)) \<and> ts r < cutoff)) rows = filter (\<lambda>r. cutoff \<le> ts r) rows"
    by (auto simp: not_less intro!: filter_cong)
  then show ?thesis
    using prune_ids_beside_spec [OF assms, where inst = inst and iids = "remdups (map inst rows)" and i = i and n = 0 and rows = rows]
    by (simp add: prune_table_beside_def)
qed

section \<open>The run\<close>

text \<open>At its \<open>i\<close>-th commit the feed has added \<open>wt i\<close> to the ticks and \<open>wb i\<close> to the books.\<close>

definition prune_beside ::
  "(nat list \<Rightarrow> nat list) \<Rightarrow> time \<Rightarrow> int \<Rightarrow> (nat \<Rightarrow> tick list) \<Rightarrow> (nat \<Rightarrow> book_snapshot list) \<Rightarrow> db \<Rightarrow> ((string \<times> nat) list \<times> db) option" where
  "prune_beside pick cutoff batch wt wb d =
     (case prune_table_beside pick batch tk_instrument tk_exchange_ts cutoff wt 0 (db_ticks d) of
        None \<Rightarrow> None
      | Some (j, n, ticks) \<Rightarrow>
          (case prune_table_beside pick batch bs_instrument bs_exchange_ts cutoff wb j (db_books d @ written wb 0 j) of
             None \<Rightarrow> None
           | Some (l, m, books) \<Rightarrow>
               Some (zip TABLES [n, m], d\<lparr>db_ticks := ticks @ written wt j l, db_books := books\<rparr>)))"

definition retention_beside ::
  "(nat list \<Rightarrow> nat list) \<Rightarrow> time \<Rightarrow> int \<Rightarrow> (nat \<Rightarrow> tick list) \<Rightarrow> (nat \<Rightarrow> book_snapshot list) \<Rightarrow> db
   \<Rightarrow> ((nat \<times> (string \<times> nat) list) res \<times> db) option" where
  "retention_beside pick now n wt wb d =
     (case rollup_hours now d of
        (Inl e, d') \<Rightarrow> Some (Inl e, d')
      | (Inr rolled, d') \<Rightarrow>
          map_option (\<lambda>(deleted, d''). (Inr (rolled, deleted), d'')) (prune_beside pick (now - days n) 5000 wt wb d'))"

text \<open>The database that was never pruned, with what the feed added.\<close>

definition grown_by :: "(nat \<Rightarrow> tick list) \<Rightarrow> (nat \<Rightarrow> book_snapshot list) \<Rightarrow> nat \<Rightarrow> db \<Rightarrow> db" where
  "grown_by wt wb l d = d\<lparr>db_ticks := db_ticks d @ written wt 0 l, db_books := db_books d @ written wb 0 l\<rparr>"

lemma prune_beside_spec:
  assumes "lists_rows pick" "batch \<noteq> 0" "\<And>i. filter (\<lambda>t. tk_exchange_ts t < cutoff) (wt i) = []"
    and "\<And>i. filter (\<lambda>b. bs_exchange_ts b < cutoff) (wb i) = []"
  shows "\<exists>l. prune_beside pick cutoff batch wt wb d =
    Some ([(''ticks'', length (filter (\<lambda>t. tk_exchange_ts t < cutoff) (db_ticks d))),
           (''book_snapshots'', length (filter (\<lambda>b. bs_exchange_ts b < cutoff) (db_books d)))],
      pruned cutoff (grown_by wt wb l d))"
proof -
  obtain j where j: "prune_table_beside pick batch tk_instrument tk_exchange_ts cutoff wt 0 (db_ticks d) =
      Some (j, length (filter (\<lambda>r. tk_exchange_ts r < cutoff) (db_ticks d)),
        filter (\<lambda>r. cutoff \<le> tk_exchange_ts r) (db_ticks d) @ written wt 0 j)"
    using prune_table_beside_spec [where w = wt and i = 0, OF assms(1,2,3)] by blast
  obtain l where l: "j \<le> l" "prune_table_beside pick batch bs_instrument bs_exchange_ts cutoff wb j (db_books d @ written wb 0 j) =
      Some (l, length (filter (\<lambda>r. bs_exchange_ts r < cutoff) (db_books d @ written wb 0 j)),
        filter (\<lambda>r. cutoff \<le> bs_exchange_ts r) (db_books d @ written wb 0 j) @ written wb j l)"
    using prune_table_beside_spec [where w = wb and i = j, OF assms(1,2,4)] by blast
  note w = filter_written [of "\<lambda>t. tk_exchange_ts t < cutoff" wt, OF assms(3)] filter_written [of "\<lambda>b. bs_exchange_ts b < cutoff" wb, OF assms(4)]
  show ?thesis
    using w written_simps(2) [of 0 j l wt] written_simps(2) [of 0 j l wb] l(1)
    by (intro exI [of _ l]) (simp add: prune_beside_def j l TABLES_def pruned_def grown_by_def not_less)
qed

text \<open>A feed that writes nothing: the run of \<open>Retention\<close>.\<close>

theorem retention_beside_a_silent_feed:
  assumes "lists_rows pick"
  shows "retention_beside pick now n (\<lambda>_. []) (\<lambda>_. []) d = retention_run pick now n d"
proof -
  have "prune_beside pick cutoff 5000 (\<lambda>_. []) (\<lambda>_. []) d = prune pick cutoff 5000 d" for cutoff d
    using prune_beside_spec [where wt = "\<lambda>_. []" and wb = "\<lambda>_. []" and batch = 5000 and d = d and cutoff = cutoff, OF assms]
    by (auto simp: prune_spec [OF assms] grown_by_def written_def pruned_def)
  then show ?thesis by (simp add: retention_beside_def retention_run_def split: prod.split sum.split)
qed

lemma newest_native_cong':
  assumes "\<And>t. t \<in> set (db_ticks d) \<Longrightarrow> tk_instrument t = iid \<Longrightarrow> native_source (tk_source t) \<Longrightarrow>
    between lo hi (tk_exchange_ts t) \<Longrightarrow> cutoff \<le> tk_exchange_ts t"
  shows "newest_native (pruned cutoff d) iid lo hi = newest_native d iid lo hi"
proof -
  have "filter (\<lambda>t. cutoff \<le> tk_exchange_ts t \<and> tk_instrument t = iid \<and> between lo hi (tk_exchange_ts t) \<and> native_source (tk_source t)) (db_ticks d)
      = filter (\<lambda>t. tk_instrument t = iid \<and> between lo hi (tk_exchange_ts t) \<and> native_source (tk_source t)) (db_ticks d)"
    using assms by (intro filter_cong) auto
  then show ?thesis by (simp add: newest_native_def pruned_def)
qed

text \<open>
  Beside a feed that adds rows of the retained days between any two batches, the run still ends, deletes exactly the old
  rows it found and keeps every row that was added; and every whole hour reads what it would read in the database that
  had been rolled up and never pruned.
\<close>

theorem retention_beside_the_feed:
  assumes "lists_rows pick" "1 \<le> n" "rolled_up d" "rollup_hours now d = (Inr k, d1)"
    and "\<And>i t. t \<in> set (wt i) \<Longrightarrow> now - days n \<le> tk_exchange_ts t" "\<And>i b. b \<in> set (wb i) \<Longrightarrow> now - days n \<le> bs_exchange_ts b"
  obtains l deleted d' where "retention_beside pick now n wt wb d = Some (Inr (k, deleted), d')"
    and "db_ticks d' = filter (\<lambda>t. now - days n \<le> tk_exchange_ts t) (db_ticks d) @ written wt 0 l"
    and "db_books d' = filter (\<lambda>b. now - days n \<le> bs_exchange_ts b) (db_books d) @ written wb 0 l"
    and "\<And>iid h start e. HOUR dvd h \<Longrightarrow> start \<le> h \<Longrightarrow> h + HOUR - MICRO \<le> e \<Longrightarrow>
      map_of (query_last_index_by_hour d' iid start e) h = map_of (query_last_index_by_hour (grown_by wt wb l d1) iid start e) h"
proof -
  let ?cut = "now - days n"
  have w: "filter (\<lambda>t. tk_exchange_ts t < ?cut) (wt i) = []" "filter (\<lambda>b. bs_exchange_ts b < ?cut) (wb i) = []" for i
    using assms(5,6) by (force simp: filter_empty_conv)+
  obtain l where l: "prune_beside pick ?cut 5000 wt wb d1 =
      Some ([(''ticks'', length (filter (\<lambda>t. tk_exchange_ts t < ?cut) (db_ticks d1))),
           (''book_snapshots'', length (filter (\<lambda>b. bs_exchange_ts b < ?cut) (db_books d1)))],
        pruned ?cut (grown_by wt wb l d1))"
    using prune_beside_spec [where wt = wt and wb = wb and batch = 5000 and d = d1, OF assms(1) _ w] by auto
  have same: "db_ticks d1 = db_ticks d" "db_books d1 = db_books d"
    using assms(4) by (auto simp: rollup_hours_def Let_def split: sum.splits)
  have cut: "?cut \<le> now - HOUR - ROLLUP_GRACE"
    using assms(2) by (simp add: days_def HOUR_def hours_def ROLLUP_GRACE_def minutes_def)
  have keep: "filter (\<lambda>t. ?cut \<le> tk_exchange_ts t) (written wt 0 l) = written wt 0 l"
      "filter (\<lambda>b. ?cut \<le> bs_exchange_ts b) (written wb 0 l) = written wb 0 l"
    using assms(5,6) by (auto simp: written_def filter_id_conv)
  have rollup: "db_rollup (pruned ?cut (grown_by wt wb l d1)) = db_rollup d1" "db_rollup (grown_by wt wb l d1) = db_rollup d1"
    by (simp_all add: pruned_def grown_by_def)
  have read: "map_of (query_last_index_by_hour (pruned ?cut (grown_by wt wb l d1)) iid start e) h =
      map_of (query_last_index_by_hour (grown_by wt wb l d1) iid start e) h"
    if h: "HOUR dvd h" "start \<le> h" "h + HOUR - MICRO \<le> e" for iid h start e
  proof (cases "rollup_at hr_index iid h (db_rollup d1)")
    case None
    note after = rollup_at_after [OF assms(4) rolled_up_aligned [OF assms(3)], of iid h]
    have "?cut \<le> tk_exchange_ts t"
      if t: "t \<in> set (db_ticks d)" "tk_instrument t = iid" "native_source (tk_source t)" "between h (h + HOUR - MICRO) (tk_exchange_ts t)" for t
    proof (rule ccontr)
      assume "\<not> ?cut \<le> tk_exchange_ts t"
      then have "h < ?cut" using t(4) by (simp add: between_def)
      moreover have "newest_native d iid h (h + HOUR - MICRO) \<noteq> None" using t by (auto simp: newest_native_None)
      ultimately have "h < rollup_start d iid" "rollup_at hr_index iid h (db_rollup d) = None"
        using None after cut h(1) by (auto simp: due_def split: option.splits if_splits)
      then show False using assms(3) t(1-3) in_hour [OF t(4) h(1)] by (auto simp: rolled_up_def)
    qed
    then have "newest_native (pruned ?cut (grown_by wt wb l d1)) iid h (h + HOUR - MICRO) = newest_native (grown_by wt wb l d1) iid h (h + HOUR - MICRO)"
      using assms(5) by (intro newest_native_cong') (auto simp: grown_by_def same written_def)
    then show ?thesis by (simp add: index_of_hour [OF h] rollup None)
  qed (simp add: index_of_hour [OF h] rollup)
  show thesis
    by (rule that [of _ "pruned ?cut (grown_by wt wb l d1)" l, OF _ _ _ read])
      (simp_all add: retention_beside_def assms(4) l pruned_def grown_by_def same keep)
qed

end
