(* ===== verification/Spec2Isabelle.thy ===== *)
theory Spec2Isabelle
  imports Row_Text Router_Machine Entry_Caps Strategy_Frame Prune_Run Venue_Props Strategy_Laws Feed_Laws Experiment_Laws Account_Frame Trader_Laws Retention Dashboard_Laws Health_Laws Proxy_Laws Feed_Process Dashboard_Run
    Smoke Reports Trader_Start Trader_Restart Restart Retention_Beside
begin

text \<open>
  perpbot trades perpetual futures on one venue. A data side polls and streams market data into SQLite and prunes it; a
  research side backtests six pre-registered strategies on the stored data and writes evidence records; a trading
  side runs one strategy per instrument behind risk guards, over a paper account, a read-only view of the real account
  (shadow) or the real account. This development models the three sides from the Python sources under
  \<open>src/polyperps\<close> and \<open>src/scripts\<close> and proves what makes them correct. Paths below are relative to
  \<open>src/polyperps\<close> unless they start with \<open>scripts\<close>.

  \<^bold>\<open>Conventions\<close> (\<open>Prelude\<close>, \<open>Decimal_Arith\<close>, \<open>Float_Stats\<close>). A function that may raise returns
  \<open>exn + 'a\<close>; a method over object state is an \<open>('w, 'a) eff\<close>, which keeps the state an exception leaves behind.
  Decimals are rationals rounded to 28 digits after every operation, as the default context does (no exponent limit,
  no signals but division by zero); binary floats are rationals rounded to 53 bits after every operation (no infinity,
  no NaN). Times are integers, microseconds in UTC, without the range of \<open>datetime\<close>. A dict is an association list in
  insertion order, or a map where the order cannot be seen. Messages are lists of pieces, so that numbers are not
  rendered; client order ids, which are parsed again, are strings. Clocks, the SDK session, the HTTP client, systemd,
  the file system and random numbers are parameters. An asyncio program is the sequence of the steps it runs between
  two awaits that give up its lock.

  \<^bold>\<open>Types and storage\<close>. \<open>Exec_Types\<close>: \<open>execution/types.py\<close>, \<open>exchange/types.py\<close>. \<open>Store\<close>: the execution tables
  of \<open>storage/db.py\<close>, one list of typed rows per table, with its two upsert shapes. \<open>Market_Store\<close>: the market-data
  tables, range queries, per-hour reductions and the hourly rollup. \<open>Iso_Time\<close>: an instant as the database stores it;
  C30 says why the other theories may compare instants where the engine compares texts. \<open>Decimal_Text\<close>: the text of a
  decimal and its value. \<open>Row_Text\<close>: the rows of orders, positions and accounts as cells; C10 is the refinement of the
  typed tables by them. \<open>Retention\<close>: the run of \<open>scripts/prune.py\<close>; the delete loop
  is a \<open>partial_function\<close> whose end is proved (C40), as is that what an hour reads survives the deletion.
  \<open>Retention_Beside\<close>: the same beside a feed that writes between two batches. \<open>Prune_Run\<close>: its
  process, which holds the database file complete wherever the rewrite of the file fails.

  \<^bold>\<open>Risk\<close>. \<open>Risk_Guard\<close> (\<open>risk/liquidation_guard.py\<close>, C1 to C4 and C27), \<open>Exposure\<close> (\<open>risk/portfolio_exposure.py\<close>),
  \<open>Kill_Switch\<close> (\<open>risk/kill_switch.py\<close>, C7; its actions are a linear order), \<open>Alerting\<close> (\<open>monitor/alerts.py\<close>): pure functions, each on
  every branch, with the bounds they enforce.

  \<^bold>\<open>The router and the portfolio\<close> (\<open>execution/order_router.py\<close>). \<open>Router\<close> and \<open>Router_Step\<close>: the state machine of
  one instrument, method by method, over the record \<open>renv\<close> (router, strategy, and the connection, executor, alerter
  and clock it shares); \<open>Portfolio\<close>: all routers behind one lock. \<open>Executor\<close>: the protocol of
  \<open>execution/executor.py\<close> as a record of operations, and the locale \<open>executor_laws\<close> of what its clients rely on.
  \<open>Reconcile\<close>: \<open>execution/reconciliation.py\<close>. \<open>Recovery\<close>: \<open>execution/state_recovery.py\<close>. Laws, for an arbitrary
  executor unless said: \<open>Router_Machine\<close> C5 (every call is a move of the abstract machine of the six states), \<open>Entry_Caps\<close> C6 (the entries
  that wait for the venue after a bar are all within both caps together), \<open>Router_Laws\<close> (frozen until an
  operator clears), \<open>Router_Send\<close> C11 to C13 (the four ends of a send, rows before side effects, one retry at most),
  \<open>Router_Sync\<close> C14 and C15 (the stored row follows the router; the gates of a bar), \<open>Portfolio_Laws\<close> C17,
  \<open>Venue_Laws\<close>, \<open>Recovery_Laws\<close> and \<open>Venue_Props\<close> C18 to C20 (after a reconciliation or a recovery every venue position
  stands under a venue stop; C18 and C19 are proved of the paper executor only: the shadow refuses to place a stop, and the
  live executor may be told that a stop was placed without learning its id). Two locales carry what the rows on disk say:
  \<open>router_frame\<close> in \<open>Row_Frame\<close> (what the writes of a router's own row keep, every call of a router keeps) and
  \<open>portfolio_frame\<close> in \<open>Portfolio_Frame\<close> (the same for the portfolio's calls). \<open>Restart\<close> composes them with the
  recovery over any number of processes of a run: C16, a halt survives restarts. A process dies between two calls or in
  a recovery that raises; one that is killed inside a send is the exception the findings name.

  \<^bold>\<open>Executors\<close>. \<open>Sim_Exec\<close>: \<open>execution/sim_executor.py\<close>. \<open>Live_Exec\<close>: \<open>execution/live_executor.py\<close> over a record of
  the operations of the SDK session: the reader \<open>'x reader\<close>, which is all of the shadow's state, and the live executor
  \<open>'x live\<close>, which extends it by a gate and a dead man's switch. \<open>Account_Frame\<close>: the locale
  \<open>account_frame\<close> (whatever every operation of an executor keeps, every call of the portfolio and every recovery keep),
  interpreted on the paper account, the shadow and the live executor behind a closed lock (C38).

  \<^bold>\<open>The trader\<close>. \<open>Feed\<close>: the tick filter, the market feed and the live bars (\<open>data_ingest/filters.py\<close>,
  \<open>market_feed.py\<close>, \<open>execution/live_bars.py\<close>); \<open>Feed_Laws\<close> C28 and C29 against a reference of a clean stream and of
  hourly candles. \<open>Trader\<close>: \<open>scripts/run_trader.py\<close>, the start-up checks and the iterations of its five loops over one
  state. \<open>Trader_Start\<close>: from the command line over \<open>build_executor\<close>, the routers and the recovery to the
  loops; a start on the real account returns the executor with its loss-limit baseline or ends, and the only one that
  returns is the shadow (C39). \<open>Trader_Laws\<close>: the locale \<open>trader_frame\<close>, which extends \<open>account_frame\<close> to the loops, and
  the shadow's run from its baseline on, heartbeats included, which only reads (C37). \<open>Account_Tables\<close>: the locale
  \<open>table_frame\<close> for the tables that say whose run it is; no call of the paper trader moves them. \<open>Trader_Restart\<close>:
  the paper trader from a start over any iterations to a crash, \<open>stored_db\<close> (what \<open>persist\<close> wrote) and the next start:
  the account is the same (C36).

  \<^bold>\<open>Research\<close>. \<open>Bar_Types\<close>, \<open>Bars\<close> (\<open>backtest/bars.py\<close>, \<open>costs.py\<close>), \<open>Backtest\<close> (\<open>backtest/harness.py\<close>),
  \<open>Strategies\<close> (\<open>strategies/\<close>), \<open>Stats\<close> (\<open>backtest/stats.py\<close>), \<open>Evidence\<close> (\<open>signal/\<close>, \<open>gates.py\<close>), \<open>Experiment\<close>
  (\<open>scripts/run_backtest.py\<close>). Laws: \<open>Backtest_Laws\<close> C21 to C23 (bounded, never flipped, flat over a gap, no look-ahead),
  \<open>Strategy_Laws\<close> C25 (holding times), \<open>Strategy_Frame\<close> C24 (the locale \<open>strategy_frame\<close>: what the operations of a
  strategy keep, the router and the harness keep; interpreted on the six hypotheses), \<open>Evidence_Laws\<close> C31 and C32 (what
  an open gate says about the committed files), \<open>Experiment_Laws\<close> C33 and C35 (the statistics against their references;
  the gate accepts exactly the runs that passed).

  \<^bold>\<open>Data in\<close>. \<open>Intake\<close>: intervals, gap check, token bucket, the adapter over the SDK's client and the backfill
  (\<open>data_ingest/intervals.py\<close>, \<open>storage/gaps.py\<close>, \<open>exchange/rate_limiter.py\<close>, \<open>exchange/client.py\<close>,
  \<open>scripts/backfill.py\<close>). \<open>Intake_Laws\<close>: every silence longer than the tolerance is reported, the windows of a backfill
  cover its range, retries are bounded and never lose a row.

  \<open>Proxy\<close>: the HTTP reader of the proxy venue and its backfill (\<open>data_ingest/hyperliquid.py\<close>,
  \<open>scripts/backfill_hyperliquid.py\<close>), the answers of the server a parameter; \<open>Proxy_Laws\<close>: C26, bounded retries, exact
  milliseconds. \<open>Feed_Process\<close>: \<open>scripts/run_feed.py\<close>, its tasks as iterations over one state; each write
  of its database may be refused, as SQLite does when another process holds the lock; C34.

  \<^bold>\<open>Settings and operations\<close>. \<open>Numerals\<close>: what \<open>int\<close>, \<open>float\<close>, \<open>Decimal\<close>, \<open>split\<close> and \<open>strip\<close> make of a text.
  \<open>Settings\<close>: \<open>config.py\<close>, \<open>security/key_management.py\<close> (which source a secret comes from; no secret is shown).
  \<open>Dashboard\<close>: \<open>monitor/decision_trail.py\<close> and \<open>dashboard/state.py\<close>, functions of the database; \<open>Dashboard_Laws\<close> C8 (the
  gap counter in SQL against \<open>find_gaps\<close>). \<open>Server\<close>: \<open>dashboard/server.py\<close>, a function from requests to answers; \<open>Dashboard_Run\<close>: its process, with the
  hourly refreshes of the instrument names.
  \<open>Health\<close>: \<open>scripts/healthcheck.py\<close> over an abstract machine; \<open>Health_Laws\<close> C9 (a problem is told once, and no check
  fails in silence). \<open>Smoke\<close>:
  \<open>scripts/live_smoke.py\<close>, \<open>scripts/check_auth.py\<close>. \<open>Reports\<close>: fees, sufficiency and the gap report.

  \<^bold>\<open>Recursion\<close>. Loops over data are structural or carry a measure. The delete loop of the retention run, whose end
  depends on what a database engine does, is partial and proved to return. The one loop with fuel is the wait of
  \<open>Smoke\<close> for a clock to pass a deadline: the lemma \<open>watch_ends\<close> says how much fuel is enough for a clock that advances.

  \<^bold>\<open>Not modelled\<close>. SQL text, JSON text, connections, logging, argparse and printing (rows, values and results are typed
  instead); wallet login (\<open>open_session\<close>); the parsing of HTTP dates; sockets and threads of the dashboard server, signal
  handlers and the closing of connections. These are calls of libraries without a decision of the program in them.
  Real concurrency: two tasks never run inside one step, which the portfolio's lock ensures for the routers and a single
  event loop for the rest.

  Database errors are modelled where a claim rests on them (the feed process, the trader's alert sinks); elsewhere a write
  succeeds.

  \<^bold>\<open>Plan\<close>. The program's decisions are modelled. What is left is depth: a process that dies inside a call, between
  two writes of the database, and a refused write in the trader.
\<close>

end
